(* ===== verification/Prelude.thy ===== *)
theory Prelude
  imports Main "HOL-Library.AList" "HOL-Library.Multiset" "HOL-Library.Code_Target_Nat"
begin

text \<open>
  Shared vocabulary of the development: results of fallible Go functions, Go maps as
  association lists with distinct keys, wrap-around counters, points in time, and the
  collections of facts the component proofs draw on.
\<close>

named_theorems result_simps \<open>how a successful or failed computation decomposes\<close>
named_theorems gomap_simps \<open>lookup, update and deletion of Go maps\<close>

section \<open>Results\<close>

text \<open>
  A Go function returning \<open>(T, error)\<close> is a function into \<open>'e + 'a\<close>: \<open>Inl\<close> carries the
  error, \<open>Inr\<close> the value.  \<open>bindE\<close> is the sequence "return early on error", \<open>require\<close> the
  guard that returns its error when the condition fails.
\<close>

definition bindE :: "'e + 'a \<Rightarrow> ('a \<Rightarrow> 'e + 'b) \<Rightarrow> 'e + 'b" where
  "bindE x f = (case x of Inl e \<Rightarrow> Inl e | Inr v \<Rightarrow> f v)"

definition require :: "bool \<Rightarrow> 'e \<Rightarrow> 'e + 'b \<Rightarrow> 'e + 'b" where
  "require b e k = (if b then k else Inl e)"

definition of_option :: "'e \<Rightarrow> 'a option \<Rightarrow> 'e + 'a" where
  "of_option e x = (case x of None \<Rightarrow> Inl e | Some v \<Rightarrow> Inr v)"

lemma bindE_Inl [simp]: "bindE (Inl e) f = Inl e"
  by (simp add: bindE_def)

lemma bindE_Inr [simp]: "bindE (Inr v) f = f v"
  by (simp add: bindE_def)

lemma bindE_eq_Inr [result_simps]: "bindE x f = Inr y \<longleftrightarrow> (\<exists>v. x = Inr v \<and> f v = Inr y)"
  by (cases x) auto

lemma bindE_eq_Inl [result_simps]:
  "bindE x f = Inl e \<longleftrightarrow> x = Inl e \<or> (\<exists>v. x = Inr v \<and> f v = Inl e)"
  by (cases x) auto

lemma require_True [simp]: "require True e k = k"
  by (simp add: require_def)

lemma require_False [simp]: "require False e k = Inl e"
  by (simp add: require_def)

lemma require_eq_Inr [result_simps]: "require b e k = Inr y \<longleftrightarrow> b \<and> k = Inr y"
  by (simp add: require_def)

lemma require_eq_Inl [result_simps]:
  "require b e k = Inl x \<longleftrightarrow> (\<not> b \<and> x = e) \<or> (b \<and> k = Inl x)"
  by (auto simp: require_def)

lemma of_option_Some [simp]: "of_option e (Some v) = Inr v"
  by (simp add: of_option_def)

lemma of_option_None [simp]: "of_option e None = Inl e"
  by (simp add: of_option_def)

lemma of_option_eq_Inr [result_simps]: "of_option e x = Inr y \<longleftrightarrow> x = Some y"
  by (cases x) auto

lemma of_option_eq_Inl [result_simps]: "of_option e x = Inl y \<longleftrightarrow> x = None \<and> y = e"
  by (cases x) auto

section \<open>Go maps\<close>

text \<open>
  A Go map is an association list whose keys are distinct; the list order stands for one
  iteration order of \<open>range\<close>.  Lookup is \<^const>\<open>map_of\<close>, assignment is \<^const>\<open>AList.update\<close>,
  \<open>delete\<close> is \<^const>\<open>AList.delete\<close>.
\<close>

type_synonym ('k, 'v) gomap = "('k \<times> 'v) list"

abbreviation gm_get :: "('k, 'v) gomap \<Rightarrow> 'k \<Rightarrow> 'v option" where
  "gm_get m k \<equiv> map_of m k"

abbreviation gm_put :: "('k, 'v) gomap \<Rightarrow> 'k \<Rightarrow> 'v \<Rightarrow> ('k, 'v) gomap" where
  "gm_put m k v \<equiv> AList.update k v m"

abbreviation gm_del :: "('k, 'v) gomap \<Rightarrow> 'k \<Rightarrow> ('k, 'v) gomap" where
  "gm_del m k \<equiv> AList.delete k m"

definition gm_wf :: "('k, 'v) gomap \<Rightarrow> bool" where
  "gm_wf m \<longleftrightarrow> distinct (map fst m)"

text \<open>\<open>m[k]\<close> on a map of booleans: the zero value \<open>false\<close> when the key is absent.\<close>

definition gm_flag :: "('k, bool) gomap \<Rightarrow> 'k \<Rightarrow> bool" where
  "gm_flag m k \<longleftrightarrow> gm_get m k = Some True"

lemma gm_get_put [simp, gomap_simps]:
  "gm_get (gm_put m k v) k' = (if k' = k then Some v else gm_get m k')"
  by (simp add: update_conv')

lemma gm_get_del [simp, gomap_simps]:
  "gm_get (gm_del m k) k' = (if k' = k then None else gm_get m k')"
  by (simp add: delete_conv')

lemma gm_flag_put [simp, gomap_simps]:
  "gm_flag (gm_put m k b) k' = (if k' = k then b else gm_flag m k')"
  by (simp add: gm_flag_def)

lemma gm_wf_Nil [simp]: "gm_wf []"
  by (simp add: gm_wf_def)

lemma gm_wf_put [simp, intro]: "gm_wf m \<Longrightarrow> gm_wf (gm_put m k v)"
  by (simp add: gm_wf_def distinct_update)

lemma gm_wf_del [simp, intro]: "gm_wf m \<Longrightarrow> gm_wf (gm_del m k)"
  by (simp add: gm_wf_def distinct_delete)

lemma gm_wf_filter [simp, intro]: "gm_wf m \<Longrightarrow> gm_wf (filter P m)"
  by (simp add: gm_wf_def distinct_map_filter)

lemma gm_get_in_set: "gm_wf m \<Longrightarrow> (k, v) \<in> set m \<longleftrightarrow> gm_get m k = Some v"
  by (simp add: gm_wf_def)

lemma gm_set_put:
  "gm_wf m \<Longrightarrow> set (gm_put m k v) = insert (k, v) {(k', v') \<in> set m. k' \<noteq> k}"
  using gm_get_in_set [of "gm_put m k v"] gm_get_in_set [of m]
  by (auto simp: set_eq_iff split: if_splits)

lemma gm_get_filter_key:
  "gm_get (filter (\<lambda>(k, v). P k) m) k = (if P k then gm_get m k else None)"
  by (induction m) auto

lemma gm_put_fresh: "gm_get m k = None \<Longrightarrow> gm_put m k v = m @ [(k, v)]"
  by (induction m) (auto split: if_splits)

lemma gm_put_keys: "gm_get m k \<noteq> None \<Longrightarrow> map fst (gm_put m k v) = map fst m"
  by (induction m) (auto split: if_splits)

lemma gm_map_put:
  assumes "gm_wf m" and "gm_get m k = Some v0" and "f (k, v) = f (k, v0)"
  shows "map f (gm_put m k v) = map f m"
  using assms
proof (induction m)
  case (Cons p m)
  obtain a b where p: "p = (a, b)" by (cases p)
  have "gm_wf m" and "a = k \<Longrightarrow> gm_get m k = None"
    using Cons.prems(1) p by (auto simp: gm_wf_def map_of_eq_None_iff)
  then show ?case using Cons p by (auto split: if_splits)
qed simp

lemma gm_put_same: "gm_get m k = Some v \<Longrightarrow> gm_put m k v = m"
  by (induction m) (auto split: if_splits)

lemma gm_distinct: "gm_wf m \<Longrightarrow> distinct m"
  by (auto simp: gm_wf_def distinct_map)

lemma gm_distinct_map:
  assumes "gm_wf m" and "\<And>k v k' v'. (k, v) \<in> set m \<Longrightarrow> (k', v') \<in> set m \<Longrightarrow> f v = f v' \<Longrightarrow> k = k'"
  shows "distinct (map (\<lambda>p. f (snd p)) m)"
proof -
  have "inj_on (\<lambda>p. f (snd p)) (set m)"
  proof (rule inj_onI)
    fix x y assume xy: "x \<in> set m" "y \<in> set m" "f (snd x) = f (snd y)"
    then have "fst x = fst y" using assms(2) [of "fst x" "snd x" "fst y" "snd y"] by simp
    then show "x = y"
      using assms(1) xy by (metis eq_key_imp_eq_value gm_wf_def prod.collapse)
  qed
  then show ?thesis using gm_distinct [OF assms(1)] by (simp add: distinct_map)
qed

section \<open>Counters and time\<close>

text \<open>
  \<open>uint64\<close> counters are natural numbers below \<open>2 ^ 64\<close> with the wrap-around of \<open>++\<close> written
  out.  A \<open>time.Time\<close> is a natural number; \<open>0\<close> is the zero time (\<open>IsZero\<close>) and \<open>Before\<close> is \<open><\<close>.
\<close>

type_synonym uint64 = nat
type_synonym time = nat

definition uint64_inc :: "uint64 \<Rightarrow> uint64" where
  "uint64_inc n = (n + 1) mod 2 ^ 64"

lemma uint64_inc_no_wrap: "n + 1 < 2 ^ 64 \<Longrightarrow> uint64_inc n = n + 1"
  by (simp add: uint64_inc_def)

lemma uint64_inc_wraps: "uint64_inc (2 ^ 64 - 1) = 0"
  by (simp add: uint64_inc_def)

section \<open>Sorting by a key\<close>

text \<open>\<open>sort.Slice\<close> by a key that the listed elements do not share is \<^const>\<open>sort_key\<close>.\<close>

lemma strict_sorted_sort_key:
  assumes "distinct (map f xs)"
  shows "sorted_wrt (\<lambda>a b. f a < f b) (sort_key f xs)"
proof -
  have "mset (map f (sort_key f xs)) = mset (map f xs)"
    by simp
  then have "distinct (map f (sort_key f xs))"
    using assms by (metis mset_eq_imp_distinct_iff)
  then have "sorted_wrt (<) (map f (sort_key f xs))"
    by (simp add: strict_sorted_iff)
  then show ?thesis
    by (simp add: sorted_wrt_map)
qed

end
