(* ===== verification/GoText.thy ===== *)
theory GoText
  imports Prelude "HOL-Library.Sublist" "HOL-Library.Char_ord" "HOL-Library.List_Lexorder"
begin

text \<open>
  The parts of Go's \<open>strings\<close>, \<open>unicode/utf8\<close> and \<open>path\<close> packages the runtime uses.  A Go
  string is a list of bytes, \<^typ>\<open>string\<close>; comparison is bytewise lexicographic.
\<close>

section \<open>Bytes\<close>

definition byte :: "char \<Rightarrow> nat" where
  "byte c = of_char c"

definition in_range :: "nat \<times> nat \<Rightarrow> char \<Rightarrow> bool" where
  "in_range r c \<longleftrightarrow> fst r \<le> byte c \<and> byte c \<le> snd r"

text \<open>Printable ASCII bytes other than the space.\<close>

definition graphic :: "char \<Rightarrow> bool" where
  "graphic c \<longleftrightarrow> in_range (0x21, 0x7E) c"

definition has_nul :: "string \<Rightarrow> bool" where
  "has_nul s \<longleftrightarrow> CHR 0x00 \<in> set s"

section \<open>\<open>utf8.ValidString\<close>\<close>

text \<open>
  The decoder as an automaton: the state is the list of ranges the next continuation bytes
  must fall in, and \<open>utf8_lead\<close> is the table of lead bytes with the narrowed first
  continuation ranges that exclude overlong forms, surrogates and values above U+10FFFF.
\<close>

definition utf8_lead :: "char \<Rightarrow> (nat \<times> nat) list option" where
  "utf8_lead c =
     (let b = byte c; cont = (0x80, 0xBF) in
      if b < 0x80 then Some []
      else if b < 0xC2 then None
      else if b < 0xE0 then Some [cont]
      else if b = 0xE0 then Some [(0xA0, 0xBF), cont]
      else if b = 0xED then Some [(0x80, 0x9F), cont]
      else if b < 0xF0 then Some [cont, cont]
      else if b = 0xF0 then Some [(0x90, 0xBF), cont, cont]
      else if b < 0xF4 then Some [cont, cont, cont]
      else if b = 0xF4 then Some [(0x80, 0x8F), cont, cont]
      else None)"

fun utf8_run :: "(nat \<times> nat) list \<Rightarrow> string \<Rightarrow> bool" where
  "utf8_run [] [] = True"
| "utf8_run (r # rs) [] = False"
| "utf8_run [] (c # cs) = (case utf8_lead c of None \<Rightarrow> False | Some rs \<Rightarrow> utf8_run rs cs)"
| "utf8_run (r # rs) (c # cs) = (in_range r c \<and> utf8_run rs cs)"

definition ValidString :: "string \<Rightarrow> bool" where
  "ValidString s = utf8_run [] s"

lemma utf8_run_append: "utf8_run rs xs \<Longrightarrow> utf8_run rs (xs @ ys) = utf8_run [] ys"
  by (induction rs xs rule: utf8_run.induct) (auto split: option.splits)

lemma ValidString_Nil [simp]: "ValidString []"
  by (simp add: ValidString_def)

lemma ValidString_append: "ValidString xs \<Longrightarrow> ValidString (xs @ ys) = ValidString ys"
  by (simp add: ValidString_def utf8_run_append)

lemma ValidString_graphic: "list_all graphic s \<Longrightarrow> ValidString s"
  by (induction s) (auto simp: ValidString_def graphic_def in_range_def utf8_lead_def Let_def)

section \<open>\<open>strings.TrimSpace\<close>\<close>

text \<open>
  The UTF-8 encodings of the runes \<open>unicode.IsSpace\<close> accepts.  Trimming decodes runes from
  either end; a rune is a space exactly when its encoding is one of these byte sequences
  (no byte sequence decodes to a space in two ways, and none of them starts with a
  continuation byte, so removing one never changes how its neighbour decodes).
\<close>

definition space_encodings :: "string list" where
  "space_encodings =
     [[CHR 0x09], [CHR 0x0A], [CHR 0x0B], [CHR 0x0C], [CHR 0x0D], [CHR 0x20],
      [CHR 0xC2, CHR 0x85], [CHR 0xC2, CHR 0xA0], [CHR 0xE1, CHR 0x9A, CHR 0x80],
      [CHR 0xE2, CHR 0x80, CHR 0x80], [CHR 0xE2, CHR 0x80, CHR 0x81],
      [CHR 0xE2, CHR 0x80, CHR 0x82], [CHR 0xE2, CHR 0x80, CHR 0x83],
      [CHR 0xE2, CHR 0x80, CHR 0x84], [CHR 0xE2, CHR 0x80, CHR 0x85],
      [CHR 0xE2, CHR 0x80, CHR 0x86], [CHR 0xE2, CHR 0x80, CHR 0x87],
      [CHR 0xE2, CHR 0x80, CHR 0x88], [CHR 0xE2, CHR 0x80, CHR 0x89],
      [CHR 0xE2, CHR 0x80, CHR 0x8A], [CHR 0xE2, CHR 0x80, CHR 0xA8],
      [CHR 0xE2, CHR 0x80, CHR 0xA9], [CHR 0xE2, CHR 0x80, CHR 0xAF],
      [CHR 0xE2, CHR 0x81, CHR 0x9F], [CHR 0xE3, CHR 0x80, CHR 0x80]]"

fun strip_first :: "string list \<Rightarrow> string \<Rightarrow> string option" where
  "strip_first [] s = None"
| "strip_first (e # es) s =
     (if e \<noteq> [] \<and> take (length e) s = e then Some (drop (length e) s) else strip_first es s)"

lemma strip_first_suffix: "strip_first es s = Some t \<Longrightarrow> \<exists>u. u \<noteq> [] \<and> s = u @ t"
proof (induction es)
  case (Cons e es)
  show ?case
  proof (cases "e \<noteq> [] \<and> take (length e) s = e")
    case True
    then have "s = e @ t" using Cons.prems by auto (metis append_take_drop_id)
    with True show ?thesis by blast
  next
    case False
    then show ?thesis using Cons by (simp split: if_splits)
  qed
qed simp

lemma strip_first_shorter: "strip_first es s = Some t \<Longrightarrow> length t < length s"
  using strip_first_suffix [of es s t] by auto

function trim_with :: "string list \<Rightarrow> string \<Rightarrow> string" where
  "trim_with es s = (case strip_first es s of None \<Rightarrow> s | Some t \<Rightarrow> trim_with es t)"
  by pat_completeness auto
termination
  by (relation "measure (\<lambda>(es, s). length s)") (auto simp: strip_first_shorter)

declare trim_with.simps [simp del]

definition TrimSpace :: "string \<Rightarrow> string" where
  "TrimSpace s =
     rev (trim_with (map rev space_encodings) (rev (trim_with space_encodings s)))"

lemma strip_first_None:
  "strip_first es s = None \<longleftrightarrow> (\<forall>e \<in> set es. e = [] \<or> take (length e) s \<noteq> e)"
  by (induction es) auto

lemma strip_first_prefix_None:
  assumes "strip_first es s = None" and "prefix t s"
  shows "strip_first es t = None"
proof -
  obtain u where s: "s = t @ u" using assms(2) by (auto elim: prefixE)
  have "take (length e) s = e" if "take (length e) t = e" for e
  proof -
    have "length e \<le> length t"
      using arg_cong [OF that, of length] by simp
    then show ?thesis using that s by simp
  qed
  then show ?thesis using assms(1) unfolding strip_first_None by blast
qed

lemma trim_with_stops: "strip_first es (trim_with es s) = None"
proof (induction es s rule: trim_with.induct)
  case (1 es s)
  then show ?case
    by (cases "strip_first es s") (simp_all add: trim_with.simps [of es s])
qed

lemma trim_with_fixed: "strip_first es s = None \<Longrightarrow> trim_with es s = s"
  by (simp add: trim_with.simps [of es s])

lemma trim_with_suffix: "\<exists>u. s = u @ trim_with es s"
proof (induction es s rule: trim_with.induct)
  case (1 es s)
  show ?case
  proof (cases "strip_first es s")
    case None
    then show ?thesis by (simp add: trim_with_fixed)
  next
    case (Some t)
    then obtain u where "s = u @ t" using strip_first_suffix by blast
    moreover obtain v where "t = v @ trim_with es t" using "1" Some by blast
    moreover have "trim_with es s = trim_with es t"
      using Some by (simp add: trim_with.simps [of es s])
    ultimately have "s = (u @ v) @ trim_with es s"
      by (metis append_assoc)
    then show ?thesis by blast
  qed
qed

lemma TrimSpace_fixed:
  assumes "strip_first space_encodings s = None"
    and "strip_first (map rev space_encodings) (rev s) = None"
  shows "TrimSpace s = s"
  using assms by (simp add: TrimSpace_def trim_with_fixed)

lemma TrimSpace_stops:
  "strip_first space_encodings (TrimSpace s) = None"
  "strip_first (map rev space_encodings) (rev (TrimSpace s)) = None"
proof -
  let ?l = "trim_with space_encodings s"
  obtain u where "rev ?l = u @ rev (TrimSpace s)"
    using trim_with_suffix [of "rev ?l" "map rev space_encodings"]
    by (auto simp: TrimSpace_def)
  then have "?l = TrimSpace s @ rev u"
    by (metis rev_append rev_rev_ident)
  then have "prefix (TrimSpace s) ?l"
    by (metis prefixI)
  with trim_with_stops show "strip_first space_encodings (TrimSpace s) = None"
    by (rule strip_first_prefix_None)
  show "strip_first (map rev space_encodings) (rev (TrimSpace s)) = None"
    by (simp add: TrimSpace_def trim_with_stops)
qed

lemma TrimSpace_idem [simp]: "TrimSpace (TrimSpace s) = TrimSpace s"
  by (rule TrimSpace_fixed) (rule TrimSpace_stops)+

lemma TrimSpace_Nil [simp]: "TrimSpace [] = []"
  by (rule TrimSpace_fixed) (simp_all add: space_encodings_def)

lemma space_encodings_not_graphic:
  "list_all (\<lambda>e. e \<noteq> [] \<and> \<not> graphic (hd e)) space_encodings"
  "list_all (\<lambda>e. e \<noteq> [] \<and> \<not> graphic (hd e)) (map rev space_encodings)"
  by (simp_all add: space_encodings_def graphic_def in_range_def byte_def)

lemma strip_first_hd:
  assumes "list_all (\<lambda>e. e \<noteq> [] \<and> \<not> graphic (hd e)) es" and "graphic c"
  shows "strip_first es (c # s) = None"
proof -
  have "take (length e) (c # s) \<noteq> e" if "e \<in> set es" for e
  proof -
    have "e \<noteq> []" "\<not> graphic (hd e)"
      using assms(1) that by (simp_all add: list_all_iff)
    then show ?thesis using assms(2) by (cases e) auto
  qed
  then show ?thesis by (simp add: strip_first_None)
qed

lemmas strip_first_graphic =
  strip_first_hd [OF space_encodings_not_graphic(1)]
  strip_first_hd [OF space_encodings_not_graphic(2)]

text \<open>Text without spaces at its ends, the shape of every identifier and path, is untouched.\<close>

lemma TrimSpace_graphic:
  assumes "list_all graphic s"
  shows "TrimSpace s = s"
proof (cases s)
  case (Cons c cs)
  moreover obtain d ds where "rev s = d # ds"
    using Cons by (metis rev_is_Nil_conv neq_Nil_conv list.distinct(1))
  moreover have "graphic c" using assms Cons by simp
  moreover have "graphic d"
    using assms \<open>rev s = d # ds\<close> by (metis list_all_rev list.pred_inject(2))
  ultimately show ?thesis
    by (intro TrimSpace_fixed) (simp_all add: strip_first_graphic)
qed simp

text \<open>Rewriting that evaluates the text primitives on literals.\<close>

lemmas text_eval = TrimSpace_graphic ValidString_graphic graphic_def in_range_def byte_def

text \<open>Equations for evaluation: plain text needs no decoding.\<close>

lemma graphic_code [code]:
  "graphic (Char b0 b1 b2 b3 b4 b5 b6 b7) \<longleftrightarrow>
     \<not> b7 \<and> (b5 \<or> b6) \<and> (b0 \<or> b1 \<or> b2 \<or> b3 \<or> b4 \<or> b6) \<and>
     \<not> (b0 \<and> b1 \<and> b2 \<and> b3 \<and> b4 \<and> b5 \<and> b6)"
  by (cases b0; cases b1; cases b2; cases b3; cases b4; cases b5; cases b6; cases b7)
    (simp_all add: graphic_def in_range_def byte_def of_char_def)

lemma TrimSpace_code [code]:
  "TrimSpace s =
     (if list_all graphic s then s
      else rev (trim_with (map rev space_encodings) (rev (trim_with space_encodings s))))"
  using TrimSpace_graphic [of s] by (simp add: TrimSpace_def)

lemma ValidString_code [code]:
  "ValidString s \<longleftrightarrow> list_all graphic s \<or> utf8_run [] s"
  using ValidString_graphic [of s] by (auto simp: ValidString_def)

section \<open>\<open>strings.Split\<close>, prefixes and joining\<close>

fun split_on :: "char \<Rightarrow> string \<Rightarrow> string list" where
  "split_on sep [] = [[]]"
| "split_on sep (c # cs) =
     (if c = sep then [] # split_on sep cs
      else (case split_on sep cs of [] \<Rightarrow> [[c]] | s # ss \<Rightarrow> (c # s) # ss))"

fun join_with :: "char \<Rightarrow> string list \<Rightarrow> string" where
  "join_with sep [] = []"
| "join_with sep [s] = s"
| "join_with sep (s # t # ss) = s @ sep # join_with sep (t # ss)"

definition HasPrefix :: "string \<Rightarrow> string \<Rightarrow> bool" where
  "HasPrefix s p \<longleftrightarrow> take (length p) s = p"

definition HasSuffix :: "string \<Rightarrow> string \<Rightarrow> bool" where
  "HasSuffix s p \<longleftrightarrow> HasPrefix (rev s) (rev p)"

definition TrimPrefix :: "string \<Rightarrow> string \<Rightarrow> string" where
  "TrimPrefix s p = (if HasPrefix s p then drop (length p) s else s)"

fun Contains :: "string \<Rightarrow> string \<Rightarrow> bool" where
  "Contains [] p = (p = [])"
| "Contains (c # s) p = (HasPrefix (c # s) p \<or> Contains s p)"

lemma split_on_not_Nil [simp]: "split_on sep s \<noteq> []"
  by (cases s) (auto split: list.splits)

lemma join_with_Cons: "ss \<noteq> [] \<Longrightarrow> join_with sep (s # ss) = s @ sep # join_with sep ss"
  by (cases ss) simp_all

lemma join_with_Cons_head: "join_with sep ((c # s) # ss) = c # join_with sep (s # ss)"
  by (cases ss) simp_all

lemma join_split [simp]: "join_with sep (split_on sep s) = s"
proof (induction s)
  case (Cons c cs)
  then show ?case
    by (cases "split_on sep cs") (simp_all add: join_with_Cons join_with_Cons_head)
qed simp

lemma split_on_no_sep: "t \<in> set (split_on sep s) \<Longrightarrow> sep \<notin> set t"
proof (induction s arbitrary: t)
  case (Cons c cs)
  then show ?case
    by (cases "split_on sep cs") (auto split: if_splits)
qed simp

lemma split_on_segment: "sep \<notin> set s \<Longrightarrow> split_on sep s = [s]"
  by (induction s) auto

lemma split_on_append:
  "sep \<notin> set s \<Longrightarrow> split_on sep (s @ sep # t) = s # split_on sep t"
  by (induction s) auto

lemma split_join:
  assumes "ss \<noteq> []" and "\<forall>s \<in> set ss. sep \<notin> set s"
  shows "split_on sep (join_with sep ss) = ss"
  using assms
proof (induction sep ss rule: join_with.induct)
  case (3 sep s t ss)
  then show ?case by (simp add: split_on_append)
qed (auto simp: split_on_segment)

lemma HasPrefix_append [simp]: "HasPrefix (p @ s) p"
  by (simp add: HasPrefix_def)

lemma HasPrefix_iff: "HasPrefix s p \<longleftrightarrow> (\<exists>t. s = p @ t)"
  by (metis HasPrefix_append HasPrefix_def append_take_drop_id)

lemma TrimPrefix_append [simp]: "TrimPrefix (p @ s) p = s"
  by (simp add: TrimPrefix_def)

lemma TrimPrefix_id: "\<not> HasPrefix s p \<Longrightarrow> TrimPrefix s p = s"
  by (simp add: TrimPrefix_def)

section \<open>\<open>path.Clean\<close>\<close>

text \<open>
  \<open>clean_push\<close> adds one slash-separated element to the (reversed) output: empty elements and
  \<open>.\<close> vanish; \<open>..\<close> removes the previous element unless there is none to remove, in which case
  it is kept for a relative path and dropped for a rooted one.
\<close>

definition dot :: string where
  "dot = ''.''"

definition dotdot :: string where
  "dotdot = ''..''"

definition clean_push :: "bool \<Rightarrow> string list \<Rightarrow> string \<Rightarrow> string list" where
  "clean_push rooted out e =
     (if e = [] \<or> e = dot then out
      else if e = dotdot then
        (case out of
           [] \<Rightarrow> if rooted then [] else [dotdot]
         | x # xs \<Rightarrow> if x = dotdot then dotdot # out else xs)
      else e # out)"

definition path_Clean :: "string \<Rightarrow> string" where
  "path_Clean p =
     (let rooted = HasPrefix p ''/'';
          out = rev (foldl (clean_push rooted) [] (split_on (CHR ''/'') p));
          body = join_with (CHR ''/'') out
      in if rooted then CHR ''/'' # body
         else if body = [] then dot else body)"

text \<open>An element of a canonical path.\<close>

definition plain_element :: "string \<Rightarrow> bool" where
  "plain_element e \<longleftrightarrow> e \<noteq> [] \<and> e \<noteq> dot \<and> e \<noteq> dotdot"

lemma clean_push_plain: "plain_element e \<Longrightarrow> clean_push r out e = e # out"
  by (simp add: clean_push_def plain_element_def)

lemma foldl_clean_push_plain:
  "list_all plain_element es \<Longrightarrow> foldl (clean_push r) out es = rev es @ out"
  by (induction es arbitrary: out) (auto simp: clean_push_plain)

text \<open>Elements that survive cleaning a relative path: plain ones after a run of \<open>..\<close>.\<close>

definition clean_stack :: "string list \<Rightarrow> bool" where
  "clean_stack out \<longleftrightarrow>
     (\<exists>a k. out = a @ replicate k dotdot \<and> list_all plain_element a)"

lemma clean_stack_push: "clean_stack out \<Longrightarrow> clean_stack (clean_push False out e)"
proof -
  assume "clean_stack out"
  then obtain a k where out: "out = a @ replicate k dotdot" and a: "list_all plain_element a"
    by (auto simp: clean_stack_def)
  show ?thesis
  proof (cases "plain_element e")
    case True
    then have "clean_push False out e = (e # a) @ replicate k dotdot"
      by (simp add: clean_push_plain out)
    then show ?thesis using True a by (metis clean_stack_def list.pred_inject(2))
  next
    case False
    then consider "e = [] \<or> e = dot" | "e = dotdot"
      by (auto simp: plain_element_def)
    then show ?thesis
    proof cases
      case 1
      then show ?thesis using \<open>clean_stack out\<close> by (simp add: clean_push_def)
    next
      case 2
      then have e: "clean_push False out dotdot =
          (case out of [] \<Rightarrow> [dotdot] | x # xs \<Rightarrow> if x = dotdot then dotdot # out else xs)"
        by (simp add: clean_push_def dot_def dotdot_def)
      show ?thesis
      proof (cases a)
        case Nil
        then have "clean_push False out e = [] @ replicate (Suc k) dotdot"
          using 2 e out by (cases k) auto
        then show ?thesis by (metis clean_stack_def list.pred_inject(1))
      next
        case (Cons x xs)
        then have "clean_push False out e = xs @ replicate k dotdot"
          using 2 e out a by (auto simp: plain_element_def)
        then show ?thesis using a Cons by (metis clean_stack_def list.pred_inject(2))
      qed
    qed
  qed
qed

lemma clean_stack_foldl: "clean_stack out \<Longrightarrow> clean_stack (foldl (clean_push False) out es)"
  by (induction es arbitrary: out) (auto simp: clean_stack_push)

end
