(* ===== verification/Branch.thy ===== *)
theory Branch
  imports GoText
begin

text \<open>
  The grammar of writable Bucket branch selectors (\<open>internal/bucketbranch/branch.go\<close>): the
  normal form of a selector, the registry ref it addresses, and that both are unambiguous.
\<close>

datatype branch_error = InvalidBranch string

definition identifier_byte :: "char \<Rightarrow> bool" where
  "identifier_byte r \<longleftrightarrow>
     in_range (0x61, 0x7A) r \<or> in_range (0x41, 0x5A) r \<or> in_range (0x30, 0x39) r \<or>
     r = CHR ''-'' \<or> r = CHR ''_'' \<or> r = CHR ''.''"

definition validIdentifier :: "string \<Rightarrow> bool" where
  "validIdentifier value \<longleftrightarrow>
     \<not> (value = [] \<or> length value > 128) \<and> list_all identifier_byte value"

definition NormalizeExplicit :: "string \<Rightarrow> branch_error + string" where
  "NormalizeExplicit raw0 =
     (let raw = TrimPrefix (TrimSpace raw0) ''heads/'' in
      if raw = [] \<or> raw = ''main'' \<or> HasPrefix raw ''conflicts/'' \<or> length raw > 128 \<or>
         HasPrefix raw ''/'' \<or> HasSuffix raw ''/'' \<or> Contains raw ''..''
      then Inl (InvalidBranch raw)
      else if \<not> list_all validIdentifier (split_on (CHR ''/'') raw) then Inl (InvalidBranch raw)
      else if HasPrefix raw ''heads/'' then Inr (''heads/'' @ raw)
      else Inr raw)"

definition NormalizeSelector :: "string \<Rightarrow> branch_error + string" where
  "NormalizeSelector raw0 =
     (let raw = TrimSpace raw0 in
      if raw = [] \<or> raw = ''main'' then Inr ''main'' else NormalizeExplicit raw)"

definition RefName :: "string \<Rightarrow> branch_error + string" where
  "RefName raw =
     bindE (NormalizeSelector raw) (\<lambda>selector.
       if selector = ''main'' then Inr selector
       else Inr (''heads/'' @ TrimPrefix selector ''heads/''))"

section \<open>Normal forms\<close>

text \<open>The branch names a selector can stand for, after its optional \<open>heads/\<close> is removed.\<close>

definition branch_name :: "string \<Rightarrow> bool" where
  "branch_name raw \<longleftrightarrow>
     raw \<noteq> [] \<and> raw \<noteq> ''main'' \<and> \<not> HasPrefix raw ''conflicts/'' \<and> length raw \<le> 128 \<and>
     \<not> HasPrefix raw ''/'' \<and> \<not> HasSuffix raw ''/'' \<and> \<not> Contains raw ''..'' \<and>
     list_all validIdentifier (split_on (CHR ''/'') raw)"

definition selector_of :: "string \<Rightarrow> string" where
  "selector_of raw = (if HasPrefix raw ''heads/'' then ''heads/'' @ raw else raw)"

lemma NormalizeExplicit_iff:
  "NormalizeExplicit raw0 = Inr s \<longleftrightarrow>
     branch_name (TrimPrefix (TrimSpace raw0) ''heads/'') \<and>
     s = selector_of (TrimPrefix (TrimSpace raw0) ''heads/'')"
  by (auto simp: NormalizeExplicit_def branch_name_def selector_of_def Let_def not_less)

lemma identifier_byte_graphic: "identifier_byte c \<Longrightarrow> graphic c"
  by (auto simp: identifier_byte_def graphic_def in_range_def byte_def)

lemma graphic_join:
  "list_all (list_all graphic) ss \<Longrightarrow> list_all graphic (join_with (CHR ''/'') ss)"
  by (induction "CHR ''/''" ss rule: join_with.induct)
    (auto simp: graphic_def in_range_def byte_def)

lemma branch_name_graphic:
  assumes "branch_name raw"
  shows "list_all graphic raw"
proof -
  have "list_all (list_all graphic) (split_on (CHR ''/'') raw)"
    using assms
    by (auto simp: branch_name_def validIdentifier_def list_all_iff identifier_byte_graphic)
  then have "list_all graphic (join_with (CHR ''/'') (split_on (CHR ''/'') raw))"
    by (rule graphic_join)
  then show ?thesis by simp
qed

lemma selector_of_graphic: "branch_name raw \<Longrightarrow> list_all graphic (selector_of raw)"
  using branch_name_graphic [of raw]
  by (auto simp: selector_of_def graphic_def in_range_def byte_def)

lemma TrimSpace_selector_of [simp]: "branch_name raw \<Longrightarrow> TrimSpace (selector_of raw) = selector_of raw"
  by (rule TrimSpace_graphic) (rule selector_of_graphic)

lemma TrimPrefix_selector_of [simp]: "TrimPrefix (selector_of raw) ''heads/'' = raw"
  by (simp add: selector_of_def TrimPrefix_id del: append_Cons)

lemma selector_of_reserved:
  assumes "branch_name raw"
  shows "selector_of raw \<noteq> []" and "selector_of raw \<noteq> ''main''"
  using assms by (auto simp: selector_of_def branch_name_def)

text \<open>Every successful normalization is \<open>main\<close> or the selector of a branch name.\<close>

lemma NormalizeSelector_cases:
  assumes "NormalizeSelector raw = Inr s"
  obtains "s = ''main''" | n where "branch_name n" and "s = selector_of n"
  using assms
  by (auto simp: NormalizeSelector_def NormalizeExplicit_iff Let_def split: if_splits)

lemma NormalizeSelector_main [simp]: "NormalizeSelector ''main'' = Inr ''main''"
proof -
  have "TrimSpace ''main'' = ''main''"
    by (rule TrimSpace_graphic) (simp add: graphic_def in_range_def byte_def)
  then show ?thesis by (simp add: NormalizeSelector_def)
qed

lemma NormalizeSelector_selector_of:
  "branch_name n \<Longrightarrow> NormalizeSelector (selector_of n) = Inr (selector_of n)"
  by (simp add: NormalizeSelector_def NormalizeExplicit_iff selector_of_reserved)

lemma RefName_selector_of:
  "branch_name n \<Longrightarrow> RefName (selector_of n) = Inr (''heads/'' @ n)"
  by (simp add: RefName_def NormalizeSelector_selector_of selector_of_reserved)

lemma NormalizeSelector_idem:
  "NormalizeSelector raw = Inr s \<Longrightarrow> NormalizeSelector s = Inr s"
  by (erule NormalizeSelector_cases) (simp_all add: NormalizeSelector_selector_of)

lemma RefName_normalized:
  "NormalizeSelector raw = Inr s \<Longrightarrow> RefName raw = RefName s"
  by (simp add: RefName_def NormalizeSelector_idem)

lemma selector_of_inject: "selector_of m = selector_of n \<longleftrightarrow> m = n"
  by (metis TrimPrefix_selector_of)

lemma RefName_inj:
  assumes "NormalizeSelector a = Inr s" and "NormalizeSelector b = Inr t"
    and "RefName a = RefName b"
  shows "s = t"
proof -
  have st: "RefName s = RefName t"
    using assms RefName_normalized by metis
  have main: "RefName ''main'' = Inr ''main''"
    by (simp add: RefName_def)
  from assms(1) show ?thesis
  proof (cases rule: NormalizeSelector_cases)
    case 1
    from assms(2) show ?thesis
      by (cases rule: NormalizeSelector_cases) (use st main 1 in \<open>auto simp: RefName_selector_of\<close>)
  next
    case (2 n)
    from assms(2) show ?thesis
      by (cases rule: NormalizeSelector_cases) (use st main 2 in \<open>auto simp: RefName_selector_of\<close>)
  qed
qed

section \<open>Properties\<close>

text \<open>
  Branch selectors have a unique meaning.  Normalizing a selector a second time changes
  nothing, so a selector can pass through any number of adapters; the ref it addresses is
  \<open>main\<close> or lies under \<open>heads/\<close>, never in the Gateway's \<open>conflicts/\<close> namespace; and two
  selectors address the same ref only if they normalize to the same selector.
\<close>

theorem branch_selector_unambiguous:
  assumes "NormalizeSelector a = Inr s" and "NormalizeSelector b = Inr t"
  shows "NormalizeSelector s = Inr s \<and>
    (\<exists>r. RefName a = Inr r \<and> (r = ''main'' \<or> HasPrefix r ''heads/'')) \<and>
    (RefName a = RefName b \<longleftrightarrow> s = t)"
proof (intro conjI)
  show "NormalizeSelector s = Inr s"
    using assms(1) by (rule NormalizeSelector_idem)
  show "\<exists>r. RefName a = Inr r \<and> (r = ''main'' \<or> HasPrefix r ''heads/'')"
    using assms(1) by (auto simp: RefName_def HasPrefix_def)
  show "RefName a = RefName b \<longleftrightarrow> s = t"
    using RefName_inj [OF assms] RefName_normalized [OF assms(1)] RefName_normalized [OF assms(2)]
    by auto
qed

lemma branch_selector_unambiguous_witness:
  "NormalizeSelector '' heads/dev'' = Inr ''dev'' \<and>
   NormalizeSelector ''heads/heads/dev'' = Inr ''heads/heads/dev'' \<and>
   RefName '' heads/dev'' \<noteq> RefName ''heads/heads/dev''"
proof -
  have a: "NormalizeSelector '' heads/dev'' = Inr ''dev''" by code_simp
  have b: "NormalizeSelector ''heads/heads/dev'' = Inr ''heads/heads/dev''" by code_simp
  show ?thesis using a b branch_selector_unambiguous [OF a b] by simp
qed

end
