(* ===== verification/CidLib.thy ===== *)
theory CidLib
  imports GoText
begin

text \<open>
  Content identifiers.  The runtime uses the third-party \<open>go-cid\<close> library; it enters the model
  as a record of functions that every operation using it takes as an argument.  A \<open>cid.Cid\<close>
  is the byte string the library wraps, undefined (\<open>cid.Undef\<close>) when it is empty.
\<close>

type_synonym cid = string
type_synonym bytes = string

record cid_lib =
  cid_Parse :: "string \<Rightarrow> cid option"
  cid_String :: "cid \<Rightarrow> string"
  cid_Sum :: "cid \<Rightarrow> bytes \<Rightarrow> cid option"  \<comment> \<open>\<open>expected.Prefix().Sum(body)\<close>\<close>
  mh_SumStream :: "cid \<Rightarrow> bytes \<Rightarrow> string option"  \<comment> \<open>\<open>mh.SumStream\<close> with the prefix of the CID\<close>
  cid_Hash :: "cid \<Rightarrow> string"

definition cid_Defined :: "cid \<Rightarrow> bool" where
  "cid_Defined c \<longleftrightarrow> c \<noteq> []"

text \<open>\<open>cid.Parse(raw)\<close> followed by \<open>String()\<close>: the canonical text of a CID.\<close>

definition canonicalCID :: "cid_lib \<Rightarrow> string \<Rightarrow> string option" where
  "canonicalCID L raw = map_option (cid_String L) (cid_Parse L raw)"

text \<open>
  What the library documents and the runtime relies on: the empty text is not a CID, a parsed
  CID is defined, and its canonical text is plain base-encoded ASCII that parses back to it.
\<close>

definition cid_lib_ok :: "cid_lib \<Rightarrow> bool" where
  "cid_lib_ok L \<longleftrightarrow>
     cid_Parse L [] = None \<and>
     (\<forall>s c. cid_Parse L s = Some c \<longrightarrow>
        cid_Defined c \<and> cid_Parse L (cid_String L c) = Some c \<and>
        list_all graphic (cid_String L c))"

lemma canonicalCID_Nil: "cid_lib_ok L \<Longrightarrow> canonicalCID L [] = None"
  by (simp add: cid_lib_ok_def canonicalCID_def)

lemma canonicalCID_idem:
  "cid_lib_ok L \<Longrightarrow> canonicalCID L s = Some t \<Longrightarrow> canonicalCID L t = Some t"
  by (auto simp: cid_lib_ok_def canonicalCID_def)

lemma canonicalCID_graphic:
  "cid_lib_ok L \<Longrightarrow> canonicalCID L s = Some t \<Longrightarrow> list_all graphic t"
  by (auto simp: cid_lib_ok_def canonicalCID_def)

lemma canonicalCID_trim:
  "cid_lib_ok L \<Longrightarrow> canonicalCID L s = Some t \<Longrightarrow> TrimSpace t = t"
  by (rule TrimSpace_graphic) (rule canonicalCID_graphic)

lemma canonicalCID_not_Nil:
  "cid_lib_ok L \<Longrightarrow> canonicalCID L s = Some t \<Longrightarrow> t \<noteq> []"
  using canonicalCID_Nil canonicalCID_idem by fastforce

lemma cid_Parse_canonical:
  "cid_Parse L s \<noteq> None \<longleftrightarrow> canonicalCID L s \<noteq> None"
  by (simp add: canonicalCID_def)

lemmas canonicalCID_facts =
  canonicalCID_idem canonicalCID_trim canonicalCID_not_Nil canonicalCID_graphic

text \<open>
  A concrete library used to evaluate the definitions: a CID is any text of printable bytes that
  starts with \<open>b\<close>, and the body \<open>x\<close> hashes to \<open>b\<close> followed by \<open>x\<close>.
\<close>

definition demo_cid :: cid_lib where
  "demo_cid =
     \<lparr>cid_Parse = (\<lambda>s. if s \<noteq> [] \<and> hd s = CHR ''b'' \<and> list_all graphic s then Some s else None),
      cid_String = (\<lambda>c. c),
      cid_Sum = (\<lambda>c body. Some (CHR ''b'' # body)),
      mh_SumStream = (\<lambda>c body. Some (CHR ''b'' # body)), cid_Hash = (\<lambda>c. c)\<rparr>"

lemma demo_cid_ok: "cid_lib_ok demo_cid"
  by (auto simp: cid_lib_ok_def demo_cid_def cid_Defined_def)

text \<open>
  Hashing a stream and comparing the digest is the same check as computing the CID and comparing.
\<close>

definition stream_lib_ok :: "cid_lib \<Rightarrow> bool" where
  "stream_lib_ok L \<longleftrightarrow>
     (\<forall>c body. mh_SumStream L c body = Some (cid_Hash L c) \<longleftrightarrow> cid_Sum L c body = Some c)"

lemma demo_stream_ok: "stream_lib_ok demo_cid"
  by (simp add: stream_lib_ok_def demo_cid_def)

end
