(* ===== verification/Durable.thy ===== *)
theory Durable
  imports Prelude
begin

text \<open>
  The persistence discipline the local stores share.  A store keeps one JSON file; every
  operation locks it, reloads and validates it, runs, and replaces it atomically through a
  temporary file.  The theory models the file, the fault points of that sequence, and states
  the contract a store meets as a locale.
\<close>

section \<open>The file and the steps that touch it\<close>

text \<open>
  What a read of an existing file yields: bytes that do not decode, or the decoded document.
  An absent file is \<open>None\<close> of \<open>'f content option\<close>.
\<close>

datatype 'f content = Malformed | Decoded 'f

datatype io_step =
    MkdirAll | AcquireLock | ReadFile | SecureFile | ReadDir | ReadRootDir | ReadBody | RemoveFile string
  | Marshal | CreateTemp | SecureTemp | WriteTemp | ShortWrite | SyncTemp | CloseTemp
  | MkdirTarget | RenameTemp | SyncParent | SecureTarget
  | OnBody io_step  \<comment> \<open>a step of writing a payload file\<close>

text \<open>The environment decides which of the steps of one call fail.\<close>

type_synonym faults = "io_step \<Rightarrow> bool"

definition no_faults :: faults where
  "no_faults = (\<lambda>_. False)"

text \<open>
  A writer is the list of its steps.  They run in order until one fails; the file is replaced
  by the rename, and a step that fails after it leaves the new file in place.
\<close>

fun run_steps :: "io_step list \<Rightarrow> faults \<Rightarrow> 'f \<Rightarrow> 'f content option
    \<Rightarrow> io_step option \<times> 'f content option" where
  "run_steps [] F new disk = (None, disk)"
| "run_steps (st # sts) F new disk =
     (if F st then (Some st, disk)
      else run_steps sts F new (if st = RenameTemp then Some (Decoded new) else disk))"

text \<open>
  \<open>reload\<close>: an absent file is the empty state, an unreadable or malformed one an error, and a
  decoded document goes through the store's validation.
\<close>

definition reload_with ::
  "faults \<Rightarrow> (io_step \<Rightarrow> 'e) \<Rightarrow> 'e \<Rightarrow> 's \<Rightarrow> ('f \<Rightarrow> 'e + 's) \<Rightarrow> 'f content option \<Rightarrow> 'e + 's" where
  "reload_with F ioerr malformed init validate disk =
     (if F ReadFile then Inl (ioerr ReadFile)
      else case disk of
        None \<Rightarrow> Inr init
      | Some c \<Rightarrow>
          if F SecureFile then Inl (ioerr SecureFile)
          else case c of Malformed \<Rightarrow> Inl malformed | Decoded f \<Rightarrow> validate f)"

text \<open>
  One locked call: an operation sees the reloaded state and returns its result together with
  the state to persist, if any.  The result of a call whose write fails is the write's error.
\<close>

definition with_state ::
  "io_step list \<Rightarrow> faults \<Rightarrow> (io_step \<Rightarrow> 'e) \<Rightarrow> 'e \<Rightarrow> 's \<Rightarrow> ('f \<Rightarrow> 'e + 's) \<Rightarrow> ('s \<Rightarrow> 'f)
    \<Rightarrow> ('s \<Rightarrow> ('e + 'r) \<times> 's option) \<Rightarrow> 'f content option \<Rightarrow> ('e + 'r) \<times> 'f content option" where
  "with_state steps F ioerr malformed init validate encode operation disk =
     (if F MkdirAll then (Inl (ioerr MkdirAll), disk)
      else if F AcquireLock then (Inl (ioerr AcquireLock), disk)
      else case reload_with F ioerr malformed init validate disk of
        Inl e \<Rightarrow> (Inl e, disk)
      | Inr s \<Rightarrow>
          (case operation s of
             (res, None) \<Rightarrow> (res, disk)
           | (res, Some s') \<Rightarrow>
               (case run_steps steps F (encode s') disk of
                  (None, disk') \<Rightarrow> (res, disk')
                | (Some st, disk') \<Rightarrow> (Inl (ioerr st), disk'))))"

text \<open>A read-only operation, and a writing operation that persists only on success.\<close>

definition reading :: "('s \<Rightarrow> 'e + 'r) \<Rightarrow> 's \<Rightarrow> ('e + 'r) \<times> 's option" where
  "reading f s = (f s, None)"

definition writing :: "('s \<Rightarrow> 'e + ('r \<times> 's)) \<Rightarrow> 's \<Rightarrow> ('e + 'r) \<times> 's option" where
  "writing f s = (case f s of Inl e \<Rightarrow> (Inl e, None) | Inr (r, s') \<Rightarrow> (Inr r, Some s'))"

section \<open>Unreadable files\<close>

text \<open>A file that validation refuses stays as it is, and every locked call on it fails.\<close>

definition unreadable :: "('f \<Rightarrow> 'e + 's) \<Rightarrow> 'f content option \<Rightarrow> bool" where
  "unreadable validate disk \<longleftrightarrow> (\<exists>f e. disk = Some (Decoded f) \<and> validate f = Inl e)"

text \<open>A call that returns an error and leaves the file alone.\<close>

definition refused :: "'d \<Rightarrow> ('e + 'r) \<times> 'd \<Rightarrow> bool" where
  "refused disk out \<longleftrightarrow> isl (fst out) \<and> snd out = disk"

lemma refused_iff: "refused disk out \<longleftrightarrow> (\<exists>e. out = (Inl e, disk))"
  by (cases out) (auto simp: refused_def isl_def)

lemma with_state_unreadable:
  "unreadable validate disk \<Longrightarrow>
     refused disk (with_state steps F ioerr malformed init validate encode operation disk)"
  by (auto simp: unreadable_def with_state_def reload_with_def refused_def)

section \<open>Atomic replacement\<close>

lemma run_steps_disk:
  "snd (run_steps sts F new disk) = disk \<or> snd (run_steps sts F new disk) = Some (Decoded new)"
  by (induction sts arbitrary: disk) auto

lemma run_steps_ok:
  "fst (run_steps sts F new disk) = None \<Longrightarrow> RenameTemp \<in> set sts \<Longrightarrow>
     snd (run_steps sts F new disk) = Some (Decoded new)"
proof (induction sts arbitrary: disk)
  case (Cons st sts)
  show ?case
  proof (cases "RenameTemp \<in> set sts")
    case True
    then show ?thesis using Cons by (auto split: if_splits)
  next
    case False
    have keep: "snd (run_steps sts F new d) = d" for d
      using False by (induction sts arbitrary: d) auto
    show ?thesis using False Cons.prems keep by (auto split: if_splits)
  qed
qed simp

lemma run_steps_no_faults:
  assumes "RenameTemp \<in> set sts"
  shows "run_steps sts no_faults new disk = (None, Some (Decoded new))"
proof -
  have "fst (run_steps sts no_faults new disk) = None"
    by (induction sts arbitrary: disk) (auto simp: no_faults_def)
  with run_steps_ok [OF this assms] show ?thesis
    by (metis prod.collapse)
qed

text \<open>A fault before the rename leaves the old file, one after it the new file.\<close>

lemma run_steps_before_rename:
  "F st \<Longrightarrow> RenameTemp \<notin> set pre \<Longrightarrow>
     snd (run_steps (pre @ st # post) F new disk) = disk"
proof (induction pre arbitrary: disk)
  case (Cons p pre)
  then show ?case by auto
qed simp

section \<open>The contract of a durable store\<close>

text \<open>
  A file is sound for a store when it is absent or is the encoding of a well-formed state.
\<close>

definition disk_ok :: "('s \<Rightarrow> 'f) \<Rightarrow> ('s \<Rightarrow> bool) \<Rightarrow> 'f content option \<Rightarrow> bool" where
  "disk_ok encode invar disk \<longleftrightarrow> disk = None \<or> (\<exists>s. invar s \<and> disk = Some (Decoded (encode s)))"

definition loaded :: "'s \<Rightarrow> ('f \<Rightarrow> 'e + 's) \<Rightarrow> 'f content option \<Rightarrow> 's" where
  "loaded init validate disk =
     (case disk of Some (Decoded f) \<Rightarrow> (case validate f of Inr s \<Rightarrow> s | Inl _ \<Rightarrow> init) | _ \<Rightarrow> init)"

text \<open>
  The store's side of the contract: the empty state is well formed and validation accepts the
  encoding of every well-formed state, unchanged.
\<close>

locale durable_store =
  fixes steps :: "io_step list"
    and ioerr :: "io_step \<Rightarrow> 'e"
    and malformed :: 'e
    and init :: 's
    and validate :: "'f \<Rightarrow> 'e + 's"
    and encode :: "'s \<Rightarrow> 'f"
    and invar :: "'s \<Rightarrow> bool"
  assumes renames: "RenameTemp \<in> set steps"
    and init_invar: "invar init"
    and validate_encode: "invar s \<Longrightarrow> validate (encode s) = Inr s"
begin

lemma disk_ok_cases:
  assumes "disk_ok encode invar disk"
  obtains s where "invar s" and "loaded init validate disk = s"
    and "disk = None \<and> s = init \<or> disk = Some (Decoded (encode s))"
  using assms init_invar validate_encode by (auto simp: disk_ok_def loaded_def)

lemma loaded_invar: "disk_ok encode invar disk \<Longrightarrow> invar (loaded init validate disk)"
  by (erule disk_ok_cases) simp

lemma reload_ok:
  assumes "disk_ok encode invar disk" and "\<not> F ReadFile" and "\<not> F SecureFile"
  shows "reload_with F ioerr malformed init validate disk = Inr (loaded init validate disk)"
  using assms validate_encode by (auto simp: disk_ok_def reload_with_def loaded_def)

lemma reload_cases:
  assumes "disk_ok encode invar disk"
    and "reload_with F ioerr malformed init validate disk = Inr s"
  shows "s = loaded init validate disk"
  using assms validate_encode
  by (auto simp: disk_ok_def reload_with_def loaded_def split: if_splits)

text \<open>Whatever fails, a call leaves the old file or the file it set out to write.\<close>

lemma with_state_disk:
  assumes "disk_ok encode invar disk"
    and "with_state steps F ioerr malformed init validate encode operation disk = (res, disk')"
  shows "disk' = disk \<or>
    (\<exists>s'. snd (operation (loaded init validate disk)) = Some s' \<and> disk' = Some (Decoded (encode s')))"
proof (cases "reload_with F ioerr malformed init validate disk")
  case (Inl e)
  then show ?thesis using assms(2) by (auto simp: with_state_def split: if_splits)
next
  case (Inr s)
  then have s: "s = loaded init validate disk"
    using reload_cases [OF assms(1)] by simp
  obtain r w where op: "operation s = (r, w)" by (cases "operation s")
  show ?thesis
  proof (cases w)
    case None
    then show ?thesis
      using assms(2) Inr op by (auto simp: with_state_def split: if_splits)
  next
    case (Some s')
    obtain e d where run: "run_steps steps F (encode s') disk = (e, d)"
      by (cases "run_steps steps F (encode s') disk")
    have "d = disk \<or> d = Some (Decoded (encode s'))"
      using run_steps_disk [of steps F "encode s'" disk] run by simp
    moreover have "disk' = disk \<or> disk' = d"
      using assms(2) Inr op Some run
      by (auto simp: with_state_def split: if_splits option.splits)
    ultimately show ?thesis using op Some s by auto
  qed
qed

lemma with_state_disk_ok:
  assumes "disk_ok encode invar disk"
    and "with_state steps F ioerr malformed init validate encode operation disk = (res, disk')"
    and "\<And>s'. snd (operation (loaded init validate disk)) = Some s' \<Longrightarrow> invar s'"
  shows "disk_ok encode invar disk'"
  using with_state_disk [OF assms(1,2)] assms(1,3) by (auto simp: disk_ok_def)

text \<open>A successful call saw the stored state, and its write is what the next call loads.\<close>

lemma with_state_success:
  assumes "disk_ok encode invar disk"
    and "with_state steps F ioerr malformed init validate encode operation disk = (Inr r, disk')"
    and "\<And>s'. snd (operation (loaded init validate disk)) = Some s' \<Longrightarrow> invar s'"
  shows "fst (operation (loaded init validate disk)) = Inr r \<and>
    loaded init validate disk' =
      (case snd (operation (loaded init validate disk)) of
         None \<Rightarrow> loaded init validate disk | Some s' \<Rightarrow> s')"
proof -
  from assms(2) obtain s where rl: "reload_with F ioerr malformed init validate disk = Inr s"
    by (auto simp: with_state_def split: if_splits sum.splits)
  then have s: "s = loaded init validate disk"
    using reload_cases [OF assms(1)] by simp
  obtain r' w where op: "operation s = (r', w)" by (cases "operation s")
  show ?thesis
  proof (cases w)
    case None
    then show ?thesis
      using assms(2) rl op s by (auto simp: with_state_def split: if_splits)
  next
    case (Some s')
    then have "r' = Inr r \<and> fst (run_steps steps F (encode s') disk) = None \<and>
        disk' = snd (run_steps steps F (encode s') disk)"
      using assms(2) rl op
      by (auto simp: with_state_def split: if_splits prod.splits option.splits)
    then have "r' = Inr r" and "disk' = Some (Decoded (encode s'))"
      using run_steps_ok [OF _ renames, of F "encode s'" disk] by simp_all
    moreover have "invar s'" using assms(3) op Some s by simp
    ultimately show ?thesis
      using validate_encode op Some s by (simp add: loaded_def)
  qed
qed

text \<open>Well formed or not, the state of a successful write is the one in the file.\<close>

lemma with_state_written:
  assumes "disk_ok encode invar disk"
    and "with_state steps F ioerr malformed init validate encode operation disk = (Inr r, disk')"
    and "operation (loaded init validate disk) = (r', Some s')"
  shows "disk' = Some (Decoded (encode s')) \<and> r' = Inr r"
proof -
  from assms(2) obtain s where rl: "reload_with F ioerr malformed init validate disk = Inr s"
    by (auto simp: with_state_def split: if_splits sum.splits)
  then have "s = loaded init validate disk" using reload_cases [OF assms(1)] by simp
  then have "r' = Inr r \<and> fst (run_steps steps F (encode s') disk) = None \<and>
      disk' = snd (run_steps steps F (encode s') disk)"
    using assms(2,3) rl by (auto simp: with_state_def split: if_splits prod.splits option.splits)
  then show ?thesis using run_steps_ok [OF _ renames, of F "encode s'" disk] by simp
qed

text \<open>Without faults a call is its operation applied to the stored state.\<close>

lemma with_state_no_faults:
  assumes "disk_ok encode invar disk"
    and "operation (loaded init validate disk) = (res, w)"
  shows "with_state steps no_faults ioerr malformed init validate encode operation disk =
    (res, case w of None \<Rightarrow> disk | Some s' \<Rightarrow> Some (Decoded (encode s')))"
proof -
  have "\<not> no_faults st" for st by (simp add: no_faults_def)
  then show ?thesis
    using assms reload_ok [OF assms(1), of no_faults]
    by (cases w) (simp_all add: with_state_def run_steps_no_faults [OF renames])
qed

text \<open>A sequence of calls, each under its own faults, keeps the file sound.\<close>

lemma calls_disk_ok:
  assumes "disk_ok encode invar disk"
    and "\<And>F operation. (F, operation) \<in> set calls \<Longrightarrow>
           (\<forall>s s'. invar s \<longrightarrow> snd (operation s) = Some s' \<longrightarrow> invar s')"
  shows "disk_ok encode invar
    (foldl (\<lambda>d (F, operation).
       snd (with_state steps F ioerr malformed init validate encode operation d)) disk calls)"
  using assms
proof (induction calls arbitrary: disk)
  case (Cons c calls)
  obtain F operation where c: "c = (F, operation)" by (cases c)
  obtain res disk' where ws:
      "with_state steps F ioerr malformed init validate encode operation disk = (res, disk')"
    by (cases "with_state steps F ioerr malformed init validate encode operation disk")
  have "invar s'" if "snd (operation (loaded init validate disk)) = Some s'" for s'
    using Cons.prems(2) [of F operation] that loaded_invar [OF Cons.prems(1)] c by auto
  then have "disk_ok encode invar disk'"
    using with_state_disk_ok [OF Cons.prems(1) ws] by blast
  then have "disk_ok encode invar
      (foldl (\<lambda>d (F, operation).
         snd (with_state steps F ioerr malformed init validate encode operation d)) disk' calls)"
    by (rule Cons.IH) (use Cons.prems(2) in auto)
  then show ?case using ws c by simp
qed simp

end

end
