(* ===== verification/Journal.thy ===== *)
theory Journal
  imports CidLib Durable
begin

text \<open>
  The ordered operation journal (\<open>journal/store.go\<close>): local filesystem intent with frozen retry
  identities.  The theory models the records, every normalization and validation, every
  operation of \<open>Store\<close>, and the locked reload-run-replace sequence around them.
\<close>

section \<open>Records\<close>

text \<open>\<open>Kind\<close> and \<open>Status\<close> are strings in Go; any other text found in a file is \<open>Other\<close>.\<close>

datatype Kind = KindWrite | KindMkdir | KindRename | KindUnlink | KindOther string

datatype Status =
    StatusLocalDirty | StatusOfflineOnly | StatusPendingUpload
  | StatusConflicted | StatusCompleted | StatusSuperseded | StatusOther string

record Intent =
  OperationID :: string
  RetryID :: string
  DatasetID :: string
  Branch :: string
  BaseRoot :: string
  BaseRevision :: uint64
  Kind :: Kind
  Path :: string
  Destination :: string
  PayloadCID :: string
  EncryptionEpoch :: nat

record Operation =
  op_Intent :: Intent
  Sequence :: uint64
  Status :: Status
  ConflictID :: string
  ResultRoot :: string
  ReplacementOperationID :: string
  CreatedAt :: time
  UpdatedAt :: time

abbreviation op_id :: "Operation \<Rightarrow> string" where
  "op_id operation \<equiv> OperationID (op_Intent operation)"

abbreviation op_retry :: "Operation \<Rightarrow> string" where
  "op_retry operation \<equiv> RetryID (op_Intent operation)"

record persistedState =
  Version :: int
  NextSequence :: uint64
  Operations :: "(string, Operation) gomap"
  UsedOperationIDs :: "(string, bool) gomap"
  UsedRetryIDs :: "(string, bool) gomap"

text \<open>The decoded document: a map that the JSON leaves out or sets to null is \<open>nil\<close>.\<close>

record journal_file =
  file_Version :: int
  file_NextSequence :: uint64
  file_Operations :: "(string, Operation) gomap option"
  file_UsedOperationIDs :: "(string, bool) gomap option"
  file_UsedRetryIDs :: "(string, bool) gomap option"

datatype journal_error =
    ErrNotFound | ErrIdentityReuse | ErrInvalidStatus Status Status | ErrRequestFrozen
  | JournalInvalid string | JournalIO io_step

definition journalVersion :: int where
  "journalVersion = 1"

definition emptyState :: persistedState where
  "emptyState =
     \<lparr>Version = journalVersion, NextSequence = 1, Operations = [],
      UsedOperationIDs = [], UsedRetryIDs = []\<rparr>"

section \<open>Normalization\<close>

definition validKind :: "Kind \<Rightarrow> bool" where
  "validKind value = (case value of KindOther _ \<Rightarrow> False | _ \<Rightarrow> True)"

definition validStatus :: "Status \<Rightarrow> bool" where
  "validStatus value = (case value of StatusOther _ \<Rightarrow> False | _ \<Rightarrow> True)"

definition normalizePath :: "string \<Rightarrow> journal_error + string" where
  "normalizePath value =
     (if value = [] \<or> \<not> ValidString value \<or> has_nul value \<or> HasPrefix value ''/'' \<or>
         Contains value [CHR 0x5C]
      then Inl (JournalInvalid ''path must be a non-empty relative slash path'')
      else let cleaned = path_Clean value in
        if cleaned = dot \<or> cleaned = dotdot \<or> HasPrefix cleaned ''../'' \<or> cleaned \<noteq> value
        then Inl (JournalInvalid ''path is not canonical'')
        else Inr cleaned)"

definition trimIntent :: "Intent \<Rightarrow> Intent" where
  "trimIntent i =
     i\<lparr>OperationID := TrimSpace (OperationID i), RetryID := TrimSpace (RetryID i),
       DatasetID := TrimSpace (DatasetID i), Branch := TrimSpace (Branch i),
       BaseRoot := TrimSpace (BaseRoot i), Path := TrimSpace (Path i),
       Destination := TrimSpace (Destination i), PayloadCID := TrimSpace (PayloadCID i)\<rparr>"

definition normalizeKind :: "cid_lib \<Rightarrow> Intent \<Rightarrow> journal_error + Intent" where
  "normalizeKind L i =
     (case Kind i of
        KindWrite \<Rightarrow>
          require (Destination i = []) (JournalInvalid ''write operation contains a destination'') (
          bindE (of_option (JournalInvalid ''journal payload CID'') (canonicalCID L (PayloadCID i)))
            (\<lambda>payload. Inr (i\<lparr>PayloadCID := payload\<rparr>)))
      | KindRename \<Rightarrow>
          require (PayloadCID i = []) (JournalInvalid ''rename operation contains a payload CID'') (
          bindE (normalizePath (Destination i)) (\<lambda>destination.
          require (destination \<noteq> Path i)
            (JournalInvalid ''journal rename source and destination are equal'')
            (Inr (i\<lparr>Destination := destination\<rparr>))))
      | KindOther _ \<Rightarrow> Inr i
      | _ \<Rightarrow>
          require (Destination i = [] \<and> PayloadCID i = [])
            (JournalInvalid ''namespace operation contains payload or destination metadata'')
            (Inr i))"

definition normalizeIntent :: "cid_lib \<Rightarrow> Intent \<Rightarrow> journal_error + Intent" where
  "normalizeIntent L intent =
     (let i = trimIntent intent in
      require (OperationID i \<noteq> [] \<and> RetryID i \<noteq> [] \<and> DatasetID i \<noteq> [] \<and> Branch i \<noteq> [])
        (JournalInvalid ''journal operation, retry, dataset, and branch identities are required'') (
      require (\<not> has_nul (OperationID i) \<and> \<not> has_nul (RetryID i) \<and>
               \<not> has_nul (DatasetID i) \<and> \<not> has_nul (Branch i))
        (JournalInvalid ''journal identities contain NUL'') (
      require (ValidString (OperationID i) \<and> ValidString (RetryID i) \<and>
               ValidString (DatasetID i) \<and> ValidString (Branch i))
        (JournalInvalid ''journal identities are not valid UTF-8'') (
      bindE (of_option (JournalInvalid ''journal base root'') (canonicalCID L (BaseRoot i))) (\<lambda>root.
      require (validKind (Kind i)) (JournalInvalid ''unsupported journal operation kind'') (
      bindE (normalizePath (Path i)) (\<lambda>path.
      normalizeKind L (i\<lparr>BaseRoot := root, Path := path\<rparr>))))))))"

definition trimOperation :: "Operation \<Rightarrow> Operation" where
  "trimOperation operation =
     operation\<lparr>ConflictID := TrimSpace (ConflictID operation),
       ResultRoot := TrimSpace (ResultRoot operation),
       ReplacementOperationID := TrimSpace (ReplacementOperationID operation)\<rparr>"

definition normalizeResult :: "cid_lib \<Rightarrow> Operation \<Rightarrow> journal_error + Operation" where
  "normalizeResult L operation =
     (if Status operation = StatusCompleted then
        bindE (of_option (JournalInvalid ''completed operation result root'')
                 (canonicalCID L (ResultRoot operation)))
          (\<lambda>root. Inr (operation\<lparr>ResultRoot := root\<rparr>))
      else require (ResultRoot operation = [])
             (JournalInvalid ''incomplete operation contains result root'') (Inr operation))"

definition normalizeOperation :: "cid_lib \<Rightarrow> Operation \<Rightarrow> journal_error + Operation" where
  "normalizeOperation L operation0 =
     bindE (normalizeIntent L (op_Intent operation0)) (\<lambda>intent.
     let operation = operation0\<lparr>op_Intent := intent\<rparr> in
     require (Sequence operation \<noteq> 0 \<and> validStatus (Status operation) \<and>
              CreatedAt operation \<noteq> 0 \<and> UpdatedAt operation \<noteq> 0 \<and>
              \<not> UpdatedAt operation < CreatedAt operation)
       (JournalInvalid ''operation lifecycle metadata is invalid'') (
     let operation = trimOperation operation in
     require (ValidString (ConflictID operation) \<and>
              ValidString (ReplacementOperationID operation))
       (JournalInvalid ''operation lifecycle identity is not valid UTF-8'') (
     require (\<not> (Status operation = StatusConflicted \<and> ConflictID operation = []))
       (JournalInvalid ''conflicted operation has no conflict identity'') (
     require (\<not> (Status operation \<noteq> StatusConflicted \<and> Status operation \<noteq> StatusSuperseded \<and>
                 ConflictID operation \<noteq> []))
       (JournalInvalid ''non-conflicted operation contains conflict identity'') (
     require (if Status operation = StatusSuperseded
              then ReplacementOperationID operation \<noteq> [] \<and> ConflictID operation \<noteq> []
              else ReplacementOperationID operation = [])
       (JournalInvalid ''operation replacement identity is inconsistent'') (
     normalizeResult L operation))))))"

fun normalizeOperationIDs_from :: "string list \<Rightarrow> string list \<Rightarrow> journal_error + string list" where
  "normalizeOperationIDs_from seen [] = Inr []"
| "normalizeOperationIDs_from seen (value # values) =
     (let key = TrimSpace value in
      require (key \<noteq> [] \<and> ValidString key \<and> \<not> has_nul key)
        (JournalInvalid ''journal operation identity is empty or invalid'') (
      require (key \<notin> set seen)
        (JournalInvalid ''journal operation batch contains duplicate identity'') (
      bindE (normalizeOperationIDs_from (key # seen) values) (\<lambda>ids. Inr (key # ids)))))"

definition normalizeOperationIDs :: "string list \<Rightarrow> journal_error + string list" where
  "normalizeOperationIDs values =
     require (values \<noteq> []) (JournalInvalid ''journal operation batch is empty'')
       (normalizeOperationIDs_from [] values)"

section \<open>Validation on reload\<close>

fun check_operations ::
  "cid_lib \<Rightarrow> uint64 \<Rightarrow> (string, bool) gomap \<Rightarrow> (string, bool) gomap \<Rightarrow> uint64 list \<Rightarrow> string list
    \<Rightarrow> (string, Operation) gomap \<Rightarrow> journal_error + (string, Operation) gomap" where
  "check_operations L nextSeq usedOps usedRetry seenSeq seenRetry [] = Inr []"
| "check_operations L nextSeq usedOps usedRetry seenSeq seenRetry ((key, operation) # rest) =
     bindE (normalizeOperation L operation) (\<lambda>normalized.
     require (op_id normalized = key \<and> Sequence normalized \<noteq> 0 \<and> Sequence normalized < nextSeq)
       (JournalInvalid ''journal operation has invalid persisted identity or sequence'') (
     require (Sequence normalized \<notin> set seenSeq)
       (JournalInvalid ''journal contains duplicate sequence'') (
     require (op_retry normalized \<notin> set seenRetry)
       (JournalInvalid ''journal contains duplicate retry identity'') (
     require (gm_flag usedOps (op_id normalized) \<and> gm_flag usedRetry (op_retry normalized))
       (JournalInvalid ''journal operation is missing durable identity tombstones'') (
     bindE (check_operations L nextSeq usedOps usedRetry (Sequence normalized # seenSeq)
              (op_retry normalized # seenRetry) rest)
       (\<lambda>rest'. Inr ((key, normalized) # rest')))))))"

definition valid_tombstone :: "string \<times> bool \<Rightarrow> bool" where
  "valid_tombstone entry \<longleftrightarrow>
     (case entry of (key, used) \<Rightarrow>
        used \<and> TrimSpace key \<noteq> [] \<and> TrimSpace key = key \<and> ValidString key)"

definition replacement_ok :: "(string, Operation) gomap \<Rightarrow> Operation \<Rightarrow> bool" where
  "replacement_ok ops operation \<longleftrightarrow>
     (case gm_get ops (ReplacementOperationID operation) of
        None \<Rightarrow> False
      | Some replacement \<Rightarrow>
          Sequence operation < Sequence replacement \<and>
          DatasetID (op_Intent replacement) = DatasetID (op_Intent operation) \<and>
          Branch (op_Intent replacement) = Branch (op_Intent operation))"

fun check_replacements ::
  "(string, Operation) gomap \<Rightarrow> string list \<Rightarrow> (string, Operation) gomap
    \<Rightarrow> journal_error + unit" where
  "check_replacements ops inbound [] = Inr ()"
| "check_replacements ops inbound ((key, operation) # rest) =
     (if Status operation \<noteq> StatusSuperseded then check_replacements ops inbound rest
      else
        require (replacement_ok ops operation)
          (JournalInvalid ''superseded journal operation has an invalid replacement'') (
        require (ReplacementOperationID operation \<notin> set inbound)
          (JournalInvalid ''superseded journal operations share a replacement'') (
        check_replacements ops (ReplacementOperationID operation # inbound) rest)))"

definition reloadLocked :: "cid_lib \<Rightarrow> journal_file \<Rightarrow> journal_error + persistedState" where
  "reloadLocked L file =
     (case (file_Operations file, file_UsedOperationIDs file, file_UsedRetryIDs file) of
        (Some ops, Some usedOps, Some usedRetry) \<Rightarrow>
          require (file_Version file = journalVersion \<and> file_NextSequence file \<noteq> 0)
            (JournalInvalid ''unsupported operation-journal version'') (
          bindE (check_operations L (file_NextSequence file) usedOps usedRetry [] [] ops) (\<lambda>ops'.
          require (list_all valid_tombstone usedOps)
            (JournalInvalid ''journal contains an invalid operation identity tombstone'') (
          require (list_all valid_tombstone usedRetry)
            (JournalInvalid ''journal contains an invalid retry identity tombstone'') (
          bindE (check_replacements ops' [] ops') (\<lambda>_.
          Inr \<lparr>Version = file_Version file, NextSequence = file_NextSequence file,
               Operations = ops', UsedOperationIDs = usedOps, UsedRetryIDs = usedRetry\<rparr>)))))
      | _ \<Rightarrow> Inl (JournalInvalid ''unsupported operation-journal version''))"

definition encodeState :: "persistedState \<Rightarrow> journal_file" where
  "encodeState s =
     \<lparr>file_Version = journalVersion, file_NextSequence = NextSequence s,
      file_Operations = Some (Operations s), file_UsedOperationIDs = Some (UsedOperationIDs s),
      file_UsedRetryIDs = Some (UsedRetryIDs s)\<rparr>"

section \<open>Operations on the loaded state\<close>

definition allowedStatusTransition :: "Status \<Rightarrow> Status \<Rightarrow> bool" where
  "allowedStatusTransition current next =
     (case current of
        StatusLocalDirty \<Rightarrow>
          next = StatusOfflineOnly \<or> next = StatusPendingUpload \<or> next = StatusConflicted
      | StatusOfflineOnly \<Rightarrow>
          next = StatusLocalDirty \<or> next = StatusPendingUpload \<or> next = StatusConflicted
      | StatusPendingUpload \<Rightarrow> next = StatusConflicted \<or> next = StatusCompleted
      | _ \<Rightarrow> False)"

definition appendLocked ::
  "Intent \<Rightarrow> Status \<Rightarrow> time \<Rightarrow> persistedState \<Rightarrow> journal_error + (Operation \<times> persistedState)" where
  "appendLocked intent initial now s =
     (case gm_get (Operations s) (OperationID intent) of
        Some existing \<Rightarrow>
          if op_Intent existing \<noteq> intent then Inl ErrIdentityReuse else Inr (existing, s)
      | None \<Rightarrow>
          if gm_flag (UsedOperationIDs s) (OperationID intent) \<or>
             gm_flag (UsedRetryIDs s) (RetryID intent)
          then Inl ErrIdentityReuse
          else
            let result =
              \<lparr>op_Intent = intent, Sequence = NextSequence s, Status = initial, ConflictID = [],
               ResultRoot = [], ReplacementOperationID = [], CreatedAt = now, UpdatedAt = now\<rparr>
            in Inr (result,
                 s\<lparr>NextSequence := uint64_inc (NextSequence s),
                   Operations := gm_put (Operations s) (OperationID intent) result,
                   UsedOperationIDs := gm_put (UsedOperationIDs s) (OperationID intent) True,
                   UsedRetryIDs := gm_put (UsedRetryIDs s) (RetryID intent) True\<rparr>))"

definition transitionLocked ::
  "string \<Rightarrow> Status \<Rightarrow> string \<Rightarrow> string \<Rightarrow> time \<Rightarrow> persistedState
    \<Rightarrow> journal_error + (Operation \<times> persistedState)" where
  "transitionLocked operationID next conflictID resultRoot now s =
     (case gm_get (Operations s) operationID of
        None \<Rightarrow> Inl ErrNotFound
      | Some operation \<Rightarrow>
          if Status operation = next then
            (if ConflictID operation \<noteq> conflictID \<or> ResultRoot operation \<noteq> resultRoot
             then Inl ErrIdentityReuse else Inr (operation, s))
          else if \<not> allowedStatusTransition (Status operation) next then
            (if Status operation = StatusPendingUpload \<and> next = StatusOfflineOnly
             then Inl ErrRequestFrozen
             else Inl (ErrInvalidStatus (Status operation) next))
          else
            let operation' = operation\<lparr>Status := next, ConflictID := conflictID,
                  ResultRoot := resultRoot, UpdatedAt := now\<rparr>
            in Inr (operation', s\<lparr>Operations := gm_put (Operations s) operationID operation'\<rparr>))"

text \<open>
  The batch operations share a shape: look every identity up and classify it (the first failure
  ends the call), then move each operation that is not there yet to the target status.
\<close>

fun selectBatch ::
  "(Operation \<Rightarrow> journal_error option) \<Rightarrow> (string, Operation) gomap \<Rightarrow> string list
    \<Rightarrow> journal_error + Operation list" where
  "selectBatch classify ops [] = Inr []"
| "selectBatch classify ops (key # ids) =
     (case gm_get ops key of
        None \<Rightarrow> Inl ErrNotFound
      | Some operation \<Rightarrow>
          (case classify operation of
             Some e \<Rightarrow> Inl e
           | None \<Rightarrow> bindE (selectBatch classify ops ids) (\<lambda>rest. Inr (operation # rest))))"

fun applyBatch ::
  "Status \<Rightarrow> (Operation \<Rightarrow> Operation) \<Rightarrow> Operation list \<Rightarrow> (string, Operation) gomap
    \<Rightarrow> Operation list \<times> (string, Operation) gomap" where
  "applyBatch target change [] ops = ([], ops)"
| "applyBatch target change (operation # rest) ops =
     (let operation' = (if Status operation \<noteq> target then change operation else operation);
          ops' = (if Status operation \<noteq> target then gm_put ops (op_id operation) operation' else ops);
          (selected, ops'') = applyBatch target change rest ops'
      in (operation' # selected, ops''))"

definition batchLocked ::
  "(Operation \<Rightarrow> journal_error option) \<Rightarrow> Status \<Rightarrow> (Operation \<Rightarrow> Operation) \<Rightarrow> string list
    \<Rightarrow> persistedState \<Rightarrow> journal_error + (Operation list \<times> persistedState)" where
  "batchLocked classify target change ids s =
     bindE (selectBatch classify (Operations s) ids) (\<lambda>selected.
       let (selected', ops') = applyBatch target change selected (Operations s)
       in Inr (sort_key Sequence selected', s\<lparr>Operations := ops'\<rparr>))"

definition freezeClass :: "Operation \<Rightarrow> journal_error option" where
  "freezeClass operation =
     (case Status operation of
        StatusLocalDirty \<Rightarrow> None | StatusOfflineOnly \<Rightarrow> None | StatusPendingUpload \<Rightarrow> None
      | other \<Rightarrow> Some (ErrInvalidStatus other StatusPendingUpload))"

definition conflictClass :: "string \<Rightarrow> Operation \<Rightarrow> journal_error option" where
  "conflictClass conflictID operation =
     (if Status operation = StatusConflicted then
        (if ConflictID operation \<noteq> conflictID then Some ErrIdentityReuse else None)
      else if Status operation \<noteq> StatusPendingUpload
        then Some (ErrInvalidStatus (Status operation) StatusConflicted)
      else None)"

definition completeClass :: "string \<Rightarrow> Operation \<Rightarrow> journal_error option" where
  "completeClass root operation =
     (if Status operation = StatusCompleted then
        (if ResultRoot operation \<noteq> root then Some ErrIdentityReuse else None)
      else if Status operation \<noteq> StatusPendingUpload
        then Some (ErrInvalidStatus (Status operation) StatusCompleted)
      else None)"

definition freezeBatchLocked ::
  "string list \<Rightarrow> time \<Rightarrow> persistedState \<Rightarrow> journal_error + (Operation list \<times> persistedState)" where
  "freezeBatchLocked ids now =
     batchLocked freezeClass StatusPendingUpload
       (\<lambda>operation. operation\<lparr>Status := StatusPendingUpload, UpdatedAt := now\<rparr>) ids"

definition conflictBatchLocked ::
  "string list \<Rightarrow> string \<Rightarrow> time \<Rightarrow> persistedState
    \<Rightarrow> journal_error + (Operation list \<times> persistedState)" where
  "conflictBatchLocked ids conflictID now =
     batchLocked (conflictClass conflictID) StatusConflicted
       (\<lambda>operation. operation\<lparr>Status := StatusConflicted, ConflictID := conflictID,
          UpdatedAt := now\<rparr>) ids"

definition completeBatchLocked ::
  "string list \<Rightarrow> string \<Rightarrow> time \<Rightarrow> persistedState
    \<Rightarrow> journal_error + (Operation list \<times> persistedState)" where
  "completeBatchLocked ids root now =
     batchLocked (completeClass root) StatusCompleted
       (\<lambda>operation. operation\<lparr>Status := StatusCompleted, ResultRoot := root,
          UpdatedAt := now\<rparr>) ids"

definition resolveLocked ::
  "string \<Rightarrow> Intent \<Rightarrow> Status \<Rightarrow> time \<Rightarrow> persistedState
    \<Rightarrow> journal_error + ((Operation \<times> Operation) \<times> persistedState)" where
  "resolveLocked operationID replacement initial now s =
     (case gm_get (Operations s) operationID of
        None \<Rightarrow> Inl ErrNotFound
      | Some current \<Rightarrow>
          if Status current = StatusSuperseded then
            (if ReplacementOperationID current \<noteq> OperationID replacement then Inl ErrIdentityReuse
             else case gm_get (Operations s) (OperationID replacement) of
                 None \<Rightarrow> Inl ErrIdentityReuse
               | Some existing \<Rightarrow>
                   if op_Intent existing \<noteq> replacement then Inl ErrIdentityReuse
                   else Inr ((current, existing), s))
          else if Status current \<noteq> StatusConflicted then
            Inl (ErrInvalidStatus (Status current) StatusSuperseded)
          else if DatasetID replacement \<noteq> DatasetID (op_Intent current) \<or>
                  Branch replacement \<noteq> Branch (op_Intent current) then
            Inl (JournalInvalid ''replacement operation changes dataset or branch identity'')
          else if gm_get (Operations s) (OperationID replacement) \<noteq> None then Inl ErrIdentityReuse
          else
            bindE (appendLocked replacement initial now s) (\<lambda>(next, s').
              let current' = current\<lparr>Status := StatusSuperseded,
                    ReplacementOperationID := op_id next, UpdatedAt := now\<rparr>
              in Inr ((current', next),
                   s'\<lparr>Operations := gm_put (Operations s') operationID current'\<rparr>)))"

text \<open>
  Pruning.  \<open>prune_pass\<close> is one sweep of the loop over the map, adding every superseded record
  whose replacement is already selected; \<open>prune_close\<close> repeats it while a sweep adds something.
\<close>

definition prune_one ::
  "string list \<times> bool \<Rightarrow> string \<times> Operation \<Rightarrow> string list \<times> bool" where
  "prune_one acc entry =
     (case (acc, entry) of ((selected, changed), (key, operation)) \<Rightarrow>
        if Status operation \<noteq> StatusSuperseded then (selected, changed)
        else if ReplacementOperationID operation \<notin> set selected then (selected, changed)
        else if key \<notin> set selected then (key # selected, True)
        else (selected, changed))"

definition prune_pass ::
  "(string, Operation) gomap \<Rightarrow> string list \<Rightarrow> string list \<times> bool" where
  "prune_pass ops selected = foldl prune_one (selected, False) ops"

lemma prune_one_cases:
  "prune_one (sel, ch) (key, operation) = (sel, ch) \<or>
   prune_one (sel, ch) (key, operation) = (key # sel, True) \<and> key \<notin> set sel"
  by (simp add: prune_one_def)

lemma foldl_prune_one:
  assumes "foldl prune_one (sel, ch) ops = (sel', ch')"
  shows "set sel \<subseteq> set sel'" and "ch \<Longrightarrow> ch'" and "ch' \<Longrightarrow> \<not> ch \<Longrightarrow> set sel' \<noteq> set sel"
    and "set sel' \<subseteq> set sel \<union> fst ` set ops" and "\<not> ch' \<Longrightarrow> sel' = sel"
  using assms
proof (induction ops arbitrary: sel ch)
  case (Cons p ops)
  obtain key operation where p: "p = (key, operation)" by (cases p)
  {
    case 1
    show ?case using prune_one_cases [of sel ch key operation] Cons.IH(1) 1 p by fastforce
  next
    case 2
    show ?case using prune_one_cases [of sel ch key operation] Cons.IH(2) 2 p by fastforce
  next
    case 3
    show ?case
      using prune_one_cases [of sel ch key operation] Cons.IH(1,3) 3 p by fastforce
  next
    case 4
    show ?case using prune_one_cases [of sel ch key operation] Cons.IH(4) 4 p by fastforce
  next
    case 5
    show ?case
      using prune_one_cases [of sel ch key operation] Cons.IH(2,5) 5 p by fastforce
  }
qed auto

function prune_close :: "(string, Operation) gomap \<Rightarrow> string list \<Rightarrow> string list" where
  "prune_close ops selected =
     (case prune_pass ops selected of
        (selected', changed) \<Rightarrow> if changed then prune_close ops selected' else selected')"
  by pat_completeness auto
termination
proof (relation "measure (\<lambda>(ops, selected). card (fst ` set ops - set selected))", goal_cases)
  case (2 ops selected selected' changed)
  then have "foldl prune_one (selected, False) ops = (selected', True)"
    by (simp add: prune_pass_def)
  note f = foldl_prune_one [OF this]
  then have "fst ` set ops - set selected' \<subset> fst ` set ops - set selected"
    by blast
  then show ?case
    by (simp add: psubset_card_mono)
qed simp

declare prune_close.simps [simp del]

definition pruneSelected :: "(string, Operation) gomap \<Rightarrow> string list" where
  "pruneSelected ops =
     prune_close ops (map fst (filter (\<lambda>(key, operation). Status operation = StatusCompleted) ops))"

definition pruneLocked :: "persistedState \<Rightarrow> journal_error + (nat \<times> persistedState)" where
  "pruneLocked s =
     (let selected = pruneSelected (Operations s)
      in Inr (length (remdups selected),
           s\<lparr>Operations := filter (\<lambda>(key, operation). key \<notin> set selected) (Operations s)\<rparr>))"

definition listLocked ::
  "(Status \<Rightarrow> bool) \<Rightarrow> persistedState \<Rightarrow> journal_error + Operation list" where
  "listLocked include s =
     Inr (sort_key Sequence
       (filter (\<lambda>operation. include (Status operation)) (map snd (Operations s))))"

definition replayable :: "Status \<Rightarrow> bool" where
  "replayable status \<longleftrightarrow>
     status = StatusLocalDirty \<or> status = StatusOfflineOnly \<or> status = StatusPendingUpload"

definition unfinished :: "Status \<Rightarrow> bool" where
  "unfinished status \<longleftrightarrow> status \<noteq> StatusCompleted \<and> status \<noteq> StatusSuperseded"

section \<open>The store\<close>

type_synonym journal_disk = "journal_file content option"

definition writeSteps :: "io_step list" where
  "writeSteps =
     [Marshal, CreateTemp, SecureTemp, WriteTemp, ShortWrite, SyncTemp, CloseTemp,
      RenameTemp, SyncParent, SecureTarget]"

definition withState ::
  "cid_lib \<Rightarrow> faults \<Rightarrow> (persistedState \<Rightarrow> (journal_error + 'r) \<times> persistedState option)
    \<Rightarrow> journal_disk \<Rightarrow> (journal_error + 'r) \<times> journal_disk" where
  "withState L F operation disk =
     with_state writeSteps F JournalIO (JournalInvalid ''decode operation journal'')
       emptyState (reloadLocked L) encodeState operation disk"

text \<open>An argument error returns before the store is touched.\<close>

definition with_argument ::
  "journal_error + 'a \<Rightarrow> ('a \<Rightarrow> journal_disk \<Rightarrow> (journal_error + 'r) \<times> journal_disk)
    \<Rightarrow> journal_disk \<Rightarrow> (journal_error + 'r) \<times> journal_disk" where
  "with_argument arg k disk = (case arg of Inl e \<Rightarrow> (Inl e, disk) | Inr a \<Rightarrow> k a disk)"

definition journal_Open ::
  "cid_lib \<Rightarrow> faults \<Rightarrow> string \<Rightarrow> journal_disk \<Rightarrow> (journal_error + unit) \<times> journal_disk" where
  "journal_Open L F filePath disk =
     (if TrimSpace filePath = [] then (Inl (JournalInvalid ''operation-journal path is empty''), disk)
      else withState L F (reading (\<lambda>_. Inr ())) disk)"

definition randomID :: "string \<Rightarrow> string option \<Rightarrow> journal_error + string" where
  "randomID pre encoded =
     bindE (of_option (JournalInvalid ''random source failed'') encoded) (\<lambda>text. Inr (pre @ text))"

definition NewIntent ::
  "cid_lib \<Rightarrow> string option \<Rightarrow> string option \<Rightarrow> string \<Rightarrow> string \<Rightarrow> string \<Rightarrow> uint64 \<Rightarrow> Kind
    \<Rightarrow> string \<Rightarrow> string \<Rightarrow> string \<Rightarrow> nat \<Rightarrow> journal_error + Intent" where
  "NewIntent L rnd1 rnd2 datasetID branch baseRoot baseRevision kind operationPath destination
       payloadCID encryptionEpoch =
     bindE (randomID ''op_'' rnd1) (\<lambda>operationID.
     bindE (randomID ''retry_'' rnd2) (\<lambda>retryID.
     normalizeIntent L
       \<lparr>OperationID = operationID, RetryID = retryID, DatasetID = datasetID, Branch = branch,
        BaseRoot = baseRoot, BaseRevision = baseRevision, Kind = kind, Path = operationPath,
        Destination = destination, PayloadCID = payloadCID,
        EncryptionEpoch = encryptionEpoch\<rparr>))"

definition checkInitial :: "Status \<Rightarrow> journal_error + unit" where
  "checkInitial initial =
     require (initial = StatusLocalDirty \<or> initial = StatusOfflineOnly)
       (JournalInvalid ''new journal operation must be local_dirty or offline_only'') (Inr ())"

definition journal_Append ::
  "cid_lib \<Rightarrow> faults \<Rightarrow> time \<Rightarrow> Intent \<Rightarrow> Status \<Rightarrow> journal_disk
    \<Rightarrow> (journal_error + Operation) \<times> journal_disk" where
  "journal_Append L F now intent initial =
     with_argument
       (bindE (normalizeIntent L intent) (\<lambda>i. bindE (checkInitial initial) (\<lambda>_. Inr i)))
       (\<lambda>i. withState L F (writing (appendLocked i initial now)))"

definition checkOperationID :: "string \<Rightarrow> journal_error + string" where
  "checkOperationID operationID =
     (let key = TrimSpace operationID in
      require (key \<noteq> [] \<and> ValidString key)
        (JournalInvalid ''journal operation identity is empty'') (Inr key))"

definition checkConflictID :: "string \<Rightarrow> journal_error + string" where
  "checkConflictID conflictID =
     (let value = TrimSpace conflictID in
      require (value \<noteq> [] \<and> ValidString value)
        (JournalInvalid ''journal conflict identity is empty or not valid UTF-8'') (Inr value))"

definition checkResultRoot :: "cid_lib \<Rightarrow> string \<Rightarrow> journal_error + string" where
  "checkResultRoot L resultRoot =
     of_option (JournalInvalid ''journal result root'') (canonicalCID L (TrimSpace resultRoot))"

definition journal_transition ::
  "cid_lib \<Rightarrow> faults \<Rightarrow> time \<Rightarrow> string \<Rightarrow> Status \<Rightarrow> string \<Rightarrow> string \<Rightarrow> journal_disk
    \<Rightarrow> (journal_error + Operation) \<times> journal_disk" where
  "journal_transition L F now operationID next conflictID resultRoot =
     with_argument (checkOperationID operationID)
       (\<lambda>key. withState L F (writing (transitionLocked key next conflictID resultRoot now)))"

definition journal_FreezeForUpload ::
  "cid_lib \<Rightarrow> faults \<Rightarrow> time \<Rightarrow> string \<Rightarrow> journal_disk
    \<Rightarrow> (journal_error + Operation) \<times> journal_disk" where
  "journal_FreezeForUpload L F now operationID =
     journal_transition L F now operationID StatusPendingUpload [] []"

definition journal_MarkOffline ::
  "cid_lib \<Rightarrow> faults \<Rightarrow> time \<Rightarrow> string \<Rightarrow> journal_disk
    \<Rightarrow> (journal_error + Operation) \<times> journal_disk" where
  "journal_MarkOffline L F now operationID =
     journal_transition L F now operationID StatusOfflineOnly [] []"

definition journal_MarkConflicted ::
  "cid_lib \<Rightarrow> faults \<Rightarrow> time \<Rightarrow> string \<Rightarrow> string \<Rightarrow> journal_disk
    \<Rightarrow> (journal_error + Operation) \<times> journal_disk" where
  "journal_MarkConflicted L F now operationID conflictID =
     with_argument (checkConflictID conflictID)
       (\<lambda>value. journal_transition L F now operationID StatusConflicted value [])"

definition journal_Complete ::
  "cid_lib \<Rightarrow> faults \<Rightarrow> time \<Rightarrow> string \<Rightarrow> string \<Rightarrow> journal_disk
    \<Rightarrow> (journal_error + Operation) \<times> journal_disk" where
  "journal_Complete L F now operationID resultRoot =
     with_argument (checkResultRoot L resultRoot)
       (\<lambda>root. journal_transition L F now operationID StatusCompleted [] root)"

definition journal_FreezeBatchForUpload ::
  "cid_lib \<Rightarrow> faults \<Rightarrow> time \<Rightarrow> string list \<Rightarrow> journal_disk
    \<Rightarrow> (journal_error + Operation list) \<times> journal_disk" where
  "journal_FreezeBatchForUpload L F now operationIDs =
     with_argument (normalizeOperationIDs operationIDs)
       (\<lambda>keys. withState L F (writing (freezeBatchLocked keys now)))"

definition journal_MarkBatchConflicted ::
  "cid_lib \<Rightarrow> faults \<Rightarrow> time \<Rightarrow> string list \<Rightarrow> string \<Rightarrow> journal_disk
    \<Rightarrow> (journal_error + Operation list) \<times> journal_disk" where
  "journal_MarkBatchConflicted L F now operationIDs conflictID =
     with_argument (normalizeOperationIDs operationIDs)
       (\<lambda>keys. with_argument (checkConflictID conflictID)
          (\<lambda>value. withState L F (writing (conflictBatchLocked keys value now))))"

definition journal_CompleteBatch ::
  "cid_lib \<Rightarrow> faults \<Rightarrow> time \<Rightarrow> string list \<Rightarrow> string \<Rightarrow> journal_disk
    \<Rightarrow> (journal_error + Operation list) \<times> journal_disk" where
  "journal_CompleteBatch L F now operationIDs resultRoot =
     with_argument (normalizeOperationIDs operationIDs)
       (\<lambda>keys. with_argument (checkResultRoot L resultRoot)
          (\<lambda>root. withState L F (writing (completeBatchLocked keys root now))))"

definition journal_ResolveConflict ::
  "cid_lib \<Rightarrow> faults \<Rightarrow> time \<Rightarrow> string \<Rightarrow> Intent \<Rightarrow> Status \<Rightarrow> journal_disk
    \<Rightarrow> (journal_error + (Operation \<times> Operation)) \<times> journal_disk" where
  "journal_ResolveConflict L F now operationID replacement initial =
     with_argument
       (bindE (checkOperationID operationID) (\<lambda>key.
        bindE (normalizeIntent L replacement) (\<lambda>i.
        bindE (checkInitial initial) (\<lambda>_.
        require (OperationID i \<noteq> key) ErrIdentityReuse (Inr (key, i))))))
       (\<lambda>(key, i). withState L F (writing (resolveLocked key i initial now)))"

definition journal_Get ::
  "cid_lib \<Rightarrow> faults \<Rightarrow> string \<Rightarrow> journal_disk \<Rightarrow> (journal_error + Operation) \<times> journal_disk" where
  "journal_Get L F operationID =
     with_argument
       (let key = TrimSpace operationID in
        require (ValidString key)
          (JournalInvalid ''journal operation identity is not valid UTF-8'') (Inr key))
       (\<lambda>key. withState L F (reading (\<lambda>s. of_option ErrNotFound (gm_get (Operations s) key))))"

definition journal_list ::
  "cid_lib \<Rightarrow> faults \<Rightarrow> (Status \<Rightarrow> bool) \<Rightarrow> journal_disk
    \<Rightarrow> (journal_error + Operation list) \<times> journal_disk" where
  "journal_list L F include = withState L F (reading (listLocked include))"

definition journal_Replayable ::
  "cid_lib \<Rightarrow> faults \<Rightarrow> journal_disk \<Rightarrow> (journal_error + Operation list) \<times> journal_disk" where
  "journal_Replayable L F = journal_list L F replayable"

definition journal_Unfinished ::
  "cid_lib \<Rightarrow> faults \<Rightarrow> journal_disk \<Rightarrow> (journal_error + Operation list) \<times> journal_disk" where
  "journal_Unfinished L F = journal_list L F unfinished"

definition journal_List ::
  "cid_lib \<Rightarrow> faults \<Rightarrow> journal_disk \<Rightarrow> (journal_error + Operation list) \<times> journal_disk" where
  "journal_List L F = journal_list L F (\<lambda>_. True)"

definition journal_PruneCompleted ::
  "cid_lib \<Rightarrow> faults \<Rightarrow> journal_disk \<Rightarrow> (journal_error + nat) \<times> journal_disk" where
  "journal_PruneCompleted L F = withState L F (writing pruneLocked)"

end
