(* ===== verification/JournalInv.thy ===== *)
theory JournalInv
  imports Journal
begin

text \<open>
  What the journal guarantees: canonical paths, idempotent normalization, the well-formedness
  invariant that the validation on reload accepts, and that every operation keeps it.
\<close>

section \<open>Canonical paths\<close>

text \<open>The declarative reading of \<open>normalizePath\<close>: plain elements joined by single slashes.\<close>

definition canonical_path :: "string \<Rightarrow> bool" where
  "canonical_path value \<longleftrightarrow>
     ValidString value \<and> \<not> has_nul value \<and> CHR 0x5C \<notin> set value \<and>
     list_all plain_element (split_on (CHR ''/'') value)"

lemma Contains_char: "Contains s [c] \<longleftrightarrow> c \<in> set s"
  by (induction s) (auto simp: HasPrefix_def)

lemma clean_push_set: "set (clean_push r out e) \<subseteq> set out \<union> {e, dotdot}"
  by (auto simp: clean_push_def split: list.splits if_splits)

lemma foldl_clean_push_set:
  "set (foldl (clean_push r) out es) \<subseteq> set out \<union> set es \<union> {dotdot}"
proof (induction es arbitrary: out)
  case (Cons e es)
  then show ?case using clean_push_set [of r out e] by fastforce
qed auto

lemma split_hd_prefix:
  assumes "CHR ''/'' \<notin> set p" and "HasPrefix v (p @ ''/'')"
  shows "hd (split_on (CHR ''/'') v) = p"
  using assms by (auto simp: HasPrefix_iff split_on_append)

lemma plain_path_Clean:
  assumes "list_all plain_element (split_on (CHR ''/'') v)"
  shows "path_Clean v = v"
proof -
  have "\<not> HasPrefix v ''/''"
  proof
    assume "HasPrefix v ''/''"
    then have "hd (split_on (CHR ''/'') v) = []"
      using split_hd_prefix [of "[]" v] by simp
    then show False
      using assms by (cases "split_on (CHR ''/'') v") (auto simp: plain_element_def)
  qed
  moreover have "v \<noteq> []" using assms by (auto simp: plain_element_def)
  ultimately show ?thesis
    by (simp add: path_Clean_def Let_def foldl_clean_push_plain [OF assms])
qed

lemma plain_path_not_dot:
  assumes "list_all plain_element (split_on (CHR ''/'') v)"
  shows "v \<noteq> dot" and "v \<noteq> dotdot" and "\<not> HasPrefix v ''../''" and "\<not> HasPrefix v ''/''"
    and "v \<noteq> []"
proof -
  have hd: "plain_element (hd (split_on (CHR ''/'') v))"
    using assms by (cases "split_on (CHR ''/'') v") auto
  then show "\<not> HasPrefix v ''../''" and "\<not> HasPrefix v ''/''"
    using split_hd_prefix [of dotdot v] split_hd_prefix [of "[]" v]
    by (auto simp: plain_element_def dotdot_def)
  show "v \<noteq> dot" "v \<noteq> dotdot" "v \<noteq> []"
    using assms by (auto simp: plain_element_def dot_def dotdot_def)
qed

lemma join_replicate_dotdot:
  "join_with (CHR ''/'') (replicate (Suc k) dotdot @ es) = dotdot \<or>
   HasPrefix (join_with (CHR ''/'') (replicate (Suc k) dotdot @ es)) ''../''"
proof (cases "replicate k dotdot @ es")
  case Nil
  then show ?thesis by simp
next
  case (Cons x xs)
  then have "join_with (CHR ''/'') (replicate (Suc k) dotdot @ es) =
      ''../'' @ join_with (CHR ''/'') (replicate k dotdot @ es)"
    by (simp add: dotdot_def join_with_Cons)
  then show ?thesis by (metis HasPrefix_append)
qed

lemma clean_fixpoint_plain:
  assumes rel: "\<not> HasPrefix v ''/''" and fp: "path_Clean v = v"
    and nd: "v \<noteq> dot" "v \<noteq> dotdot" "\<not> HasPrefix v ''../''"
  shows "list_all plain_element (split_on (CHR ''/'') v)"
proof -
  define out where "out = foldl (clean_push False) [] (split_on (CHR ''/'') v)"
  have "clean_stack []" by (auto simp: clean_stack_def intro: exI [of _ "[]"] exI [of _ 0])
  then have "clean_stack out" unfolding out_def by (rule clean_stack_foldl)
  then obtain a k where out: "out = a @ replicate k dotdot" and a: "list_all plain_element a"
    by (auto simp: clean_stack_def)
  have v: "v = join_with (CHR ''/'') (rev out)"
    using fp nd rel by (auto simp: path_Clean_def Let_def out_def split: if_splits)
  have "k = 0"
  proof (rule ccontr)
    assume "k \<noteq> 0"
    then obtain j where "k = Suc j" by (cases k) auto
    then have "rev out = replicate (Suc j) dotdot @ rev a"
      using out by (simp only: rev_append rev_replicate)
    then show False using join_replicate_dotdot [of j "rev a"] v nd by metis
  qed
  then have ra: "rev out = rev a" using out by simp
  have "path_Clean [] \<noteq> []"
    by (simp add: path_Clean_def clean_push_def HasPrefix_def dot_def)
  then have "v \<noteq> []" using fp by metis
  then have "a \<noteq> []" using v ra by auto
  moreover have "CHR ''/'' \<notin> set e" if "e \<in> set a" for e
  proof -
    have "e \<in> set (split_on (CHR ''/'') v) \<union> {dotdot}"
      using foldl_clean_push_set [of False "[]" "split_on (CHR ''/'') v"] that out
      by (auto simp: out_def)
    then show ?thesis using split_on_no_sep by (auto simp: dotdot_def)
  qed
  ultimately have "split_on (CHR ''/'') v = rev a"
    using split_join [of "rev a"] v ra by simp
  then show ?thesis using a by (simp add: list_all_rev)
qed

lemma normalizePath_iff: "normalizePath raw = Inr p \<longleftrightarrow> p = raw \<and> canonical_path raw"
proof
  assume "normalizePath raw = Inr p"
  then show "p = raw \<and> canonical_path raw"
    using clean_fixpoint_plain [of raw]
    by (auto simp: normalizePath_def canonical_path_def Contains_char Let_def split: if_splits)
next
  assume "p = raw \<and> canonical_path raw"
  then show "normalizePath raw = Inr p"
    using plain_path_not_dot [of raw] plain_path_Clean [of raw]
    by (auto simp: normalizePath_def canonical_path_def Contains_char Let_def)
qed

section \<open>Canonical intents\<close>

text \<open>The declarative reading of \<open>normalizeIntent\<close>: what each kind may carry.\<close>

definition kind_ok :: "cid_lib \<Rightarrow> Intent \<Rightarrow> bool" where
  "kind_ok L i \<longleftrightarrow>
     (case Kind i of
        KindWrite \<Rightarrow> Destination i = [] \<and> canonicalCID L (PayloadCID i) = Some (PayloadCID i)
      | KindRename \<Rightarrow>
          PayloadCID i = [] \<and> canonical_path (Destination i) \<and> Destination i \<noteq> Path i
      | KindOther _ \<Rightarrow> False
      | _ \<Rightarrow> Destination i = [] \<and> PayloadCID i = [])"

definition identity_ok :: "string \<Rightarrow> bool" where
  "identity_ok s \<longleftrightarrow> s \<noteq> [] \<and> \<not> has_nul s \<and> ValidString s"

definition canonical_intent :: "cid_lib \<Rightarrow> Intent \<Rightarrow> bool" where
  "canonical_intent L i \<longleftrightarrow>
     trimIntent i = i \<and> identity_ok (OperationID i) \<and> identity_ok (RetryID i) \<and>
     identity_ok (DatasetID i) \<and> identity_ok (Branch i) \<and>
     canonicalCID L (BaseRoot i) = Some (BaseRoot i) \<and> canonical_path (Path i) \<and> kind_ok L i"

lemma normalizeKind_fields:
  assumes "normalizeKind L i = Inr i'"
  shows "OperationID i' = OperationID i" and "RetryID i' = RetryID i"
    and "DatasetID i' = DatasetID i" and "Branch i' = Branch i"
    and "BaseRoot i' = BaseRoot i" and "Kind i' = Kind i" and "Path i' = Path i"
  using assms by (cases "Kind i"; auto simp: normalizeKind_def result_simps)+

lemma normalizeKind_ok:
  assumes ok: "cid_lib_ok L" and "normalizeKind L i = Inr i'" and "validKind (Kind i)"
  shows "kind_ok L i'"
proof (cases "Kind i")
  case KindWrite
  then obtain payload where "canonicalCID L (PayloadCID i) = Some payload" and "Destination i = []"
    and "i' = i\<lparr>PayloadCID := payload\<rparr>"
    using assms(2) by (auto simp: normalizeKind_def result_simps)
  then show ?thesis
    using KindWrite canonicalCID_idem [OF ok] by (simp add: kind_ok_def)
qed (use assms(2,3) in
    \<open>auto simp: normalizeKind_def kind_ok_def result_simps normalizePath_iff validKind_def\<close>)

lemma normalizeKind_fixed: "kind_ok L i \<Longrightarrow> normalizeKind L i = Inr i"
  by (cases "Kind i") (auto simp: normalizeKind_def kind_ok_def normalizePath_iff [THEN iffD2])

lemma normalizeKind_trimmed:
  assumes ok: "cid_lib_ok L" and "normalizeKind L i = Inr i'"
    and "TrimSpace (Destination i) = Destination i" and "TrimSpace (PayloadCID i) = PayloadCID i"
  shows "TrimSpace (Destination i') = Destination i' \<and> TrimSpace (PayloadCID i') = PayloadCID i'"
  using assms(2-)
  by (cases "Kind i")
    (auto simp: normalizeKind_def result_simps normalizePath_iff canonicalCID_trim [OF ok])

lemma normalizeIntent_canonical:
  assumes ok: "cid_lib_ok L" and norm: "normalizeIntent L i0 = Inr i"
  shows "canonical_intent L i"
proof -
  let ?t = "trimIntent i0"
  obtain root path where root: "canonicalCID L (BaseRoot ?t) = Some root"
    and path: "normalizePath (Path ?t) = Inr path"
    and kind: "normalizeKind L (?t\<lparr>BaseRoot := root, Path := path\<rparr>) = Inr i"
    and vk: "validKind (Kind ?t)"
    and ids: "identity_ok (OperationID ?t)" "identity_ok (RetryID ?t)"
      "identity_ok (DatasetID ?t)" "identity_ok (Branch ?t)"
    using norm by (auto simp: normalizeIntent_def Let_def result_simps identity_ok_def)
  note f = normalizeKind_fields [OF kind]
  have "TrimSpace (Destination i) = Destination i \<and> TrimSpace (PayloadCID i) = PayloadCID i"
    using normalizeKind_trimmed [OF ok kind] by (simp add: trimIntent_def)
  moreover have "path = Path ?t" and "canonical_path path"
    using path by (simp_all add: normalizePath_iff)
  moreover have "TrimSpace root = root" using ok root by (rule canonicalCID_trim)
  ultimately have "trimIntent i = i" and "canonical_path (Path i)"
    using f by (cases i, simp_all add: trimIntent_def)
  moreover have "kind_ok L i" using normalizeKind_ok [OF ok kind] vk by simp
  ultimately show ?thesis
    using f ids canonicalCID_idem [OF ok root] by (simp add: canonical_intent_def)
qed

lemma canonical_intent_fixed:
  assumes "canonical_intent L i"
  shows "normalizeIntent L i = Inr i"
proof -
  have "i\<lparr>BaseRoot := BaseRoot i, Path := Path i\<rparr> = i" by simp
  moreover have "validKind (Kind i)"
    using assms by (auto simp: canonical_intent_def kind_ok_def validKind_def split: Kind.splits)
  moreover have "normalizePath (Path i) = Inr (Path i)"
    using assms by (simp add: normalizePath_iff canonical_intent_def)
  ultimately show ?thesis
    using assms normalizeKind_fixed [of L i]
    by (simp add: normalizeIntent_def canonical_intent_def identity_ok_def)
qed

lemma canonical_intent_utf8:
  assumes ok: "cid_lib_ok L" and can: "canonical_intent L i"
  shows "list_all ValidString
    [OperationID i, RetryID i, DatasetID i, Branch i, BaseRoot i, Path i, Destination i, PayloadCID i]"
proof -
  have cid: "ValidString t" if "canonicalCID L s = Some t" for s t
    using canonicalCID_graphic [OF ok that] by (rule ValidString_graphic)
  have "ValidString (Destination i) \<and> ValidString (PayloadCID i)"
    using can cid by (cases "Kind i") (auto simp: canonical_intent_def kind_ok_def canonical_path_def)
  moreover have "ValidString (BaseRoot i)"
    using can cid by (auto simp: canonical_intent_def)
  ultimately show ?thesis
    using can by (simp add: canonical_intent_def identity_ok_def canonical_path_def)
qed

lemma canonical_intent_identity:
  assumes "canonical_intent L i"
  shows "valid_tombstone (OperationID i, True)" and "valid_tombstone (RetryID i, True)"
proof -
  have "TrimSpace (OperationID i) = OperationID (trimIntent i) \<and>
      TrimSpace (RetryID i) = RetryID (trimIntent i)"
    by (simp add: trimIntent_def)
  then show "valid_tombstone (OperationID i, True)" and "valid_tombstone (RetryID i, True)"
    using assms by (simp_all add: canonical_intent_def identity_ok_def valid_tombstone_def)
qed

section \<open>Well-formed operations\<close>

text \<open>Which lifecycle metadata each status carries.\<close>

definition lifecycle_ok :: "cid_lib \<Rightarrow> Operation \<Rightarrow> bool" where
  "lifecycle_ok L operation \<longleftrightarrow>
     (case Status operation of
        StatusConflicted \<Rightarrow>
          ConflictID operation \<noteq> [] \<and> ResultRoot operation = [] \<and>
          ReplacementOperationID operation = []
      | StatusCompleted \<Rightarrow>
          ConflictID operation = [] \<and> ReplacementOperationID operation = [] \<and>
          canonicalCID L (ResultRoot operation) = Some (ResultRoot operation)
      | StatusSuperseded \<Rightarrow>
          ConflictID operation \<noteq> [] \<and> ResultRoot operation = [] \<and>
          ReplacementOperationID operation \<noteq> []
      | StatusOther _ \<Rightarrow> False
      | _ \<Rightarrow>
          ConflictID operation = [] \<and> ResultRoot operation = [] \<and>
          ReplacementOperationID operation = [])"

definition op_wf :: "cid_lib \<Rightarrow> Operation \<Rightarrow> bool" where
  "op_wf L operation \<longleftrightarrow>
     canonical_intent L (op_Intent operation) \<and> Sequence operation \<noteq> 0 \<and>
     CreatedAt operation \<noteq> 0 \<and> CreatedAt operation \<le> UpdatedAt operation \<and>
     TrimSpace (ConflictID operation) = ConflictID operation \<and>
     TrimSpace (ReplacementOperationID operation) = ReplacementOperationID operation \<and>
     ValidString (ConflictID operation) \<and> ValidString (ReplacementOperationID operation) \<and>
     lifecycle_ok L operation"

lemma normalizeOperation_fixed:
  assumes ok: "cid_lib_ok L" and wf: "op_wf L operation"
  shows "normalizeOperation L operation = Inr operation"
proof -
  have "TrimSpace (ResultRoot operation) = ResultRoot operation"
    using wf canonicalCID_trim [OF ok]
    by (cases "Status operation") (auto simp: op_wf_def lifecycle_ok_def)
  then have trim: "trimOperation operation = operation"
    using wf by (simp add: trimOperation_def op_wf_def)
  have "operation\<lparr>op_Intent := op_Intent operation\<rparr> = operation" by simp
  then show ?thesis
    using wf trim canonical_intent_fixed [of L "op_Intent operation"]
    by (cases "Status operation")
      (simp_all add: normalizeOperation_def normalizeResult_def op_wf_def lifecycle_ok_def
        validStatus_def)
qed

lemma op_wf_utf8:
  assumes ok: "cid_lib_ok L" and wf: "op_wf L operation"
  shows "list_all ValidString
    [ConflictID operation, ResultRoot operation, ReplacementOperationID operation]"
proof -
  have "ValidString t" if "canonicalCID L s = Some t" for s t
    using canonicalCID_graphic [OF ok that] by (rule ValidString_graphic)
  then show ?thesis
    using wf by (cases "Status operation") (auto simp: op_wf_def lifecycle_ok_def)
qed

section \<open>The state invariant\<close>

definition ops_wf :: "cid_lib \<Rightarrow> persistedState \<Rightarrow> bool" where
  "ops_wf L s \<longleftrightarrow>
     (\<forall>(key, operation) \<in> set (Operations s).
        op_wf L operation \<and> op_id operation = key \<and> Sequence operation < NextSequence s \<and>
        gm_flag (UsedOperationIDs s) key \<and> gm_flag (UsedRetryIDs s) (op_retry operation))"

definition ops_distinct :: "(string, Operation) gomap \<Rightarrow> bool" where
  "ops_distinct ops \<longleftrightarrow>
     (\<forall>(k, a) \<in> set ops. \<forall>(k', b) \<in> set ops.
        (Sequence a = Sequence b \<or> op_retry a = op_retry b) \<longrightarrow> k = k')"

definition replacements_wf :: "(string, Operation) gomap \<Rightarrow> bool" where
  "replacements_wf ops \<longleftrightarrow>
     (\<forall>(k, a) \<in> set ops. Status a = StatusSuperseded \<longrightarrow>
        replacement_ok ops a \<and>
        (\<forall>(k', b) \<in> set ops. Status b = StatusSuperseded \<and>
           ReplacementOperationID a = ReplacementOperationID b \<longrightarrow> k = k'))"

definition journal_wf :: "cid_lib \<Rightarrow> persistedState \<Rightarrow> bool" where
  "journal_wf L s \<longleftrightarrow>
     Version s = journalVersion \<and> NextSequence s \<noteq> 0 \<and> gm_wf (Operations s) \<and>
     ops_wf L s \<and> ops_distinct (Operations s) \<and> replacements_wf (Operations s) \<and>
     list_all valid_tombstone (UsedOperationIDs s) \<and> list_all valid_tombstone (UsedRetryIDs s)"

lemma journal_wf_empty: "journal_wf L emptyState"
  by (simp add: journal_wf_def emptyState_def ops_wf_def ops_distinct_def replacements_wf_def)

lemma ops_wfI:
  assumes "gm_wf (Operations s)"
    and "\<And>key operation. gm_get (Operations s) key = Some operation \<Longrightarrow>
      op_wf L operation \<and> op_id operation = key \<and> Sequence operation < NextSequence s \<and>
      gm_flag (UsedOperationIDs s) key \<and> gm_flag (UsedRetryIDs s) (op_retry operation)"
  shows "ops_wf L s"
  using assms(2) unfolding ops_wf_def by (auto simp: gm_get_in_set [OF assms(1)])

lemma ops_wfD:
  assumes "journal_wf L s" and "gm_get (Operations s) key = Some operation"
  shows "op_wf L operation" and "op_id operation = key" and "Sequence operation < NextSequence s"
    and "gm_flag (UsedOperationIDs s) key" and "gm_flag (UsedRetryIDs s) (op_retry operation)"
  using assms by (auto simp: journal_wf_def ops_wf_def dest!: map_of_SomeD)

lemma ops_distinctI:
  assumes "gm_wf ops"
    and "\<And>k a k' b. gm_get ops k = Some a \<Longrightarrow> gm_get ops k' = Some b \<Longrightarrow>
      Sequence a = Sequence b \<or> op_retry a = op_retry b \<Longrightarrow> k = k'"
  shows "ops_distinct ops"
  using assms(2) unfolding ops_distinct_def by (auto simp: gm_get_in_set [OF assms(1)])

lemma ops_distinctD:
  assumes "gm_wf ops" and "ops_distinct ops" and "gm_get ops k = Some a" and "gm_get ops k' = Some b"
    and "Sequence a = Sequence b \<or> op_retry a = op_retry b"
  shows "k = k'"
  using assms(2-) unfolding ops_distinct_def by (auto simp: gm_get_in_set [OF assms(1), symmetric])

lemma replacements_wfI:
  assumes "gm_wf ops"
    and "\<And>k a. gm_get ops k = Some a \<Longrightarrow> Status a = StatusSuperseded \<Longrightarrow> replacement_ok ops a"
    and "\<And>k a k' b. gm_get ops k = Some a \<Longrightarrow> gm_get ops k' = Some b \<Longrightarrow>
      Status a = StatusSuperseded \<Longrightarrow> Status b = StatusSuperseded \<Longrightarrow>
      ReplacementOperationID a = ReplacementOperationID b \<Longrightarrow> k = k'"
  shows "replacements_wf ops"
  using assms(2,3) unfolding replacements_wf_def
  by (auto simp: gm_get_in_set [OF assms(1)])

lemma replacements_wfD:
  assumes "gm_wf ops" and "replacements_wf ops"
  shows "gm_get ops k = Some a \<Longrightarrow> Status a = StatusSuperseded \<Longrightarrow> replacement_ok ops a"
    and "gm_get ops k = Some a \<Longrightarrow> gm_get ops k' = Some b \<Longrightarrow>
      Status a = StatusSuperseded \<Longrightarrow> Status b = StatusSuperseded \<Longrightarrow>
      ReplacementOperationID a = ReplacementOperationID b \<Longrightarrow> k = k'"
  using assms(2) unfolding replacements_wf_def
  by (fastforce simp: gm_get_in_set [OF assms(1), symmetric])+

section \<open>Validation accepts well-formed states\<close>

lemma check_operations_ok:
  assumes ok: "cid_lib_ok L"
    and "\<forall>(key, operation) \<in> set ops.
        op_wf L operation \<and> op_id operation = key \<and> Sequence operation < n \<and>
        gm_flag usedOps key \<and> gm_flag usedRetry (op_retry operation) \<and>
        Sequence operation \<notin> set seenSeq \<and> op_retry operation \<notin> set seenRetry"
    and "distinct (map (\<lambda>p. Sequence (snd p)) ops)" and "distinct (map (\<lambda>p. op_retry (snd p)) ops)"
  shows "check_operations L n usedOps usedRetry seenSeq seenRetry ops = Inr ops"
  using assms(2-)
proof (induction ops arbitrary: seenSeq seenRetry)
  case (Cons p ops)
  obtain key operation where p: "p = (key, operation)" by (cases p)
  have new: "Sequence a \<noteq> Sequence operation \<and> op_retry a \<noteq> op_retry operation"
    if "(k, a) \<in> set ops" for k a
    using Cons.prems(2,3) p that by (auto simp: image_iff)
  have "check_operations L n usedOps usedRetry (Sequence operation # seenSeq)
      (op_retry operation # seenRetry) ops = Inr ops"
  proof (rule Cons.IH)
    show "\<forall>(key, operation') \<in> set ops.
        op_wf L operation' \<and> op_id operation' = key \<and> Sequence operation' < n \<and>
        gm_flag usedOps key \<and> gm_flag usedRetry (op_retry operation') \<and>
        Sequence operation' \<notin> set (Sequence operation # seenSeq) \<and>
        op_retry operation' \<notin> set (op_retry operation # seenRetry)"
      using Cons.prems(1) new by auto
  qed (use Cons.prems(2,3) in simp_all)
  moreover have "op_wf L operation \<and> op_id operation = key \<and> Sequence operation < n \<and>
      gm_flag usedOps key \<and> gm_flag usedRetry (op_retry operation) \<and>
      Sequence operation \<notin> set seenSeq \<and> op_retry operation \<notin> set seenRetry"
    using Cons.prems(1) p by simp
  moreover have "Sequence operation \<noteq> 0" using calculation by (simp add: op_wf_def)
  ultimately show ?case
    using p normalizeOperation_fixed [OF ok, of operation] by simp
qed simp

lemma check_replacements_ok:
  assumes "\<forall>(key, operation) \<in> set rest. Status operation = StatusSuperseded \<longrightarrow>
      replacement_ok ops operation \<and> ReplacementOperationID operation \<notin> set inbound"
    and "distinct (map (\<lambda>p. ReplacementOperationID (snd p))
      (filter (\<lambda>p. Status (snd p) = StatusSuperseded) rest))"
  shows "check_replacements ops inbound rest = Inr ()"
  using assms
proof (induction rest arbitrary: inbound)
  case (Cons p rest)
  obtain key operation where p: "p = (key, operation)" by (cases p)
  show ?case
  proof (cases "Status operation = StatusSuperseded")
    case True
    have new: "ReplacementOperationID a \<noteq> ReplacementOperationID operation"
      if "(k, a) \<in> set rest" and "Status a = StatusSuperseded" for k a
      using Cons.prems(2) p that True by (fastforce simp: image_iff)
    have "check_replacements ops (ReplacementOperationID operation # inbound) rest = Inr ()"
    proof (rule Cons.IH)
      show "\<forall>(key, operation') \<in> set rest. Status operation' = StatusSuperseded \<longrightarrow>
          replacement_ok ops operation' \<and>
          ReplacementOperationID operation' \<notin> set (ReplacementOperationID operation # inbound)"
        using Cons.prems(1) new by auto
    qed (use Cons.prems(2) p True in simp)
    then show ?thesis using True Cons.prems p by simp
  next
    case False
    then show ?thesis using Cons p by simp
  qed
qed simp

lemma reloadLocked_encodeState:
  assumes ok: "cid_lib_ok L" and wf: "journal_wf L s"
  shows "reloadLocked L (encodeState s) = Inr s"
proof -
  let ?ops = "Operations s"
  have gm: "gm_wf ?ops" and dist: "ops_distinct ?ops" and rep: "replacements_wf ?ops"
    using wf by (simp_all add: journal_wf_def)
  have "distinct (map (\<lambda>p. Sequence (snd p)) ?ops)"
    by (rule gm_distinct_map [OF gm]) (use dist in \<open>auto simp: ops_distinct_def\<close>)
  moreover have "distinct (map (\<lambda>p. op_retry (snd p)) ?ops)"
    by (rule gm_distinct_map [OF gm]) (use dist in \<open>auto simp: ops_distinct_def\<close>)
  ultimately have ops:
    "check_operations L (NextSequence s) (UsedOperationIDs s) (UsedRetryIDs s) [] [] ?ops = Inr ?ops"
    using wf by (intro check_operations_ok [OF ok]) (auto simp: journal_wf_def ops_wf_def)
  have "gm_wf (filter (\<lambda>p. Status (snd p) = StatusSuperseded) ?ops)"
    using gm by simp
  then have "distinct (map (\<lambda>p. ReplacementOperationID (snd p))
      (filter (\<lambda>p. Status (snd p) = StatusSuperseded) ?ops))"
    by (rule gm_distinct_map) (use rep in \<open>fastforce simp: replacements_wf_def\<close>)
  then have "check_replacements ?ops [] ?ops = Inr ()"
    using rep by (intro check_replacements_ok) (auto simp: replacements_wf_def)
  then show ?thesis
    using wf ops by (simp add: reloadLocked_def encodeState_def journal_wf_def)
qed

text \<open>
  The invariant of the store.  Without the library's laws only the empty journal is known to
  reload, so the invariant is that much and no more in that case.
\<close>

definition journal_inv :: "cid_lib \<Rightarrow> persistedState \<Rightarrow> bool" where
  "journal_inv L s \<longleftrightarrow> journal_wf L s \<and> (cid_lib_ok L \<or> s = emptyState)"

lemma journal_inv_iff: "cid_lib_ok L \<Longrightarrow> journal_inv L s \<longleftrightarrow> journal_wf L s"
  by (simp add: journal_inv_def)

interpretation journal: durable_store writeSteps JournalIO
  "JournalInvalid ''decode operation journal''" emptyState "reloadLocked L" encodeState
  "journal_inv L" for L
proof
  show "RenameTemp \<in> set writeSteps"
    by (simp add: writeSteps_def)
  show "journal_inv L emptyState"
    by (simp add: journal_inv_def journal_wf_empty)
  have "reloadLocked L (encodeState emptyState) = Inr emptyState"
    by (simp add: reloadLocked_def encodeState_def emptyState_def)
  then show "reloadLocked L (encodeState s) = Inr s" if "journal_inv L s" for s
    using that reloadLocked_encodeState by (auto simp: journal_inv_def)
qed

end
