(* ===== verification/JournalOps.thy ===== *)
theory JournalOps
  imports JournalInv
begin

text \<open>
  The journal's operations as steps on its state: every step keeps the invariant, and the frame
  lemmas say what each kind of step can and cannot change.
\<close>

section \<open>The clock\<close>

text \<open>
  The wall clock read by an operation is not before the creation time of any stored record.
\<close>

definition clock_ok :: "time \<Rightarrow> persistedState \<Rightarrow> bool" where
  "clock_ok now s \<longleftrightarrow> 0 < now \<and> (\<forall>(key, operation) \<in> set (Operations s). CreatedAt operation \<le> now)"

lemma clock_okD: "clock_ok now s \<Longrightarrow> gm_get (Operations s) key = Some operation \<Longrightarrow> CreatedAt operation \<le> now"
  by (auto simp: clock_ok_def dest: map_of_SomeD)

section \<open>Replacing one record\<close>

lemma replacement_ok_put:
  assumes "gm_get ops key = Some old" and "op_Intent new = op_Intent old"
    and "Sequence new = Sequence old"
  shows "replacement_ok (gm_put ops key new) operation = replacement_ok ops operation"
  using assms by (auto simp: replacement_ok_def split: option.splits)

lemma journal_wf_put:
  assumes wf: "journal_wf L s" and old: "gm_get (Operations s) key = Some old"
    and new: "op_wf L new" "op_Intent new = op_Intent old" "Sequence new = Sequence old"
    and st: "Status old \<noteq> StatusSuperseded"
    and sup: "Status new = StatusSuperseded \<Longrightarrow> replacement_ok (Operations s) new"
      "\<And>k a. Status new = StatusSuperseded \<Longrightarrow> gm_get (Operations s) k = Some a \<Longrightarrow>
         Status a = StatusSuperseded \<Longrightarrow> ReplacementOperationID a \<noteq> ReplacementOperationID new"
  shows "journal_wf L (s\<lparr>Operations := gm_put (Operations s) key new\<rparr>)"
proof -
  let ?ops = "Operations s"
  have gm: "gm_wf ?ops" and dist: "ops_distinct ?ops" and rep: "replacements_wf ?ops"
    using wf by (simp_all add: journal_wf_def)
  have gm': "gm_wf (gm_put ?ops key new)" using gm by (rule gm_wf_put)
  note roks = replacement_ok_put [OF old new(2,3)]
  have "ops_wf L (s\<lparr>Operations := gm_put ?ops key new\<rparr>)"
    by (rule ops_wfI)
      (use gm' ops_wfD [OF wf] old new in \<open>auto split: if_splits\<close>)
  moreover have "ops_distinct (gm_put ?ops key new)"
    by (rule ops_distinctI [OF gm'])
      (use ops_distinctD [OF gm dist] old new in \<open>auto split: if_splits\<close>)
  moreover have "replacements_wf (gm_put ?ops key new)"
  proof (rule replacements_wfI [OF gm'])
    show "replacement_ok (gm_put ?ops key new) a"
      if "gm_get (gm_put ?ops key new) k = Some a" and "Status a = StatusSuperseded" for k a
      using that sup(1) replacements_wfD(1) [OF gm rep] by (auto simp: roks split: if_splits)
    show "k = k'" if "gm_get (gm_put ?ops key new) k = Some a"
      and "gm_get (gm_put ?ops key new) k' = Some b"
      and "Status a = StatusSuperseded" and "Status b = StatusSuperseded"
      and "ReplacementOperationID a = ReplacementOperationID b" for k a k' b
      using that sup(2) replacements_wfD(2) [OF gm rep, of k a k' b]
      by (auto split: if_splits)
  qed
  ultimately show ?thesis using wf gm' by (simp add: journal_wf_def)
qed

section \<open>Appending\<close>

definition initial_ok :: "Status \<Rightarrow> bool" where
  "initial_ok initial \<longleftrightarrow> initial = StatusLocalDirty \<or> initial = StatusOfflineOnly"

definition fresh_operation :: "Intent \<Rightarrow> Status \<Rightarrow> time \<Rightarrow> persistedState \<Rightarrow> Operation" where
  "fresh_operation intent initial now s =
     \<lparr>op_Intent = intent, Sequence = NextSequence s, Status = initial, ConflictID = [],
      ResultRoot = [], ReplacementOperationID = [], CreatedAt = now, UpdatedAt = now\<rparr>"

lemma fresh_operation_simps [simp]:
  "op_Intent (fresh_operation intent initial now s) = intent"
  "Sequence (fresh_operation intent initial now s) = NextSequence s"
  "Status (fresh_operation intent initial now s) = initial"
  "CreatedAt (fresh_operation intent initial now s) = now"
  "UpdatedAt (fresh_operation intent initial now s) = now"
  by (simp_all add: fresh_operation_def)

lemma appendLocked_cases:
  assumes "appendLocked intent initial now s = Inr (result, s')"
  obtains (existing) "gm_get (Operations s) (OperationID intent) = Some result"
      and "op_Intent result = intent" and "s' = s"
  | (fresh) "gm_get (Operations s) (OperationID intent) = None"
      and "\<not> gm_flag (UsedOperationIDs s) (OperationID intent)"
      and "\<not> gm_flag (UsedRetryIDs s) (RetryID intent)"
      and "result = fresh_operation intent initial now s"
      and "s' = s\<lparr>NextSequence := uint64_inc (NextSequence s),
            Operations := gm_put (Operations s) (OperationID intent) result,
            UsedOperationIDs := gm_put (UsedOperationIDs s) (OperationID intent) True,
            UsedRetryIDs := gm_put (UsedRetryIDs s) (RetryID intent) True\<rparr>"
  using assms
  by (auto simp: appendLocked_def fresh_operation_def Let_def split: option.splits if_splits)

lemma valid_tombstone_put:
  assumes "list_all valid_tombstone m" and "valid_tombstone (k, True)"
  shows "list_all valid_tombstone (gm_put m k True)"
  using assms by (induction m) auto

lemma fresh_operation_wf:
  "canonical_intent L intent \<Longrightarrow> initial_ok initial \<Longrightarrow> 0 < now \<Longrightarrow> NextSequence s \<noteq> 0 \<Longrightarrow>
     op_wf L (fresh_operation intent initial now s)"
  by (auto simp: op_wf_def fresh_operation_def lifecycle_ok_def initial_ok_def)

lemma appendLocked_wf:
  assumes wf: "journal_wf L s" and can: "canonical_intent L intent" and init: "initial_ok initial"
    and now: "0 < now" and room: "NextSequence s + 1 < 2 ^ 64"
    and app: "appendLocked intent initial now s = Inr (result, s')"
  shows "journal_wf L s'"
  using app
proof (cases rule: appendLocked_cases)
  case existing
  then show ?thesis using wf by simp
next
  case fresh
  let ?ops = "Operations s" and ?key = "OperationID intent"
  have gm: "gm_wf ?ops" and dist: "ops_distinct ?ops" and rep: "replacements_wf ?ops"
    and n0: "NextSequence s \<noteq> 0"
    using wf by (simp_all add: journal_wf_def)
  have gm': "gm_wf (gm_put ?ops ?key result)" using gm by (rule gm_wf_put)
  have res: "op_wf L result" using fresh(4) fresh_operation_wf [OF can init now n0] by simp
  have other: "Sequence a \<noteq> NextSequence s \<and> op_retry a \<noteq> RetryID intent"
    if "gm_get ?ops k = Some a" for k a
    using ops_wfD [OF wf that] fresh(3) by auto
  have "ops_wf L s'"
    by (rule ops_wfI)
      (use fresh gm' res ops_wfD [OF wf] uint64_inc_no_wrap [OF room] in \<open>auto split: if_splits\<close>,
       meson less_SucI ops_wfD(3) wf)
  moreover have "ops_distinct (gm_put ?ops ?key result)"
  proof (rule ops_distinctI [OF gm'])
    show "k = k'" if "gm_get (gm_put ?ops ?key result) k = Some a"
      and "gm_get (gm_put ?ops ?key result) k' = Some b"
      and "Sequence a = Sequence b \<or> op_retry a = op_retry b" for k a k' b
      using that other [of k a] other [of k' b] ops_distinctD [OF gm dist, of k a k' b] fresh(4)
      by (auto split: if_splits)
  qed
  moreover have "replacements_wf (gm_put ?ops ?key result)"
  proof (rule replacements_wfI [OF gm'])
    show "replacement_ok (gm_put ?ops ?key result) a"
      if "gm_get (gm_put ?ops ?key result) k = Some a" and "Status a = StatusSuperseded" for k a
      using that init fresh replacements_wfD(1) [OF gm rep, of k a]
      by (auto simp: replacement_ok_def initial_ok_def split: if_splits option.splits)
    show "k = k'" if "gm_get (gm_put ?ops ?key result) k = Some a"
      and "gm_get (gm_put ?ops ?key result) k' = Some b"
      and "Status a = StatusSuperseded" and "Status b = StatusSuperseded"
      and "ReplacementOperationID a = ReplacementOperationID b" for k a k' b
      using that init fresh(4) replacements_wfD(2) [OF gm rep, of k a k' b]
      by (auto simp: initial_ok_def split: if_splits)
  qed
  moreover have "list_all valid_tombstone (UsedOperationIDs s')"
    and "list_all valid_tombstone (UsedRetryIDs s')"
    using wf fresh(5) canonical_intent_identity [OF can]
    by (simp_all add: journal_wf_def valid_tombstone_put)
  ultimately show ?thesis
    using wf fresh(5) gm' uint64_inc_no_wrap [OF room] by (simp add: journal_wf_def)
qed

section \<open>Single transitions\<close>

text \<open>The metadata the public methods pass for each target status.\<close>

definition target_ok :: "cid_lib \<Rightarrow> Status \<Rightarrow> string \<Rightarrow> string \<Rightarrow> bool" where
  "target_ok L next conflictID resultRoot \<longleftrightarrow>
     (case next of
        StatusPendingUpload \<Rightarrow> conflictID = [] \<and> resultRoot = []
      | StatusOfflineOnly \<Rightarrow> conflictID = [] \<and> resultRoot = []
      | StatusConflicted \<Rightarrow>
          conflictID \<noteq> [] \<and> TrimSpace conflictID = conflictID \<and> ValidString conflictID \<and>
          resultRoot = []
      | StatusCompleted \<Rightarrow> conflictID = [] \<and> canonicalCID L resultRoot = Some resultRoot
      | _ \<Rightarrow> False)"

lemma allowed_from:
  "allowedStatusTransition current next \<Longrightarrow> replayable current"
  by (cases current) (auto simp: allowedStatusTransition_def replayable_def)

lemma replayable_lifecycle:
  "op_wf L operation \<Longrightarrow> replayable (Status operation) \<Longrightarrow>
     ConflictID operation = [] \<and> ResultRoot operation = [] \<and> ReplacementOperationID operation = []"
  by (auto simp: op_wf_def lifecycle_ok_def replayable_def)

lemma op_wf_move:
  assumes "op_wf L operation" and "replayable (Status operation)"
    and "target_ok L next conflictID resultRoot" and "CreatedAt operation \<le> now"
  shows "op_wf L (operation\<lparr>Status := next, ConflictID := conflictID, ResultRoot := resultRoot,
    UpdatedAt := now\<rparr>)"
  using assms replayable_lifecycle [OF assms(1,2)]
  by (cases "next") (auto simp: op_wf_def lifecycle_ok_def target_ok_def)

lemma target_ok_not_superseded: "target_ok L next c r \<Longrightarrow> next \<noteq> StatusSuperseded"
  by (auto simp: target_ok_def)

lemma transitionLocked_cases:
  assumes "transitionLocked key next conflictID resultRoot now s = Inr (result, s')"
  obtains (same) "gm_get (Operations s) key = Some result" and "Status result = next"
      and "ConflictID result = conflictID" and "ResultRoot result = resultRoot" and "s' = s"
  | (moved) operation where "gm_get (Operations s) key = Some operation"
      and "allowedStatusTransition (Status operation) next"
      and "result = operation\<lparr>Status := next, ConflictID := conflictID, ResultRoot := resultRoot,
            UpdatedAt := now\<rparr>"
      and "s' = s\<lparr>Operations := gm_put (Operations s) key result\<rparr>"
  using assms by (auto simp: transitionLocked_def Let_def split: option.splits if_splits)

lemma transitionLocked_wf:
  assumes wf: "journal_wf L s" and clock: "clock_ok now s" and tgt: "target_ok L next c r"
    and tr: "transitionLocked key next c r now s = Inr (result, s')"
  shows "journal_wf L s'"
  using tr
proof (cases rule: transitionLocked_cases)
  case (moved operation)
  have rp: "replayable (Status operation)" using moved(2) by (rule allowed_from)
  have "op_wf L result"
    using op_wf_move [OF ops_wfD(1) [OF wf moved(1)] rp tgt clock_okD [OF clock moved(1)]] moved(3)
    by simp
  then show ?thesis
    using journal_wf_put [OF wf moved(1), of result] moved(3,4) rp target_ok_not_superseded [OF tgt]
    by (auto simp: replayable_def)
qed (use wf in simp)

section \<open>Batches\<close>

definition batch_moved :: "Status \<Rightarrow> (Operation \<Rightarrow> Operation) \<Rightarrow> Operation \<Rightarrow> Operation" where
  "batch_moved target change operation =
     (if Status operation \<noteq> target then change operation else operation)"

lemma selectBatch_Inr:
  "selectBatch classify ops keys = Inr selected \<Longrightarrow>
     (\<forall>k \<in> set keys. \<exists>a. gm_get ops k = Some a \<and> classify a = None) \<and>
     selected = map (\<lambda>k. the (gm_get ops k)) keys"
  by (induction keys arbitrary: selected) (auto simp: result_simps split: option.splits)

lemma selectBatch_total:
  "\<forall>k \<in> set keys. \<exists>a. gm_get ops k = Some a \<and> classify a = None \<Longrightarrow>
     selectBatch classify ops keys = Inr (map (\<lambda>k. the (gm_get ops k)) keys)"
  by (induction keys) auto

lemma applyBatch_spec:
  assumes "\<forall>a \<in> set selected. gm_get ops (op_id a) = Some a" and "distinct (map op_id selected)"
  shows "fst (applyBatch target change selected ops) = map (batch_moved target change) selected \<and>
    gm_get (snd (applyBatch target change selected ops)) k =
      (if k \<in> op_id ` set selected then map_option (batch_moved target change) (gm_get ops k)
       else gm_get ops k)"
  using assms
proof (induction selected arbitrary: ops)
  case (Cons a selected)
  let ?ops' = "if Status a \<noteq> target then gm_put ops (op_id a) (batch_moved target change a) else ops"
  have a: "gm_get ops (op_id a) = Some a" and fresh: "op_id a \<notin> op_id ` set selected"
    using Cons.prems by simp_all
  have keep: "gm_get ?ops' (op_id b) = Some b" if "b \<in> set selected" for b
  proof -
    have "op_id b \<noteq> op_id a" using fresh that by (metis imageI)
    then show ?thesis using Cons.prems(1) that by simp
  qed
  have "fst (applyBatch target change selected ?ops') = map (batch_moved target change) selected \<and>
      gm_get (snd (applyBatch target change selected ?ops')) k =
        (if k \<in> op_id ` set selected then map_option (batch_moved target change) (gm_get ?ops' k)
         else gm_get ?ops' k)"
    by (rule Cons.IH) (use keep Cons.prems(2) in auto)
  moreover have "applyBatch target change (a # selected) ops =
      (batch_moved target change a # fst (applyBatch target change selected ?ops'),
       snd (applyBatch target change selected ?ops'))"
    by (simp add: batch_moved_def Let_def case_prod_beta)
  ultimately show ?case
    using a fresh by (cases "k = op_id a") (simp_all add: batch_moved_def)
qed simp

lemma applyBatch_wf:
  assumes "journal_wf L s"
    and "\<forall>a \<in> set selected. gm_get (Operations s) (op_id a) = Some a \<and>
      (Status a \<noteq> target \<longrightarrow> op_wf L (change a) \<and> Status a \<noteq> StatusSuperseded)"
    and "distinct (map op_id selected)"
    and change: "\<And>a. op_Intent (change a) = op_Intent a \<and> Sequence (change a) = Sequence a \<and>
      Status (change a) \<noteq> StatusSuperseded"
  shows "journal_wf L (s\<lparr>Operations := snd (applyBatch target change selected (Operations s))\<rparr>)"
  using assms(1-3)
proof (induction selected arbitrary: s)
  case (Cons a selected)
  show ?case
  proof (cases "Status a = target")
    case True
    then show ?thesis
      using Cons.IH [of s] Cons.prems by (simp add: Let_def case_prod_beta)
  next
    case False
    let ?s = "s\<lparr>Operations := gm_put (Operations s) (op_id a) (change a)\<rparr>"
    have "journal_wf L ?s"
      using Cons.prems False change by (intro journal_wf_put [where old = a]) auto
    then have "journal_wf L
        (?s\<lparr>Operations := snd (applyBatch target change selected (Operations ?s))\<rparr>)"
    proof (rule Cons.IH)
      have "op_id a \<notin> op_id ` set selected" using Cons.prems(3) by simp
      then have "op_id b \<noteq> op_id a" if "b \<in> set selected" for b
        using that by (metis imageI)
      then show "\<forall>b \<in> set selected. gm_get (Operations ?s) (op_id b) = Some b \<and>
          (Status b \<noteq> target \<longrightarrow> op_wf L (change b) \<and> Status b \<noteq> StatusSuperseded)"
        using Cons.prems(2) by simp
    qed (use Cons.prems(3) in simp)
    then show ?thesis
      using False by (simp add: Let_def case_prod_beta)
  qed
qed simp

lemma batchLockedD:
  assumes "batchLocked classify target change keys s = Inr (result, s')"
  defines "selected \<equiv> map (\<lambda>k. the (gm_get (Operations s) k)) keys"
  shows "\<forall>k \<in> set keys. \<exists>a. gm_get (Operations s) k = Some a \<and> classify a = None"
    and "result = sort_key Sequence (fst (applyBatch target change selected (Operations s)))"
    and "s' = s\<lparr>Operations := snd (applyBatch target change selected (Operations s))\<rparr>"
proof -
  obtain sel where "selectBatch classify (Operations s) keys = Inr sel"
    and "result = sort_key Sequence (fst (applyBatch target change sel (Operations s)))"
    and "s' = s\<lparr>Operations := snd (applyBatch target change sel (Operations s))\<rparr>"
    using assms(1) by (auto simp: batchLocked_def result_simps case_prod_beta)
  then show "\<forall>k \<in> set keys. \<exists>a. gm_get (Operations s) k = Some a \<and> classify a = None"
    and "result = sort_key Sequence (fst (applyBatch target change selected (Operations s)))"
    and "s' = s\<lparr>Operations := snd (applyBatch target change selected (Operations s))\<rparr>"
    using selectBatch_Inr [of classify "Operations s" keys sel] by (simp_all add: selected_def)
qed

lemma batchLocked_Inr:
  assumes "batchLocked classify target change keys s = Inr (result, s')"
    and wf: "journal_wf L s" and "distinct keys"
  shows "\<forall>k \<in> set keys. \<exists>a. gm_get (Operations s) k = Some a \<and> classify a = None"
    and "s' = s\<lparr>Operations := Operations s'\<rparr>"
    and "gm_get (Operations s') k =
      (if k \<in> set keys then map_option (batch_moved target change) (gm_get (Operations s) k)
       else gm_get (Operations s) k)"
    and "result = sort_key Sequence
      (map (\<lambda>k. batch_moved target change (the (gm_get (Operations s) k))) keys)"
proof -
  let ?sel = "map (\<lambda>k. the (gm_get (Operations s) k)) keys"
  note found = batchLockedD(1) [OF assms(1)] and out = batchLockedD(2,3) [OF assms(1)]
  show "\<forall>k \<in> set keys. \<exists>a. gm_get (Operations s) k = Some a \<and> classify a = None"
    by (rule found)
  have key: "op_id (the (gm_get (Operations s) k)) = k" if "k \<in> set keys" for k
    using found that ops_wfD(2) [OF wf] by fastforce
  then have ids: "map op_id ?sel = keys" by (simp add: map_idI)
  have "\<forall>a \<in> set ?sel. gm_get (Operations s) (op_id a) = Some a"
    using found key by fastforce
  note spec = applyBatch_spec [OF this, of target change]
  have img: "op_id ` set ?sel = set keys" using ids by (metis list.set_map)
  show "s' = s\<lparr>Operations := Operations s'\<rparr>" using out(2) by simp
  show "gm_get (Operations s') k =
      (if k \<in> set keys then map_option (batch_moved target change) (gm_get (Operations s) k)
       else gm_get (Operations s) k)"
    using spec [of k] ids assms(3) img out(2) by simp
  show "result = sort_key Sequence
      (map (\<lambda>k. batch_moved target change (the (gm_get (Operations s) k))) keys)"
    using spec ids assms(3) out(1) by (simp add: comp_def)
qed

lemma batchLocked_wf:
  assumes wf: "journal_wf L s" and "distinct keys" and clock: "clock_ok now s"
    and cls: "\<And>a. classify a = None \<Longrightarrow> Status a \<noteq> target \<Longrightarrow> replayable (Status a)"
    and change: "\<And>a. op_Intent (change a) = op_Intent a \<and> Sequence (change a) = Sequence a \<and>
      Status (change a) \<noteq> StatusSuperseded"
    and move: "\<And>a. op_wf L a \<Longrightarrow> replayable (Status a) \<Longrightarrow> CreatedAt a \<le> now \<Longrightarrow> op_wf L (change a)"
    and batch: "batchLocked classify target change keys s = Inr (result, s')"
  shows "journal_wf L s'"
proof -
  let ?sel = "map (\<lambda>k. the (gm_get (Operations s) k)) keys"
  note found = batchLockedD(1) [OF batch] and out = batchLockedD(3) [OF batch]
  have key: "op_id (the (gm_get (Operations s) k)) = k" if "k \<in> set keys" for k
    using found that ops_wfD(2) [OF wf] by fastforce
  then have "distinct (map op_id ?sel)" using assms(2) by (simp add: map_idI)
  moreover have "\<forall>a \<in> set ?sel. gm_get (Operations s) (op_id a) = Some a \<and>
      (Status a \<noteq> target \<longrightarrow> op_wf L (change a) \<and> Status a \<noteq> StatusSuperseded)"
  proof
    fix a assume "a \<in> set ?sel"
    then obtain k where a: "gm_get (Operations s) k = Some a" "classify a = None" "k \<in> set keys"
      using found by fastforce
    then have "gm_get (Operations s) (op_id a) = Some a" using ops_wfD(2) [OF wf] by auto
    moreover have "op_wf L (change a) \<and> Status a \<noteq> StatusSuperseded" if "Status a \<noteq> target"
      using cls [OF a(2) that] move ops_wfD(1) [OF wf a(1)] clock_okD [OF clock a(1)]
      by (auto simp: replayable_def)
    ultimately show "gm_get (Operations s) (op_id a) = Some a \<and>
      (Status a \<noteq> target \<longrightarrow> op_wf L (change a) \<and> Status a \<noteq> StatusSuperseded)" by blast
  qed
  ultimately show ?thesis
    using applyBatch_wf [OF wf _ _ change] out by simp
qed

lemma freezeBatchLocked_wf:
  assumes "journal_wf L s" and "distinct keys" and "clock_ok now s"
    and "freezeBatchLocked keys now s = Inr (result, s')"
  shows "journal_wf L s'"
proof (rule batchLocked_wf [OF assms(1-3) _ _ _ assms(4) [unfolded freezeBatchLocked_def]])
  show "replayable (Status a)" if "freezeClass a = None" for a
    using that by (auto simp: freezeClass_def replayable_def split: Status.splits)
  show "op_wf L (a\<lparr>Status := StatusPendingUpload, UpdatedAt := now\<rparr>)"
    if "op_wf L a" and "replayable (Status a)" and "CreatedAt a \<le> now" for a
    using op_wf_move [OF that(1,2) _ that(3), of StatusPendingUpload "[]" "[]"]
      replayable_lifecycle [OF that(1,2)]
    by (cases a) (simp add: target_ok_def)
qed simp

lemma conflictBatchLocked_wf:
  assumes "journal_wf L s" and "distinct keys" and "clock_ok now s"
    and tgt: "target_ok L StatusConflicted c []"
    and "conflictBatchLocked keys c now s = Inr (result, s')"
  shows "journal_wf L s'"
proof (rule batchLocked_wf [OF assms(1-3) _ _ _ assms(5) [unfolded conflictBatchLocked_def]])
  show "replayable (Status a)" if "conflictClass c a = None" and "Status a \<noteq> StatusConflicted" for a
    using that by (auto simp: conflictClass_def replayable_def split: if_splits)
  show "op_wf L (a\<lparr>Status := StatusConflicted, ConflictID := c, UpdatedAt := now\<rparr>)"
    if "op_wf L a" and "replayable (Status a)" and "CreatedAt a \<le> now" for a
    using op_wf_move [OF that(1,2) tgt that(3)] replayable_lifecycle [OF that(1,2)]
    by (cases a) simp
qed simp

lemma completeBatchLocked_wf:
  assumes "journal_wf L s" and "distinct keys" and "clock_ok now s"
    and tgt: "target_ok L StatusCompleted [] root"
    and "completeBatchLocked keys root now s = Inr (result, s')"
  shows "journal_wf L s'"
proof (rule batchLocked_wf [OF assms(1-3) _ _ _ assms(5) [unfolded completeBatchLocked_def]])
  show "replayable (Status a)" if "completeClass root a = None" and "Status a \<noteq> StatusCompleted" for a
    using that by (auto simp: completeClass_def replayable_def split: if_splits)
  show "op_wf L (a\<lparr>Status := StatusCompleted, ResultRoot := root, UpdatedAt := now\<rparr>)"
    if "op_wf L a" and "replayable (Status a)" and "CreatedAt a \<le> now" for a
    using op_wf_move [OF that(1,2) tgt that(3)] replayable_lifecycle [OF that(1,2)]
    by (cases a) simp
qed simp

section \<open>Resolving a conflict\<close>

lemma resolveLocked_cases:
  assumes "resolveLocked key replacement initial now s = Inr ((old, next), s')"
  obtains (same) "gm_get (Operations s) key = Some old" and "Status old = StatusSuperseded"
      and "ReplacementOperationID old = OperationID replacement"
      and "gm_get (Operations s) (OperationID replacement) = Some next"
      and "op_Intent next = replacement" and "s' = s"
  | (resolved) current t where "gm_get (Operations s) key = Some current"
      and "Status current = StatusConflicted"
      and "DatasetID replacement = DatasetID (op_Intent current)"
      and "Branch replacement = Branch (op_Intent current)"
      and "gm_get (Operations s) (OperationID replacement) = None"
      and "appendLocked replacement initial now s = Inr (next, t)"
      and "old = current\<lparr>Status := StatusSuperseded, ReplacementOperationID := op_id next,
            UpdatedAt := now\<rparr>"
      and "s' = t\<lparr>Operations := gm_put (Operations t) key old\<rparr>"
  using assms
  by (auto simp: resolveLocked_def Let_def result_simps split: option.splits if_splits)

lemma resolveLocked_wf:
  assumes wf: "journal_wf L s" and can: "canonical_intent L replacement" and init: "initial_ok initial"
    and clock: "clock_ok now s" and room: "NextSequence s + 1 < 2 ^ 64"
    and res: "resolveLocked key replacement initial now s = Inr ((old, next), s')"
  shows "journal_wf L s'"
  using res
proof (cases rule: resolveLocked_cases)
  case same
  then show ?thesis using wf by simp
next
  case (resolved current t)
  note cur = resolved(1)
  have "0 < now" using clock by (simp add: clock_ok_def)
  then have t: "journal_wf L t" using appendLocked_wf [OF wf can init _ room resolved(6)] by simp
  have fresh: "next = fresh_operation replacement initial now s"
      "Operations t = gm_put (Operations s) (OperationID replacement) next"
    using resolved(6) by (cases rule: appendLocked_cases; use resolved(5) in simp)+
  have ne: "key \<noteq> OperationID replacement" using resolved(1,5) by auto
  have at: "gm_get (Operations t) key = Some current" using cur ne fresh(2) by simp
  have lt: "Sequence current < NextSequence s" by (rule ops_wfD(3) [OF wf cur])
  have old: "op_wf L old"
    using ops_wfD(1) [OF wf cur] clock_okD [OF clock cur] resolved(2,7) fresh(1)
      canonical_intent_identity [OF can]
    by (auto simp: op_wf_def lifecycle_ok_def valid_tombstone_def)
  have free: "ReplacementOperationID a \<noteq> OperationID replacement"
    if "gm_get (Operations t) k = Some a" and "Status a = StatusSuperseded" for k a
  proof -
    have "gm_get (Operations s) k = Some a"
      using that fresh init by (auto simp: initial_ok_def split: if_splits)
    then have "replacement_ok (Operations s) a"
      using replacements_wfD(1) wf that(2) by (auto simp: journal_wf_def)
    then show ?thesis
      using resolved(5) by (auto simp: replacement_ok_def split: option.splits)
  qed
  have "replacement_ok (Operations t) old"
    using resolved(3,4,7) fresh lt by (simp add: replacement_ok_def)
  then show ?thesis
    unfolding resolved(8)
    by (intro journal_wf_put [OF t at old]) (use resolved(2,7) free fresh(1) in auto)
qed

section \<open>Pruning\<close>

text \<open>
  A record is finished when it is completed, or superseded by a finished record.
\<close>

inductive finished :: "(string, Operation) gomap \<Rightarrow> string \<Rightarrow> bool" for ops where
  completed: "gm_get ops key = Some a \<Longrightarrow> Status a = StatusCompleted \<Longrightarrow> finished ops key"
| superseded: "gm_get ops key = Some a \<Longrightarrow> Status a = StatusSuperseded \<Longrightarrow>
    finished ops (ReplacementOperationID a) \<Longrightarrow> finished ops key"

inductive_simps finished_iff: "finished ops key"

lemma foldl_prune_one_finished:
  assumes "\<forall>p \<in> set rest. gm_get ops (fst p) = Some (snd p)" and "\<forall>k \<in> set sel. finished ops k"
    and "foldl prune_one (sel, ch) rest = (sel', ch')"
  shows "\<forall>k \<in> set sel'. finished ops k"
  using assms
proof (induction rest arbitrary: sel ch)
  case (Cons p rest)
  obtain key operation where p: "p = (key, operation)" by (cases p)
  obtain sel1 ch1 where one: "prune_one (sel, ch) p = (sel1, ch1)"
    by (cases "prune_one (sel, ch) p")
  have "\<forall>k \<in> set sel1. finished ops k"
    using one Cons.prems(1,2) p superseded [of ops key operation]
    by (auto simp: prune_one_def split: if_splits)
  then show ?case
    using Cons.IH [of sel1 ch1] Cons.prems(1,3) one by simp
qed simp

lemma foldl_prune_one_closed:
  assumes "foldl prune_one (sel, False) rest = (sel', False)" and "(key, a) \<in> set rest"
    and "Status a = StatusSuperseded" and "ReplacementOperationID a \<in> set sel"
  shows "key \<in> set sel"
  using assms
proof (induction rest)
  case (Cons p rest)
  obtain sel1 ch1 where one: "prune_one (sel, False) p = (sel1, ch1)"
    by (cases "prune_one (sel, False) p")
  have rest: "foldl prune_one (sel1, ch1) rest = (sel', False)" using Cons.prems(1) one by simp
  then have "\<not> ch1" using foldl_prune_one(2) by blast
  then have "sel1 = sel" using one by (cases p) (auto simp: prune_one_def split: if_splits)
  then show ?case
    using Cons.IH Cons.prems rest one \<open>\<not> ch1\<close> by (auto simp: prune_one_def split: if_splits)
qed simp

lemma prune_close_finished:
  assumes "gm_wf ops" and "\<forall>k \<in> set sel. finished ops k"
  shows "\<forall>k \<in> set (prune_close ops sel). finished ops k"
  using assms
proof (induction ops sel rule: prune_close.induct)
  case (1 ops sel)
  obtain sel' ch where pass: "prune_pass ops sel = (sel', ch)" by (cases "prune_pass ops sel")
  have "\<forall>p \<in> set ops. gm_get ops (fst p) = Some (snd p)"
    using 1(2) by (auto simp: gm_get_in_set)
  then have "\<forall>k \<in> set sel'. finished ops k"
    using foldl_prune_one_finished [OF _ 1(3)] pass by (simp add: prune_pass_def)
  then show ?case
    using 1(1) [OF pass [symmetric]] 1(2) pass by (simp add: prune_close.simps [of ops sel])
qed

lemma prune_close_closed:
  shows "set sel \<subseteq> set (prune_close ops sel)"
    and "(key, a) \<in> set ops \<Longrightarrow> Status a = StatusSuperseded \<Longrightarrow>
      ReplacementOperationID a \<in> set (prune_close ops sel) \<Longrightarrow> key \<in> set (prune_close ops sel)"
proof (induction ops sel rule: prune_close.induct)
  case (1 ops sel)
  obtain sel' ch where pass: "foldl prune_one (sel, False) ops = (sel', ch)"
    by (cases "foldl prune_one (sel, False) ops")
  note unf = prune_close.simps [of ops sel] prune_pass_def pass
  { case 1
    show ?case
      using foldl_prune_one(1) [OF pass] "1.IH"(1) unf by (cases ch) auto
  next
    case 2
    show ?case
    proof (cases ch)
      case True
      then show ?thesis using "1.IH"(2) 2 unf by simp
    next
      case False
      then show ?thesis
        using foldl_prune_one(5) [OF pass] foldl_prune_one_closed [of sel ops sel' key a] 2 pass unf
        by simp
    qed }
qed

lemma pruneSelected_iff:
  assumes gm: "gm_wf ops"
  shows "key \<in> set (pruneSelected ops) \<longleftrightarrow> finished ops key"
proof
  have "\<forall>k \<in> set (map fst (filter (\<lambda>(key, operation). Status operation = StatusCompleted) ops)).
      finished ops k"
    using gm by (auto simp: gm_get_in_set intro: completed)
  then show "finished ops key" if "key \<in> set (pruneSelected ops)"
    using that prune_close_finished [OF gm] unfolding pruneSelected_def by blast
  show "key \<in> set (pruneSelected ops)" if "finished ops key"
    using that
  proof induction
    case (completed key a)
    then have "key \<in> set (map fst (filter (\<lambda>(key, operation). Status operation = StatusCompleted) ops))"
      by (force dest: map_of_SomeD)
    then show ?case
      unfolding pruneSelected_def using prune_close_closed(1) by blast
  next
    case (superseded key a)
    then show ?case
      unfolding pruneSelected_def using prune_close_closed(2) map_of_SomeD by metis
  qed
qed

lemma pruneLocked_get:
  assumes "pruneLocked s = Inr (n, s')" and gm: "gm_wf (Operations s)"
  shows "s' = s\<lparr>Operations := Operations s'\<rparr>" and "gm_wf (Operations s')"
    and "gm_get (Operations s') key =
      (if finished (Operations s) key then None else gm_get (Operations s) key)"
  using assms
  by (auto simp: pruneLocked_def Let_def case_prod_beta gm_get_filter_key pruneSelected_iff [OF gm])

lemma pruneLocked_wf:
  assumes wf: "journal_wf L s" and pr: "pruneLocked s = Inr (n, s')"
  shows "journal_wf L s'"
proof -
  let ?ops = "Operations s" and ?ops' = "Operations s'"
  have gm: "gm_wf ?ops" and dist: "ops_distinct ?ops" and rep: "replacements_wf ?ops"
    using wf by (simp_all add: journal_wf_def)
  note get = pruneLocked_get [OF pr gm]
  have fields: "Version s' = Version s" "NextSequence s' = NextSequence s"
    "UsedOperationIDs s' = UsedOperationIDs s" "UsedRetryIDs s' = UsedRetryIDs s"
    by (subst get(1), simp)+
  have "ops_wf L s'"
    by (rule ops_wfI) (use get ops_wfD [OF wf] fields in \<open>auto split: if_splits\<close>)
  moreover have "ops_distinct ?ops'"
    by (rule ops_distinctI) (use get ops_distinctD [OF gm dist] in \<open>auto split: if_splits\<close>)
  moreover have "replacements_wf ?ops'"
  proof (rule replacements_wfI [OF get(2)])
    show "replacement_ok ?ops' a"
      if "gm_get ?ops' k = Some a" and "Status a = StatusSuperseded" for k a
    proof -
      have k: "gm_get ?ops k = Some a" "\<not> finished ?ops k" using that get(3) by (auto split: if_splits)
      then have "\<not> finished ?ops (ReplacementOperationID a)" using superseded that(2) by blast
      then have "gm_get ?ops' (ReplacementOperationID a) = gm_get ?ops (ReplacementOperationID a)"
        using get(3) by simp
      then show ?thesis
        using replacements_wfD(1) [OF gm rep k(1) that(2)] by (simp add: replacement_ok_def)
    qed
  qed (use get replacements_wfD(2) [OF gm rep] in \<open>auto split: if_splits\<close>)
  ultimately show ?thesis using wf get(2) fields by (simp add: journal_wf_def)
qed

end
