(* ===== verification/JournalRun.thy ===== *)
theory JournalRun
  imports JournalOps
begin

text \<open>
  The journal as a transition system.  \<open>journal_step\<close> is what one call may do to the stored state,
  \<open>journal_do\<close> dispatches a call to the method of the store under given faults and clock, and
  \<open>journal_run\<close> is a history of calls on the file.  \<open>evolves\<close> relates the states along a history.
\<close>

section \<open>Steps\<close>

inductive journal_step :: "cid_lib \<Rightarrow> time \<Rightarrow> persistedState \<Rightarrow> persistedState \<Rightarrow> bool" for L now s where
  step_append: "canonical_intent L intent \<Longrightarrow> initial_ok initial \<Longrightarrow>
    appendLocked intent initial now s = Inr (result, s') \<Longrightarrow> journal_step L now s s'"
| step_transition: "target_ok L next conflictID resultRoot \<Longrightarrow>
    transitionLocked key next conflictID resultRoot now s = Inr (result, s') \<Longrightarrow>
    journal_step L now s s'"
| step_freeze: "distinct keys \<Longrightarrow> freezeBatchLocked keys now s = Inr (results, s') \<Longrightarrow>
    journal_step L now s s'"
| step_conflict: "distinct keys \<Longrightarrow> target_ok L StatusConflicted conflictID [] \<Longrightarrow>
    conflictBatchLocked keys conflictID now s = Inr (results, s') \<Longrightarrow> journal_step L now s s'"
| step_complete: "distinct keys \<Longrightarrow> target_ok L StatusCompleted [] root \<Longrightarrow>
    completeBatchLocked keys root now s = Inr (results, s') \<Longrightarrow> journal_step L now s s'"
| step_resolve: "canonical_intent L intent \<Longrightarrow> initial_ok initial \<Longrightarrow>
    resolveLocked key intent initial now s = Inr (pair, s') \<Longrightarrow> journal_step L now s s'"
| step_prune: "pruneLocked s = Inr (n, s') \<Longrightarrow> journal_step L now s s'"

lemma journal_step_wf:
  assumes "journal_step L now s s'" and "journal_wf L s" and "clock_ok now s"
    and "NextSequence s + 1 < 2 ^ 64"
  shows "journal_wf L s'"
  using assms
proof cases
  case (step_append intent initial result)
  then show ?thesis
    using appendLocked_wf assms by (auto simp: clock_ok_def)
next
  case (step_resolve intent initial key pair)
  then show ?thesis
    using resolveLocked_wf [OF assms(2) step_resolve(1,2) assms(3,4), of key "fst pair" "snd pair"]
    by simp
qed (blast intro: transitionLocked_wf freezeBatchLocked_wf conflictBatchLocked_wf
      completeBatchLocked_wf pruneLocked_wf)+

section \<open>What a history keeps\<close>

text \<open>
  The order in which a record moves: local, then frozen for upload, then decided, then superseded.
\<close>

definition status_rank :: "Status \<Rightarrow> nat" where
  "status_rank status =
     (case status of
        StatusLocalDirty \<Rightarrow> 0 | StatusOfflineOnly \<Rightarrow> 0 | StatusPendingUpload \<Rightarrow> 1
      | StatusConflicted \<Rightarrow> 2 | StatusCompleted \<Rightarrow> 2 | StatusSuperseded \<Rightarrow> 3 | StatusOther _ \<Rightarrow> 4)"

definition preserved :: "Operation \<Rightarrow> Operation \<Rightarrow> bool" where
  "preserved a b \<longleftrightarrow>
     op_Intent b = op_Intent a \<and> Sequence b = Sequence a \<and> CreatedAt b = CreatedAt a \<and>
     status_rank (Status a) \<le> status_rank (Status b) \<and>
     (Status a = StatusCompleted \<or> Status a = StatusSuperseded \<longrightarrow> b = a) \<and>
     (Status a = StatusConflicted \<longrightarrow> ConflictID b = ConflictID a \<and>
        (Status b = StatusConflicted \<or> Status b = StatusSuperseded))"

lemma preserved_refl [simp]: "preserved a a"
  by (simp add: preserved_def)

lemma preserved_trans: "preserved a b \<Longrightarrow> preserved b c \<Longrightarrow> preserved a c"
  by (auto simp: preserved_def)

lemma preserved_move:
  assumes "op_Intent b = op_Intent a" and "Sequence b = Sequence a" and "CreatedAt b = CreatedAt a"
    and "allowedStatusTransition (Status a) (Status b)"
  shows "preserved a b"
  using assms
  by (cases "Status a") (auto simp: preserved_def allowedStatusTransition_def status_rank_def)

text \<open>
  Identities stay used, sequence numbers grow, a record that is there later was there before with
  the same intent, or it was appended meanwhile with identities that had never been used.
\<close>

definition evolves :: "persistedState \<Rightarrow> persistedState \<Rightarrow> bool" where
  "evolves s s' \<longleftrightarrow>
     (\<forall>k. gm_flag (UsedOperationIDs s) k \<longrightarrow> gm_flag (UsedOperationIDs s') k) \<and>
     (\<forall>k. gm_flag (UsedRetryIDs s) k \<longrightarrow> gm_flag (UsedRetryIDs s') k) \<and>
     NextSequence s \<le> NextSequence s' \<and>
     (\<forall>k b. gm_get (Operations s') k = Some b \<longrightarrow>
        (case gm_get (Operations s) k of
           Some a \<Rightarrow> preserved a b
         | None \<Rightarrow> \<not> gm_flag (UsedOperationIDs s) k \<and> \<not> gm_flag (UsedRetryIDs s) (op_retry b) \<and>
                   NextSequence s \<le> Sequence b))"

lemma evolvesD:
  assumes "evolves s s'"
  shows "gm_flag (UsedOperationIDs s) k \<Longrightarrow> gm_flag (UsedOperationIDs s') k"
    and "gm_flag (UsedRetryIDs s) k \<Longrightarrow> gm_flag (UsedRetryIDs s') k"
    and "NextSequence s \<le> NextSequence s'"
    and "gm_get (Operations s') k = Some b \<Longrightarrow> gm_get (Operations s) k = Some a \<Longrightarrow> preserved a b"
    and "gm_get (Operations s') k = Some b \<Longrightarrow> gm_get (Operations s) k = None \<Longrightarrow>
      \<not> gm_flag (UsedOperationIDs s) k \<and> \<not> gm_flag (UsedRetryIDs s) (op_retry b) \<and>
      NextSequence s \<le> Sequence b"
  using assms unfolding evolves_def by fastforce+

lemma evolves_refl [simp]: "evolves s s"
  by (auto simp: evolves_def split: option.splits)

lemma evolves_trans:
  assumes wf: "journal_wf L s" and "evolves s t" and "evolves t u"
  shows "evolves s u"
proof -
  have "case gm_get (Operations s) k of
      Some a \<Rightarrow> preserved a c
    | None \<Rightarrow> \<not> gm_flag (UsedOperationIDs s) k \<and> \<not> gm_flag (UsedRetryIDs s) (op_retry c) \<and>
              NextSequence s \<le> Sequence c"
    if c: "gm_get (Operations u) k = Some c" for k c
  proof (cases "gm_get (Operations t) k")
    case None
    note new = evolvesD(5) [OF assms(3) c None]
    then have "gm_get (Operations s) k = None"
      using evolvesD(1) [OF assms(2)] ops_wfD(4) [OF wf] by (cases "gm_get (Operations s) k") auto
    then show ?thesis
      using new evolvesD(1,2,3) [OF assms(2)] by (auto intro: order_trans)
  next
    case (Some b)
    note bc = evolvesD(4) [OF assms(3) c Some]
    show ?thesis
    proof (cases "gm_get (Operations s) k")
      case None
      then show ?thesis
        using evolvesD(5) [OF assms(2) Some None] bc by (simp add: preserved_def)
    next
      case (Some a)
      then show ?thesis
        using evolvesD(4) [OF assms(2) \<open>gm_get (Operations t) k = Some b\<close> Some] bc preserved_trans
        by auto
    qed
  qed
  then show ?thesis using assms(2,3) unfolding evolves_def by (meson order_trans)
qed

lemma evolves_change:
  assumes "s' = s\<lparr>Operations := Operations s'\<rparr>"
    and "\<And>k b. gm_get (Operations s') k = Some b \<Longrightarrow>
      \<exists>a. gm_get (Operations s) k = Some a \<and> preserved a b"
  shows "evolves s s'"
proof -
  have "UsedOperationIDs s' = UsedOperationIDs s" "UsedRetryIDs s' = UsedRetryIDs s"
    "NextSequence s' = NextSequence s"
    by (subst assms(1), simp)+
  then show ?thesis using assms(2) by (fastforce simp: evolves_def)
qed

lemma evolves_append:
  assumes "appendLocked intent initial now s = Inr (result, s')"
    and room: "NextSequence s + 1 < 2 ^ 64"
  shows "evolves s s'"
  using assms(1)
proof (cases rule: appendLocked_cases)
  case fresh
  then show ?thesis
    using uint64_inc_no_wrap [OF room] by (auto simp: evolves_def split: option.splits)
qed simp

lemma evolves_batch:
  assumes "batchLocked classify target change keys s = Inr (result, s')"
    and wf: "journal_wf L s" and "distinct keys"
    and "\<And>a. op_Intent (change a) = op_Intent a \<and> Sequence (change a) = Sequence a \<and>
      CreatedAt (change a) = CreatedAt a \<and> Status (change a) = target"
    and "\<And>a. classify a = None \<Longrightarrow> Status a \<noteq> target \<Longrightarrow> allowedStatusTransition (Status a) target"
  shows "evolves s s'"
proof (rule evolves_change)
  note b = batchLocked_Inr [OF assms(1-3)]
  show "s' = s\<lparr>Operations := Operations s'\<rparr>" by (rule b(2))
  show "\<exists>a. gm_get (Operations s) k = Some a \<and> preserved a x"
    if x: "gm_get (Operations s') k = Some x" for k x
  proof (cases "k \<in> set keys")
    case True
    then obtain a where a: "gm_get (Operations s) k = Some a" "classify a = None" using b(1) by blast
    then have "x = batch_moved target change a" using b(3) [of k] x True by simp
    then have "preserved a x"
      using assms(4,5) [of a] a(2) preserved_move [of x a] by (auto simp: batch_moved_def)
    then show ?thesis using a by blast
  next
    case False
    then have "gm_get (Operations s) k = Some x" using b(3) [of k] x by simp
    then show ?thesis using preserved_refl by blast
  qed
qed

lemma evolves_resolve:
  assumes wf: "journal_wf L s"
    and res: "resolveLocked key intent initial now s = Inr ((old, next), s')"
    and room: "NextSequence s + 1 < 2 ^ 64"
  shows "evolves s s'"
  using res
proof (cases rule: resolveLocked_cases)
  case (resolved current t)
  note st = evolves_append [OF resolved(6) room]
  have ne: "key \<noteq> OperationID intent" using resolved(1,5) by auto
  have "preserved current old"
    using resolved(2,7) by (simp add: preserved_def status_rank_def)
  then show ?thesis
    using st resolved(1,8) by (auto simp: evolves_def split: if_splits)
qed simp

lemma journal_step_evolves:
  assumes "journal_step L now s s'" and wf: "journal_wf L s" and room: "NextSequence s + 1 < 2 ^ 64"
  shows "evolves s s'"
  using assms(1)
proof cases
  case (step_append intent initial result)
  then show ?thesis using evolves_append [OF _ room] by blast
next
  case (step_transition "next" c r key result)
  from step_transition(2) show ?thesis
  proof (cases rule: transitionLocked_cases)
    case (moved operation)
    then have "preserved operation result" by (intro preserved_move) auto
    then show ?thesis using moved by (intro evolves_change) (auto split: if_splits)
  qed simp
next
  case (step_freeze keys results)
  show ?thesis
    by (rule evolves_batch [OF step_freeze(2) [unfolded freezeBatchLocked_def] wf step_freeze(1)])
      (auto simp: freezeClass_def allowedStatusTransition_def split: Status.splits)
next
  case (step_conflict keys c results)
  show ?thesis
    by (rule evolves_batch [OF step_conflict(3) [unfolded conflictBatchLocked_def] wf
          step_conflict(1)])
      (auto simp: conflictClass_def allowedStatusTransition_def split: if_splits)
next
  case (step_complete keys root results)
  show ?thesis
    by (rule evolves_batch [OF step_complete(3) [unfolded completeBatchLocked_def] wf
          step_complete(1)])
      (auto simp: completeClass_def allowedStatusTransition_def split: if_splits)
next
  case (step_resolve intent initial key pair)
  then show ?thesis
    using evolves_resolve [OF wf _ room, of key intent initial now "fst pair" "snd pair"] by simp
next
  case (step_prune n)
  have "gm_wf (Operations s)" using wf by (simp add: journal_wf_def)
  note get = pruneLocked_get [OF step_prune this]
  show ?thesis
    by (rule evolves_change [OF get(1)]) (auto simp: get(3) split: if_splits)
qed

text \<open>A step appends at most one record, stamped with the clock of the call.\<close>

lemma appendLocked_fresh:
  assumes "appendLocked intent initial now s = Inr (result, s')" and "NextSequence s + 1 < 2 ^ 64"
  shows "NextSequence s' \<le> NextSequence s + 1"
    and "gm_get (Operations s') k = Some b \<Longrightarrow> gm_get (Operations s) k = None \<Longrightarrow> CreatedAt b = now"
  using assms(1)
  by (cases rule: appendLocked_cases;
      use uint64_inc_no_wrap [OF assms(2)] in \<open>auto split: if_splits\<close>)+

lemma journal_step_fresh:
  assumes st: "journal_step L now s s'" and wf: "journal_wf L s" and room: "NextSequence s + 1 < 2 ^ 64"
  shows "NextSequence s' \<le> NextSequence s + 1 \<and>
    (\<forall>k b. gm_get (Operations s') k = Some b \<longrightarrow> gm_get (Operations s) k = None \<longrightarrow> CreatedAt b = now)"
  using st
proof cases
  case (step_append intent initial result)
  then show ?thesis using appendLocked_fresh [OF _ room] by blast
next
  case (step_transition "next" c r key result)
  from step_transition(2) show ?thesis
    by (cases rule: transitionLocked_cases) (auto split: if_splits)
next
  case (step_freeze keys results)
  note b = batchLocked_Inr [OF step_freeze(2) [unfolded freezeBatchLocked_def] wf step_freeze(1)]
  show ?thesis by (subst b(2)) (auto simp: b(3))
next
  case (step_conflict keys c results)
  note b = batchLocked_Inr [OF step_conflict(3) [unfolded conflictBatchLocked_def] wf step_conflict(1)]
  show ?thesis by (subst b(2)) (auto simp: b(3))
next
  case (step_complete keys root results)
  note b = batchLocked_Inr [OF step_complete(3) [unfolded completeBatchLocked_def] wf step_complete(1)]
  show ?thesis by (subst b(2)) (auto simp: b(3))
next
  case (step_resolve intent initial key pair)
  then obtain old "next" where "resolveLocked key intent initial now s = Inr ((old, next), s')"
    by (cases pair) auto
  then show ?thesis
  proof (cases rule: resolveLocked_cases)
    case (resolved current t)
    then show ?thesis
      using appendLocked_fresh [OF resolved(6) room] by (auto split: if_splits)
  qed simp
next
  case (step_prune n)
  have "gm_wf (Operations s)" using wf by (simp add: journal_wf_def)
  note get = pruneLocked_get [OF step_prune this]
  show ?thesis by (subst get(1)) (auto simp: get(3))
qed

section \<open>Calls\<close>

abbreviation stored :: "cid_lib \<Rightarrow> journal_disk \<Rightarrow> persistedState" where
  "stored L disk \<equiv> loaded emptyState (reloadLocked L) disk"

abbreviation journal_disk_ok :: "cid_lib \<Rightarrow> journal_disk \<Rightarrow> bool" where
  "journal_disk_ok L disk \<equiv> disk_ok encodeState (journal_inv L) disk"

datatype journal_call =
    CallOpen string
  | CallAppend Intent Status
  | CallFreezeForUpload string
  | CallMarkOffline string
  | CallMarkConflicted string string
  | CallComplete string string
  | CallFreezeBatchForUpload "string list"
  | CallMarkBatchConflicted "string list" string
  | CallCompleteBatch "string list" string
  | CallResolveConflict string Intent Status
  | CallGet string
  | CallList "Status \<Rightarrow> bool"
  | CallPruneCompleted

fun journal_do ::
  "cid_lib \<Rightarrow> faults \<Rightarrow> time \<Rightarrow> journal_call \<Rightarrow> journal_disk \<Rightarrow> journal_disk" where
  "journal_do L F now (CallOpen path) d = snd (journal_Open L F path d)"
| "journal_do L F now (CallAppend i st) d = snd (journal_Append L F now i st d)"
| "journal_do L F now (CallFreezeForUpload k) d = snd (journal_FreezeForUpload L F now k d)"
| "journal_do L F now (CallMarkOffline k) d = snd (journal_MarkOffline L F now k d)"
| "journal_do L F now (CallMarkConflicted k c) d = snd (journal_MarkConflicted L F now k c d)"
| "journal_do L F now (CallComplete k r) d = snd (journal_Complete L F now k r d)"
| "journal_do L F now (CallFreezeBatchForUpload ks) d =
     snd (journal_FreezeBatchForUpload L F now ks d)"
| "journal_do L F now (CallMarkBatchConflicted ks c) d =
     snd (journal_MarkBatchConflicted L F now ks c d)"
| "journal_do L F now (CallCompleteBatch ks r) d = snd (journal_CompleteBatch L F now ks r d)"
| "journal_do L F now (CallResolveConflict k i st) d =
     snd (journal_ResolveConflict L F now k i st d)"
| "journal_do L F now (CallGet k) d = snd (journal_Get L F k d)"
| "journal_do L F now (CallList include) d = snd (journal_list L F include d)"
| "journal_do L F now CallPruneCompleted d = snd (journal_PruneCompleted L F d)"

text \<open>What a call leaves: the file as it was, or the file of a state one step on.\<close>

definition stepped :: "cid_lib \<Rightarrow> time \<Rightarrow> journal_disk \<Rightarrow> journal_disk \<Rightarrow> bool" where
  "stepped L now d d' \<longleftrightarrow>
     d' = d \<or> (\<exists>s'. journal_step L now (stored L d) s' \<and> d' = Some (Decoded (encodeState s')))"

lemma stepped_refl [simp]: "stepped L now d d"
  by (simp add: stepped_def)

lemma stepped_writing:
  assumes "journal_disk_ok L d"
    and "\<And>r s'. f (stored L d) = Inr (r, s') \<Longrightarrow> journal_step L now (stored L d) s'"
  shows "stepped L now d (snd (withState L F (writing f) d))"
proof -
  obtain res d' where w: "withState L F (writing f) d = (res, d')"
    by (cases "withState L F (writing f) d")
  have "d' = d \<or> (\<exists>s'. snd (writing f (stored L d)) = Some s' \<and> d' = Some (Decoded (encodeState s')))"
    by (rule journal.with_state_disk [OF assms(1) w [unfolded withState_def]])
  then show ?thesis
    using assms(2) w by (auto simp: stepped_def writing_def split: sum.splits)
qed

lemma withState_reading [simp]: "snd (withState L F (reading f) d) = d"
  by (auto simp: withState_def with_state_def reading_def split: sum.splits)

lemma stepped_argument:
  assumes "\<And>a. arg = Inr a \<Longrightarrow> stepped L now d (snd (k a d))"
  shows "stepped L now d (snd (with_argument arg k d))"
  using assms by (cases arg) (auto simp: with_argument_def)

lemma checkInitial_Inr: "checkInitial st = Inr u \<Longrightarrow> initial_ok st"
  by (auto simp: checkInitial_def initial_ok_def require_def split: if_splits)

lemma append_argument:
  assumes "cid_lib_ok L"
    and "bindE (normalizeIntent L intent) (\<lambda>i. bindE (checkInitial st) (\<lambda>_. Inr i)) = Inr i"
  shows "canonical_intent L i" and "initial_ok st"
  using assms normalizeIntent_canonical checkInitial_Inr by (auto simp: result_simps)

lemma checkConflictID_Inr:
  "checkConflictID c = Inr v \<Longrightarrow> target_ok L StatusConflicted v []"
  by (auto simp: checkConflictID_def target_ok_def Let_def result_simps TrimSpace_idem)

lemma checkResultRoot_Inr:
  assumes "cid_lib_ok L" and "checkResultRoot L r = Inr root"
  shows "target_ok L StatusCompleted [] root"
  using assms canonicalCID_idem [OF assms(1)]
  by (auto simp: checkResultRoot_def target_ok_def of_option_def split: option.splits)

lemma normalizeOperationIDs_from_distinct:
  "normalizeOperationIDs_from seen vs = Inr keys \<Longrightarrow>
     distinct keys \<and> set keys \<inter> set seen = {} \<and> keys = map TrimSpace vs"
proof (induction vs arbitrary: seen keys)
  case (Cons v vs)
  then show ?case by (fastforce simp: Let_def result_simps)
qed simp

lemma normalizeOperationIDs_Inr:
  "normalizeOperationIDs vs = Inr keys \<Longrightarrow>
     vs \<noteq> [] \<and> distinct keys \<and> keys = map TrimSpace vs"
  using normalizeOperationIDs_from_distinct [of "[]" vs keys]
  by (auto simp: normalizeOperationIDs_def result_simps)

lemma stepped_transition:
  assumes "journal_disk_ok L d" and "target_ok L next c r"
  shows "stepped L now d (snd (journal_transition L F now key next c r d))"
  unfolding journal_transition_def
  by (intro stepped_argument stepped_writing assms(1)) (blast intro: step_transition assms(2))

lemma journal_do_stepped:
  assumes ok: "cid_lib_ok L" and d: "journal_disk_ok L d"
  shows "stepped L now d (journal_do L F now c d)"
proof (cases c)
  case (CallOpen path)
  then show ?thesis by (simp add: journal_Open_def)
next
  case (CallAppend i st)
  show ?thesis
    unfolding CallAppend journal_do.simps journal_Append_def
    by (intro stepped_argument stepped_writing d) (blast intro: step_append dest: append_argument [OF ok])
next
  case (CallFreezeForUpload k)
  then show ?thesis
    by (auto simp: journal_FreezeForUpload_def target_ok_def intro!: stepped_transition d)
next
  case (CallMarkOffline k)
  then show ?thesis
    by (auto simp: journal_MarkOffline_def target_ok_def intro!: stepped_transition d)
next
  case (CallMarkConflicted k c)
  then show ?thesis
    by (auto simp: journal_MarkConflicted_def intro!: stepped_argument stepped_transition d
        dest: checkConflictID_Inr)
next
  case (CallComplete k r)
  then show ?thesis
    by (auto simp: journal_Complete_def intro!: stepped_argument stepped_transition d
        dest: checkResultRoot_Inr [OF ok])
next
  case (CallFreezeBatchForUpload ks)
  show ?thesis
    unfolding CallFreezeBatchForUpload journal_do.simps journal_FreezeBatchForUpload_def
    by (intro stepped_argument stepped_writing d) (blast intro: step_freeze dest: normalizeOperationIDs_Inr)
next
  case (CallMarkBatchConflicted ks c)
  show ?thesis
    unfolding CallMarkBatchConflicted journal_do.simps journal_MarkBatchConflicted_def
    by (intro stepped_argument stepped_writing d)
      (blast intro: step_conflict dest: normalizeOperationIDs_Inr checkConflictID_Inr)
next
  case (CallCompleteBatch ks r)
  show ?thesis
    unfolding CallCompleteBatch journal_do.simps journal_CompleteBatch_def
    by (intro stepped_argument stepped_writing d)
      (blast intro: step_complete dest: normalizeOperationIDs_Inr checkResultRoot_Inr [OF ok])
next
  case (CallResolveConflict k i st)
  have "canonical_intent L j \<and> initial_ok st"
    if "bindE (checkOperationID k) (\<lambda>key. bindE (normalizeIntent L i) (\<lambda>i.
        bindE (checkInitial st) (\<lambda>_. require (OperationID i \<noteq> key) ErrIdentityReuse (Inr (key, i)))))
      = Inr (key, j)" for key j
    using that normalizeIntent_canonical [OF ok] checkInitial_Inr by (auto simp: result_simps)
  then show ?thesis
    unfolding CallResolveConflict journal_do.simps journal_ResolveConflict_def
    by (intro stepped_argument) (auto intro!: stepped_writing d step_resolve)
next
  case (CallGet k)
  then show ?thesis
    by (auto simp: journal_Get_def intro!: stepped_argument)
next
  case CallPruneCompleted
  show ?thesis
    unfolding CallPruneCompleted journal_do.simps journal_PruneCompleted_def
    by (intro stepped_writing d) (blast intro: step_prune)
qed (simp add: journal_list_def)

section \<open>Histories\<close>

text \<open>One entry of a history: the faults of the call, the clock it reads, and the call.\<close>

type_synonym journal_entry = "faults \<times> time \<times> journal_call"

abbreviation entry_clock :: "journal_entry \<Rightarrow> time" where
  "entry_clock entry \<equiv> fst (snd entry)"

definition journal_run :: "cid_lib \<Rightarrow> journal_entry list \<Rightarrow> journal_disk \<Rightarrow> journal_disk" where
  "journal_run L entries d = foldl (\<lambda>d (F, now, c). journal_do L F now c d) d entries"

text \<open>
  The clock does not step back and there are fewer calls than sequence numbers.
\<close>

definition history_ok :: "journal_entry list \<Rightarrow> bool" where
  "history_ok entries \<longleftrightarrow>
     sorted (map entry_clock entries) \<and> (\<forall>e \<in> set entries. 0 < entry_clock e) \<and>
     length entries + 2 < 2 ^ 64"

definition run_inv :: "cid_lib \<Rightarrow> time \<Rightarrow> nat \<Rightarrow> journal_disk \<Rightarrow> bool" where
  "run_inv L t n d \<longleftrightarrow>
     journal_disk_ok L d \<and> NextSequence (stored L d) \<le> n + 1 \<and>
     (\<forall>k a. gm_get (Operations (stored L d)) k = Some a \<longrightarrow> CreatedAt a \<le> t)"

lemma run_inv_None: "run_inv L 0 0 None"
  by (simp add: run_inv_def disk_ok_def loaded_def emptyState_def)

lemma stored_encode:
  "cid_lib_ok L \<Longrightarrow> journal_wf L s \<Longrightarrow> stored L (Some (Decoded (encodeState s))) = s"
  by (simp add: loaded_def reloadLocked_encodeState)

lemma stored_wf:
  assumes "cid_lib_ok L" and "journal_disk_ok L d"
  shows "journal_wf L (stored L d)"
  using journal.loaded_invar [OF assms(2)] journal_inv_iff [OF assms(1)] by simp

lemma stored_clock_ok:
  assumes "cid_lib_ok L" and "run_inv L t n d" and "t \<le> now" and "0 < now"
  shows "clock_ok now (stored L d)"
proof -
  have "gm_wf (Operations (stored L d))"
    using stored_wf [OF assms(1)] assms(2) by (simp add: run_inv_def journal_wf_def)
  then show ?thesis
    using assms by (fastforce simp: clock_ok_def run_inv_def gm_get_in_set [symmetric])
qed

lemma run_inv_stepped:
  assumes ok: "cid_lib_ok L" and inv: "run_inv L t n d" and now: "t \<le> now" "0 < now"
    and room: "n + 2 < 2 ^ 64" and st: "stepped L now d d'"
  shows "run_inv L now (Suc n) d' \<and> evolves (stored L d) (stored L d')"
proof (cases "d' = d")
  case True
  then show ?thesis using inv now(1) by (force simp: run_inv_def)
next
  case False
  let ?s = "stored L d"
  obtain s' where s': "journal_step L now ?s s'" and d': "d' = Some (Decoded (encodeState s'))"
    using st False by (auto simp: stepped_def)
  have wf: "journal_wf L ?s" using stored_wf [OF ok] inv by (simp add: run_inv_def)
  have room': "NextSequence ?s + 1 < 2 ^ 64" using inv room by (simp add: run_inv_def)
  have wf': "journal_wf L s'"
    by (rule journal_step_wf [OF s' wf stored_clock_ok [OF ok inv now] room'])
  note ev = journal_step_evolves [OF s' wf room'] and new = journal_step_fresh [OF s' wf room']
  have at: "stored L d' = s'" using stored_encode [OF ok wf'] d' by simp
  have "CreatedAt b \<le> now" if "gm_get (Operations s') k = Some b" for k b
  proof (cases "gm_get (Operations ?s) k")
    case None
    then show ?thesis using new that by auto
  next
    case (Some a)
    then have "CreatedAt b = CreatedAt a" using evolvesD(4) [OF ev that] by (simp add: preserved_def)
    then show ?thesis using inv Some now(1) by (fastforce simp: run_inv_def)
  qed
  moreover have "NextSequence s' \<le> Suc n + 1" using new inv by (simp add: run_inv_def)
  moreover have "journal_disk_ok L d'" using d' wf' ok by (auto simp: disk_ok_def journal_inv_def)
  ultimately show ?thesis using at ev by (simp add: run_inv_def)
qed

lemma run_inv_do:
  assumes "cid_lib_ok L" and "run_inv L t n d" and "t \<le> now" "0 < now" and "n + 2 < 2 ^ 64"
  shows "run_inv L now (Suc n) (journal_do L F now c d) \<and>
    evolves (stored L d) (stored L (journal_do L F now c d))"
proof -
  have "journal_disk_ok L d" using assms(2) by (simp add: run_inv_def)
  then show ?thesis by (intro run_inv_stepped [OF assms] journal_do_stepped [OF assms(1)])
qed

lemma run_inv_run:
  assumes ok: "cid_lib_ok L" and "run_inv L t n d" and "sorted (t # map entry_clock entries)"
    and "\<forall>e \<in> set entries. 0 < entry_clock e" and "n + length entries + 1 < 2 ^ 64"
  shows "run_inv L (last (t # map entry_clock entries)) (n + length entries) (journal_run L entries d)
    \<and> evolves (stored L d) (stored L (journal_run L entries d))"
  using assms(2-)
proof (induction entries arbitrary: t n d)
  case (Cons e entries)
  obtain F now c where e: "e = (F, now, c)" by (cases e)
  let ?d = "journal_do L F now c d"
  have one: "run_inv L now (Suc n) ?d \<and> evolves (stored L d) (stored L ?d)"
    by (rule run_inv_do [OF ok Cons.prems(1)]) (use Cons.prems e in auto)
  have rest: "run_inv L (last (now # map entry_clock entries)) (Suc n + length entries)
      (journal_run L entries ?d) \<and> evolves (stored L ?d) (stored L (journal_run L entries ?d))"
    by (rule Cons.IH) (use one Cons.prems e in auto)
  have "journal_run L (e # entries) d = journal_run L entries ?d"
    using e by (simp add: journal_run_def)
  moreover have "journal_wf L (stored L d)"
    using stored_wf [OF ok] Cons.prems(1) by (simp add: run_inv_def)
  ultimately show ?case
    using one rest evolves_trans e by auto
qed (simp add: journal_run_def)

lemma journal_run_append: "journal_run L (xs @ ys) d = journal_run L ys (journal_run L xs d)"
  by (simp add: journal_run_def)

lemma history_ok_append:
  "history_ok (xs @ ys) \<Longrightarrow> history_ok xs"
  by (auto simp: history_ok_def sorted_append)

text \<open>The two facts about histories that the properties rest on.\<close>

lemma run_history:
  assumes "cid_lib_ok L" and "history_ok entries"
  shows "journal_disk_ok L (journal_run L entries None)"
    and "\<exists>t. run_inv L t (length entries) (journal_run L entries None) \<and>
      (\<forall>later. history_ok (entries @ later) \<longrightarrow> sorted (t # map entry_clock later))"
proof -
  have "sorted (0 # map entry_clock entries)" using assms(2) by (simp add: history_ok_def)
  note inv = run_inv_run [OF assms(1) run_inv_None this]
  let ?t = "last (0 # map entry_clock entries)"
  have run: "run_inv L ?t (length entries) (journal_run L entries None)"
    using inv assms(2) by (simp add: history_ok_def)
  then show "journal_disk_ok L (journal_run L entries None)" by (simp add: run_inv_def)
  have "sorted (?t # map entry_clock later)" if "history_ok (entries @ later)" for later
  proof (cases entries rule: rev_cases)
    case (snoc es e)
    then show ?thesis using that by (fastforce simp: history_ok_def sorted_append)
  qed (use that in \<open>auto simp: history_ok_def\<close>)
  with run show "\<exists>t. run_inv L t (length entries) (journal_run L entries None) \<and>
      (\<forall>later. history_ok (entries @ later) \<longrightarrow> sorted (t # map entry_clock later))" by blast
qed

lemma run_evolves:
  assumes ok: "cid_lib_ok L" and hist: "history_ok (entries @ later)"
  shows "evolves (stored L (journal_run L entries None)) (stored L (journal_run L (entries @ later) None))"
proof -
  obtain t where t: "run_inv L t (length entries) (journal_run L entries None)"
    and s: "sorted (t # map entry_clock later)"
    using run_history(2) [OF ok history_ok_append [OF hist]] hist by blast
  show ?thesis
    using run_inv_run [OF ok t s] hist by (simp add: journal_run_append history_ok_def)
qed

end
