(* ===== verification/JournalProps.thy ===== *)
theory JournalProps
  imports JournalRun
begin

text \<open>
  The properties of the operation journal: it can always be reopened, identities are never reused,
  records only move forward, successful calls are durable, batches are all-or-nothing, pruning
  removes exactly the finished records, and listings come in sequence order.
\<close>

section \<open>From a successful call to its operation\<close>

lemma write_success:
  assumes ok: "cid_lib_ok L" and inv: "run_inv L t n d" and now: "t \<le> now" "0 < now"
    and room: "n + 2 < 2 ^ 64"
    and step: "\<And>r s'. f (stored L d) = Inr (r, s') \<Longrightarrow> journal_step L now (stored L d) s'"
    and call: "withState L F (writing f) d = (Inr r, d')"
  shows "f (stored L d) = Inr (r, stored L d')"
proof -
  have d: "journal_disk_ok L d" using inv by (simp add: run_inv_def)
  have wf: "journal_wf L (stored L d)" by (rule stored_wf [OF ok d])
  have room': "NextSequence (stored L d) + 1 < 2 ^ 64" using inv room by (simp add: run_inv_def)
  have "journal_inv L s'" if "snd (writing f (stored L d)) = Some s'" for s'
    using that journal_step_wf [OF step wf stored_clock_ok [OF ok inv now] room'] ok
    by (auto simp: writing_def journal_inv_def split: sum.splits)
  from journal.with_state_success [OF d call [unfolded withState_def] this]
  show ?thesis by (auto simp: writing_def split: sum.splits)
qed

lemma with_argument_Inr:
  "with_argument arg k d = (Inr r, d') \<Longrightarrow> \<exists>a. arg = Inr a \<and> k a d = (Inr r, d')"
  by (cases arg) (auto simp: with_argument_def)

lemma journal_Append_success:
  assumes ok: "cid_lib_ok L" and inv: "run_inv L t n d" and now: "t \<le> now" "0 < now"
    and room: "n + 2 < 2 ^ 64" and call: "journal_Append L F now intent st d = (Inr a, d')"
  obtains i where "normalizeIntent L intent = Inr i" and "canonical_intent L i" and "initial_ok st"
    and "appendLocked i st now (stored L d) = Inr (a, stored L d')"
proof -
  obtain i where i: "bindE (normalizeIntent L intent) (\<lambda>i. bindE (checkInitial st) (\<lambda>_. Inr i)) = Inr i"
    and w: "withState L F (writing (appendLocked i st now)) d = (Inr a, d')"
    using with_argument_Inr [OF call [unfolded journal_Append_def]] by blast
  note can = append_argument [OF ok i]
  have "appendLocked i st now (stored L d) = Inr (a, stored L d')"
    by (rule write_success [OF ok inv now room _ w]) (blast intro: step_append can)
  moreover have "normalizeIntent L intent = Inr i" using i by (auto simp: result_simps)
  ultimately show ?thesis using that can by blast
qed

lemma appendLocked_stored:
  assumes "appendLocked i st now s = Inr (a, s')" and "journal_wf L s"
  shows "gm_get (Operations s') (OperationID i) = Some a" and "op_Intent a = i"
  using assms(1) by (cases rule: appendLocked_cases; simp)+

text \<open>Splitting a history at one of its calls.\<close>

lemma history_at:
  assumes ok: "cid_lib_ok L" and hist: "history_ok (pre @ (F, now, c) # post)"
  obtains t where "run_inv L t (length pre) (journal_run L pre None)" and "t \<le> now" and "0 < now"
    and "length pre + 2 < 2 ^ 64"
proof -
  obtain t where "run_inv L t (length pre) (journal_run L pre None)"
    and "sorted (t # map entry_clock ((F, now, c) # post))"
    using run_history(2) [OF ok history_ok_append [OF hist]] hist by blast
  moreover have "0 < now" and "length pre + 2 < 2 ^ 64" using hist by (auto simp: history_ok_def)
  ultimately show ?thesis using that by auto
qed

lemma journal_run_snoc:
  "journal_run L (pre @ (F, now, c) # post) d =
     journal_run L post (journal_do L F now c (journal_run L pre d))"
  by (simp add: journal_run_def)

section \<open>Availability\<close>

text \<open>
  C8: after any history of calls on a fresh journal, whatever file-system steps failed in each of
  them, the journal file reopens without an error, and the state it holds is well formed.  The
  history's clock does not step back and it has fewer calls than there are sequence numbers.
\<close>

theorem journal_always_reopens:
  assumes "cid_lib_ok L" and "history_ok entries" and "TrimSpace path \<noteq> []"
  shows "journal_Open L no_faults path (journal_run L entries None) =
      (Inr (), journal_run L entries None) \<and>
    journal_wf L (stored L (journal_run L entries None))"
proof -
  let ?d = "journal_run L entries None"
  have d: "journal_disk_ok L ?d" by (rule run_history(1) [OF assms(1,2)])
  have "withState L no_faults (reading (\<lambda>_. Inr ())) ?d = (Inr (), ?d)"
    unfolding withState_def
    by (subst journal.with_state_no_faults [OF d, where res = "Inr ()" and w = None])
      (simp_all add: reading_def)
  then show ?thesis using assms(3) stored_wf [OF assms(1) d] by (simp add: journal_Open_def)
qed

section \<open>Identities\<close>

text \<open>An append on a state that evolved from one with the record \<open>a\<close> cannot use its identities for anything else.\<close>

lemma appended_identity:
  assumes wf1: "journal_wf L s1" and ev: "evolves s1 s" and at1: "gm_get (Operations s1) (op_id a) = Some a"
    and j: "appendLocked j st n s = Inr (b, s2)"
    and same: "op_id a = op_id b \<or> op_retry a = op_retry b"
  shows "op_Intent a = op_Intent b \<and> Sequence a = Sequence b"
  using j
proof (cases rule: appendLocked_cases)
  case existing
  then have bk: "gm_get (Operations s) (op_id b) = Some b" by simp
  show ?thesis
  proof (cases "gm_get (Operations s1) (op_id b)")
    case None
    then have "\<not> gm_flag (UsedOperationIDs s1) (op_id b) \<and>
        \<not> gm_flag (UsedRetryIDs s1) (op_retry b)"
      using evolvesD(5) [OF ev bk] by simp
    then show ?thesis using ops_wfD(4,5) [OF wf1 at1] same by auto
  next
    case (Some a')
    then have p: "preserved a' b" using evolvesD(4) [OF ev bk] by simp
    then have "op_id a = op_id b"
      using same ops_distinctD [OF _ _ at1 Some] wf1 by (auto simp: journal_wf_def preserved_def)
    then show ?thesis using at1 Some p by (simp add: preserved_def)
  qed
next
  case fresh
  then show ?thesis
    using evolvesD(1,2) [OF ev] ops_wfD(4,5) [OF wf1 at1] same by auto
qed

text \<open>
  C1: an operation identity or a retry identity belongs to one intent for ever.  If two appends of
  a history succeed and share either identity, they returned the same intent and sequence number,
  whatever happened in between: completion, pruning, failed calls.
\<close>

theorem journal_identity_never_reused:
  assumes ok: "cid_lib_ok L"
    and hist: "history_ok (pre @ (F1, n1, CallAppend i1 st1) # mid @ [(F2, n2, CallAppend i2 st2)])"
    and first: "journal_Append L F1 n1 i1 st1 (journal_run L pre None) = (Inr a, d1)"
    and second: "journal_Append L F2 n2 i2 st2 (journal_run L mid d1) = (Inr b, d2)"
    and same: "op_id a = op_id b \<or> op_retry a = op_retry b"
  shows "op_Intent a = op_Intent b \<and> Sequence a = Sequence b"
proof -
  let ?start = "journal_run L pre None" and ?pre = "pre @ [(F1, n1, CallAppend i1 st1)]"
  let ?d = "journal_run L mid d1"
  obtain t where t: "run_inv L t (length pre) ?start" "t \<le> n1" "0 < n1" "length pre + 2 < 2 ^ 64"
    by (rule history_at [OF ok hist])
  have d1: "d1 = journal_run L ?pre None" using first by (simp add: journal_run_def)
  have hist': "history_ok ((?pre @ mid) @ (F2, n2, CallAppend i2 st2) # [])" using hist by simp
  have d: "?d = journal_run L (?pre @ mid) None" by (simp only: d1 journal_run_append)
  obtain t' where t': "run_inv L t' (length (?pre @ mid)) ?d" "t' \<le> n2" "0 < n2"
      "length (?pre @ mid) + 2 < 2 ^ 64"
    unfolding d by (rule history_at [OF ok hist'])
  obtain i where i: "appendLocked i st1 n1 (stored L ?start) = Inr (a, stored L d1)"
    by (rule journal_Append_success [OF ok t first])
  obtain j where j: "appendLocked j st2 n2 (stored L ?d) = Inr (b, stored L d2)"
    by (rule journal_Append_success [OF ok t' second])
  have wf1: "journal_wf L (stored L d1)"
    using run_history(1) [OF ok history_ok_append [OF history_ok_append [OF hist']]]
    unfolding d1 [symmetric] by (auto intro: stored_wf [OF ok])
  have ev: "evolves (stored L d1) (stored L ?d)"
    using run_evolves [OF ok history_ok_append [OF hist']] d1 d by simp
  have at1: "gm_get (Operations (stored L d1)) (op_id a) = Some a"
    using i by (cases rule: appendLocked_cases; simp)
  show ?thesis by (rule appended_identity [OF wf1 ev at1 j same])
qed

section \<open>Records only move forward\<close>

text \<open>
  C12: along a history a stored record keeps its intent, its sequence number and its creation time,
  never falls back to an earlier stage (a frozen request does not become local again), a completed
  or superseded record does not change any more, and an identity that is used and whose record is
  gone never comes back.
\<close>

theorem journal_records_move_forward:
  assumes "cid_lib_ok L" and "history_ok (entries @ later)"
    and "s = stored L (journal_run L entries None)"
    and "s' = stored L (journal_run L (entries @ later) None)"
  shows "(\<forall>k a b. gm_get (Operations s) k = Some a \<longrightarrow> gm_get (Operations s') k = Some b \<longrightarrow>
        op_Intent b = op_Intent a \<and> Sequence b = Sequence a \<and> CreatedAt b = CreatedAt a \<and>
        status_rank (Status a) \<le> status_rank (Status b) \<and>
        (Status a = StatusCompleted \<or> Status a = StatusSuperseded \<longrightarrow> b = a)) \<and>
    (\<forall>k. gm_flag (UsedOperationIDs s) k \<longrightarrow> gm_get (Operations s) k = None \<longrightarrow>
        gm_get (Operations s') k = None)"
proof -
  have ev: "evolves s s'" using run_evolves [OF assms(1,2)] assms(3,4) by simp
  have "gm_get (Operations s') k = None"
    if "gm_flag (UsedOperationIDs s) k" and "gm_get (Operations s) k = None" for k
    using evolvesD(5) [OF ev _ that(2)] that(1) by (cases "gm_get (Operations s') k") auto
  moreover have "op_Intent b = op_Intent a \<and> Sequence b = Sequence a \<and> CreatedAt b = CreatedAt a \<and>
        status_rank (Status a) \<le> status_rank (Status b) \<and>
        (Status a = StatusCompleted \<or> Status a = StatusSuperseded \<longrightarrow> b = a)"
    if "gm_get (Operations s) k = Some a" and "gm_get (Operations s') k = Some b" for k a b
    using evolvesD(4) [OF ev that(2,1)] unfolding preserved_def by blast
  ultimately show ?thesis by blast
qed

section \<open>Durability and retry\<close>

lemma canonical_lookup:
  assumes "canonical_intent L i"
  shows "TrimSpace (OperationID i) = OperationID i" and "ValidString (OperationID i)"
  using canonical_intent_identity(1) [OF assms] by (simp_all add: valid_tombstone_def)

text \<open>
  an append that reports success is durable: the record it returned is what the next process
  reads under its identity, and no other record changed.
\<close>

theorem journal_append_durable:
  assumes ok: "cid_lib_ok L" and hist: "history_ok (pre @ [(F, now, CallAppend intent st)])"
    and d: "d = journal_run L pre None" and call: "journal_Append L F now intent st d = (Inr a, d')"
  shows "journal_Get L no_faults (op_id a) d' = (Inr a, d') \<and>
    (\<forall>k. k \<noteq> op_id a \<longrightarrow> gm_get (Operations (stored L d')) k = gm_get (Operations (stored L d)) k)"
proof -
  obtain t where t: "run_inv L t (length pre) d" "t \<le> now" "0 < now" "length pre + 2 < 2 ^ 64"
    unfolding d by (rule history_at [OF ok hist])
  obtain i where can: "canonical_intent L i"
    and app: "appendLocked i st now (stored L d) = Inr (a, stored L d')"
    by (rule journal_Append_success [OF ok t call])
  have at: "gm_get (Operations (stored L d')) (op_id a) = Some a" and key: "op_id a = OperationID i"
    using app by (cases rule: appendLocked_cases; simp)+
  have "d' = journal_run L (pre @ [(F, now, CallAppend intent st)]) None"
    using d call by (simp add: journal_run_def)
  then have "journal_disk_ok L d'" using run_history(1) [OF ok hist] by simp
  then have "journal_Get L no_faults (op_id a) d' = (Inr a, d')"
    using canonical_lookup [OF can] at key
    by (simp add: journal_Get_def with_argument_def withState_def result_simps reading_def
        journal.with_state_no_faults [where res = "Inr a" and w = None])
  moreover have "gm_get (Operations (stored L d')) k = gm_get (Operations (stored L d)) k"
    if "k \<noteq> op_id a" for k
    using app that key by (cases rule: appendLocked_cases) auto
  ultimately show ?thesis by blast
qed

lemma journal_Append_no_faults:
  assumes "journal_disk_ok L d" and "normalizeIntent L intent = Inr i" and "initial_ok st"
    and "appendLocked i st now (stored L d) = Inr (a, s')"
  shows "journal_Append L no_faults now intent st d = (Inr a, Some (Decoded (encodeState s')))"
  using assms
  by (simp add: journal_Append_def with_argument_def checkInitial_def initial_ok_def withState_def
      journal.with_state_no_faults [where res = "Inr a" and w = "Some s'"] writing_def)

text \<open>
  repeating an append whose outcome was lost is safe.  Where the append is admissible, an
  attempt under any faults followed by a fault-free repetition of the same intent succeeds with the
  intent and the sequence number of the admissible append, and stores the same set of records.
\<close>

theorem journal_append_retry:
  assumes ok: "cid_lib_ok L"
    and hist: "history_ok (pre @ [(F, n1, CallAppend intent st), (no_faults, n2, CallAppend intent st)])"
    and d: "d = journal_run L pre None"
    and once: "journal_Append L no_faults n1 intent st d = (Inr a, d')"
    and lost: "d1 = snd (journal_Append L F n1 intent st d)"
  shows "\<exists>b d2. journal_Append L no_faults n2 intent st d1 = (Inr b, d2) \<and>
    op_Intent b = op_Intent a \<and> Sequence b = Sequence a \<and>
    (\<forall>k. gm_get (Operations (stored L d2)) k = None \<longleftrightarrow> gm_get (Operations (stored L d')) k = None)"
proof -
  obtain t where t: "run_inv L t (length pre) d" "t \<le> n1" "0 < n1" "length pre + 2 < 2 ^ 64"
    unfolding d by (rule history_at [OF ok hist])
  obtain i where i: "normalizeIntent L intent = Inr i" and st: "initial_ok st"
    and app: "appendLocked i st n1 (stored L d) = Inr (a, stored L d')"
    by (rule journal_Append_success [OF ok t once])
  have hist': "history_ok ((pre @ [(F, n1, CallAppend intent st)]) @ (no_faults, n2, CallAppend intent st) # [])"
    using hist by simp
  have d1: "d1 = journal_run L (pre @ [(F, n1, CallAppend intent st)]) None"
    using d lost by (simp add: journal_run_def)
  obtain t' where t': "run_inv L t' (length (pre @ [(F, n1, CallAppend intent st)])) d1" "t' \<le> n2"
      "0 < n2" "length (pre @ [(F, n1, CallAppend intent st)]) + 2 < 2 ^ 64"
    unfolding d1 by (rule history_at [OF ok hist'])
  have dd: "journal_disk_ok L d" "journal_disk_ok L d1" using t(1) t'(1) by (simp_all add: run_inv_def)
  have same: "\<exists>b u. appendLocked i st n2 (stored L d1) = Inr (b, u) \<and> op_Intent b = op_Intent a \<and>
      Sequence b = Sequence a \<and>
      (\<forall>k. gm_get (Operations u) k = None \<longleftrightarrow> gm_get (Operations (stored L d')) k = None)"
  proof (cases "d1 = d")
    case True
    from app show ?thesis
      by (cases rule: appendLocked_cases) (use True in \<open>auto simp: appendLocked_def Let_def\<close>)
  next
    case False
    obtain r where w: "withState L F (writing (appendLocked i st n1)) d = (r, d1)"
      using lost i st
      by (cases "withState L F (writing (appendLocked i st n1)) d")
        (simp add: journal_Append_def with_argument_def checkInitial_def initial_ok_def)
    have "d1 = d \<or> (\<exists>s'. snd (writing (appendLocked i st n1) (stored L d)) = Some s' \<and>
        d1 = Some (Decoded (encodeState s')))"
      by (rule journal.with_state_disk [OF dd(1) w [unfolded withState_def]])
    then have "d1 = Some (Decoded (encodeState (stored L d')))"
      using False app by (simp add: writing_def)
    moreover have "d' = Some (Decoded (encodeState (stored L d')))"
      using journal_Append_no_faults [OF dd(1) i st app] once by simp
    ultimately have "stored L d1 = stored L d'" by simp
    moreover have "gm_get (Operations (stored L d')) (OperationID i) = Some a" and "op_Intent a = i"
      using app by (cases rule: appendLocked_cases; simp)+
    ultimately show ?thesis by (simp add: appendLocked_def)
  qed
  then obtain b u where u: "appendLocked i st n2 (stored L d1) = Inr (b, u)" by blast
  note call = journal_Append_no_faults [OF dd(2) i st this]
  have "appendLocked i st n2 (stored L d1) =
      Inr (b, stored L (Some (Decoded (encodeState u))))"
  proof -
    obtain j where "normalizeIntent L intent = Inr j"
      and "appendLocked j st n2 (stored L d1) = Inr (b, stored L (Some (Decoded (encodeState u))))"
      by (rule journal_Append_success [OF ok t' call])
    then show ?thesis using i by simp
  qed
  then show ?thesis using same call u by auto
qed

section \<open>Batches\<close>

lemma write_failure:
  assumes d: "journal_disk_ok L d" and call: "withState L F (writing f) d = (Inl e, d')"
  shows "d' = d \<or> (e = JournalIO SyncParent \<or> e = JournalIO SecureTarget) \<and>
    (\<exists>r s'. f (stored L d) = Inr (r, s') \<and> d' = Some (Decoded (encodeState s')))"
proof (cases "d' = d")
  case False
  obtain r s' where f: "f (stored L d) = Inr (r, s')" and d': "d' = Some (Decoded (encodeState s'))"
    using journal.with_state_disk [OF d call [unfolded withState_def]] False
    by (auto simp: writing_def split: sum.splits)
  have "reload_with F JournalIO (JournalInvalid ''decode operation journal'') emptyState
      (reloadLocked L) d = Inr (stored L d)"
    using call False journal.reload_cases [OF d]
    by (auto simp: withState_def with_state_def split: if_splits sum.splits)
  then have "e = JournalIO SyncParent \<or> e = JournalIO SecureTarget"
    using call False f
    by (auto simp: withState_def with_state_def writing_def writeSteps_def split: if_splits)
  then show ?thesis using f d' by blast
qed simp

text \<open>The part of a batch call that its callers see, for one named record.\<close>

definition completed_in ::
  "string \<Rightarrow> Operation list \<Rightarrow> persistedState \<Rightarrow> persistedState \<Rightarrow> string \<Rightarrow> bool" where
  "completed_in root rs s s' k \<longleftrightarrow>
     (\<exists>a b. gm_get (Operations s) k = Some a \<and>
        (Status a = StatusPendingUpload \<or> Status a = StatusCompleted \<and> ResultRoot a = root) \<and>
        gm_get (Operations s') k = Some b \<and> b \<in> set rs \<and>
        op_Intent b = op_Intent a \<and> Status b = StatusCompleted \<and> ResultRoot b = root)"

lemma completeBatchLocked_spec:
  assumes batch: "completeBatchLocked keys root now s = Inr (rs, s')"
    and wf: "journal_wf L s" and dist: "distinct keys"
  shows "length rs = length keys" and "sorted (map Sequence rs)"
    and "k \<in> set keys \<Longrightarrow> completed_in root rs s s' k"
    and "k \<notin> set keys \<Longrightarrow> gm_get (Operations s') k = gm_get (Operations s) k"
proof -
  define mv where "mv = batch_moved StatusCompleted
    (\<lambda>operation. operation\<lparr>Status := StatusCompleted, ResultRoot := root, UpdatedAt := now\<rparr>)"
  note b = batchLocked_Inr [OF batch [unfolded completeBatchLocked_def] wf dist, folded mv_def]
  show "length rs = length keys" and "sorted (map Sequence rs)" using b(4) by simp_all
  show "gm_get (Operations s') k = gm_get (Operations s) k" if "k \<notin> set keys"
    using b(3) [of k] that by simp
  have set_rs: "set rs = (\<lambda>k. mv (the (gm_get (Operations s) k))) ` set keys" using b(4) by simp
  show "completed_in root rs s s' k" if k: "k \<in> set keys"
  proof -
    obtain a where a: "gm_get (Operations s) k = Some a" and cl: "completeClass root a = None"
      using b(1) k by blast
    have "mv a \<in> set rs" unfolding set_rs using a k by (intro image_eqI [of _ _ k]) simp_all
    moreover have "gm_get (Operations s') k = Some (mv a)" using a k b(3) [of k] by simp
    moreover have "op_Intent (mv a) = op_Intent a \<and> Status (mv a) = StatusCompleted \<and>
        ResultRoot (mv a) = root \<and>
        (Status a = StatusPendingUpload \<or> Status a = StatusCompleted \<and> ResultRoot a = root)"
      using cl by (auto simp: mv_def batch_moved_def completeClass_def split: if_splits)
    ultimately show ?thesis unfolding completed_in_def using a by blast
  qed
qed

text \<open>
  completing a batch is all or nothing.  On success every named record was frozen for upload
  (or already completed with this root) and is now completed with the canonical result root, its
  intent unchanged; every other record is untouched; the result lists the batch in sequence order.
  On failure the file is untouched, unless only the directory sync or the final permission check
  failed, in which case it holds the completed batch.
\<close>

theorem journal_complete_batch:
  assumes ok: "cid_lib_ok L" and hist: "history_ok (pre @ [(F, now, CallCompleteBatch ids resultRoot)])"
    and d: "d = journal_run L pre None"
    and call: "journal_CompleteBatch L F now ids resultRoot d = (res, d')"
  shows "case res of
      Inr rs \<Rightarrow>
        \<exists>root. canonicalCID L (TrimSpace resultRoot) = Some root \<and>
          length rs = length ids \<and> sorted (map Sequence rs) \<and>
          (\<forall>k. if k \<in> TrimSpace ` set ids
             then completed_in root rs (stored L d) (stored L d') k
             else gm_get (Operations (stored L d')) k = gm_get (Operations (stored L d)) k)
    | Inl e \<Rightarrow>
        d' = d \<or> (e = JournalIO SyncParent \<or> e = JournalIO SecureTarget) \<and>
          (\<exists>rs. journal_CompleteBatch L no_faults now ids resultRoot d = (Inr rs, d'))"
proof -
  obtain t where t: "run_inv L t (length pre) d" "t \<le> now" "0 < now" "length pre + 2 < 2 ^ 64"
    unfolding d by (rule history_at [OF ok hist])
  have dok: "journal_disk_ok L d" using t(1) by (simp add: run_inv_def)
  show ?thesis
  proof (cases res)
    case (Inr rs)
    obtain keys root where keys: "normalizeOperationIDs ids = Inr keys"
      and root: "checkResultRoot L resultRoot = Inr root"
      and w: "withState L F (writing (completeBatchLocked keys root now)) d = (Inr rs, d')"
      using call Inr by (auto simp: journal_CompleteBatch_def dest!: with_argument_Inr)
    note k = normalizeOperationIDs_Inr [OF keys]
    have "completeBatchLocked keys root now (stored L d) = Inr (rs, stored L d')"
      by (rule write_success [OF ok t _ w])
        (blast intro: step_complete k [THEN conjunct2, THEN conjunct1] checkResultRoot_Inr [OF ok root])
    note b = completeBatchLocked_spec [OF this stored_wf [OF ok dok] k [THEN conjunct2, THEN conjunct1]]
    have "canonicalCID L (TrimSpace resultRoot) = Some root"
      using root by (auto simp: checkResultRoot_def of_option_def split: option.splits)
    moreover have "set keys = TrimSpace ` set ids" and "length keys = length ids" using k by simp_all
    ultimately show ?thesis using Inr b by simp
  next
    case (Inl e)
    show ?thesis
    proof (cases "d' = d")
      case False
      then obtain keys root where keys: "normalizeOperationIDs ids = Inr keys"
        and root: "checkResultRoot L resultRoot = Inr root"
        and w: "withState L F (writing (completeBatchLocked keys root now)) d = (Inl e, d')"
        using call Inl by (auto simp: journal_CompleteBatch_def with_argument_def split: sum.splits)
      obtain rs s' where "completeBatchLocked keys root now (stored L d) = Inr (rs, s')"
        and "d' = Some (Decoded (encodeState s'))"
        and e: "e = JournalIO SyncParent \<or> e = JournalIO SecureTarget"
        using write_failure [OF dok w] False by blast
      then have "journal_CompleteBatch L no_faults now ids resultRoot d = (Inr rs, d')"
        using keys root
        by (simp add: journal_CompleteBatch_def with_argument_def withState_def
            journal.with_state_no_faults [OF dok, where res = "Inr rs" and w = "Some s'"] writing_def)
      then show ?thesis using Inl e by auto
    qed (use Inl in simp)
  qed
qed

section \<open>Concrete histories\<close>

definition demo_intent :: "string \<Rightarrow> string \<Rightarrow> Intent" where
  "demo_intent key retry =
     \<lparr>OperationID = key, RetryID = retry, DatasetID = ''ds'', Branch = ''main'',
      BaseRoot = ''broot'', BaseRevision = 1, Kind = KindWrite, Path = ''a/b'', Destination = [],
      PayloadCID = ''bpay'', EncryptionEpoch = 0\<rparr>"

definition demo_append :: "string \<Rightarrow> string \<Rightarrow> journal_call" where
  "demo_append key retry = CallAppend (demo_intent key retry) StatusLocalDirty"

text \<open>A write whose directory sync fails, and one whose rename fails.\<close>

definition sync_fault :: faults where
  "sync_fault = (\<lambda>st. st = SyncParent)"

definition rename_fault :: faults where
  "rename_fault = (\<lambda>st. st = RenameTemp)"

definition demo_history :: "journal_entry list" where
  "demo_history =
     [(no_faults, 5, demo_append ''op1'' ''r1''), (sync_fault, 6, demo_append ''op2'' ''r2''),
      (rename_fault, 6, demo_append ''op3'' ''r3''),
      (no_faults, 7, CallFreezeBatchForUpload [''op1'', '' op2''])]"

definition demo_disk :: journal_disk where
  "demo_disk = journal_run demo_cid demo_history None"

lemmas demo_history_simps =
  history_ok_def demo_history_def no_faults_def sync_fault_def rename_fault_def

theorem journal_always_reopens_witness:
  "history_ok demo_history \<and> TrimSpace ''journal.json'' \<noteq> [] \<and>
   journal_Open demo_cid no_faults ''journal.json'' demo_disk = (Inr (), demo_disk) \<and>
   length (Operations (stored demo_cid demo_disk)) = 2"
proof -
  have h: "history_ok demo_history" by (simp add: demo_history_simps)
  have p: "TrimSpace ''journal.json'' \<noteq> []" by code_simp
  have "length (Operations (stored demo_cid demo_disk)) = 2" by code_simp
  then show ?thesis
    using journal_always_reopens [OF demo_cid_ok h p] h p by (simp add: demo_disk_def)
qed

theorem journal_identity_never_reused_witness:
  "\<exists>a b d1 d2.
     journal_Append demo_cid no_faults 5 (demo_intent ''op1'' ''r1'') StatusLocalDirty None = (Inr a, d1) \<and>
     journal_Append demo_cid no_faults 7 (demo_intent ''op1'' ''r1'') StatusOfflineOnly
       (journal_run demo_cid [(no_faults, 6, CallFreezeForUpload ''op1'')] d1) = (Inr b, d2) \<and>
     a \<noteq> b \<and> op_Intent a = op_Intent b \<and> Sequence a = Sequence b"
proof -
  let ?i = "demo_intent ''op1'' ''r1''" and ?mid = "[(no_faults, 6, CallFreezeForUpload ''op1'')]"
  let ?one = "journal_Append demo_cid no_faults 5 ?i StatusLocalDirty None"
  let ?two = "journal_Append demo_cid no_faults 7 ?i StatusOfflineOnly
    (journal_run demo_cid ?mid (snd ?one))"
  have run: "fst ?one = Inr (projr (fst ?one))" "fst ?two = Inr (projr (fst ?two))"
    "op_id (projr (fst ?one)) = op_id (projr (fst ?two))" "projr (fst ?one) \<noteq> projr (fst ?two)"
    by code_simp+
  have h: "history_ok ([] @ (no_faults, 5, CallAppend ?i StatusLocalDirty) # ?mid @
      [(no_faults, 7, CallAppend ?i StatusOfflineOnly)])"
    by (simp add: history_ok_def)
  have one: "journal_Append demo_cid no_faults 5 ?i StatusLocalDirty (journal_run demo_cid [] None) =
      (Inr (projr (fst ?one)), snd ?one)"
    using run(1) by (simp add: journal_run_def prod_eq_iff)
  have two: "journal_Append demo_cid no_faults 7 ?i StatusOfflineOnly
      (journal_run demo_cid ?mid (snd ?one)) = (Inr (projr (fst ?two)), snd ?two)"
    using run(2) by (simp add: prod_eq_iff)
  from journal_identity_never_reused [OF demo_cid_ok h one two] run(3,4) one two
  show ?thesis by (auto simp: journal_run_def)
qed

theorem journal_records_move_forward_witness:
  "history_ok (take 2 demo_history @ drop 2 demo_history) \<and>
   (\<exists>a b. gm_get (Operations (stored demo_cid (journal_run demo_cid (take 2 demo_history) None))) ''op1''
       = Some a \<and> gm_get (Operations (stored demo_cid demo_disk)) ''op1'' = Some b \<and>
       Status a = StatusLocalDirty \<and> Status b = StatusPendingUpload \<and> Sequence b = Sequence a)"
proof -
  let ?old = "gm_get (Operations (stored demo_cid (journal_run demo_cid (take 2 demo_history) None))) ''op1''"
  let ?new = "gm_get (Operations (stored demo_cid demo_disk)) ''op1''"
  have h: "history_ok (take 2 demo_history @ drop 2 demo_history)"
    by (simp add: demo_history_simps)
  have st: "map_option Status ?old = Some StatusLocalDirty" "map_option Status ?new = Some StatusPendingUpload"
    by code_simp+
  then obtain a b where ab: "?old = Some a" "?new = Some b" "Status a = StatusLocalDirty"
    "Status b = StatusPendingUpload" by auto
  have "stored demo_cid (journal_run demo_cid (take 2 demo_history @ drop 2 demo_history) None) =
      stored demo_cid demo_disk"
    by (simp only: demo_disk_def append_take_drop_id)
  with journal_records_move_forward [OF demo_cid_ok h refl refl] ab(1,2)
  have "Sequence b = Sequence a" by metis
  with ab h show ?thesis by blast
qed

theorem journal_append_durable_witness:
  "\<exists>a d'. journal_Append demo_cid no_faults 8 (demo_intent ''op3'' ''r3'') StatusOfflineOnly demo_disk =
     (Inr a, d') \<and> op_id a = ''op3'' \<and> journal_Get demo_cid no_faults (op_id a) d' = (Inr a, d')"
proof -
  let ?i = "demo_intent ''op3'' ''r3''"
  let ?one = "journal_Append demo_cid no_faults 8 ?i StatusOfflineOnly demo_disk"
  have run: "fst ?one = Inr (projr (fst ?one))" "op_id (projr (fst ?one)) = ''op3''" by code_simp+
  have h: "history_ok (demo_history @ [(no_faults, 8, CallAppend ?i StatusOfflineOnly)])"
    by (simp add: demo_history_simps)
  have one: "?one = (Inr (projr (fst ?one)), snd ?one)" using run(1) by (simp add: prod_eq_iff)
  from journal_append_durable [OF demo_cid_ok h demo_disk_def one] one run(2) show ?thesis by blast
qed

theorem journal_append_retry_witness:
  "\<exists>b d2. journal_Append demo_cid no_faults 9 (demo_intent ''op3'' ''r3'') StatusOfflineOnly
     (snd (journal_Append demo_cid sync_fault 8 (demo_intent ''op3'' ''r3'') StatusOfflineOnly demo_disk))
     = (Inr b, d2) \<and> Sequence b = 3"
proof -
  let ?i = "demo_intent ''op3'' ''r3''"
  let ?one = "journal_Append demo_cid no_faults 8 ?i StatusOfflineOnly demo_disk"
  have run: "fst ?one = Inr (projr (fst ?one))" "Sequence (projr (fst ?one)) = 3" by code_simp+
  have h: "history_ok (demo_history @ [(sync_fault, 8, CallAppend ?i StatusOfflineOnly),
      (no_faults, 9, CallAppend ?i StatusOfflineOnly)])"
    by (simp add: demo_history_simps)
  have one: "?one = (Inr (projr (fst ?one)), snd ?one)" using run(1) by (simp add: prod_eq_iff)
  from journal_append_retry [OF demo_cid_ok h demo_disk_def one refl] run(2) show ?thesis by auto
qed

theorem journal_complete_batch_witness:
  "\<exists>rs d'. journal_CompleteBatch demo_cid no_faults 8 [''op2'', ''op1''] '' bnew '' demo_disk = (Inr rs, d') \<and>
     length rs = 2 \<and> completed_in ''bnew'' rs (stored demo_cid demo_disk) (stored demo_cid d') ''op1''"
proof -
  let ?one = "journal_CompleteBatch demo_cid no_faults 8 [''op2'', ''op1''] '' bnew '' demo_disk"
  have run: "fst ?one = Inr (projr (fst ?one))"
    and root: "canonicalCID demo_cid (TrimSpace '' bnew '') = Some ''bnew''"
    and key: "TrimSpace ''op1'' = ''op1''" by code_simp+
  have h: "history_ok (demo_history @ [(no_faults, 8, CallCompleteBatch [''op2'', ''op1''] '' bnew '')])"
    by (simp add: demo_history_simps)
  have one: "?one = (Inr (projr (fst ?one)), snd ?one)" using run(1) by (simp add: prod_eq_iff)
  from journal_complete_batch [OF demo_cid_ok h demo_disk_def one]
  have "length (projr (fst ?one)) = 2 \<and>
      completed_in ''bnew'' (projr (fst ?one)) (stored demo_cid demo_disk) (stored demo_cid (snd ?one)) ''op1''"
    using root key by (auto dest!: spec [of _ "''op1''"])
  then show ?thesis using one by blast
qed

end
