(* ===== verification/JournalMaint.thy ===== *)
theory JournalMaint
  imports JournalProps
begin

text \<open>
  Further properties of the operation journal: conflict resolution, pruning, listing, the canonical
  form of intents, and the one way a journal can lock itself out (a clock that steps back).
\<close>

section \<open>Resolving a conflict\<close>

text \<open>
  resolving a conflict supersedes the old record and appends its replacement in one write: the
  old record was conflicted or already superseded by this replacement, it now names the replacement,
  which has the canonical new intent for the same dataset and branch and a later sequence number.
\<close>

theorem journal_resolve_conflict:
  assumes ok: "cid_lib_ok L"
    and hist: "history_ok (pre @ [(F, now, CallResolveConflict operationID intent st)])"
    and d: "d = journal_run L pre None"
    and call: "journal_ResolveConflict L F now operationID intent st d = (Inr (old, next), d')"
  shows "\<exists>a. gm_get (Operations (stored L d)) (TrimSpace operationID) = Some a \<and>
      (Status a = StatusConflicted \<or> Status a = StatusSuperseded) \<and>
      op_Intent old = op_Intent a \<and> Status old = StatusSuperseded \<and>
      ReplacementOperationID old = op_id next \<and> Sequence old < Sequence next \<and>
      normalizeIntent L intent = Inr (op_Intent next) \<and>
      DatasetID (op_Intent next) = DatasetID (op_Intent old) \<and>
      Branch (op_Intent next) = Branch (op_Intent old) \<and>
      gm_get (Operations (stored L d')) (TrimSpace operationID) = Some old \<and>
      gm_get (Operations (stored L d')) (op_id next) = Some next"
proof -
  obtain t where t: "run_inv L t (length pre) d" "t \<le> now" "0 < now" "length pre + 2 < 2 ^ 64"
    unfolding d by (rule history_at [OF ok hist])
  have wf: "journal_wf L (stored L d)"
    using t(1) by (auto simp: run_inv_def intro: stored_wf [OF ok])
  obtain key i where key: "key = TrimSpace operationID" and i: "normalizeIntent L intent = Inr i"
    and init: "initial_ok st"
    and w: "withState L F (writing (resolveLocked key i st now)) d = (Inr (old, next), d')"
    using call checkInitial_Inr
    by (auto simp: journal_ResolveConflict_def checkOperationID_def Let_def result_simps
        dest!: with_argument_Inr)
  have can: "canonical_intent L i" by (rule normalizeIntent_canonical [OF ok i])
  have res: "resolveLocked key i st now (stored L d) = Inr ((old, next), stored L d')"
    by (rule write_success [OF ok t _ w]) (blast intro: step_resolve can init)
  then show ?thesis
  proof (cases rule: resolveLocked_cases)
    case same
    have "replacement_ok (Operations (stored L d)) old"
      using replacements_wfD(1) [OF _ _ same(1,2)] wf by (simp add: journal_wf_def)
    then show ?thesis using same i key by (auto simp: replacement_ok_def)
  next
    case (resolved current u)
    have "next = fresh_operation i st now (stored L d)"
      and "Operations u = gm_put (Operations (stored L d)) (OperationID i) next"
      using resolved(6) by (cases rule: appendLocked_cases; use resolved(5) in simp)+
    moreover have "Sequence current < NextSequence (stored L d)" by (rule ops_wfD(3) [OF wf resolved(1)])
    ultimately show ?thesis using resolved i key by auto
  qed
qed

section \<open>Pruning\<close>

text \<open>
  pruning removes exactly the finished records (completed, or superseded by a finished record),
  reports their number, and keeps every other record, all identity tombstones and the sequence
  counter.
\<close>

theorem journal_prune_exact:
  assumes ok: "cid_lib_ok L" and hist: "history_ok (pre @ [(F, now, CallPruneCompleted)])"
    and d: "d = journal_run L pre None" and call: "journal_PruneCompleted L F d = (Inr n, d')"
  shows "(\<forall>k. gm_get (Operations (stored L d')) k =
        (if finished (Operations (stored L d)) k then None else gm_get (Operations (stored L d)) k)) \<and>
    n = card {k. finished (Operations (stored L d)) k} \<and>
    UsedOperationIDs (stored L d') = UsedOperationIDs (stored L d) \<and>
    UsedRetryIDs (stored L d') = UsedRetryIDs (stored L d) \<and>
    NextSequence (stored L d') = NextSequence (stored L d)"
proof -
  obtain t where t: "run_inv L t (length pre) d" "t \<le> now" "0 < now" "length pre + 2 < 2 ^ 64"
    unfolding d by (rule history_at [OF ok hist])
  have gm: "gm_wf (Operations (stored L d))"
    using t(1) stored_wf [OF ok, of d] by (auto simp: run_inv_def journal_wf_def)
  have pr: "pruneLocked (stored L d) = Inr (n, stored L d')"
    by (rule write_success [OF ok t _ call [unfolded journal_PruneCompleted_def]])
      (blast intro: step_prune)
  note get = pruneLocked_get [OF pr gm]
  have "{k. finished (Operations (stored L d)) k} = set (pruneSelected (Operations (stored L d)))"
    using pruneSelected_iff [OF gm] by blast
  then have "n = card {k. finished (Operations (stored L d)) k}"
    using pr by (simp add: pruneLocked_def Let_def length_remdups_card_conv)
  moreover have "UsedOperationIDs (stored L d') = UsedOperationIDs (stored L d)"
    "UsedRetryIDs (stored L d') = UsedRetryIDs (stored L d)"
    "NextSequence (stored L d') = NextSequence (stored L d)"
    by (subst get(1), simp)+
  ultimately show ?thesis using get(3) by blast
qed

section \<open>Listing\<close>

text \<open>
  a listing (\<open>List\<close>, \<open>Replayable\<close>, \<open>Unfinished\<close>) changes nothing and returns exactly the stored
  records of the selected statuses, each once, in the order in which they were appended.
\<close>

theorem journal_list_in_order:
  assumes ok: "cid_lib_ok L" and hist: "history_ok pre"
    and d: "d = journal_run L pre None" and call: "journal_list L F include d = (Inr ops, d')"
  shows "d' = d \<and> sorted_wrt (<) (map Sequence ops) \<and>
    set ops = {a. \<exists>k. gm_get (Operations (stored L d)) k = Some a \<and> include (Status a)}"
proof -
  let ?ops = "Operations (stored L d)" and ?sel = "\<lambda>operation. include (Status operation)"
  have dok: "journal_disk_ok L d" unfolding d by (rule run_history(1) [OF ok hist])
  have wf: "journal_wf L (stored L d)" by (rule stored_wf [OF ok dok])
  then have gm: "gm_wf ?ops" and dist: "ops_distinct ?ops" by (simp_all add: journal_wf_def)
  have "d' = snd (withState L F (reading (listLocked include)) d)"
    using call by (simp add: journal_list_def)
  then have d': "d' = d" by simp
  have ops: "ops = sort_key Sequence (filter ?sel (map snd ?ops))"
    using journal.with_state_success [OF dok call [unfolded journal_list_def withState_def]]
    by (simp add: reading_def listLocked_def)
  have "distinct (map (\<lambda>p. Sequence (snd p)) ?ops)"
    by (rule gm_distinct_map [OF gm]) (use dist in \<open>auto simp: ops_distinct_def\<close>)
  then have "distinct (map Sequence (filter ?sel (map snd ?ops)))"
    by (intro distinct_map_filter) (simp add: comp_def)
  then have "sorted_wrt (<) (map Sequence ops)" 
    unfolding ops sorted_wrt_map by (rule strict_sorted_sort_key)
  moreover have "set ops = {a. \<exists>k. gm_get ?ops k = Some a \<and> include (Status a)}"
    using ops gm_get_in_set [OF gm] by (force simp: image_iff)
  ultimately show ?thesis using d' by blast
qed

section \<open>The canonical form of an intent\<close>

text \<open>
  normalization is a projection onto canonical intents: what it returns it returns again
  unchanged; every identity is non-empty valid UTF-8 without NUL, the paths are canonical relative
  paths, and the CIDs are in canonical text form, so the intent survives the JSON round trip.
\<close>

theorem journal_intent_canonical:
  assumes ok: "cid_lib_ok L" and norm: "normalizeIntent L intent = Inr i"
  shows "normalizeIntent L i = Inr i \<and>
    (\<forall>s \<in> {OperationID i, RetryID i, DatasetID i, Branch i}. s \<noteq> [] \<and> ValidString s \<and> \<not> has_nul s) \<and>
    canonical_path (Path i) \<and> canonicalCID L (BaseRoot i) = Some (BaseRoot i) \<and>
    (case Kind i of
       KindWrite \<Rightarrow> Destination i = [] \<and> canonicalCID L (PayloadCID i) = Some (PayloadCID i)
     | KindRename \<Rightarrow> PayloadCID i = [] \<and> canonical_path (Destination i) \<and> Destination i \<noteq> Path i
     | KindOther _ \<Rightarrow> False
     | _ \<Rightarrow> Destination i = [] \<and> PayloadCID i = [])"
proof -
  have can: "canonical_intent L i" by (rule normalizeIntent_canonical [OF ok norm])
  then have "kind_ok L i" by (simp add: canonical_intent_def)
  then show ?thesis
    using can canonical_intent_fixed [OF can]
    by (auto simp: canonical_intent_def identity_ok_def kind_ok_def split: Kind.splits)
qed

section \<open>A clock that steps back\<close>

text \<open>Whether a call returns an error.\<close>

fun journal_fails :: "cid_lib \<Rightarrow> faults \<Rightarrow> time \<Rightarrow> journal_call \<Rightarrow> journal_disk \<Rightarrow> bool" where
  "journal_fails L F now (CallOpen path) d = isl (fst (journal_Open L F path d))"
| "journal_fails L F now (CallAppend i st) d = isl (fst (journal_Append L F now i st d))"
| "journal_fails L F now (CallFreezeForUpload k) d = isl (fst (journal_FreezeForUpload L F now k d))"
| "journal_fails L F now (CallMarkOffline k) d = isl (fst (journal_MarkOffline L F now k d))"
| "journal_fails L F now (CallMarkConflicted k c) d = isl (fst (journal_MarkConflicted L F now k c d))"
| "journal_fails L F now (CallComplete k r) d = isl (fst (journal_Complete L F now k r d))"
| "journal_fails L F now (CallFreezeBatchForUpload ks) d = isl (fst (journal_FreezeBatchForUpload L F now ks d))"
| "journal_fails L F now (CallMarkBatchConflicted ks c) d = isl (fst (journal_MarkBatchConflicted L F now ks c d))"
| "journal_fails L F now (CallCompleteBatch ks r) d = isl (fst (journal_CompleteBatch L F now ks r d))"
| "journal_fails L F now (CallResolveConflict k i st) d = isl (fst (journal_ResolveConflict L F now k i st d))"
| "journal_fails L F now (CallGet k) d = isl (fst (journal_Get L F k d))"
| "journal_fails L F now (CallList include) d = isl (fst (journal_list L F include d))"
| "journal_fails L F now CallPruneCompleted d = isl (fst (journal_PruneCompleted L F d))"

lemma refused_withState: "unreadable (reloadLocked L) d \<Longrightarrow> refused d (withState L F operation d)"
  by (simp add: withState_def with_state_unreadable)

lemma refused_argument: "(\<And>a. refused d (k a d)) \<Longrightarrow> refused d (with_argument arg k d)"
  by (cases arg) (auto simp: with_argument_def refused_def)

lemma journal_unreadable:
  assumes "unreadable (reloadLocked L) d"
  shows "journal_fails L F now c d \<and> journal_do L F now c d = d"
proof -
  note locked = refused_withState [OF assms]
  have opened: "refused d (journal_Open L F path d)" for path
    using locked by (auto simp: journal_Open_def refused_def)
  have transition: "refused d (journal_transition L F now k n x r d)" for k n x r
    unfolding journal_transition_def by (intro refused_argument locked)
  have calls: "refused d (journal_Append L F now i st d)" "refused d (journal_FreezeForUpload L F now k d)"
    "refused d (journal_MarkOffline L F now k d)" "refused d (journal_MarkConflicted L F now k x d)"
    "refused d (journal_Complete L F now k r d)" "refused d (journal_FreezeBatchForUpload L F now ks d)"
    "refused d (journal_MarkBatchConflicted L F now ks x d)" "refused d (journal_CompleteBatch L F now ks r d)"
    "refused d (journal_Get L F k d)" "refused d (journal_list L F only d)" "refused d (journal_PruneCompleted L F d)"
    for i st k x r ks only
    unfolding journal_Append_def journal_FreezeForUpload_def journal_MarkOffline_def journal_MarkConflicted_def
      journal_Complete_def journal_FreezeBatchForUpload_def journal_MarkBatchConflicted_def journal_CompleteBatch_def
      journal_Get_def journal_list_def journal_PruneCompleted_def
    by (intro refused_argument locked transition)+
  have "refused d (journal_ResolveConflict L F now k i st d)" for k i st
    unfolding journal_ResolveConflict_def by (rule refused_argument) (simp add: locked split: prod.split)
  then show ?thesis using opened calls by (cases c) (simp_all add: refused_def)
qed

lemma journal_run_unreadable:
  assumes "unreadable (reloadLocked L) d"
  shows "journal_run L entries d = d"
  using journal_unreadable [OF assms] by (induction entries) (auto simp: journal_run_def)

lemma backdated_refused: "UpdatedAt a < CreatedAt a \<Longrightarrow> isl (normalizeOperation L a)"
  by (cases "normalizeIntent L (op_Intent a)") (simp_all add: normalizeOperation_def Let_def)

lemma check_operations_refused:
  "(k, a) \<in> set ops \<Longrightarrow> isl (normalizeOperation L a) \<Longrightarrow> isl (check_operations L n used retry seq ids ops)"
proof (induction ops arbitrary: seq ids)
  case (Cons p ops)
  obtain k' b where p: "p = (k', b)" by fastforce
  show ?case
  proof (cases "normalizeOperation L b")
    case (Inr c)
    then have "isl (check_operations L n used retry (Sequence c # seq) (op_retry c # ids) ops)"
      using Cons p by (intro Cons.IH) auto
    then show ?thesis using Inr p by (auto simp: require_def bindE_def isl_def)
  qed (simp add: p)
qed simp

lemma backdated_unreadable:
  assumes "gm_get (Operations s) k = Some a" and "UpdatedAt a < CreatedAt a"
  shows "unreadable (reloadLocked L) (Some (Decoded (encodeState s)))"
proof -
  obtain e where "check_operations L (NextSequence s) (UsedOperationIDs s) (UsedRetryIDs s) [] [] (Operations s) = Inl e"
    using check_operations_refused [OF map_of_SomeD [OF assms(1)] backdated_refused [OF assms(2)]] by (meson isl_def)
  then have "isl (reloadLocked L (encodeState s))"
    by (simp add: reloadLocked_def encodeState_def require_def)
  then show ?thesis by (auto simp: unreadable_def isl_def)
qed

text \<open>
  C35: reopening needs the hypothesis on the clock.  Take any journal file that is in order, and any status change
  of a record (freezing, marking offline or conflicted, completing) that succeeds while the wall clock reads less
  than the record's creation time.  The call reports success, and from then on every call of the store fails and
  no call changes the file again: the update time precedes the creation time.
\<close>

theorem journal_clock_regression_unreadable:
  assumes "journal_disk_ok L d" and "gm_get (Operations (stored L d)) (TrimSpace operationID) = Some a"
    and "now < CreatedAt a" and "Status a \<noteq> next"
    and "journal_transition L F now operationID next conflictID resultRoot d = (Inr b, d')"
  shows "journal_run L entries d' = d' \<and> journal_fails L F' now' c (journal_run L entries d')"
proof -
  let ?key = "TrimSpace operationID" and ?b = "a\<lparr>Status := next, ConflictID := conflictID, ResultRoot := resultRoot, UpdatedAt := now\<rparr>"
  let ?op = "writing (transitionLocked ?key next conflictID resultRoot now)"
  have run: "withState L F ?op d = (Inr b, d')"
    using assms(5) by (auto simp: journal_transition_def checkOperationID_def with_argument_def Let_def require_def split: if_splits)
  have "allowedStatusTransition (Status a) next"
  proof (rule ccontr)
    assume "\<not> ?thesis"
    then obtain e where "?op (stored L d) = (Inl e, None)"
      using assms(2,4) by (fastforce simp: writing_def transitionLocked_def)
    then show False using journal.with_state_success [OF assms(1) run [unfolded withState_def]] by simp
  qed
  then have op: "?op (stored L d) = (Inr ?b, Some ((stored L d)\<lparr>Operations := gm_put (Operations (stored L d)) ?key ?b\<rparr>))"
    using assms(2,4) by (simp add: writing_def transitionLocked_def Let_def)
  have "d' = Some (Decoded (encodeState ((stored L d)\<lparr>Operations := gm_put (Operations (stored L d)) ?key ?b\<rparr>)))"
    using journal.with_state_written [OF assms(1) run [unfolded withState_def] op] by simp
  moreover have "unreadable (reloadLocked L) \<dots>"
    by (rule backdated_unreadable [where k = ?key and a = ?b]) (simp_all add: assms(3))
  ultimately show ?thesis using journal_run_unreadable [of L d'] journal_unreadable [of L d'] by simp
qed

section \<open>Concrete histories\<close>

definition demo_conflict :: "journal_entry list" where
  "demo_conflict =
     [(no_faults, 5, demo_append ''op1'' ''r1''), (no_faults, 6, CallMarkConflicted ''op1'' ''c1'')]"

theorem journal_resolve_conflict_witness:
  "\<exists>old next d'. journal_ResolveConflict demo_cid no_faults 7 ''op1'' (demo_intent ''op2'' ''r2'')
       StatusOfflineOnly (journal_run demo_cid demo_conflict None) = (Inr (old, next), d') \<and>
     op_id old = ''op1'' \<and> ReplacementOperationID old = ''op2'' \<and> Sequence old < Sequence next"
proof -
  let ?i = "demo_intent ''op2'' ''r2''" and ?d = "journal_run demo_cid demo_conflict None"
  let ?one = "journal_ResolveConflict demo_cid no_faults 7 ''op1'' ?i StatusOfflineOnly ?d"
  have run: "fst ?one = Inr (fst (projr (fst ?one)), snd (projr (fst ?one)))"
    "op_id (fst (projr (fst ?one))) = ''op1''" "op_id (snd (projr (fst ?one))) = ''op2''"
    by code_simp+
  have h: "history_ok (demo_conflict @ [(no_faults, 7, CallResolveConflict ''op1'' ?i StatusOfflineOnly)])"
    by (simp add: history_ok_def demo_conflict_def)
  have one: "?one = (Inr (fst (projr (fst ?one)), snd (projr (fst ?one))), snd ?one)"
    using run(1) by (metis prod.collapse)
  from journal_resolve_conflict [OF demo_cid_ok h refl one] one run(2,3) show ?thesis by metis
qed

definition demo_finished :: "journal_entry list" where
  "demo_finished =
     demo_conflict @
     [(no_faults, 7, CallResolveConflict ''op1'' (demo_intent ''op2'' ''r2'') StatusOfflineOnly),
      (no_faults, 8, demo_append ''op3'' ''r3''),
      (no_faults, 8, CallFreezeForUpload ''op2''), (no_faults, 9, CallComplete ''op2'' ''bnew'')]"

theorem journal_prune_exact_witness:
  "\<exists>d'. journal_PruneCompleted demo_cid no_faults (journal_run demo_cid demo_finished None) = (Inr 2, d') \<and>
     finished (Operations (stored demo_cid (journal_run demo_cid demo_finished None))) ''op1'' \<and>
     gm_get (Operations (stored demo_cid d')) ''op1'' = None"
proof -
  let ?d = "journal_run demo_cid demo_finished None"
  let ?one = "journal_PruneCompleted demo_cid no_faults ?d"
  have run: "fst ?one = Inr 2" "gm_get (Operations (stored demo_cid (snd ?one))) ''op1'' = None"
    "gm_get (Operations (stored demo_cid ?d)) ''op1'' \<noteq> None"
    by code_simp+
  have h: "history_ok (demo_finished @ [(no_faults, 9, CallPruneCompleted)])"
    by (simp add: history_ok_def demo_finished_def demo_conflict_def)
  have one: "?one = (Inr 2, snd ?one)" using run(1) by (metis prod.collapse)
  from journal_prune_exact [OF demo_cid_ok h refl one] one run(2,3) show ?thesis by metis
qed

theorem journal_list_in_order_witness:
  "\<exists>ops. journal_list demo_cid no_faults replayable demo_disk = (Inr ops, demo_disk) \<and>
     length ops = 2 \<and> sorted_wrt (<) (map Sequence ops)"
proof -
  let ?one = "journal_list demo_cid no_faults replayable demo_disk"
  have run: "fst ?one = Inr (projr (fst ?one))" "length (projr (fst ?one)) = 2" by code_simp+
  have h: "history_ok demo_history" by (simp add: demo_history_simps)
  have one: "?one = (Inr (projr (fst ?one)), snd ?one)" using run(1) by (metis prod.collapse)
  from journal_list_in_order [OF demo_cid_ok h demo_disk_def one] one run(2) show ?thesis by metis
qed

theorem journal_intent_canonical_witness:
  "normalizeIntent demo_cid (demo_intent '' op1 '' ''r1'') = Inr (demo_intent ''op1'' ''r1'') \<and>
   canonical_path (Path (demo_intent ''op1'' ''r1''))"
proof -
  have "normalizeIntent demo_cid (demo_intent '' op1 '' ''r1'') = Inr (demo_intent ''op1'' ''r1'')"
    by code_simp
  with journal_intent_canonical [OF demo_cid_ok this] show ?thesis by blast
qed

theorem journal_clock_regression_unreadable_witness:
  "\<exists>b d'. journal_transition demo_cid no_faults 3 ''op1'' StatusPendingUpload [] []
       (journal_run demo_cid [(no_faults, 5, demo_append ''op1'' ''r1'')] None) = (Inr b, d') \<and>
     journal_fails demo_cid no_faults 9 (CallOpen ''journal.json'') (journal_run demo_cid demo_finished d')"
proof -
  let ?pre = "[(no_faults, 5, demo_append ''op1'' ''r1'')] :: journal_entry list"
  let ?d = "journal_run demo_cid ?pre None"
  let ?a = "the (gm_get (Operations (stored demo_cid ?d)) ''op1'')"
  let ?one = "journal_transition demo_cid no_faults 3 ''op1'' StatusPendingUpload [] [] ?d"
  have run: "fst ?one = Inr (projr (fst ?one))" "gm_get (Operations (stored demo_cid ?d)) (TrimSpace ''op1'') = Some ?a"
    "3 < CreatedAt ?a" "Status ?a \<noteq> StatusPendingUpload"
    by code_simp+
  have one: "?one = (Inr (projr (fst ?one)), snd ?one)" using run(1) by (metis prod.collapse)
  have "history_ok ?pre" by (simp add: history_ok_def)
  then have "journal_disk_ok demo_cid ?d" by (rule run_history(1) [OF demo_cid_ok])
  from journal_clock_regression_unreadable [OF this run(2-4) one] one show ?thesis by blast
qed

end
