(* ===== verification/JsonText.thy ===== *)
theory JsonText
  imports GoText
begin

text \<open>
  What \<open>encoding/json\<close> does to a Go string: every byte that is not part of a valid UTF-8 sequence
  is replaced by the replacement character U+FFFD.  Strings that are valid UTF-8 survive the round
  trip, and so do they survive \<open>strings.TrimSpace\<close>.
\<close>

section \<open>Decoding one rune\<close>

lemma utf8_run_split:
  "utf8_run rs xs \<longleftrightarrow>
     length rs \<le> length xs \<and> list_all2 in_range rs (take (length rs) xs) \<and>
     utf8_run [] (drop (length rs) xs)"
proof (induction rs xs rule: utf8_run.induct)
  case (3 c cs)
  then show ?case by simp
qed auto

definition rune_ok :: "(nat \<times> nat) list \<Rightarrow> string \<Rightarrow> bool" where
  "rune_ok rs cs \<longleftrightarrow> length rs \<le> length cs \<and> list_all2 in_range rs (take (length rs) cs)"

definition replacement_char :: string where
  "replacement_char = [CHR 0xEF, CHR 0xBF, CHR 0xBD]"

function json_text :: "string \<Rightarrow> string" where
  "json_text [] = []"
| "json_text (c # cs) =
     (case utf8_lead c of
        Some rs \<Rightarrow>
          if rune_ok rs cs
          then (c # take (length rs) cs) @ json_text (drop (length rs) cs)
          else replacement_char @ json_text cs
      | None \<Rightarrow> replacement_char @ json_text cs)"
  by pat_completeness auto
termination
  by (relation "measure length") auto

lemma json_text_valid [simp]: "ValidString s \<Longrightarrow> json_text s = s"
proof (induction s rule: json_text.induct)
  case (2 c cs)
  then obtain rs where rs: "utf8_lead c = Some rs" "utf8_run rs cs"
    by (auto simp: ValidString_def split: option.splits)
  then have ok: "rune_ok rs cs" and "ValidString (drop (length rs) cs)"
    using utf8_run_split [of rs cs] by (auto simp: rune_ok_def ValidString_def)
  then show ?case using "2.IH"(2) [OF rs(1) ok] rs(1) ok by simp
qed simp

text \<open>For evaluation: plain text is copied byte by byte.\<close>

lemma json_text_code [code]:
  "json_text [] = []"
  "json_text (c # cs) =
     (if graphic c then c # json_text cs
      else case utf8_lead c of
        Some rs \<Rightarrow>
          if rune_ok rs cs
          then (c # take (length rs) cs) @ json_text (drop (length rs) cs)
          else replacement_char @ json_text cs
      | None \<Rightarrow> replacement_char @ json_text cs)"
  by (auto simp: utf8_lead_def graphic_def in_range_def rune_ok_def Let_def)

lemma replacement_char_valid: "ValidString replacement_char"
  by (simp add: ValidString_def replacement_char_def utf8_lead_def in_range_def byte_def Let_def)

lemma ValidString_json_text [simp]: "ValidString (json_text s)"
proof (induction s rule: json_text.induct)
  case (2 c cs)
  show ?case
  proof (cases "utf8_lead c")
    case None
    then show ?thesis
      using 2(1) [OF None] by (simp add: ValidString_append replacement_char_valid)
  next
    case (Some rs)
    show ?thesis
    proof (cases "rune_ok rs cs")
      case True
      then have "ValidString (c # take (length rs) cs)"
        using Some utf8_run_split [of rs "take (length rs) cs"]
        by (auto simp: ValidString_def rune_ok_def min_def)
      then show ?thesis
        using 2(2) [OF Some True] Some True ValidString_append [of "c # take (length rs) cs"] by simp
    next
      case False
      then show ?thesis
        using 2(3) [OF Some False] Some False by (simp add: ValidString_append replacement_char_valid)
    qed
  qed
qed simp

lemma json_text_idem: "json_text (json_text s) = json_text s"
  by simp

section \<open>Trimming keeps valid text valid\<close>

text \<open>A lead byte can only follow complete runes.\<close>

definition lead_byte :: "char \<Rightarrow> bool" where
  "lead_byte c \<longleftrightarrow> \<not> in_range (0x80, 0xBF) c"

definition cont_range :: "nat \<times> nat \<Rightarrow> bool" where
  "cont_range r \<longleftrightarrow> 0x80 \<le> fst r \<and> snd r \<le> 0xBF"

lemma utf8_lead_cont: "utf8_lead c = Some rs \<Longrightarrow> list_all cont_range rs"
  by (auto simp: utf8_lead_def cont_range_def Let_def split: if_splits)

lemma utf8_run_before_lead:
  "utf8_run rs (xs @ c # ys) \<Longrightarrow> list_all cont_range rs \<Longrightarrow> lead_byte c \<Longrightarrow> utf8_run rs xs"
proof (induction rs xs rule: utf8_run.induct)
  case (2 r rs)
  then show ?case by (auto simp: lead_byte_def cont_range_def in_range_def)
next
  case (3 c cs)
  then show ?case by (auto split: option.splits dest: utf8_lead_cont)
qed auto

lemma ValidString_before_lead:
  "ValidString (xs @ c # ys) \<Longrightarrow> lead_byte c \<Longrightarrow> ValidString xs"
  unfolding ValidString_def by (rule utf8_run_before_lead) simp_all

lemma space_encodings_valid:
  "list_all (\<lambda>e. e \<noteq> [] \<and> ValidString e \<and> lead_byte (hd e)) space_encodings"
  by (simp add: space_encodings_def ValidString_def utf8_lead_def lead_byte_def in_range_def
      byte_def Let_def)

lemma strip_first_element:
  "strip_first es s = Some t \<Longrightarrow> \<exists>e \<in> set es. e \<noteq> [] \<and> s = e @ t"
proof (induction es)
  case (Cons e es)
  show ?case
  proof (cases "e \<noteq> [] \<and> take (length e) s = e")
    case True
    then have "s = e @ t" using Cons.prems by auto (metis append_take_drop_id)
    with True show ?thesis by auto
  next
    case False
    then show ?thesis using Cons by (auto split: if_splits)
  qed
qed simp

lemma trim_with_keeps:
  assumes "\<And>e t. e \<in> set es \<Longrightarrow> P (e @ t) \<Longrightarrow> P t" and "P s"
  shows "P (trim_with es s)"
  using assms
proof (induction es s rule: trim_with.induct)
  case (1 es s)
  show ?case
  proof (cases "strip_first es s")
    case None
    then show ?thesis using 1(3) by (simp add: trim_with_fixed)
  next
    case (Some t)
    then obtain e where "e \<in> set es" and "s = e @ t" using strip_first_element by blast
    then have "P t" using 1(2,3) by blast
    then show ?thesis using 1(1) [OF Some] 1(2) Some by (simp add: trim_with.simps [of es s])
  qed
qed

lemma ValidString_TrimSpace:
  assumes "ValidString s"
  shows "ValidString (TrimSpace s)"
proof -
  have enc: "e \<noteq> [] \<and> ValidString e \<and> lead_byte (hd e)" if "e \<in> set space_encodings" for e
    using space_encodings_valid that by (simp add: list_all_iff)
  have left: "ValidString (trim_with space_encodings s)"
    by (rule trim_with_keeps [where P = ValidString, OF _ assms])
      (use enc in \<open>auto simp: ValidString_append\<close>)
  have "ValidString (rev (trim_with (map rev space_encodings) (rev (trim_with space_encodings s))))"
  proof (rule trim_with_keeps [where P = "\<lambda>t. ValidString (rev t)"])
    fix e t assume "e \<in> set (map rev space_encodings)" and v: "ValidString (rev (e @ t))"
    then have "rev e \<noteq> [] \<and> lead_byte (hd (rev e))" using enc [of "rev e"] by auto
    then obtain c ys where "rev e = c # ys" and "lead_byte c" by (cases "rev e") auto
    then show "ValidString (rev t)" using v ValidString_before_lead by simp
  qed (use left in simp)
  then show ?thesis by (simp add: TrimSpace_def)
qed

end
