(* ===== verification/Trust.thy ===== *)
theory Trust
  imports CidLib Durable JsonText "HOL-Library.List_Lexorder" "HOL-Library.Char_ord"
begin

text \<open>
  The trusted-root store (\<open>trust/store.go\<close>, \<open>trust/policy.go\<close>): per alias an accepted root, locally
  computed candidates and remote observations, with the explicit actions that promote one to another.
\<close>

section \<open>Data\<close>

record CandidateRoot =
  cr_Root :: string
  cr_BaseRoot :: string
  cr_Source :: string
  cr_ObservedAt :: time

record AcceptedRootState =
  ar_Root :: string
  ar_PreviousRoot :: string
  ar_Source :: string
  ar_AcceptedAt :: time

record ObservedHead =
  oh_Source :: string
  oh_DatasetID :: string
  oh_Branch :: string
  oh_CommitID :: string
  oh_Root :: string
  oh_Revision :: uint64
  oh_ObservedAt :: time

record RootState =
  rs_Alias :: string
  rs_Profile :: string
  rs_Gateway :: string
  rs_Accepted :: "AcceptedRootState option"
  rs_Candidates :: "CandidateRoot list"
  rs_ObservedHeads :: "ObservedHead list"

record trust_state =
  ts_Version :: int
  ts_Roots :: "(string, RootState) gomap"

text \<open>The decoded document, before validation: an object's keys may repeat.\<close>

record trust_file =
  tf_Version :: int
  tf_Roots :: "(string \<times> RootState) list option"

datatype trust_error =
    ErrTrustNotFound | ErrNoAcceptedRoot | ErrCandidateNotFound | ErrObservationNotFound
  | ErrStaleCandidate | ErrAcceptedRootChanged | ErrStaleObservation | ErrConflictingObservation
  | TrustInvalid string | TrustIO io_step | TrustOperation string

definition trustStoreVersion :: int where
  "trustStoreVersion = 2"

definition trust_emptyState :: trust_state where
  "trust_emptyState = \<lparr>ts_Version = trustStoreVersion, ts_Roots = []\<rparr>"

definition zeroRootState :: RootState where
  "zeroRootState =
     \<lparr>rs_Alias = [], rs_Profile = [], rs_Gateway = [], rs_Accepted = None, rs_Candidates = [],
      rs_ObservedHeads = []\<rparr>"

definition root_of :: "trust_state \<Rightarrow> string \<Rightarrow> RootState" where
  "root_of s alias = (case gm_get (ts_Roots s) alias of None \<Rightarrow> zeroRootState | Some v \<Rightarrow> v)"

section \<open>Normalization\<close>

definition normalizeAlias :: "string \<Rightarrow> string" where
  "normalizeAlias alias = TrimSpace alias"

definition canonicalOptionalCID :: "cid_lib \<Rightarrow> string \<Rightarrow> string option" where
  "canonicalOptionalCID L raw = (if raw = [] then Some [] else canonicalCID L raw)"

definition removeCandidate :: "CandidateRoot list \<Rightarrow> string \<Rightarrow> CandidateRoot list" where
  "removeCandidate vs root = filter (\<lambda>v. cr_Root v \<noteq> root) vs"

definition observationKey :: "ObservedHead \<Rightarrow> string" where
  "observationKey v = oh_Source v @ [CHR 0x00] @ oh_DatasetID v @ [CHR 0x00] @ oh_Branch v"

definition sortObservations :: "ObservedHead list \<Rightarrow> ObservedHead list" where
  "sortObservations vs = sort_key observationKey vs"

fun upsert_at :: "ObservedHead list \<Rightarrow> ObservedHead \<Rightarrow> trust_error + ObservedHead list" where
  "upsert_at [] incoming = Inr [incoming]"
| "upsert_at (existing # rest) incoming =
     (if observationKey existing \<noteq> observationKey incoming
      then bindE (upsert_at rest incoming) (\<lambda>out. Inr (existing # out))
      else if oh_Revision incoming < oh_Revision existing then Inl ErrStaleObservation
      else if oh_Revision incoming = oh_Revision existing \<and>
              (oh_CommitID incoming \<noteq> oh_CommitID existing \<or> oh_Root incoming \<noteq> oh_Root existing)
      then Inl ErrConflictingObservation
      else Inr (incoming # rest))"

definition upsertObservation ::
  "ObservedHead list \<Rightarrow> ObservedHead \<Rightarrow> trust_error + ObservedHead list" where
  "upsertObservation vs incoming =
     bindE (upsert_at vs incoming) (\<lambda>out. Inr (sortObservations out))"

definition trimObservation :: "ObservedHead \<Rightarrow> ObservedHead" where
  "trimObservation v =
     v\<lparr>oh_Source := TrimSpace (oh_Source v), oh_DatasetID := TrimSpace (oh_DatasetID v),
       oh_Branch := TrimSpace (oh_Branch v), oh_CommitID := TrimSpace (oh_CommitID v),
       oh_Root := TrimSpace (oh_Root v)\<rparr>"

definition normalizeObservation :: "cid_lib \<Rightarrow> ObservedHead \<Rightarrow> trust_error + ObservedHead" where
  "normalizeObservation L raw =
     (let v = trimObservation raw in
      require (oh_Source v \<noteq> [] \<and> oh_DatasetID v \<noteq> [] \<and> oh_Branch v \<noteq> [])
        (TrustInvalid ''observed head source, dataset, and branch are required'') (
      if oh_CommitID v = [] then
        require (oh_Root v = [] \<and> oh_Revision v = 0)
          (TrustInvalid ''empty observed head has a partial commit tuple'') (Inr v)
      else
        require (oh_Root v \<noteq> [] \<and> oh_Revision v \<noteq> 0)
          (TrustInvalid ''observed head has an incomplete commit tuple'') (
        bindE (of_option (TrustInvalid ''observed head has invalid root'') (canonicalCID L (oh_Root v)))
          (\<lambda>root. Inr (v\<lparr>oh_Root := root\<rparr>)))))"

definition normalizeAccepted ::
  "cid_lib \<Rightarrow> AcceptedRootState option \<Rightarrow> trust_error + AcceptedRootState option" where
  "normalizeAccepted L acc =
     (case acc of
        None \<Rightarrow> Inr None
      | Some accepted \<Rightarrow>
          bindE (of_option (TrustInvalid ''alias has invalid accepted root'')
                   (canonicalCID L (ar_Root accepted))) (\<lambda>root.
          bindE (of_option (TrustInvalid ''alias has invalid previous root'')
                   (canonicalOptionalCID L (ar_PreviousRoot accepted))) (\<lambda>previous.
          Inr (Some (accepted\<lparr>ar_Root := root,
            ar_PreviousRoot := (if previous = root then [] else previous)\<rparr>)))))"

text \<open>
  The loop over the stored candidates; \<open>out\<close> is the list built so far.
\<close>

fun normalizeCandidates ::
  "cid_lib \<Rightarrow> AcceptedRootState option \<Rightarrow> CandidateRoot list \<Rightarrow> CandidateRoot list
    \<Rightarrow> trust_error + CandidateRoot list" where
  "normalizeCandidates L acc out [] = Inr out"
| "normalizeCandidates L acc out (raw # rest) =
     bindE (of_option (TrustInvalid ''candidate has invalid root'') (canonicalCID L (cr_Root raw))) (\<lambda>root.
     bindE (of_option (TrustInvalid ''candidate has invalid base root'')
              (canonicalOptionalCID L (cr_BaseRoot raw))) (\<lambda>base.
     let candidate = raw\<lparr>cr_Root := root, cr_BaseRoot := base\<rparr> in
     require (\<not> (acc = None \<and> base \<noteq> []))
       (TrustInvalid ''bootstrap candidate has a base root'') (
     require (\<not> (acc \<noteq> None \<and> base = []))
       (TrustInvalid ''candidate has no accepted base root'') (
     if (case acc of None \<Rightarrow> False | Some a \<Rightarrow> root = ar_Root a)
     then normalizeCandidates L acc out rest
     else normalizeCandidates L acc (removeCandidate out root @ [candidate]) rest))))"

fun normalizeObservations ::
  "cid_lib \<Rightarrow> ObservedHead list \<Rightarrow> ObservedHead list \<Rightarrow> trust_error + ObservedHead list" where
  "normalizeObservations L out [] = Inr out"
| "normalizeObservations L out (observation # rest) =
     require (oh_ObservedAt observation \<noteq> 0)
       (TrustInvalid ''observation has no observation time'') (
     bindE (normalizeObservation L observation) (\<lambda>normalized.
     bindE (upsertObservation out (normalized\<lparr>oh_ObservedAt := oh_ObservedAt observation\<rparr>)) (\<lambda>out'.
     normalizeObservations L out' rest)))"

definition normalizeRootState ::
  "cid_lib \<Rightarrow> string \<Rightarrow> RootState \<Rightarrow> trust_error + RootState" where
  "normalizeRootState L alias v =
     require (normalizeAlias alias \<noteq> [] \<and> normalizeAlias alias = alias)
       (TrustInvalid ''trust store contains invalid alias key'') (
     require (normalizeAlias (if rs_Alias v = [] then alias else rs_Alias v) = alias)
       (TrustInvalid ''trust-store alias contains mismatched identity'') (
     bindE (normalizeAccepted L (rs_Accepted v)) (\<lambda>acc.
     bindE (normalizeCandidates L acc [] (rs_Candidates v)) (\<lambda>candidates.
     bindE (normalizeObservations L [] (rs_ObservedHeads v)) (\<lambda>observations.
     require (\<not> (acc = None \<and> candidates = [] \<and> observations = []))
       (TrustInvalid ''alias has no accepted root, candidate, or observation'') (
     Inr (v\<lparr>rs_Alias := alias, rs_Accepted := acc, rs_Candidates := candidates,
            rs_ObservedHeads := observations\<rparr>)))))))"

section \<open>Reload and encoding\<close>

fun normalizeRoots ::
  "cid_lib \<Rightarrow> (string \<times> RootState) list \<Rightarrow> trust_error + (string, RootState) gomap" where
  "normalizeRoots L [] = Inr []"
| "normalizeRoots L ((alias, v) # rest) =
     bindE (normalizeRootState L alias v) (\<lambda>v'.
     bindE (normalizeRoots L rest) (\<lambda>rest'. Inr ((alias, v') # rest')))"

text \<open>
  \<open>strictjson.Decode\<close> rejects an object with a repeated key before the document is decoded.
\<close>

definition trust_reloadLocked :: "cid_lib \<Rightarrow> trust_file \<Rightarrow> trust_error + trust_state" where
  "trust_reloadLocked L file =
     (let roots = (case tf_Roots file of None \<Rightarrow> [] | Some rs \<Rightarrow> rs) in
      require (distinct (map fst roots)) (TrustInvalid ''decode trust store'') (
      require (tf_Version file = trustStoreVersion) (TrustInvalid ''unsupported trust-store version'') (
      bindE (normalizeRoots L roots) (\<lambda>roots'.
      Inr \<lparr>ts_Version = tf_Version file, ts_Roots = roots'\<rparr>))))"

definition json_accepted :: "AcceptedRootState \<Rightarrow> AcceptedRootState" where
  "json_accepted a =
     a\<lparr>ar_Root := json_text (ar_Root a), ar_PreviousRoot := json_text (ar_PreviousRoot a),
       ar_Source := json_text (ar_Source a)\<rparr>"

definition json_candidate :: "CandidateRoot \<Rightarrow> CandidateRoot" where
  "json_candidate c =
     c\<lparr>cr_Root := json_text (cr_Root c), cr_BaseRoot := json_text (cr_BaseRoot c),
       cr_Source := json_text (cr_Source c)\<rparr>"

definition json_observed :: "ObservedHead \<Rightarrow> ObservedHead" where
  "json_observed v =
     v\<lparr>oh_Source := json_text (oh_Source v), oh_DatasetID := json_text (oh_DatasetID v),
       oh_Branch := json_text (oh_Branch v), oh_CommitID := json_text (oh_CommitID v),
       oh_Root := json_text (oh_Root v)\<rparr>"

definition json_root_state :: "RootState \<Rightarrow> RootState" where
  "json_root_state v =
     \<lparr>rs_Alias = json_text (rs_Alias v), rs_Profile = json_text (rs_Profile v),
      rs_Gateway = json_text (rs_Gateway v), rs_Accepted = map_option json_accepted (rs_Accepted v),
      rs_Candidates = map json_candidate (rs_Candidates v),
      rs_ObservedHeads = map json_observed (rs_ObservedHeads v)\<rparr>"

definition trust_encode :: "trust_state \<Rightarrow> trust_file" where
  "trust_encode s =
     \<lparr>tf_Version = trustStoreVersion,
      tf_Roots = Some (map (\<lambda>(alias, v). (json_text alias, json_root_state v)) (ts_Roots s))\<rparr>"

section \<open>Operations on the loaded state\<close>

text \<open>
  Each operation returns its result and the state to write, if it writes.
\<close>

type_synonym trust_result = "trust_error + (RootState \<times> trust_state option)"

definition acceptRoot :: "RootState \<Rightarrow> string \<Rightarrow> string \<Rightarrow> time \<Rightarrow> RootState" where
  "acceptRoot v root source acceptedAt =
     (let previous =
        (case rs_Accepted v of
           None \<Rightarrow> []
         | Some a \<Rightarrow> if ar_Root a \<noteq> root then ar_Root a else ar_PreviousRoot a)
      in v\<lparr>rs_Accepted := Some \<lparr>ar_Root = root, ar_PreviousRoot = previous, ar_Source = source,
             ar_AcceptedAt = acceptedAt\<rparr>,
           rs_Candidates := (if rs_Accepted v = None then [] else removeCandidate (rs_Candidates v) root)\<rparr>)"

definition put_root :: "trust_state \<Rightarrow> string \<Rightarrow> RootState \<Rightarrow> trust_state" where
  "put_root s alias v = s\<lparr>ts_Roots := gm_put (ts_Roots s) alias v\<rparr>"

definition trustLocked ::
  "string \<Rightarrow> string \<Rightarrow> string \<Rightarrow> string \<Rightarrow> string \<Rightarrow> time \<Rightarrow> trust_state \<Rightarrow> trust_result" where
  "trustLocked alias root profile gateway source now s =
     (let v = acceptRoot ((root_of s alias)\<lparr>rs_Alias := alias, rs_Profile := profile,
                rs_Gateway := gateway\<rparr>) root source now
      in Inr (v, Some (put_root s alias v)))"

definition addCandidateLocked ::
  "string \<Rightarrow> string \<Rightarrow> string \<Rightarrow> string \<Rightarrow> time \<Rightarrow> trust_state \<Rightarrow> trust_result" where
  "addCandidateLocked alias root baseRoot source now s =
     (let v = (root_of s alias)\<lparr>rs_Alias := alias\<rparr> in
      if (case rs_Accepted v of None \<Rightarrow> baseRoot \<noteq> [] | Some a \<Rightarrow> baseRoot \<noteq> ar_Root a)
      then Inl ErrStaleCandidate
      else if (case rs_Accepted v of None \<Rightarrow> False | Some a \<Rightarrow> root = ar_Root a) then Inr (v, None)
      else
        let v' = v\<lparr>rs_Candidates := removeCandidate (rs_Candidates v) root @
              [\<lparr>cr_Root = root, cr_BaseRoot = baseRoot, cr_Source = source, cr_ObservedAt = now\<rparr>]\<rparr>
        in Inr (v', Some (put_root s alias v')))"

definition observeLocked :: "string \<Rightarrow> ObservedHead \<Rightarrow> trust_state \<Rightarrow> trust_result" where
  "observeLocked alias observation s =
     (let v = (root_of s alias)\<lparr>rs_Alias := alias\<rparr> in
      bindE (upsertObservation (rs_ObservedHeads v) observation) (\<lambda>heads.
      let v' = v\<lparr>rs_ObservedHeads := heads\<rparr> in Inr (v', Some (put_root s alias v'))))"

definition acceptCandidateLocked ::
  "string \<Rightarrow> string \<Rightarrow> string \<Rightarrow> time \<Rightarrow> trust_state \<Rightarrow> trust_result" where
  "acceptCandidateLocked alias root source now s =
     (case gm_get (ts_Roots s) alias of
        None \<Rightarrow> Inl ErrTrustNotFound
      | Some v \<Rightarrow>
          (case find (\<lambda>c. cr_Root c = root) (rs_Candidates v) of
             None \<Rightarrow> Inl ErrCandidateNotFound
           | Some candidate \<Rightarrow>
               if (case rs_Accepted v of
                     None \<Rightarrow> cr_BaseRoot candidate \<noteq> []
                   | Some a \<Rightarrow> cr_BaseRoot candidate = [] \<or> cr_BaseRoot candidate \<noteq> ar_Root a)
               then Inl ErrStaleCandidate
               else let v' = acceptRoot v root source now in Inr (v', Some (put_root s alias v'))))"

definition acceptObservedLocked ::
  "string \<Rightarrow> string \<Rightarrow> string \<Rightarrow> string \<Rightarrow> string \<Rightarrow> time \<Rightarrow> trust_state \<Rightarrow> trust_result" where
  "acceptObservedLocked alias root profile gateway source now s =
     (case gm_get (ts_Roots s) alias of
        None \<Rightarrow> Inl ErrTrustNotFound
      | Some v \<Rightarrow>
          if \<not> list_ex (\<lambda>h. oh_Root h = root) (rs_ObservedHeads v) then Inl ErrObservationNotFound
          else let v' = acceptRoot (v\<lparr>rs_Profile := profile, rs_Gateway := gateway\<rparr>) root source now
               in Inr (v', Some (put_root s alias v')))"

section \<open>The store\<close>

type_synonym trust_disk = "trust_file content option"

definition trustSteps :: "io_step list" where
  "trustSteps =
     [Marshal, MkdirTarget, CreateTemp, SecureTemp, WriteTemp, ShortWrite, SyncTemp, CloseTemp,
      RenameTemp, SyncParent, SecureTarget]"

definition withLockedState ::
  "cid_lib \<Rightarrow> faults \<Rightarrow> (trust_state \<Rightarrow> (trust_error + 'r) \<times> trust_state option)
    \<Rightarrow> trust_disk \<Rightarrow> (trust_error + 'r) \<times> trust_disk" where
  "withLockedState L F operation disk =
     with_state trustSteps F TrustIO (TrustInvalid ''decode trust store'')
       trust_emptyState (trust_reloadLocked L) trust_encode operation disk"

definition locked_call :: "(trust_state \<Rightarrow> trust_result) \<Rightarrow> trust_state
    \<Rightarrow> (trust_error + RootState) \<times> trust_state option" where
  "locked_call f s = (case f s of Inl e \<Rightarrow> (Inl e, None) | Inr (v, w) \<Rightarrow> (Inr v, w))"

definition checked ::
  "trust_error + 'a \<Rightarrow> ('a \<Rightarrow> trust_disk \<Rightarrow> (trust_error + 'r) \<times> trust_disk)
    \<Rightarrow> trust_disk \<Rightarrow> (trust_error + 'r) \<times> trust_disk" where
  "checked arg k disk = (case arg of Inl e \<Rightarrow> (Inl e, disk) | Inr a \<Rightarrow> k a disk)"

definition rootArgument :: "cid_lib \<Rightarrow> string \<Rightarrow> string \<Rightarrow> trust_error + string" where
  "rootArgument L what root = of_option (TrustInvalid what) (canonicalCID L root)"

definition aliasArgument :: "string \<Rightarrow> string \<Rightarrow> trust_error + string" where
  "aliasArgument what alias =
     require (normalizeAlias alias \<noteq> []) (TrustInvalid what) (Inr (normalizeAlias alias))"

definition trust_Open ::
  "cid_lib \<Rightarrow> faults \<Rightarrow> string \<Rightarrow> trust_disk \<Rightarrow> (trust_error + unit) \<times> trust_disk" where
  "trust_Open L F path disk =
     (if TrimSpace path = [] then (Inl (TrustInvalid ''trust-store path is empty''), disk)
      else withLockedState L F (reading (\<lambda>_. Inr ())) disk)"

definition trust_ListStates ::
  "cid_lib \<Rightarrow> faults \<Rightarrow> trust_disk \<Rightarrow> (trust_error + RootState list) \<times> trust_disk" where
  "trust_ListStates L F =
     withLockedState L F (reading (\<lambda>s. Inr (sort_key rs_Alias (map snd (ts_Roots s)))))"

definition trust_GetState ::
  "cid_lib \<Rightarrow> faults \<Rightarrow> string \<Rightarrow> trust_disk \<Rightarrow> (trust_error + RootState) \<times> trust_disk" where
  "trust_GetState L F alias =
     withLockedState L F
       (reading (\<lambda>s. of_option ErrTrustNotFound (gm_get (ts_Roots s) (normalizeAlias alias))))"

definition trust_Trust ::
  "cid_lib \<Rightarrow> faults \<Rightarrow> time \<Rightarrow> string \<Rightarrow> string \<Rightarrow> string \<Rightarrow> string \<Rightarrow> string \<Rightarrow> trust_disk
    \<Rightarrow> (trust_error + RootState) \<times> trust_disk" where
  "trust_Trust L F now alias root profile gateway source =
     checked
       (bindE (aliasArgument ''trusted-root alias is empty'' alias) (\<lambda>a.
        bindE (rootArgument L ''invalid trusted root'' root) (\<lambda>r. Inr (a, r))))
       (\<lambda>(a, r). withLockedState L F (locked_call (trustLocked a r profile gateway source now)))"

definition trust_AddCandidate ::
  "cid_lib \<Rightarrow> faults \<Rightarrow> time \<Rightarrow> string \<Rightarrow> string \<Rightarrow> string \<Rightarrow> string \<Rightarrow> trust_disk
    \<Rightarrow> (trust_error + RootState) \<times> trust_disk" where
  "trust_AddCandidate L F now alias root baseRoot source =
     checked
       (bindE (aliasArgument ''candidate alias is empty'' alias) (\<lambda>a.
        bindE (rootArgument L ''invalid candidate root'' root) (\<lambda>r.
        bindE (if TrimSpace baseRoot \<noteq> [] then rootArgument L ''invalid candidate base root'' baseRoot
               else Inr []) (\<lambda>b. Inr (a, r, b)))))
       (\<lambda>(a, r, b). withLockedState L F (locked_call (addCandidateLocked a r b source now)))"

definition trust_ObserveHead ::
  "cid_lib \<Rightarrow> faults \<Rightarrow> time \<Rightarrow> string \<Rightarrow> ObservedHead \<Rightarrow> trust_disk
    \<Rightarrow> (trust_error + RootState) \<times> trust_disk" where
  "trust_ObserveHead L F now alias observation =
     checked
       (bindE (aliasArgument ''observed-head alias is empty'' alias) (\<lambda>a.
        bindE (normalizeObservation L observation) (\<lambda>h. Inr (a, h\<lparr>oh_ObservedAt := now\<rparr>))))
       (\<lambda>(a, h). withLockedState L F (locked_call (observeLocked a h)))"

definition trust_AcceptCandidate ::
  "cid_lib \<Rightarrow> faults \<Rightarrow> time \<Rightarrow> string \<Rightarrow> string \<Rightarrow> string \<Rightarrow> trust_disk
    \<Rightarrow> (trust_error + RootState) \<times> trust_disk" where
  "trust_AcceptCandidate L F now alias root source =
     checked (rootArgument L ''invalid candidate root'' root)
       (\<lambda>r. withLockedState L F
          (locked_call (acceptCandidateLocked (normalizeAlias alias) r source now)))"

definition trust_AcceptObserved ::
  "cid_lib \<Rightarrow> faults \<Rightarrow> time \<Rightarrow> string \<Rightarrow> string \<Rightarrow> string \<Rightarrow> string \<Rightarrow> string \<Rightarrow> trust_disk
    \<Rightarrow> (trust_error + RootState) \<times> trust_disk" where
  "trust_AcceptObserved L F now alias root profile gateway source =
     checked (rootArgument L ''invalid observed root'' root)
       (\<lambda>r. withLockedState L F
          (locked_call (acceptObservedLocked (normalizeAlias alias) r profile gateway source now)))"

text \<open>
  The fence.  The guarded operation acts on the caller's own state \<open>w\<close> while the store is locked.
\<close>

definition fence_check :: "string \<Rightarrow> string \<Rightarrow> trust_state \<Rightarrow> trust_error + unit" where
  "fence_check alias expected s =
     (case gm_get (ts_Roots s) alias of
        None \<Rightarrow> Inl ErrTrustNotFound
      | Some v \<Rightarrow>
          (case rs_Accepted v of
             None \<Rightarrow> Inl ErrNoAcceptedRoot
           | Some a \<Rightarrow> if ar_Root a \<noteq> expected then Inl ErrAcceptedRootChanged else Inr ()))"

definition trust_WithAcceptedRoot ::
  "cid_lib \<Rightarrow> faults \<Rightarrow> string \<Rightarrow> string \<Rightarrow> ('w \<Rightarrow> (trust_error + unit) \<times> 'w) \<Rightarrow> trust_disk \<Rightarrow> 'w
    \<Rightarrow> (trust_error + unit) \<times> 'w" where
  "trust_WithAcceptedRoot L F alias expectedRoot operation disk w =
     (case bindE (aliasArgument ''trusted-root alias is empty'' alias) (\<lambda>a.
             bindE (rootArgument L ''invalid expected accepted root'' expectedRoot) (\<lambda>r. Inr (a, r))) of
        Inl e \<Rightarrow> (Inl e, w)
      | Inr (a, r) \<Rightarrow>
          (case fst (withLockedState L F (reading (fence_check a r)) disk) of
             Inl e \<Rightarrow> (Inl e, w)
           | Inr _ \<Rightarrow> operation w))"

end
