(* ===== verification/TrustInv.thy ===== *)
theory TrustInv
  imports Trust
begin

text \<open>
  Well-formed trust states: what validation on reload leaves unchanged.  A state written by the
  store is well formed provided the strings it stores are valid UTF-8, and then reloads to itself.
\<close>

section \<open>The invariant\<close>

definition accepted_wf :: "cid_lib \<Rightarrow> AcceptedRootState \<Rightarrow> bool" where
  "accepted_wf L a \<longleftrightarrow>
     canonicalCID L (ar_Root a) = Some (ar_Root a) \<and>
     canonicalOptionalCID L (ar_PreviousRoot a) = Some (ar_PreviousRoot a) \<and>
     ar_PreviousRoot a \<noteq> ar_Root a \<and> ValidString (ar_Source a)"

definition candidate_wf :: "cid_lib \<Rightarrow> AcceptedRootState option \<Rightarrow> CandidateRoot \<Rightarrow> bool" where
  "candidate_wf L acc c \<longleftrightarrow>
     canonicalCID L (cr_Root c) = Some (cr_Root c) \<and>
     canonicalOptionalCID L (cr_BaseRoot c) = Some (cr_BaseRoot c) \<and> ValidString (cr_Source c) \<and>
     (case acc of None \<Rightarrow> cr_BaseRoot c = [] | Some a \<Rightarrow> cr_BaseRoot c \<noteq> [] \<and> cr_Root c \<noteq> ar_Root a)"

definition observation_wf :: "cid_lib \<Rightarrow> ObservedHead \<Rightarrow> bool" where
  "observation_wf L v \<longleftrightarrow>
     oh_ObservedAt v \<noteq> 0 \<and> trimObservation v = v \<and>
     oh_Source v \<noteq> [] \<and> oh_DatasetID v \<noteq> [] \<and> oh_Branch v \<noteq> [] \<and>
     ValidString (oh_Source v) \<and> ValidString (oh_DatasetID v) \<and> ValidString (oh_Branch v) \<and>
     ValidString (oh_CommitID v) \<and>
     (if oh_CommitID v = [] then oh_Root v = [] \<and> oh_Revision v = 0
      else oh_Revision v \<noteq> 0 \<and> canonicalCID L (oh_Root v) = Some (oh_Root v))"

definition candidates_wf :: "cid_lib \<Rightarrow> AcceptedRootState option \<Rightarrow> CandidateRoot list \<Rightarrow> bool" where
  "candidates_wf L acc cs \<longleftrightarrow> list_all (candidate_wf L acc) cs \<and> distinct (map cr_Root cs)"

definition observations_wf :: "cid_lib \<Rightarrow> ObservedHead list \<Rightarrow> bool" where
  "observations_wf L vs \<longleftrightarrow>
     list_all (observation_wf L) vs \<and> sorted (map observationKey vs) \<and>
     distinct (map observationKey vs)"

definition parts_wf :: "cid_lib \<Rightarrow> RootState \<Rightarrow> bool" where
  "parts_wf L v \<longleftrightarrow>
     ValidString (rs_Profile v) \<and> ValidString (rs_Gateway v) \<and>
     (case rs_Accepted v of None \<Rightarrow> True | Some a \<Rightarrow> accepted_wf L a) \<and>
     candidates_wf L (rs_Accepted v) (rs_Candidates v) \<and> observations_wf L (rs_ObservedHeads v)"

definition alias_ok :: "string \<Rightarrow> bool" where
  "alias_ok al \<longleftrightarrow> al \<noteq> [] \<and> TrimSpace al = al \<and> ValidString al"

definition root_wf :: "cid_lib \<Rightarrow> string \<Rightarrow> RootState \<Rightarrow> bool" where
  "root_wf L al v \<longleftrightarrow>
     alias_ok al \<and> rs_Alias v = al \<and> parts_wf L v \<and>
     \<not> (rs_Accepted v = None \<and> rs_Candidates v = [] \<and> rs_ObservedHeads v = [])"

definition trust_wf :: "cid_lib \<Rightarrow> trust_state \<Rightarrow> bool" where
  "trust_wf L s \<longleftrightarrow>
     ts_Version s = trustStoreVersion \<and> gm_wf (ts_Roots s) \<and>
     (\<forall>(al, v) \<in> set (ts_Roots s). root_wf L al v)"

lemma trust_wf_empty: "trust_wf L trust_emptyState"
  by (simp add: trust_wf_def trust_emptyState_def)

lemma trust_wf_get:
  "trust_wf L s \<Longrightarrow> gm_get (ts_Roots s) al = Some v \<Longrightarrow> root_wf L al v"
  by (auto simp: trust_wf_def dest: map_of_SomeD)

lemma parts_wf_zero: "parts_wf L zeroRootState"
  by (simp add: parts_wf_def zeroRootState_def candidates_wf_def observations_wf_def)

lemma parts_wf_root_of: "trust_wf L s \<Longrightarrow> parts_wf L (root_of s al)"
  using trust_wf_get [of L s al] parts_wf_zero
  by (auto simp: root_of_def root_wf_def split: option.splits)

lemma trust_wf_put:
  assumes "trust_wf L s" and "root_wf L al v"
  shows "trust_wf L (put_root s al v)"
proof -
  have gm: "gm_wf (ts_Roots s)" using assms(1) by (simp add: trust_wf_def)
  have gm': "gm_wf (gm_put (ts_Roots s) al v)" using gm by (rule gm_wf_put)
  have "root_wf L a x" if "(a, x) \<in> set (gm_put (ts_Roots s) al v)" for a x
  proof -
    have "gm_get (gm_put (ts_Roots s) al v) a = Some x"
      using that gm' by (simp add: gm_get_in_set)
    then show ?thesis using assms trust_wf_get by (auto split: if_splits)
  qed
  then show ?thesis using assms(1) gm' by (auto simp: trust_wf_def put_root_def)
qed

section \<open>Validation accepts well-formed states\<close>

lemma removeCandidate_fresh: "root \<notin> cr_Root ` set cs \<Longrightarrow> removeCandidate cs root = cs"
  by (induction cs) (auto simp: removeCandidate_def)

lemma normalizeCandidates_fixed:
  "list_all (candidate_wf L acc) cs \<Longrightarrow> distinct (map cr_Root (out @ cs)) \<Longrightarrow>
     normalizeCandidates L acc out cs = Inr (out @ cs)"
proof (induction cs arbitrary: out)
  case (Cons c cs)
  have c: "candidate_wf L acc c" using Cons.prems by simp
  have "removeCandidate out (cr_Root c) = out"
    using Cons.prems by (intro removeCandidate_fresh) auto
  moreover have "normalizeCandidates L acc (out @ [c]) cs = Inr ((out @ [c]) @ cs)"
    by (rule Cons.IH) (use Cons.prems in auto)
  moreover have "c\<lparr>cr_Root := cr_Root c, cr_BaseRoot := cr_BaseRoot c\<rparr> = c" by simp
  ultimately show ?case
    using c by (simp add: candidate_wf_def of_option_def split: option.splits)
qed simp

lemma normalizeObservation_fixed:
  assumes "cid_lib_ok L" and "observation_wf L v"
  shows "normalizeObservation L v = Inr v"
proof -
  have "oh_CommitID v \<noteq> [] \<Longrightarrow> oh_Root v \<noteq> []"
    using assms canonicalCID_not_Nil by (fastforce simp: observation_wf_def)
  moreover have "v\<lparr>oh_Root := oh_Root v\<rparr> = v" by simp
  ultimately show ?thesis
    using assms(2) by (auto simp: normalizeObservation_def observation_wf_def Let_def result_simps)
qed

lemma upsert_at_fresh:
  "observationKey x \<notin> observationKey ` set vs \<Longrightarrow> upsert_at vs x = Inr (vs @ [x])"
  by (induction vs) (auto simp: result_simps)

lemma normalizeObservations_fixed:
  assumes "cid_lib_ok L"
  shows "list_all (observation_wf L) vs \<Longrightarrow> sorted (map observationKey (out @ vs)) \<Longrightarrow>
     distinct (map observationKey (out @ vs)) \<Longrightarrow> normalizeObservations L out vs = Inr (out @ vs)"
proof (induction vs arbitrary: out)
  case (Cons v vs)
  have v: "observation_wf L v" using Cons.prems by simp
  have "upsertObservation out v = Inr (sort_key observationKey (out @ [v]))"
    using Cons.prems(3) by (subst upsertObservation_def, subst upsert_at_fresh)
      (auto simp: sortObservations_def)
  moreover have "sort_key observationKey (out @ [v]) = out @ [v]"
    using Cons.prems(2) by (intro sort_key_id_if_sorted) (auto simp: sorted_append)
  moreover have "normalizeObservations L (out @ [v]) vs = Inr ((out @ [v]) @ vs)"
    by (rule Cons.IH) (use Cons.prems in auto)
  moreover have "v\<lparr>oh_ObservedAt := oh_ObservedAt v\<rparr> = v" by simp
  ultimately show ?case
    using normalizeObservation_fixed [OF assms v] v by (simp add: observation_wf_def)
qed simp

lemma normalizeAccepted_fixed:
  "(case acc of None \<Rightarrow> True | Some a \<Rightarrow> accepted_wf L a) \<Longrightarrow> normalizeAccepted L acc = Inr acc"
  by (auto simp: normalizeAccepted_def accepted_wf_def split: option.splits)

lemma normalizeRootState_fixed:
  assumes "cid_lib_ok L" and "root_wf L al v"
  shows "normalizeRootState L al v = Inr v"
proof -
  have "normalizeAccepted L (rs_Accepted v) = Inr (rs_Accepted v)"
    using assms(2) by (intro normalizeAccepted_fixed) (simp add: root_wf_def parts_wf_def)
  moreover have "normalizeCandidates L (rs_Accepted v) [] (rs_Candidates v) = Inr ([] @ rs_Candidates v)"
    using assms(2) by (intro normalizeCandidates_fixed)
      (auto simp: root_wf_def parts_wf_def candidates_wf_def)
  moreover have "normalizeObservations L [] (rs_ObservedHeads v) = Inr ([] @ rs_ObservedHeads v)"
    using assms(2) by (intro normalizeObservations_fixed [OF assms(1)])
      (auto simp: root_wf_def parts_wf_def observations_wf_def)
  moreover have "rs_Alias v = al" "alias_ok al"
    "\<not> (rs_Accepted v = None \<and> rs_Candidates v = [] \<and> rs_ObservedHeads v = [])"
    using assms(2) by (simp_all add: root_wf_def)
  ultimately show ?thesis
    by (cases v) (auto simp: normalizeRootState_def normalizeAlias_def alias_ok_def)
qed

lemma normalizeRoots_fixed:
  "cid_lib_ok L \<Longrightarrow> \<forall>(al, v) \<in> set roots. root_wf L al v \<Longrightarrow> normalizeRoots L roots = Inr roots"
  by (induction roots) (auto simp: normalizeRootState_fixed)

section \<open>Encoding is lossless on well-formed states\<close>

lemma canonical_valid:
  assumes "cid_lib_ok L" and "canonicalCID L s = Some s"
  shows "ValidString s"
  using canonicalCID_graphic [OF assms] by (rule ValidString_graphic)

lemma canonical_optional_valid:
  "cid_lib_ok L \<Longrightarrow> canonicalOptionalCID L s = Some s \<Longrightarrow> ValidString s"
  by (auto simp: canonicalOptionalCID_def canonical_valid split: if_splits)

lemma json_root_state_fixed:
  assumes ok: "cid_lib_ok L" and wf: "root_wf L al v"
  shows "json_root_state v = v"
proof -
  note valid = canonical_valid [OF ok] canonical_optional_valid [OF ok]
  have "map_option json_accepted (rs_Accepted v) = rs_Accepted v"
    using wf by (auto simp: root_wf_def parts_wf_def accepted_wf_def json_accepted_def valid
        split: option.splits)
  moreover have "json_candidate c = c" if "c \<in> set (rs_Candidates v)" for c
    using wf that
    by (auto simp: root_wf_def parts_wf_def candidates_wf_def list_all_iff candidate_wf_def
        json_candidate_def valid)
  then have "map json_candidate (rs_Candidates v) = rs_Candidates v" by (simp add: map_idI)
  moreover have "json_observed h = h" if "h \<in> set (rs_ObservedHeads v)" for h
  proof -
    have "observation_wf L h"
      using wf that by (auto simp: root_wf_def parts_wf_def observations_wf_def list_all_iff)
    then show ?thesis
      by (cases "oh_CommitID h = []") (auto simp: observation_wf_def json_observed_def valid)
  qed
  then have "map json_observed (rs_ObservedHeads v) = rs_ObservedHeads v" by (simp add: map_idI)
  ultimately show ?thesis
    using wf by (cases v) (auto simp: json_root_state_def root_wf_def parts_wf_def alias_ok_def)
qed

lemma trust_reload_encode:
  assumes ok: "cid_lib_ok L" and wf: "trust_wf L s"
  shows "trust_reloadLocked L (trust_encode s) = Inr s"
proof -
  have "(json_text al, json_root_state v) = (al, v)" if "(al, v) \<in> set (ts_Roots s)" for al v
  proof -
    have "root_wf L al v" using wf that by (auto simp: trust_wf_def)
    then show ?thesis
      using json_root_state_fixed [OF ok] by (auto simp: root_wf_def alias_ok_def)
  qed
  then have "map (\<lambda>(al, v). (json_text al, json_root_state v)) (ts_Roots s) = ts_Roots s"
    by (intro map_idI) auto
  moreover have "distinct (map fst (ts_Roots s))" using wf by (simp add: trust_wf_def gm_wf_def)
  moreover have "normalizeRoots L (ts_Roots s) = Inr (ts_Roots s)"
    using wf by (intro normalizeRoots_fixed [OF ok]) (auto simp: trust_wf_def)
  ultimately show ?thesis
    using wf by (simp add: trust_reloadLocked_def trust_encode_def trust_wf_def)
qed

definition trust_inv :: "cid_lib \<Rightarrow> trust_state \<Rightarrow> bool" where
  "trust_inv L s \<longleftrightarrow> trust_wf L s \<and> (cid_lib_ok L \<or> s = trust_emptyState)"

lemma trust_inv_iff: "cid_lib_ok L \<Longrightarrow> trust_inv L s \<longleftrightarrow> trust_wf L s"
  by (simp add: trust_inv_def)

interpretation trust: durable_store trustSteps TrustIO "TrustInvalid ''decode trust store''"
  trust_emptyState "trust_reloadLocked L" trust_encode "trust_inv L" for L
proof
  show "RenameTemp \<in> set trustSteps"
    by (simp add: trustSteps_def)
  show "trust_inv L trust_emptyState"
    by (simp add: trust_inv_def trust_wf_empty)
  have "trust_reloadLocked L (trust_encode trust_emptyState) = Inr trust_emptyState"
    by (simp add: trust_reloadLocked_def trust_encode_def trust_emptyState_def)
  then show "trust_reloadLocked L (trust_encode s) = Inr s" if "trust_inv L s" for s
    using that trust_reload_encode by (auto simp: trust_inv_def)
qed

end
