(* ===== verification/TrustRun.thy ===== *)
theory TrustRun
  imports TrustInv
begin

text \<open>
  The trust store as a transition system: every operation keeps the invariant, what each may change,
  and histories of calls under faults.
\<close>

section \<open>Operations keep the invariant\<close>

lemma removeCandidate_wf:
  assumes "candidates_wf L acc cs"
  shows "candidates_wf L acc (removeCandidate cs root)"
  using assms
  by (auto simp: candidates_wf_def removeCandidate_def list_all_iff distinct_map_filter)

lemma removeCandidate_set: "set (removeCandidate cs root) = {c \<in> set cs. cr_Root c \<noteq> root}"
  by (auto simp: removeCandidate_def)

lemma acceptRoot_fields [simp]:
  "rs_Alias (acceptRoot v root source now) = rs_Alias v"
  "rs_ObservedHeads (acceptRoot v root source now) = rs_ObservedHeads v"
  "map_option ar_Root (rs_Accepted (acceptRoot v root source now)) = Some root"
  by (simp_all add: acceptRoot_def Let_def)

lemma acceptRoot_parts_wf:
  assumes wf: "parts_wf L v" and root: "canonicalCID L root = Some root" and src: "ValidString source"
    and ok: "cid_lib_ok L"
  shows "parts_wf L (acceptRoot v root source now)"
proof -
  have ne: "root \<noteq> []" by (rule canonicalCID_not_Nil [OF ok root])
  show ?thesis
  proof (cases "rs_Accepted v")
    case None
    then show ?thesis
      using wf root src ne
      by (simp add: acceptRoot_def parts_wf_def accepted_wf_def candidates_wf_def canonicalOptionalCID_def)
  next
    case (Some a)
    let ?p = "if ar_Root a \<noteq> root then ar_Root a else ar_PreviousRoot a"
    have a: "accepted_wf L a" and cs: "candidates_wf L (Some a) (rs_Candidates v)"
      using wf Some by (simp_all add: parts_wf_def)
    have "canonicalOptionalCID L ?p = Some ?p \<and> ?p \<noteq> root"
      using a by (auto simp: accepted_wf_def canonicalOptionalCID_def)
    moreover have "candidates_wf L (Some a') (removeCandidate (rs_Candidates v) root)"
      if "ar_Root a' = root" for a'
      using removeCandidate_wf [OF cs, of root] that
      by (auto simp: candidates_wf_def list_all_iff candidate_wf_def removeCandidate_set)
    ultimately show ?thesis
      using wf root src Some by (auto simp: acceptRoot_def parts_wf_def accepted_wf_def Let_def)
  qed
qed

lemma upsert_at_set:
  "upsert_at vs x = Inr out \<Longrightarrow>
     set out \<subseteq> insert x (set vs) \<and> x \<in> set out \<and>
     observationKey ` set out = insert (observationKey x) (observationKey ` set vs) \<and>
     (distinct (map observationKey vs) \<longrightarrow> distinct (map observationKey out))"
proof (induction vs arbitrary: out)
  case (Cons v vs)
  show ?case
  proof (cases "observationKey v = observationKey x")
    case True
    then show ?thesis using Cons.prems by (auto split: if_splits)
  next
    case False
    then obtain out' where "upsert_at vs x = Inr out'" and "out = v # out'"
      using Cons.prems by (auto simp: result_simps)
    then show ?thesis using Cons.IH [of out'] False by auto
  qed
qed simp

lemma upsertObservation_wf:
  assumes "observations_wf L vs" and "observation_wf L x" and "upsertObservation vs x = Inr out"
  shows "observations_wf L out"
proof -
  obtain mid where mid: "upsert_at vs x = Inr mid" and out: "out = sort_key observationKey mid"
    using assms(3) by (auto simp: upsertObservation_def sortObservations_def result_simps)
  note m = upsert_at_set [OF mid]
  have "distinct (map observationKey mid)" using m assms(1) by (simp add: observations_wf_def)
  then have "distinct (map observationKey out)"
    unfolding out by (simp add: distinct_map)
  moreover have "list_all (observation_wf L) out"
    using m assms(1,2) out by (auto simp: observations_wf_def list_all_iff)
  ultimately show ?thesis using out by (simp add: observations_wf_def)
qed

lemma upsertObservation_sorted:
  "upsertObservation vs x = Inr out \<Longrightarrow>
     \<exists>mid. upsert_at vs x = Inr mid \<and> out = sort_key observationKey mid"
  by (auto simp: upsertObservation_def sortObservations_def result_simps)

lemma upsertObservation_mem:
  assumes "upsertObservation vs x = Inr out"
  shows "x \<in> set out" and "set out \<subseteq> insert x (set vs)"
  using upsertObservation_sorted [OF assms] upsert_at_set [of vs x] by auto

lemma normalizeObservation_wf:
  assumes ok: "cid_lib_ok L" and norm: "normalizeObservation L raw = Inr x" and "0 < now"
    and valid: "ValidString (oh_Source raw)" "ValidString (oh_DatasetID raw)"
      "ValidString (oh_Branch raw)" "ValidString (oh_CommitID raw)"
  shows "observation_wf L (x\<lparr>oh_ObservedAt := now\<rparr>)"
proof -
  let ?v = "trimObservation raw"
  have x: "x = ?v\<lparr>oh_Root := oh_Root x\<rparr>" and req: "oh_Source ?v \<noteq> []" "oh_DatasetID ?v \<noteq> []" "oh_Branch ?v \<noteq> []"
    and tup: "if oh_CommitID ?v = [] then oh_Root x = [] \<and> oh_Revision ?v = 0
      else oh_Revision ?v \<noteq> 0 \<and> canonicalCID L (oh_Root x) = Some (oh_Root x)"
    and trimmed: "TrimSpace (oh_Root x) = oh_Root x"
    using norm canonicalCID_idem [OF ok] canonicalCID_trim [OF ok]
    by (auto simp: normalizeObservation_def Let_def result_simps split: if_splits)
  have "observation_wf L (?v\<lparr>oh_Root := oh_Root x, oh_ObservedAt := now\<rparr>)"
    using req tup trimmed assms(3) valid
    by (auto simp: observation_wf_def trimObservation_def ValidString_TrimSpace)
  then show ?thesis by (subst x) simp
qed

section \<open>Calls\<close>

abbreviation trusted :: "cid_lib \<Rightarrow> trust_disk \<Rightarrow> trust_state" where
  "trusted L disk \<equiv> loaded trust_emptyState (trust_reloadLocked L) disk"

abbreviation trust_disk_ok :: "cid_lib \<Rightarrow> trust_disk \<Rightarrow> bool" where
  "trust_disk_ok L disk \<equiv> disk_ok trust_encode (trust_inv L) disk"

datatype trust_call =
    CallTrust string string string string string
  | CallAddCandidate string string string string
  | CallObserveHead string ObservedHead
  | CallAcceptCandidate string string string
  | CallAcceptObserved string string string string string
  | CallTrustOpen string
  | CallListStates
  | CallGetState string

text \<open>The arguments of a call that are stored verbatim are valid UTF-8.\<close>

fun call_utf8 :: "trust_call \<Rightarrow> bool" where
  "call_utf8 (CallTrust al root profile gateway source) \<longleftrightarrow>
     ValidString al \<and> ValidString profile \<and> ValidString gateway \<and> ValidString source"
| "call_utf8 (CallAddCandidate al root base source) \<longleftrightarrow> ValidString al \<and> ValidString source"
| "call_utf8 (CallObserveHead al h) \<longleftrightarrow>
     ValidString al \<and> ValidString (oh_Source h) \<and> ValidString (oh_DatasetID h) \<and>
     ValidString (oh_Branch h) \<and> ValidString (oh_CommitID h)"
| "call_utf8 (CallAcceptCandidate al root source) \<longleftrightarrow> ValidString source"
| "call_utf8 (CallAcceptObserved al root profile gateway source) \<longleftrightarrow>
     ValidString profile \<and> ValidString gateway \<and> ValidString source"
| "call_utf8 _ \<longleftrightarrow> True"

fun trust_do :: "cid_lib \<Rightarrow> faults \<Rightarrow> time \<Rightarrow> trust_call \<Rightarrow> trust_disk \<Rightarrow> trust_disk" where
  "trust_do L F now (CallTrust al root profile gateway source) d =
     snd (trust_Trust L F now al root profile gateway source d)"
| "trust_do L F now (CallAddCandidate al root base source) d =
     snd (trust_AddCandidate L F now al root base source d)"
| "trust_do L F now (CallObserveHead al h) d = snd (trust_ObserveHead L F now al h d)"
| "trust_do L F now (CallAcceptCandidate al root source) d =
     snd (trust_AcceptCandidate L F now al root source d)"
| "trust_do L F now (CallAcceptObserved al root profile gateway source) d =
     snd (trust_AcceptObserved L F now al root profile gateway source d)"
| "trust_do L F now (CallTrustOpen path) d = snd (trust_Open L F path d)"
| "trust_do L F now CallListStates d = snd (trust_ListStates L F d)"
| "trust_do L F now (CallGetState al) d = snd (trust_GetState L F al d)"

text \<open>
  The effect of a writing call on the stored state: its arguments pass the checks and its operation
  returns a state to write.
\<close>

inductive trust_step :: "cid_lib \<Rightarrow> time \<Rightarrow> trust_call \<Rightarrow> trust_state \<Rightarrow> trust_state \<Rightarrow> bool"
  for L now where
  step_trust: "normalizeAlias al \<noteq> [] \<Longrightarrow> canonicalCID L root = Some r \<Longrightarrow>
    trustLocked (normalizeAlias al) r profile gateway source now s = Inr (v, Some s') \<Longrightarrow>
    trust_step L now (CallTrust al root profile gateway source) s s'"
| step_candidate: "normalizeAlias al \<noteq> [] \<Longrightarrow> canonicalCID L root = Some r \<Longrightarrow>
    addCandidateLocked (normalizeAlias al) r b source now s = Inr (v, Some s') \<Longrightarrow>
    b = [] \<or> canonicalCID L base = Some b \<Longrightarrow>
    trust_step L now (CallAddCandidate al root base source) s s'"
| step_observe: "normalizeAlias al \<noteq> [] \<Longrightarrow> normalizeObservation L h = Inr x \<Longrightarrow>
    observeLocked (normalizeAlias al) (x\<lparr>oh_ObservedAt := now\<rparr>) s = Inr (v, Some s') \<Longrightarrow>
    trust_step L now (CallObserveHead al h) s s'"
| step_accept_candidate: "canonicalCID L root = Some r \<Longrightarrow>
    acceptCandidateLocked (normalizeAlias al) r source now s = Inr (v, Some s') \<Longrightarrow>
    trust_step L now (CallAcceptCandidate al root source) s s'"
| step_accept_observed: "canonicalCID L root = Some r \<Longrightarrow>
    acceptObservedLocked (normalizeAlias al) r profile gateway source now s = Inr (v, Some s') \<Longrightarrow>
    trust_step L now (CallAcceptObserved al root profile gateway source) s s'"

lemma root_wf_put:
  assumes "trust_wf L s" and "alias_ok al" and "rs_Alias v = al" and "parts_wf L v"
    and "\<not> (rs_Accepted v = None \<and> rs_Candidates v = [] \<and> rs_ObservedHeads v = [])"
  shows "trust_wf L (put_root s al v)"
  using assms by (intro trust_wf_put) (auto simp: root_wf_def)

lemma alias_ok_normalize:
  "ValidString al \<Longrightarrow> normalizeAlias al \<noteq> [] \<Longrightarrow> alias_ok (normalizeAlias al)"
  by (simp add: alias_ok_def normalizeAlias_def ValidString_TrimSpace)

lemma accepted_not_None: "rs_Accepted (acceptRoot v root source now) \<noteq> None"
  by (simp add: acceptRoot_def Let_def)

lemma parts_wf_labels:
  "parts_wf L v \<Longrightarrow> ValidString p \<Longrightarrow> ValidString g \<Longrightarrow>
     parts_wf L (v\<lparr>rs_Alias := al, rs_Profile := p, rs_Gateway := g\<rparr>)"
  "parts_wf L v \<Longrightarrow> ValidString p \<Longrightarrow> ValidString g \<Longrightarrow>
     parts_wf L (v\<lparr>rs_Profile := p, rs_Gateway := g\<rparr>)"
  "parts_wf L v \<Longrightarrow> parts_wf L (v\<lparr>rs_Alias := al\<rparr>)"
  by (simp_all add: parts_wf_def)

lemma trust_step_wf:
  assumes "trust_step L now c s s'" and wf: "trust_wf L s" and ok: "cid_lib_ok L"
    and utf8: "call_utf8 c" and now: "0 < now"
  shows "trust_wf L s'"
  using assms(1)
proof cases
  case (step_trust al root r profile gateway source v)
  have "parts_wf L v" and "rs_Alias v = normalizeAlias al" and "rs_Accepted v \<noteq> None"
    and "s' = put_root s (normalizeAlias al) v"
    using step_trust(4) utf8 step_trust(1) canonicalCID_idem [OF ok step_trust(3)] accepted_not_None
    by (auto simp: trustLocked_def Let_def
        intro!: acceptRoot_parts_wf [OF _ _ _ ok] parts_wf_labels parts_wf_root_of [OF wf])
  then show ?thesis
    using root_wf_put [OF wf alias_ok_normalize] step_trust(1,2) utf8 by auto
next
  case (step_candidate al root r b source v base)
  let ?a = "normalizeAlias al" and ?o = "root_of s (normalizeAlias al)"
  note root = canonicalCID_idem [OF ok step_candidate(3)]
  have parts: "parts_wf L ?o" by (rule parts_wf_root_of [OF wf])
  have base: "canonicalOptionalCID L b = Some b" and src: "ValidString source" "ValidString al"
    using step_candidate(1,5) canonicalCID_idem [OF ok] utf8
    by (auto simp: canonicalOptionalCID_def)
  let ?c = "\<lparr>cr_Root = r, cr_BaseRoot = b, cr_Source = source, cr_ObservedAt = now\<rparr>"
  have v: "v = ?o\<lparr>rs_Alias := ?a, rs_Candidates := removeCandidate (rs_Candidates ?o) r @ [?c]\<rparr>"
    and s': "s' = put_root s ?a v"
    and guard: "case rs_Accepted ?o of None \<Rightarrow> b = [] | Some a \<Rightarrow> b = ar_Root a \<and> r \<noteq> ar_Root a"
    using step_candidate(4) by (auto simp: addCandidateLocked_def Let_def split: if_splits option.splits)
  have "candidate_wf L (rs_Accepted ?o) ?c"
    using guard root base src parts canonicalCID_not_Nil [OF ok]
    by (fastforce simp: candidate_wf_def parts_wf_def accepted_wf_def split: option.splits)
  then have "candidates_wf L (rs_Accepted ?o) (removeCandidate (rs_Candidates ?o) r @ [?c])"
    using removeCandidate_wf [of L "rs_Accepted ?o" "rs_Candidates ?o" r] parts
    by (auto simp: candidates_wf_def parts_wf_def removeCandidate_set)
  then have "parts_wf L v" using parts v by (simp add: parts_wf_def)
  then show ?thesis
    unfolding s' using step_candidate(2) src v
    by (intro root_wf_put [OF wf alias_ok_normalize]) auto
next
  case (step_observe al h x v)
  let ?a = "normalizeAlias al" and ?o = "root_of s (normalizeAlias al)"
  have parts: "parts_wf L ?o" by (rule parts_wf_root_of [OF wf])
  obtain heads where heads: "upsertObservation (rs_ObservedHeads ?o) (x\<lparr>oh_ObservedAt := now\<rparr>) = Inr heads"
    and v: "v = ?o\<lparr>rs_Alias := ?a, rs_ObservedHeads := heads\<rparr>" and s': "s' = put_root s ?a v"
    using step_observe(4) by (auto simp: observeLocked_def Let_def result_simps)
  have u: "ValidString al" "observation_wf L (x\<lparr>oh_ObservedAt := now\<rparr>)"
    using utf8 step_observe(1) normalizeObservation_wf [OF ok step_observe(3) now] by simp_all
  have "observations_wf L heads"
    using upsertObservation_wf [OF _ u(2) heads] parts by (simp add: parts_wf_def)
  then have "parts_wf L v" using parts v by (simp add: parts_wf_def)
  moreover have "heads \<noteq> []"
    using upsertObservation_mem(1) [OF heads] by auto
  ultimately show ?thesis
    unfolding s' using step_observe(2) u(1) v
    by (intro root_wf_put [OF wf alias_ok_normalize]) auto
next
  case (step_accept_candidate root r al source v)
  then obtain o1 where o1: "gm_get (ts_Roots s) (normalizeAlias al) = Some o1"
    and v: "v = acceptRoot o1 r source now" and s': "s' = put_root s (normalizeAlias al) v"
    by (auto simp: acceptCandidateLocked_def Let_def split: option.splits if_splits)
  have "root_wf L (normalizeAlias al) o1" by (rule trust_wf_get [OF wf o1])
  then show ?thesis
    unfolding s' using v utf8 step_accept_candidate(1) accepted_not_None
      acceptRoot_parts_wf [OF _ canonicalCID_idem [OF ok step_accept_candidate(2)] _ ok, of o1 source now]
    by (intro root_wf_put [OF wf]) (auto simp: root_wf_def)
next
  case (step_accept_observed root r al profile gateway source v)
  then obtain o1 where o1: "gm_get (ts_Roots s) (normalizeAlias al) = Some o1"
    and v: "v = acceptRoot (o1\<lparr>rs_Profile := profile, rs_Gateway := gateway\<rparr>) r source now"
    and s': "s' = put_root s (normalizeAlias al) v"
    by (auto simp: acceptObservedLocked_def Let_def split: option.splits if_splits)
  have "root_wf L (normalizeAlias al) o1" by (rule trust_wf_get [OF wf o1])
  then show ?thesis
    unfolding s' using v utf8 step_accept_observed(1) accepted_not_None
      acceptRoot_parts_wf [OF parts_wf_labels(2) canonicalCID_idem [OF ok step_accept_observed(2)] _ ok,
        of o1 profile gateway source now]
    by (intro root_wf_put [OF wf]) (auto simp: root_wf_def)
qed

section \<open>From calls to steps\<close>

definition trust_stepped :: "cid_lib \<Rightarrow> time \<Rightarrow> trust_call \<Rightarrow> trust_disk \<Rightarrow> trust_disk \<Rightarrow> bool" where
  "trust_stepped L now c d d' \<longleftrightarrow>
     d' = d \<or> (\<exists>s'. trust_step L now c (trusted L d) s' \<and> d' = Some (Decoded (trust_encode s')))"

lemma trust_stepped_call:
  assumes "trust_disk_ok L d"
    and "\<And>v s'. f (trusted L d) = Inr (v, Some s') \<Longrightarrow> trust_step L now c (trusted L d) s'"
  shows "trust_stepped L now c d (snd (withLockedState L F (locked_call f) d))"
proof -
  obtain res d' where w: "withLockedState L F (locked_call f) d = (res, d')"
    by (cases "withLockedState L F (locked_call f) d")
  have "d' = d \<or> (\<exists>s'. snd (locked_call f (trusted L d)) = Some s' \<and> d' = Some (Decoded (trust_encode s')))"
    by (rule trust.with_state_disk [OF assms(1) w [unfolded withLockedState_def]])
  then show ?thesis
    using assms(2) w by (auto simp: trust_stepped_def locked_call_def split: sum.splits)
qed

lemma trust_stepped_checked:
  assumes "\<And>a. arg = Inr a \<Longrightarrow> trust_stepped L now c d (snd (k a d))"
  shows "trust_stepped L now c d (snd (checked arg k d))"
  using assms by (cases arg) (auto simp: checked_def trust_stepped_def)

lemma withLockedState_reading [simp]: "snd (withLockedState L F (reading f) d) = d"
  by (auto simp: withLockedState_def with_state_def reading_def split: sum.splits)

lemma trust_arguments:
  "rootArgument L what root = Inr r \<longleftrightarrow> canonicalCID L root = Some r"
  "aliasArgument what al = Inr a \<longleftrightarrow> normalizeAlias al \<noteq> [] \<and> a = normalizeAlias al"
  by (auto simp: rootArgument_def aliasArgument_def of_option_def require_def split: option.splits)

lemma trust_do_stepped:
  assumes d: "trust_disk_ok L d"
  shows "trust_stepped L now c d (trust_do L F now c d)"
proof (cases c)
  case (CallTrust al root profile gateway source)
  then show ?thesis
    by (auto simp: trust_Trust_def result_simps trust_arguments
        intro!: trust_stepped_checked trust_stepped_call d step_trust)
next
  case (CallAddCandidate al root base source)
  then show ?thesis
    by (auto simp: trust_AddCandidate_def result_simps trust_arguments split: if_splits
        intro!: trust_stepped_checked trust_stepped_call d intro: step_candidate)
next
  case (CallObserveHead al h)
  then show ?thesis
    by (auto simp: trust_ObserveHead_def result_simps trust_arguments
        intro!: trust_stepped_checked trust_stepped_call d intro: step_observe)
next
  case (CallAcceptCandidate al root source)
  then show ?thesis
    by (auto simp: trust_AcceptCandidate_def result_simps trust_arguments
        intro!: trust_stepped_checked trust_stepped_call d step_accept_candidate)
next
  case (CallAcceptObserved al root profile gateway source)
  then show ?thesis
    by (auto simp: trust_AcceptObserved_def result_simps trust_arguments
        intro!: trust_stepped_checked trust_stepped_call d step_accept_observed)
qed (simp_all add: trust_Open_def trust_ListStates_def trust_GetState_def trust_stepped_def)

section \<open>Histories\<close>

type_synonym trust_entry = "faults \<times> time \<times> trust_call"

abbreviation trust_entry_call :: "trust_entry \<Rightarrow> trust_call" where
  "trust_entry_call entry \<equiv> snd (snd entry)"

definition trust_run :: "cid_lib \<Rightarrow> trust_entry list \<Rightarrow> trust_disk \<Rightarrow> trust_disk" where
  "trust_run L entries d = foldl (\<lambda>d (F, now, c). trust_do L F now c d) d entries"

definition trust_history_ok :: "trust_entry list \<Rightarrow> bool" where
  "trust_history_ok entries \<longleftrightarrow>
     list_all (\<lambda>(F, now, c). 0 < now \<and> call_utf8 c) entries"

lemma trusted_encode:
  "cid_lib_ok L \<Longrightarrow> trust_wf L s \<Longrightarrow> trusted L (Some (Decoded (trust_encode s))) = s"
  by (simp add: loaded_def trust_reload_encode)

lemma trusted_wf:
  assumes "cid_lib_ok L" and "trust_disk_ok L d"
  shows "trust_wf L (trusted L d)"
  using trust.loaded_invar [OF assms(2)] trust_inv_iff [OF assms(1)] by simp

text \<open>One call: the file stays sound and the stored state is unchanged or one step on.\<close>

lemma trust_do_ok:
  assumes ok: "cid_lib_ok L" and d: "trust_disk_ok L d" and "0 < now" and "call_utf8 c"
  shows "trust_disk_ok L (trust_do L F now c d)"
    and "trusted L (trust_do L F now c d) = trusted L d \<or>
      trust_step L now c (trusted L d) (trusted L (trust_do L F now c d))"
proof -
  let ?d = "trust_do L F now c d"
  have "?d = d \<or> (\<exists>s'. trust_step L now c (trusted L d) s' \<and> ?d = Some (Decoded (trust_encode s')))"
    using trust_do_stepped [OF d, of now c F] by (simp add: trust_stepped_def)
  moreover have "trust_wf L s'" if "trust_step L now c (trusted L d) s'" for s'
    by (rule trust_step_wf [OF that trusted_wf [OF ok d] ok assms(4,3)])
  ultimately show "trust_disk_ok L ?d"
    and "trusted L ?d = trusted L d \<or> trust_step L now c (trusted L d) (trusted L ?d)"
    using d ok trusted_encode [OF ok] by (auto simp: disk_ok_def trust_inv_def)
qed

text \<open>
  An invariant of the stored state that may refer to the calls made so far holds after every
  history.
\<close>

lemma trust_run_induct:
  assumes ok: "cid_lib_ok L" and hist: "trust_history_ok entries"
    and init: "P [] trust_emptyState"
    and keep: "\<And>done c s. P done s \<Longrightarrow> P (done @ [c]) s"
    and step: "\<And>done now c s s'. P done s \<Longrightarrow> trust_wf L s \<Longrightarrow> trust_step L now c s s' \<Longrightarrow>
      P (done @ [c]) s'"
  shows "trust_disk_ok L (trust_run L entries None) \<and>
    P (map trust_entry_call entries) (trusted L (trust_run L entries None))"
  using hist
proof (induction entries rule: rev_induct)
  case Nil
  then show ?case by (simp add: trust_run_def disk_ok_def loaded_def init)
next
  case (snoc e entries)
  obtain F now c where e: "e = (F, now, c)" by (cases e)
  let ?d = "trust_run L entries None" and ?done = "map trust_entry_call entries"
  have IH: "trust_disk_ok L ?d" "P ?done (trusted L ?d)" and c: "0 < now" "call_utf8 c"
    using snoc e by (simp_all add: trust_history_ok_def)
  have run: "trust_run L (entries @ [e]) None = trust_do L F now c ?d"
    using e by (simp add: trust_run_def)
  have "P (?done @ [c]) (trusted L (trust_do L F now c ?d))"
    using trust_do_ok(2) [OF ok IH(1) c, of F] keep [OF IH(2)] step [OF IH(2) trusted_wf [OF ok IH(1)]]
    by metis
  then show ?case using trust_do_ok(1) [OF ok IH(1) c] run e by simp
qed

lemma trust_run_ok:
  assumes "cid_lib_ok L" and "trust_history_ok entries"
  shows "trust_disk_ok L (trust_run L entries None)"
  using trust_run_induct [OF assms, where P = "\<lambda>_ _. True"] by simp

lemma trust_run_append: "trust_run L (xs @ ys) d = trust_run L ys (trust_run L xs d)"
  by (simp add: trust_run_def)

end
