(* ===== verification/TrustProps.thy ===== *)
theory TrustProps
  imports TrustRun
begin

text \<open>
  The properties of the trust store: accepted roots have an explicit cause, observations never
  regress, promotion of a candidate is fenced by its base, and the store always reopens.
\<close>

section \<open>Availability\<close>

text \<open>
  C14: after any history of trust-store calls whose stored strings are valid UTF-8, whatever
  file-system steps failed, the store reopens and its state is well formed.
\<close>

theorem trust_always_reopens:
  assumes "cid_lib_ok L" and "trust_history_ok entries" and "TrimSpace path \<noteq> []"
  shows "trust_Open L no_faults path (trust_run L entries None) = (Inr (), trust_run L entries None) \<and>
    trust_wf L (trusted L (trust_run L entries None))"
proof -
  let ?d = "trust_run L entries None"
  have d: "trust_disk_ok L ?d" by (rule trust_run_ok [OF assms(1,2)])
  have "withLockedState L no_faults (reading (\<lambda>_. Inr ())) ?d = (Inr (), ?d)"
    unfolding withLockedState_def
    by (subst trust.with_state_no_faults [OF d, where res = "Inr ()" and w = None])
      (simp_all add: reading_def)
  then show ?thesis using assms(3) trusted_wf [OF assms(1) d] by (simp add: trust_Open_def)
qed

section \<open>Provenance of accepted roots\<close>

definition accepted_root :: "trust_state \<Rightarrow> string \<Rightarrow> string option" where
  "accepted_root s al = map_option ar_Root (rs_Accepted (root_of s al))"

definition adds :: "cid_lib \<Rightarrow> string \<Rightarrow> string \<Rightarrow> trust_call \<Rightarrow> bool" where
  "adds L al r c \<longleftrightarrow>
     (case c of
        CallAddCandidate a root base source \<Rightarrow> normalizeAlias a = al \<and> canonicalCID L root = Some r
      | _ \<Rightarrow> False)"

definition observes :: "cid_lib \<Rightarrow> string \<Rightarrow> string \<Rightarrow> trust_call \<Rightarrow> bool" where
  "observes L al r c \<longleftrightarrow>
     (case c of
        CallObserveHead a h \<Rightarrow>
          normalizeAlias a = al \<and> canonicalCID L (TrimSpace (oh_Root h)) = Some r
      | _ \<Rightarrow> False)"

text \<open>
  The explicit actions that may make \<open>r\<close> the accepted root of \<open>al\<close>, given the calls before them.
\<close>

definition promotes :: "cid_lib \<Rightarrow> trust_call list \<Rightarrow> string \<Rightarrow> string \<Rightarrow> trust_call \<Rightarrow> bool" where
  "promotes L earlier al r c \<longleftrightarrow>
     (case c of
        CallTrust a root profile gateway source \<Rightarrow> normalizeAlias a = al \<and> canonicalCID L root = Some r
      | CallAcceptCandidate a root source \<Rightarrow>
          normalizeAlias a = al \<and> canonicalCID L root = Some r \<and> list_ex (adds L al r) earlier
      | CallAcceptObserved a root profile gateway source \<Rightarrow>
          normalizeAlias a = al \<and> canonicalCID L root = Some r \<and> list_ex (observes L al r) earlier
      | _ \<Rightarrow> False)"

definition justified :: "cid_lib \<Rightarrow> trust_call list \<Rightarrow> string \<Rightarrow> string \<Rightarrow> bool" where
  "justified L calls al r \<longleftrightarrow> (\<exists>earlier c rest. calls = earlier @ c # rest \<and> promotes L earlier al r c)"

definition provenance :: "cid_lib \<Rightarrow> trust_call list \<Rightarrow> trust_state \<Rightarrow> bool" where
  "provenance L calls s \<longleftrightarrow>
     (\<forall>al r. accepted_root s al = Some r \<longrightarrow> justified L calls al r) \<and>
     (\<forall>al c. c \<in> set (rs_Candidates (root_of s al)) \<longrightarrow> list_ex (adds L al (cr_Root c)) calls) \<and>
     (\<forall>al h. h \<in> set (rs_ObservedHeads (root_of s al)) \<longrightarrow> oh_Root h \<noteq> [] \<longrightarrow>
        list_ex (observes L al (oh_Root h)) calls)"

lemma justified_later: "justified L calls al r \<Longrightarrow> justified L (calls @ [c]) al r"
  unfolding justified_def by (metis append.assoc append_Cons)

lemma justified_now: "promotes L calls al r c \<Longrightarrow> justified L (calls @ [c]) al r"
  unfolding justified_def by blast

lemma provenance_later: "provenance L calls s \<Longrightarrow> provenance L (calls @ [c]) s"
  by (auto simp: provenance_def justified_later)

lemma root_of_put: "root_of (put_root s al v) x = (if x = al then v else root_of s x)"
  by (simp add: root_of_def put_root_def)

lemma provenanceD:
  assumes "provenance L calls s"
  shows "accepted_root s al = Some r \<Longrightarrow> justified L calls al r"
    and "c \<in> set (rs_Candidates (root_of s al)) \<Longrightarrow> list_ex (adds L al (cr_Root c)) calls"
    and "h \<in> set (rs_ObservedHeads (root_of s al)) \<Longrightarrow> oh_Root h \<noteq> [] \<Longrightarrow>
      list_ex (observes L al (oh_Root h)) calls"
  using assms unfolding provenance_def by blast+

text \<open>Replacing the record of one alias keeps the provenance if the new record has it.\<close>

lemma provenance_put:
  assumes "provenance L calls s"
    and "\<And>a. rs_Accepted v = Some a \<Longrightarrow>
      rs_Accepted (root_of s al) = Some a \<or> promotes L calls al (ar_Root a) c"
    and "\<And>x. x \<in> set (rs_Candidates v) \<Longrightarrow>
      x \<in> set (rs_Candidates (root_of s al)) \<or> adds L al (cr_Root x) c"
    and "\<And>h. h \<in> set (rs_ObservedHeads v) \<Longrightarrow>
      h \<in> set (rs_ObservedHeads (root_of s al)) \<or> oh_Root h = [] \<or> observes L al (oh_Root h) c"
  shows "provenance L (calls @ [c]) (put_root s al v)"
proof -
  note provD = provenanceD [OF assms(1)]
  have acc: "justified L (calls @ [c]) x r" if r: "accepted_root (put_root s al v) x = Some r" for x r
  proof (cases "x = al")
    case True
    then obtain a where a: "rs_Accepted v = Some a" "r = ar_Root a"
      using r by (auto simp: accepted_root_def root_of_put)
    then show ?thesis
      using assms(2) [OF a(1)] assms(1) True justified_later justified_now
      by (auto simp: provenance_def accepted_root_def)
  next
    case False
    then show ?thesis
      using r assms(1) justified_later by (auto simp: provenance_def accepted_root_def root_of_put)
  qed
  moreover have "list_ex (adds L x (cr_Root y)) (calls @ [c])"
    if "y \<in> set (rs_Candidates (root_of (put_root s al v) x))" for x y
    using that provD(2) [of y x] assms(3) [of y] by (auto simp: root_of_put split: if_splits)
  moreover have "list_ex (observes L x (oh_Root h)) (calls @ [c])"
    if "h \<in> set (rs_ObservedHeads (root_of (put_root s al v) x))" and "oh_Root h \<noteq> []" for x h
    using that provD(3) [of h x] assms(4) [of h] by (auto simp: root_of_put split: if_splits)
  ultimately show ?thesis unfolding provenance_def by blast
qed

lemma acceptRoot_candidates: "set (rs_Candidates (acceptRoot v root source now)) \<subseteq> set (rs_Candidates v)"
  by (auto simp: acceptRoot_def Let_def removeCandidate_set)

lemma acceptRoot_accepted: "rs_Accepted (acceptRoot v root source now) = Some a \<Longrightarrow> ar_Root a = root"
  by (auto simp: acceptRoot_def Let_def)

lemma normalizeObservation_root:
  "normalizeObservation L h = Inr x \<Longrightarrow>
     oh_Root x = [] \<or> canonicalCID L (TrimSpace (oh_Root h)) = Some (oh_Root x)"
  by (auto simp: normalizeObservation_def Let_def result_simps trimObservation_def split: if_splits)

lemma find_root: "find (\<lambda>c. cr_Root c = root) cs = Some x \<Longrightarrow> x \<in> set cs \<and> cr_Root x = root"
  by (auto simp: find_Some_iff)

lemma root_of_get: "gm_get (ts_Roots s) al = Some v \<Longrightarrow> root_of s al = v"
  by (simp add: root_of_def)

lemma provenance_step:
  assumes prov: "provenance L calls s" and ok: "cid_lib_ok L" and st: "trust_step L now c s s'"
  shows "provenance L (calls @ [c]) s'"
  using st
proof cases
  case (step_trust al root r profile gateway source v)
  let ?o = "(root_of s (normalizeAlias al))\<lparr>rs_Alias := normalizeAlias al, rs_Profile := profile,
    rs_Gateway := gateway\<rparr>"
  have v: "v = acceptRoot ?o r source now" and s': "s' = put_root s (normalizeAlias al) v"
    using step_trust(4) by (auto simp: trustLocked_def Let_def)
  show ?thesis
    unfolding s' using acceptRoot_accepted [of ?o r source now] acceptRoot_candidates [of ?o r source now]
      step_trust(1,3) v
    by (intro provenance_put [OF prov]) (auto simp: promotes_def)
next
  case (step_candidate al root r b source v base)
  then show ?thesis
    by (auto simp: addCandidateLocked_def Let_def adds_def removeCandidate_set
        split: if_splits option.splits intro!: provenance_put [OF prov])
next
  case (step_observe al h x v)
  let ?a = "normalizeAlias al"
  obtain heads where heads: "upsertObservation (rs_ObservedHeads (root_of s ?a)) (x\<lparr>oh_ObservedAt := now\<rparr>) = Inr heads"
    and v: "v = (root_of s ?a)\<lparr>rs_Alias := ?a, rs_ObservedHeads := heads\<rparr>" and s': "s' = put_root s ?a v"
    using step_observe(4) by (auto simp: observeLocked_def Let_def result_simps)
  have "set heads \<subseteq> insert (x\<lparr>oh_ObservedAt := now\<rparr>) (set (rs_ObservedHeads (root_of s ?a)))"
    by (rule upsertObservation_mem(2) [OF heads])
  then show ?thesis
    unfolding s' using normalizeObservation_root [OF step_observe(3)] v step_observe(1)
    by (intro provenance_put [OF prov]) (auto simp: observes_def)
next
  case (step_accept_candidate root r al source v)
  then obtain o1 x where o1: "gm_get (ts_Roots s) (normalizeAlias al) = Some o1"
    and x: "find (\<lambda>c. cr_Root c = r) (rs_Candidates o1) = Some x"
    and v: "v = acceptRoot o1 r source now" and s': "s' = put_root s (normalizeAlias al) v"
    by (auto simp: acceptCandidateLocked_def Let_def split: option.splits if_splits)
  have "list_ex (adds L (normalizeAlias al) r) calls"
    using prov find_root [OF x] root_of_get [OF o1] unfolding provenance_def by metis
  then show ?thesis
    unfolding s' using acceptRoot_accepted [of o1 r source now] acceptRoot_candidates [of o1 r source now]
      step_accept_candidate(1,2) v root_of_get [OF o1]
    by (intro provenance_put [OF prov]) (auto simp: promotes_def)
next
  case (step_accept_observed root r al profile gateway source v)
  let ?m = "\<lambda>v. v\<lparr>rs_Profile := profile, rs_Gateway := gateway\<rparr>"
  obtain o1 where o1: "gm_get (ts_Roots s) (normalizeAlias al) = Some o1"
    and h: "list_ex (\<lambda>h. oh_Root h = r) (rs_ObservedHeads o1)"
    and v: "v = acceptRoot (?m o1) r source now" and s': "s' = put_root s (normalizeAlias al) v"
    using step_accept_observed by (auto simp: acceptObservedLocked_def Let_def split: option.splits if_splits)
  have "r \<noteq> []" by (rule canonicalCID_not_Nil [OF ok step_accept_observed(2)])
  then have "list_ex (observes L (normalizeAlias al) r) calls"
    using prov h root_of_get [OF o1] unfolding provenance_def list_ex_iff by metis
  then show ?thesis
    unfolding s' using acceptRoot_accepted [of "?m o1" r source now]
      acceptRoot_candidates [of "?m o1" r source now]
      step_accept_observed(1,2) v root_of_get [OF o1]
    by (intro provenance_put [OF prov]) (auto simp: promotes_def)
qed

text \<open>
  C2: a root is accepted only by an explicit local action.  Whatever the history of calls and
  faults, as long as the texts the calls store are valid UTF-8 and the clock does not read zero, the accepted root of an alias was named by an earlier \<open>Trust\<close> for that alias, by an
  \<open>AcceptCandidate\<close> after an \<open>AddCandidate\<close> of that root, or by an \<open>AcceptObserved\<close> after an
  \<open>ObserveHead\<close> of that root; recording candidates or observations alone never promotes one.
\<close>

theorem trust_no_silent_promotion:
  assumes ok: "cid_lib_ok L" and hist: "trust_history_ok entries"
    and acc: "accepted_root (trusted L (trust_run L entries None)) al = Some r"
  shows "\<exists>earlier c rest. map trust_entry_call entries = earlier @ c # rest \<and> promotes L earlier al r c"
proof -
  have "provenance L (map trust_entry_call entries) (trusted L (trust_run L entries None))"
    using trust_run_induct [OF ok hist, where P = "provenance L"] provenance_later
      provenance_step [OF _ ok]
    by (auto simp: provenance_def accepted_root_def root_of_def trust_emptyState_def zeroRootState_def)
  then show ?thesis using acc by (auto simp: provenance_def justified_def)
qed

section \<open>Observations never regress\<close>

definition follows :: "ObservedHead \<Rightarrow> ObservedHead \<Rightarrow> bool" where
  "follows x y \<longleftrightarrow>
     observationKey y = observationKey x \<and> oh_Revision x \<le> oh_Revision y \<and>
     (oh_Revision y = oh_Revision x \<longrightarrow> oh_CommitID y = oh_CommitID x \<and> oh_Root y = oh_Root x)"

definition heads_forward :: "trust_state \<Rightarrow> trust_state \<Rightarrow> bool" where
  "heads_forward s s' \<longleftrightarrow>
     (\<forall>al x. x \<in> set (rs_ObservedHeads (root_of s al)) \<longrightarrow>
        (\<exists>y \<in> set (rs_ObservedHeads (root_of s' al)). follows x y))"

lemma follows_refl [simp]: "follows x x"
  by (simp add: follows_def)

lemma follows_trans: "follows x y \<Longrightarrow> follows y z \<Longrightarrow> follows x z"
  by (auto simp: follows_def)

lemma heads_forward_refl: "heads_forward s s"
  unfolding heads_forward_def using follows_refl by blast

lemma heads_forward_trans: "heads_forward s t \<Longrightarrow> heads_forward t u \<Longrightarrow> heads_forward s u"
  unfolding heads_forward_def using follows_trans by meson

lemma upsert_at_forward:
  "upsert_at vs x = Inr out \<Longrightarrow> h \<in> set vs \<Longrightarrow> \<exists>y \<in> set out. follows h y"
proof (induction vs arbitrary: out)
  case (Cons v vs)
  show ?case
  proof (cases "observationKey v = observationKey x")
    case True
    then have "out = x # vs" and "follows v x"
      using Cons.prems(1) by (auto simp: follows_def split: if_splits)
    then show ?thesis using Cons.prems(2) by (cases "h = v") (auto intro: bexI [of _ h])
  next
    case False
    then obtain out' where "upsert_at vs x = Inr out'" and "out = v # out'"
      using Cons.prems(1) by (auto simp: result_simps)
    then show ?thesis
      using Cons.IH [of out'] Cons.prems(2) by (cases "h = v") (auto intro: bexI [of _ h])
  qed
qed simp

lemma heads_forward_put:
  assumes "\<And>h. h \<in> set (rs_ObservedHeads (root_of s al)) \<Longrightarrow> \<exists>y \<in> set (rs_ObservedHeads v). follows h y"
  shows "heads_forward s (put_root s al v)"
  unfolding heads_forward_def root_of_put
proof (intro allI impI)
  show "\<exists>y \<in> set (rs_ObservedHeads (if x = al then v else root_of s x)). follows h y"
    if "h \<in> set (rs_ObservedHeads (root_of s x))" for x h
    using assms [of h] that by (cases "x = al") (auto intro: bexI [of _ h])
qed

lemma heads_forward_same:
  "rs_ObservedHeads v = rs_ObservedHeads (root_of s al) \<Longrightarrow> heads_forward s (put_root s al v)"
  by (rule heads_forward_put) (metis follows_refl)

lemma heads_forward_step:
  assumes "trust_step L now c s s'"
  shows "heads_forward s s'"
  using assms
proof cases
  case (step_trust al root r profile gateway source v)
  then show ?thesis
    by (auto simp: trustLocked_def Let_def intro!: heads_forward_same)
next
  case (step_candidate al root r b source v base)
  then show ?thesis
    by (auto simp: addCandidateLocked_def Let_def split: if_splits option.splits
        intro!: heads_forward_same)
next
  case (step_observe al h x v)
  let ?a = "normalizeAlias al"
  obtain heads where heads: "upsertObservation (rs_ObservedHeads (root_of s ?a)) (x\<lparr>oh_ObservedAt := now\<rparr>) = Inr heads"
    and v: "v = (root_of s ?a)\<lparr>rs_Alias := ?a, rs_ObservedHeads := heads\<rparr>" and s': "s' = put_root s ?a v"
    using step_observe(4) by (auto simp: observeLocked_def Let_def result_simps)
  show ?thesis
    unfolding s' using upsertObservation_sorted [OF heads] upsert_at_forward v
    by (intro heads_forward_put) fastforce
next
  case (step_accept_candidate root r al source v)
  then show ?thesis
    by (auto simp: acceptCandidateLocked_def Let_def root_of_get split: option.splits if_splits
        intro!: heads_forward_same)
next
  case (step_accept_observed root r al profile gateway source v)
  then show ?thesis
    by (auto simp: acceptObservedLocked_def Let_def root_of_get split: option.splits if_splits
        intro!: heads_forward_same)
qed

lemma trust_history_append:
  "trust_history_ok (xs @ ys) \<longleftrightarrow> trust_history_ok xs \<and> trust_history_ok ys"
  by (simp add: trust_history_ok_def)

lemma heads_forward_run:
  assumes ok: "cid_lib_ok L" and "trust_disk_ok L d" and "trust_history_ok later"
  shows "heads_forward (trusted L d) (trusted L (trust_run L later d))"
  using assms(2,3)
proof (induction later arbitrary: d)
  case (Cons e later)
  obtain F now c where e: "e = (F, now, c)" by (cases e)
  let ?d = "trust_do L F now c d"
  have c: "0 < now" "call_utf8 c" and later: "trust_history_ok later"
    using Cons.prems(2) e by (simp_all add: trust_history_ok_def)
  have "heads_forward (trusted L d) (trusted L ?d)"
    using trust_do_ok(2) [OF ok Cons.prems(1) c, of F] heads_forward_refl heads_forward_step by metis
  moreover have "heads_forward (trusted L ?d) (trusted L (trust_run L later ?d))"
    by (rule Cons.IH [OF trust_do_ok(1) [OF ok Cons.prems(1) c] later])
  ultimately show ?case using heads_forward_trans e by (simp add: trust_run_def)
qed (simp add: trust_run_def heads_forward_refl)

text \<open>
  a remote observation stream never regresses.  Once the head of a stream (source, dataset and
  branch of an alias) is recorded, it stays recorded, its revision never decreases, and two records
  of the same revision name the same commit and root.
\<close>

theorem trust_observations_monotone:
  assumes "cid_lib_ok L" and "trust_history_ok (entries @ later)"
    and "x \<in> set (rs_ObservedHeads (root_of (trusted L (trust_run L entries None)) al))"
  shows "\<exists>y \<in> set (rs_ObservedHeads (root_of (trusted L (trust_run L (entries @ later) None)) al)).
    observationKey y = observationKey x \<and> oh_Revision x \<le> oh_Revision y \<and>
    (oh_Revision y = oh_Revision x \<longrightarrow> oh_CommitID y = oh_CommitID x \<and> oh_Root y = oh_Root x)"
proof -
  have h: "trust_history_ok entries" "trust_history_ok later"
    using assms(2) by (simp_all add: trust_history_append)
  have "heads_forward (trusted L (trust_run L entries None))
      (trusted L (trust_run L later (trust_run L entries None)))"
    by (rule heads_forward_run [OF assms(1) trust_run_ok [OF assms(1) h(1)] h(2)])
  then show ?thesis
    using assms(3) by (auto simp: heads_forward_def trust_run_append follows_def)
qed

section \<open>Accepting a candidate\<close>

lemma trust_success:
  assumes ok: "cid_lib_ok L" and d: "trust_disk_ok L d" and now: "0 < now" and utf8: "call_utf8 c"
    and step: "\<And>v s'. f (trusted L d) = Inr (v, Some s') \<Longrightarrow> trust_step L now c (trusted L d) s'"
    and call: "withLockedState L F (locked_call f) d = (Inr v, d')"
  shows "\<exists>w. f (trusted L d) = Inr (v, w) \<and>
    trusted L d' = (case w of None \<Rightarrow> trusted L d | Some s' \<Rightarrow> s')"
proof -
  have "trust_inv L s'" if "snd (locked_call f (trusted L d)) = Some s'" for s'
    using that trust_step_wf [OF step trusted_wf [OF ok d] ok utf8 now] ok
    by (auto simp: locked_call_def trust_inv_def split: sum.splits)
  from trust.with_state_success [OF d call [unfolded withLockedState_def] this]
  show ?thesis by (auto simp: locked_call_def split: sum.splits)
qed

text \<open>
  accepting a candidate is fenced by its base.  It succeeds only for a recorded candidate whose
  base is the accepted root of the moment (or for a bootstrap candidate while there is none); then
  the candidate is the accepted root, the old root is remembered as its predecessor, the candidate
  leaves the list, and no other alias changes.
\<close>

theorem trust_accept_candidate:
  assumes ok: "cid_lib_ok L" and hist: "trust_history_ok (entries @ [(F, now, CallAcceptCandidate al root source)])"
    and d: "d = trust_run L entries None"
    and call: "trust_AcceptCandidate L F now al root source d = (Inr v, d')"
  shows "\<exists>old c a. gm_get (ts_Roots (trusted L d)) (normalizeAlias al) = Some old \<and>
      c \<in> set (rs_Candidates old) \<and> canonicalCID L root = Some (cr_Root c) \<and>
      cr_BaseRoot c = (case rs_Accepted old of None \<Rightarrow> [] | Some b \<Rightarrow> ar_Root b) \<and>
      gm_get (ts_Roots (trusted L d')) (normalizeAlias al) = Some v \<and> rs_Accepted v = Some a \<and>
      ar_Root a = cr_Root c \<and> ar_PreviousRoot a = cr_BaseRoot c \<and>
      cr_Root c \<notin> cr_Root ` set (rs_Candidates v) \<and>
      (\<forall>x. x \<noteq> normalizeAlias al \<longrightarrow>
         gm_get (ts_Roots (trusted L d')) x = gm_get (ts_Roots (trusted L d)) x)"
proof -
  have h: "trust_history_ok entries" and now: "0 < now" and u: "call_utf8 (CallAcceptCandidate al root source)"
    using hist by (simp_all add: trust_history_ok_def)
  have dok: "trust_disk_ok L d" unfolding d by (rule trust_run_ok [OF ok h])
  let ?a = "normalizeAlias al"
  obtain r where r: "canonicalCID L root = Some r"
    and w: "withLockedState L F (locked_call (acceptCandidateLocked ?a r source now)) d = (Inr v, d')"
    using call by (auto simp: trust_AcceptCandidate_def checked_def trust_arguments split: sum.splits)
  obtain w' where w': "acceptCandidateLocked ?a r source now (trusted L d) = Inr (v, w')"
    and after: "trusted L d' = (case w' of None \<Rightarrow> trusted L d | Some s' \<Rightarrow> s')"
    using trust_success [OF ok dok now u _ w] step_accept_candidate [OF r] by blast
  then obtain old c where old: "gm_get (ts_Roots (trusted L d)) ?a = Some old"
    and c: "find (\<lambda>c. cr_Root c = r) (rs_Candidates old) = Some c"
    and base: "cr_BaseRoot c = (case rs_Accepted old of None \<Rightarrow> [] | Some b \<Rightarrow> ar_Root b)"
    and v: "v = acceptRoot old r source now" and s': "trusted L d' = put_root (trusted L d) ?a v"
    by (auto simp: acceptCandidateLocked_def Let_def split: option.splits if_splits)
  note cr = find_root [OF c]
  have "parts_wf L old" using trust_wf_get [OF trusted_wf [OF ok dok] old] by (simp add: root_wf_def)
  then have "case rs_Accepted old of None \<Rightarrow> True | Some b \<Rightarrow> r \<noteq> ar_Root b"
    using cr by (auto simp: parts_wf_def candidates_wf_def list_all_iff candidate_wf_def split: option.splits)
  then obtain a where "rs_Accepted v = Some a" "ar_Root a = r" "ar_PreviousRoot a = cr_BaseRoot c"
    using v base by (auto simp: acceptRoot_def Let_def split: option.splits)
  moreover have "r \<notin> cr_Root ` set (rs_Candidates v)"
    using v by (auto simp: acceptRoot_def Let_def removeCandidate_set)
  ultimately show ?thesis
    using old cr base r s' by (intro exI [of _ old] exI [of _ c] exI [of _ a]) (auto simp: put_root_def)
qed

section \<open>Text that is not valid UTF-8\<close>

fun trust_fails :: "cid_lib \<Rightarrow> faults \<Rightarrow> time \<Rightarrow> trust_call \<Rightarrow> trust_disk \<Rightarrow> bool" where
  "trust_fails L F now (CallTrust al root profile gateway source) d =
     isl (fst (trust_Trust L F now al root profile gateway source d))"
| "trust_fails L F now (CallAddCandidate al root base source) d =
     isl (fst (trust_AddCandidate L F now al root base source d))"
| "trust_fails L F now (CallObserveHead al h) d = isl (fst (trust_ObserveHead L F now al h d))"
| "trust_fails L F now (CallAcceptCandidate al root source) d =
     isl (fst (trust_AcceptCandidate L F now al root source d))"
| "trust_fails L F now (CallAcceptObserved al root profile gateway source) d =
     isl (fst (trust_AcceptObserved L F now al root profile gateway source d))"
| "trust_fails L F now (CallTrustOpen path) d = isl (fst (trust_Open L F path d))"
| "trust_fails L F now CallListStates d = isl (fst (trust_ListStates L F d))"
| "trust_fails L F now (CallGetState al) d = isl (fst (trust_GetState L F al d))"

lemma refused_checked: "(\<And>a. refused d (k a d)) \<Longrightarrow> refused d (checked arg k d)"
  by (cases arg) (auto simp: checked_def refused_def)

lemma trust_unreadable:
  assumes "unreadable (trust_reloadLocked L) d"
  shows "trust_fails L F now c d \<and> trust_do L F now c d = d"
proof -
  have locked: "refused d (withLockedState L F operation d)" for operation :: "trust_state \<Rightarrow> (trust_error + 'r) \<times> _"
    by (simp add: withLockedState_def with_state_unreadable [OF assms])
  have "refused d (trust_Trust L F now al root p g source d)" "refused d (trust_AddCandidate L F now al root b source d)"
    "refused d (trust_ObserveHead L F now al h d)" "refused d (trust_AcceptCandidate L F now al root source d)"
    "refused d (trust_AcceptObserved L F now al root p g source d)" "refused d (trust_Open L F path d)"
    "refused d (trust_ListStates L F d)" "refused d (trust_GetState L F al d)"
    for al root p g source b h path
    unfolding trust_Trust_def trust_AddCandidate_def trust_ObserveHead_def trust_AcceptCandidate_def
      trust_AcceptObserved_def trust_ListStates_def trust_GetState_def
    by (auto simp: trust_Open_def refused_def [of d "(Inl e, d)" for e] intro!: refused_checked locked)
  then show ?thesis by (cases c) (simp_all add: refused_def)
qed

lemma trust_run_unreadable:
  assumes "unreadable (trust_reloadLocked L) d"
  shows "trust_run L entries d = d"
  using trust_unreadable [OF assms] by (induction entries) (auto simp: trust_run_def)

lemma colliding_unreadable:
  assumes "gm_get (ts_Roots s) k = Some v" and "gm_get (ts_Roots s) k' = Some v'" and "k \<noteq> k'"
    and "json_text k = json_text k'"
  shows "unreadable (trust_reloadLocked L) (Some (Decoded (trust_encode s)))"
proof -
  let ?json = "\<lambda>(al, v). (json_text al, json_root_state v)"
  have "(k, v) \<in> set (ts_Roots s)" "(k', v') \<in> set (ts_Roots s)"
    using assms(1,2) by (simp_all add: map_of_SomeD)
  then have "\<not> inj_on (\<lambda>x. fst (?json x)) (set (ts_Roots s))"
    using assms(3,4) by (fastforce simp: inj_on_def)
  then have "\<not> distinct (map fst (map ?json (ts_Roots s)))"
    by (auto simp: distinct_map comp_def inj_on_def split_beta)
  then show ?thesis by (simp add: unreadable_def trust_reloadLocked_def trust_encode_def require_def)
qed

text \<open>
  C36: the hypothesis that stored strings are valid UTF-8 is needed, and the store does not check it.
  Take any trust file that is in order, an alias stored in it, and another alias that the JSON encoding,
  which replaces invalid bytes, maps to the same key.  Trusting a root under that other alias may
  report success; when it does, every later call of the store, opening it included, fails, and
  no call changes the file again.
\<close>

theorem trust_invalid_alias_unreadable:
  assumes "trust_disk_ok L d" and "gm_get (ts_Roots (trusted L d)) stored = Some v"
    and "json_text (normalizeAlias al) = json_text stored" and "normalizeAlias al \<noteq> stored"
    and "trust_Trust L F now al root profile gateway source d = (Inr w, d')"
  shows "trust_run L entries d' = d' \<and> trust_fails L F' now' c (trust_run L entries d')"
proof -
  obtain r where "withLockedState L F (locked_call (trustLocked (normalizeAlias al) r profile gateway source now)) d = (Inr w, d')"
    using assms(5) by (auto simp: trust_Trust_def checked_def result_simps trust_arguments split: sum.splits)
  moreover obtain u where u: "locked_call (trustLocked (normalizeAlias al) r profile gateway source now) (trusted L d) =
      (Inr u, Some (put_root (trusted L d) (normalizeAlias al) u))"
    by (simp add: locked_call_def trustLocked_def Let_def)
  ultimately have "d' = Some (Decoded (trust_encode (put_root (trusted L d) (normalizeAlias al) u)))"
    using trust.with_state_written [OF assms(1), of F _ w d' "Inr u"] by (simp add: withLockedState_def)
  moreover have "unreadable (trust_reloadLocked L) \<dots>"
    by (rule colliding_unreadable [where k = stored and k' = "normalizeAlias al"])
      (use assms(2-4) in \<open>simp_all add: put_root_def\<close>)
  ultimately show ?thesis using trust_run_unreadable [of L d'] trust_unreadable [of L d'] by simp
qed

section \<open>Concrete histories\<close>

definition demo_head :: "uint64 \<Rightarrow> string \<Rightarrow> ObservedHead" where
  "demo_head revision root =
     \<lparr>oh_Source = ''gw'', oh_DatasetID = ''ds'', oh_Branch = ''main'', oh_CommitID = ''c'' @ root,
      oh_Root = root, oh_Revision = revision, oh_ObservedAt = 0\<rparr>"

definition demo_trust :: "trust_entry list" where
  "demo_trust =
     [(no_faults, 5, CallTrust ''home'' ''broot'' ''p'' ''g'' ''cli''),
      (no_faults, 6, CallAddCandidate '' home '' ''bnew'' ''broot'' ''add''),
      (no_faults, 7, CallObserveHead ''home'' (demo_head 3 ''bobs''))]"

definition demo_trust_disk :: trust_disk where
  "demo_trust_disk = trust_run demo_cid demo_trust None"

lemma demo_trust_ok: "trust_history_ok demo_trust"
  by code_simp

theorem trust_always_reopens_witness:
  "trust_history_ok demo_trust \<and> TrimSpace ''roots.json'' \<noteq> [] \<and>
   trust_Open demo_cid no_faults ''roots.json'' demo_trust_disk = (Inr (), demo_trust_disk) \<and>
   length (ts_Roots (trusted demo_cid demo_trust_disk)) = 1"
proof -
  have p: "TrimSpace ''roots.json'' \<noteq> []" by code_simp
  have "length (ts_Roots (trusted demo_cid demo_trust_disk)) = 1" by code_simp
  then show ?thesis
    using trust_always_reopens [OF demo_cid_ok demo_trust_ok p] p demo_trust_ok
    by (simp add: demo_trust_disk_def)
qed

theorem trust_no_silent_promotion_witness:
  "accepted_root (trusted demo_cid demo_trust_disk) ''home'' = Some ''broot'' \<and>
   (\<exists>earlier c rest. map trust_entry_call demo_trust = earlier @ c # rest \<and>
      promotes demo_cid earlier ''home'' ''broot'' c)"
proof -
  have a: "accepted_root (trusted demo_cid demo_trust_disk) ''home'' = Some ''broot''" by code_simp
  from trust_no_silent_promotion [OF demo_cid_ok demo_trust_ok a [unfolded demo_trust_disk_def]] a
  show ?thesis by blast
qed

theorem trust_observations_monotone_witness:
  "\<exists>x y. x \<in> set (rs_ObservedHeads (root_of (trusted demo_cid demo_trust_disk) ''home'')) \<and>
     y \<in> set (rs_ObservedHeads (root_of (trusted demo_cid (trust_run demo_cid
       (demo_trust @ [(no_faults, 8, CallObserveHead ''home'' (demo_head 4 ''bthird''))]) None)) ''home'')) \<and>
     oh_Revision x \<le> oh_Revision y"
proof -
  let ?later = "[(no_faults, 8, CallObserveHead ''home'' (demo_head 4 ''bthird''))]"
  have h: "trust_history_ok (demo_trust @ ?later)" by code_simp
  have "rs_ObservedHeads (root_of (trusted demo_cid demo_trust_disk) ''home'') \<noteq> []" by code_simp
  then obtain x where "x \<in> set (rs_ObservedHeads (root_of (trusted demo_cid demo_trust_disk) ''home''))"
    by (meson list.set_sel(1))
  with trust_observations_monotone [OF demo_cid_ok h, of x "''home''"]
  show ?thesis unfolding demo_trust_disk_def by blast
qed

theorem trust_accept_candidate_witness:
  "\<exists>v d' a. trust_AcceptCandidate demo_cid no_faults 9 ''home'' ''bnew'' ''cli'' demo_trust_disk = (Inr v, d') \<and>
     rs_Accepted v = Some a \<and> ar_PreviousRoot a = ''broot''"
proof -
  let ?one = "trust_AcceptCandidate demo_cid no_faults 9 ''home'' ''bnew'' ''cli'' demo_trust_disk"
  have run: "fst ?one = Inr (projr (fst ?one))"
    "map_option ar_PreviousRoot (rs_Accepted (projr (fst ?one))) = Some ''broot''" by code_simp+
  have h: "trust_history_ok (demo_trust @ [(no_faults, 9, CallAcceptCandidate ''home'' ''bnew'' ''cli'')])"
    by code_simp
  have one: "?one = (Inr (projr (fst ?one)), snd ?one)" using run(1) by (metis prod.collapse)
  from trust_accept_candidate [OF demo_cid_ok h demo_trust_disk_def one] run(2) one
  show ?thesis by fastforce
qed

theorem trust_invalid_alias_unreadable_witness:
  "\<exists>w d'. trust_Trust demo_cid no_faults 6 [CHR 0xFF] ''bnew'' [] [] []
       (trust_run demo_cid [(no_faults, 5, CallTrust [CHR 0xEF, CHR 0xBF, CHR 0xBD] ''broot'' [] [] [])] None) = (Inr w, d') \<and>
     trust_fails demo_cid no_faults 7 (CallTrustOpen ''roots.json'') (trust_run demo_cid demo_trust d')"
proof -
  let ?al = "[CHR 0xEF, CHR 0xBF, CHR 0xBD]"
  let ?pre = "[(no_faults, 5, CallTrust ?al ''broot'' [] [] [])] :: trust_entry list"
  let ?d = "trust_run demo_cid ?pre None"
  let ?one = "trust_Trust demo_cid no_faults 6 [CHR 0xFF] ''bnew'' [] [] [] ?d"
  have run: "fst ?one = Inr (projr (fst ?one))" "gm_get (ts_Roots (trusted demo_cid ?d)) ?al = Some (root_of (trusted demo_cid ?d) ?al)"
    "json_text (normalizeAlias [CHR 0xFF]) = json_text ?al" "normalizeAlias [CHR 0xFF] \<noteq> ?al"
    by code_simp+
  have one: "?one = (Inr (projr (fst ?one)), snd ?one)" using run(1) by (metis prod.collapse)
  have h: "trust_history_ok ?pre" by code_simp
  have "trust_disk_ok demo_cid ?d" by (rule trust_run_ok [OF demo_cid_ok h])
  from trust_invalid_alias_unreadable [OF this run(2-4) one] one show ?thesis by blast
qed

end
