(* ===== verification/Roots.thy ===== *)
theory Roots
  imports TrustProps
begin

text \<open>
  The root-policy interface (\<open>trust/policy.go\<close>) and the application facade over it
  (\<open>application/roots.go\<close>): root selection, candidate bookkeeping and the accepted-root fence.
  \<open>root_policy\<close> is the contract the facade relies on; the trust store is shown to meet it.
\<close>

section \<open>The policy interface\<close>

text \<open>
  The interface as a record of methods.  \<open>'p\<close> is the policy's own state, \<open>'w\<close> the state a
  guarded operation acts on.
\<close>

record ('p, 'w) Policy =
  pol_WithAcceptedRoot :: "string \<Rightarrow> string \<Rightarrow> ('w \<Rightarrow> (trust_error + unit) \<times> 'w) \<Rightarrow> 'p \<Rightarrow> 'w
    \<Rightarrow> (trust_error + unit) \<times> 'w"
  pol_ListStates :: "'p \<Rightarrow> trust_error + RootState list"
  pol_GetState :: "string \<Rightarrow> 'p \<Rightarrow> trust_error + RootState"
  pol_Trust :: "string \<Rightarrow> string \<Rightarrow> string \<Rightarrow> string \<Rightarrow> string \<Rightarrow> 'p \<Rightarrow> (trust_error + RootState) \<times> 'p"
  pol_AddCandidate :: "string \<Rightarrow> string \<Rightarrow> string \<Rightarrow> string \<Rightarrow> 'p \<Rightarrow> (trust_error + RootState) \<times> 'p"
  pol_AcceptCandidate :: "string \<Rightarrow> string \<Rightarrow> string \<Rightarrow> 'p \<Rightarrow> (trust_error + RootState) \<times> 'p"
  pol_ObserveHead :: "string \<Rightarrow> ObservedHead \<Rightarrow> 'p \<Rightarrow> (trust_error + RootState) \<times> 'p"
  pol_AcceptObserved :: "string \<Rightarrow> string \<Rightarrow> string \<Rightarrow> string \<Rightarrow> string \<Rightarrow> 'p
    \<Rightarrow> (trust_error + RootState) \<times> 'p"

text \<open>The store as a policy (\<open>var _ Policy = (*Store)(nil)\<close>), under the faults and clock of the call.\<close>

definition storePolicy :: "cid_lib \<Rightarrow> faults \<Rightarrow> time \<Rightarrow> (trust_disk, 'w) Policy" where
  "storePolicy L F now =
     \<lparr>pol_WithAcceptedRoot = trust_WithAcceptedRoot L F,
      pol_ListStates = (\<lambda>d. fst (trust_ListStates L F d)),
      pol_GetState = (\<lambda>al d. fst (trust_GetState L F al d)),
      pol_Trust = trust_Trust L F now,
      pol_AddCandidate = trust_AddCandidate L F now,
      pol_AcceptCandidate = trust_AcceptCandidate L F now,
      pol_ObserveHead = trust_ObserveHead L F now,
      pol_AcceptObserved = trust_AcceptObserved L F now\<rparr>"

definition policy_AcceptedRoot ::
  "cid_lib \<Rightarrow> ('p, 'w) Policy \<Rightarrow> string \<Rightarrow> 'p \<Rightarrow> trust_error + (cid \<times> RootState)" where
  "policy_AcceptedRoot L policy al p =
     bindE (pol_GetState policy al p) (\<lambda>record.
       case rs_Accepted record of
         None \<Rightarrow> Inl ErrNoAcceptedRoot
       | Some a \<Rightarrow>
           bindE (of_option (TrustInvalid ''accepted root is invalid'') (cid_Parse L (ar_Root a)))
             (\<lambda>root. Inr (root, record)))"

section \<open>The facade\<close>

text \<open>\<open>Roots.policy\<close> is nil for the selector of explicit CIDs.\<close>

type_synonym ('p, 'w) Roots = "('p, 'w) Policy option"

record RootSelection =
  sel_Root :: cid
  sel_Alias :: string

definition nil_roots :: trust_error where
  "nil_roots = TrustInvalid ''trusted-root application is nil''"

definition NewExplicitRootSelector :: "('p, 'w) Roots" where
  "NewExplicitRootSelector = None"

definition roots_LookupAlias ::
  "cid_lib \<Rightarrow> ('p, 'w) Roots \<Rightarrow> string \<Rightarrow> 'p \<Rightarrow> trust_error + RootSelection" where
  "roots_LookupAlias L r al p =
     (case r of
        None \<Rightarrow> Inl nil_roots
      | Some policy \<Rightarrow>
          require (TrimSpace al \<noteq> []) (TrustInvalid ''trusted-root alias is empty'') (
          bindE (policy_AcceptedRoot L policy (TrimSpace al) p)
            (\<lambda>(root, record). Inr \<lparr>sel_Root = root, sel_Alias = rs_Alias record\<rparr>)))"

definition roots_Select ::
  "cid_lib \<Rightarrow> ('p, 'w) Roots \<Rightarrow> string \<Rightarrow> 'p \<Rightarrow> trust_error + RootSelection" where
  "roots_Select L r raw p =
     (case cid_Parse L (TrimSpace raw) of
        Some root \<Rightarrow> Inr \<lparr>sel_Root = root, sel_Alias = []\<rparr>
      | None \<Rightarrow>
          if r = None then Inl (TrustInvalid ''not an explicit CID'')
          else roots_LookupAlias L r (TrimSpace raw) p)"

definition roots_AcceptedRoot ::
  "cid_lib \<Rightarrow> ('p, 'w) Roots \<Rightarrow> string \<Rightarrow> 'p \<Rightarrow> trust_error + cid" where
  "roots_AcceptedRoot L r al p = bindE (roots_LookupAlias L r al p) (\<lambda>selected. Inr (sel_Root selected))"

text \<open>The result is the boolean, the error if any, and the guarded operation's state.\<close>

definition roots_CompleteIfAccepted ::
  "cid_lib \<Rightarrow> ('p, 'w) Roots \<Rightarrow> string \<Rightarrow> cid \<Rightarrow> ('w \<Rightarrow> (trust_error + unit) \<times> 'w) \<Rightarrow> 'p \<Rightarrow> 'w
    \<Rightarrow> bool \<times> trust_error option \<times> 'w" where
  "roots_CompleteIfAccepted L r al expected operation p w =
     (case r of
        None \<Rightarrow> (False, Some nil_roots, w)
      | Some policy \<Rightarrow>
          if \<not> cid_Defined expected
          then (False, Some (TrustInvalid ''expected accepted root is undefined''), w)
          else
            (case pol_WithAcceptedRoot policy al (cid_String L expected) operation p w of
               (Inl e, w') \<Rightarrow> if e = ErrAcceptedRootChanged then (False, None, w') else (False, Some e, w')
             | (Inr _, w') \<Rightarrow> (True, None, w')))"

text \<open>What the facade makes of the outcome of an operation that ran.\<close>

definition reported :: "(trust_error + unit) \<times> 'w \<Rightarrow> bool \<times> trust_error option \<times> 'w" where
  "reported outcome =
     (case outcome of
        (Inr _, w) \<Rightarrow> (True, None, w)
      | (Inl e, w) \<Rightarrow> (False, if e = ErrAcceptedRootChanged then None else Some e, w))"

text \<open>The fence is open while the expected root is the accepted one.\<close>

definition unfenced :: "cid_lib \<Rightarrow> (string \<Rightarrow> string option) \<Rightarrow> string \<Rightarrow> cid \<Rightarrow> bool" where
  "unfenced L accepted al expected \<longleftrightarrow>
     cid_Defined expected \<and> canonicalCID L (cid_String L expected) \<noteq> None \<and>
     accepted (TrimSpace al) = canonicalCID L (cid_String L expected)"

definition roots_ListStates :: "('p, 'w) Roots \<Rightarrow> 'p \<Rightarrow> trust_error + RootState list" where
  "roots_ListStates r p = (case r of None \<Rightarrow> Inl nil_roots | Some policy \<Rightarrow> pol_ListStates policy p)"

definition roots_GetState :: "('p, 'w) Roots \<Rightarrow> string \<Rightarrow> 'p \<Rightarrow> trust_error + RootState" where
  "roots_GetState r al p = (case r of None \<Rightarrow> Inl nil_roots | Some policy \<Rightarrow> pol_GetState policy al p)"

definition roots_Trust ::
  "('p, 'w) Roots \<Rightarrow> string \<Rightarrow> string \<Rightarrow> string \<Rightarrow> string \<Rightarrow> string \<Rightarrow> 'p
    \<Rightarrow> (trust_error + RootState) \<times> 'p" where
  "roots_Trust r al root profile gateway source p =
     (case r of
        None \<Rightarrow> (Inl nil_roots, p)
      | Some policy \<Rightarrow> pol_Trust policy al root profile gateway source p)"

definition cid_text :: "cid_lib \<Rightarrow> cid \<Rightarrow> string" where
  "cid_text L c = (if cid_Defined c then cid_String L c else [])"

definition roots_RecordCandidate ::
  "cid_lib \<Rightarrow> ('p, 'w) Roots \<Rightarrow> string \<Rightarrow> cid \<Rightarrow> cid \<Rightarrow> string \<Rightarrow> 'p \<Rightarrow> (trust_error + RootState) \<times> 'p" where
  "roots_RecordCandidate L r al candidateRoot baseRoot source p =
     (case r of
        None \<Rightarrow> (Inl nil_roots, p)
      | Some policy \<Rightarrow>
          if TrimSpace al = [] then (Inl (TrustInvalid ''candidate alias is empty''), p)
          else if \<not> cid_Defined candidateRoot
          then (Inl (TrustInvalid ''candidate root must be defined''), p)
          else pol_AddCandidate policy al (cid_String L candidateRoot) (cid_text L baseRoot) source p)"

definition roots_ObserveCandidate ::
  "cid_lib \<Rightarrow> ('p, 'w) Roots \<Rightarrow> string \<Rightarrow> cid \<Rightarrow> cid \<Rightarrow> string \<Rightarrow> 'p \<Rightarrow> (trust_error + unit) \<times> 'p" where
  "roots_ObserveCandidate L r al candidateRoot baseRoot source p =
     (case roots_RecordCandidate L r al candidateRoot baseRoot source p of
        (res, p') \<Rightarrow> (bindE res (\<lambda>_. Inr ()), p'))"

definition roots_HasCandidate ::
  "cid_lib \<Rightarrow> ('p, 'w) Roots \<Rightarrow> string \<Rightarrow> cid \<Rightarrow> cid \<Rightarrow> 'p \<Rightarrow> trust_error + bool" where
  "roots_HasCandidate L r al candidateRoot baseRoot p =
     (case r of
        None \<Rightarrow> Inl (TrustInvalid ''candidate inspection request is incomplete'')
      | Some policy \<Rightarrow>
          require (cid_Defined candidateRoot)
            (TrustInvalid ''candidate inspection request is incomplete'') (
          bindE (pol_GetState policy al p) (\<lambda>state.
            Inr (list_ex (\<lambda>c. cr_Root c = cid_String L candidateRoot \<and>
                              cr_BaseRoot c = cid_text L baseRoot) (rs_Candidates state)))))"

definition roots_ObserveHead ::
  "cid_lib \<Rightarrow> ('p, 'w) Roots \<Rightarrow> string \<Rightarrow> string \<Rightarrow> string \<Rightarrow> string \<Rightarrow> string \<Rightarrow> cid \<Rightarrow> uint64 \<Rightarrow> 'p
    \<Rightarrow> (trust_error + unit) \<times> 'p" where
  "roots_ObserveHead L r al source datasetID branch commitID root revision p =
     (case r of
        None \<Rightarrow> (Inl nil_roots, p)
      | Some policy \<Rightarrow>
          (case pol_ObserveHead policy al
                  \<lparr>oh_Source = source, oh_DatasetID = datasetID, oh_Branch = branch,
                   oh_CommitID = commitID, oh_Root = cid_text L root, oh_Revision = revision,
                   oh_ObservedAt = 0\<rparr> p of
             (res, p') \<Rightarrow> (bindE res (\<lambda>_. Inr ()), p')))"

definition roots_AcceptCandidate ::
  "cid_lib \<Rightarrow> ('p, 'w) Roots \<Rightarrow> string \<Rightarrow> cid \<Rightarrow> string \<Rightarrow> 'p \<Rightarrow> (trust_error + RootState) \<times> 'p" where
  "roots_AcceptCandidate L r al candidate source p =
     (case r of
        None \<Rightarrow> (Inl nil_roots, p)
      | Some policy \<Rightarrow>
          if \<not> cid_Defined candidate then (Inl (TrustInvalid ''candidate root is undefined''), p)
          else pol_AcceptCandidate policy al (cid_String L candidate) source p)"

definition roots_AcceptObserved ::
  "cid_lib \<Rightarrow> ('p, 'w) Roots \<Rightarrow> string \<Rightarrow> cid \<Rightarrow> string \<Rightarrow> string \<Rightarrow> string \<Rightarrow> 'p
    \<Rightarrow> (trust_error + RootState) \<times> 'p" where
  "roots_AcceptObserved L r al observed profile gateway source p =
     (case r of
        None \<Rightarrow> (Inl nil_roots, p)
      | Some policy \<Rightarrow>
          if \<not> cid_Defined observed then (Inl (TrustInvalid ''observed root is undefined''), p)
          else pol_AcceptObserved policy al (cid_String L observed) profile gateway source p)"

section \<open>The contract of a policy\<close>

text \<open>
  What the facade relies on: a state read under an alias shows that alias's accepted root, and the fence runs the
  guarded operation, and returns what it returns, exactly while the expected root is accepted.  Only a transient
  error of the policy may keep it from running then; an error about a changed root is not transient, and comes
  from the policy only when another root is accepted.
\<close>

locale root_policy =
  fixes L :: cid_lib
    and policy :: "('p, 'w) Policy"
    and accepted :: "'p \<Rightarrow> string \<Rightarrow> string option"
    and transient :: "trust_error \<Rightarrow> bool"
    and invar :: "'p \<Rightarrow> bool"
  assumes get_accepted: "invar p \<Longrightarrow> pol_GetState policy al p = Inr v \<Longrightarrow>
      rs_Alias v = TrimSpace al \<and> accepted p (TrimSpace al) = map_option ar_Root (rs_Accepted v)"
    and fence_open: "invar p \<Longrightarrow> canonicalCID L expected = Some root \<Longrightarrow> accepted p (TrimSpace al) = Some root \<Longrightarrow>
      pol_WithAcceptedRoot policy al expected operation p w = operation w \<or>
      (\<exists>e. transient e \<and> pol_WithAcceptedRoot policy al expected operation p w = (Inl e, w))"
    and fence_closed: "invar p \<Longrightarrow> \<nexists>root. canonicalCID L expected = Some root \<and> accepted p (TrimSpace al) = Some root \<Longrightarrow>
      \<exists>e. pol_WithAcceptedRoot policy al expected operation p w = (Inl e, w) \<and>
        (e = ErrAcceptedRootChanged \<longrightarrow> accepted p (TrimSpace al) \<noteq> None)"
    and changed_not_transient: "\<not> transient ErrAcceptedRootChanged"
begin

lemma lookup_accepted:
  assumes "invar p" and "roots_LookupAlias L (Some policy) al p = Inr sel"
  shows "\<exists>text. accepted p (TrimSpace al) = Some text \<and> cid_Parse L text = Some (sel_Root sel) \<and>
    sel_Alias sel = TrimSpace al"
  using assms get_accepted [OF assms(1), of "TrimSpace al"]
  by (auto simp: roots_LookupAlias_def policy_AcceptedRoot_def result_simps split: option.splits)

lemma select_explicit_or_accepted:
  assumes "invar p" and "roots_Select L (Some policy) raw p = Inr sel"
  shows "cid_Parse L (TrimSpace raw) = Some (sel_Root sel) \<and> sel_Alias sel = [] \<or>
    cid_Parse L (TrimSpace raw) = None \<and> sel_Alias sel = TrimSpace raw \<and>
    (\<exists>text. accepted p (TrimSpace raw) = Some text \<and> cid_Parse L text = Some (sel_Root sel))"
  using assms(2) lookup_accepted [OF assms(1), of "TrimSpace raw" sel]
  by (auto simp: roots_Select_def split: option.splits)

lemma complete_unfenced:
  assumes "invar p" and "unfenced L (accepted p) al expected"
  shows "roots_CompleteIfAccepted L (Some policy) al expected operation p w = reported (operation w) \<or>
    (\<exists>e. transient e \<and> roots_CompleteIfAccepted L (Some policy) al expected operation p w = (False, Some e, w))"
  using assms fence_open [OF assms(1), of "cid_String L expected" _ al operation w] changed_not_transient
  by (fastforce simp: unfenced_def roots_CompleteIfAccepted_def reported_def split: prod.split sum.split)

lemma complete_fenced:
  assumes "invar p" and "\<not> unfenced L (accepted p) al expected"
  shows "\<exists>e. roots_CompleteIfAccepted L (Some policy) al expected operation p w = (False, e, w) \<and>
    (e = None \<longrightarrow> accepted p (TrimSpace al) \<noteq> None)"
  using assms fence_closed [OF assms(1), of "cid_String L expected" al operation w]
  by (fastforce simp: unfenced_def roots_CompleteIfAccepted_def)

end

section \<open>The store meets the contract\<close>

lemma trust_GetState_Inr:
  assumes "trust_disk_ok L d" and "fst (trust_GetState L F al d) = Inr v"
  shows "gm_get (ts_Roots (trusted L d)) (normalizeAlias al) = Some v"
proof -
  obtain d' where "withLockedState L F (reading (\<lambda>s. of_option ErrTrustNotFound
      (gm_get (ts_Roots s) (normalizeAlias al)))) d = (Inr v, d')"
    using assms(2) by (cases "trust_GetState L F al d") (auto simp: trust_GetState_def)
  from trust.with_state_success [OF assms(1) this [unfolded withLockedState_def]]
  show ?thesis by (auto simp: reading_def of_option_def split: option.splits)
qed

lemma fence_reading:
  assumes d: "trust_disk_ok L d"
  shows "fst (withLockedState L F (reading (fence_check a r)) d) = fence_check a r (trusted L d) \<or>
    (\<exists>st. F st \<and> fst (withLockedState L F (reading (fence_check a r)) d) = Inl (TrustIO st))"
proof (cases "F MkdirAll \<or> F AcquireLock \<or> F ReadFile \<or> F SecureFile")
  case True
  then show ?thesis
    using d trust.validate_encode
    by (auto simp: withLockedState_def with_state_def reload_with_def reading_def disk_ok_def loaded_def)
next
  case False
  then show ?thesis
    using trust.reload_ok [OF d, of F] by (simp add: withLockedState_def with_state_def reading_def)
qed

lemma fence_accepted:
  "fence_check a r s = Inr () \<longleftrightarrow> accepted_root s a = Some r"
  "fence_check a r s = Inl ErrAcceptedRootChanged \<Longrightarrow> accepted_root s a \<noteq> None"
  by (auto simp: fence_check_def accepted_root_def root_of_def zeroRootState_def split: option.splits if_splits)

lemma accepted_alias:
  assumes "trust_wf L s" and "accepted_root s al = Some root"
  shows "al \<noteq> []"
  using assms trust_wf_get [OF assms(1), of al]
  by (auto simp: accepted_root_def root_of_def zeroRootState_def root_wf_def alias_ok_def split: option.splits)

lemma WithAcceptedRoot_run:
  assumes "TrimSpace al \<noteq> []" and "canonicalCID L expected = Some r"
  shows "trust_WithAcceptedRoot L F al expected operation d w =
    (case fst (withLockedState L F (reading (fence_check (TrimSpace al) r)) d) of Inl e \<Rightarrow> (Inl e, w) | Inr _ \<Rightarrow> operation w)"
  using assms by (simp add: trust_WithAcceptedRoot_def aliasArgument_def rootArgument_def normalizeAlias_def)

interpretation store_policy: root_policy L "storePolicy L F now" "\<lambda>d. accepted_root (trusted L d)"
  "\<lambda>e. \<exists>st. F st \<and> e = TrustIO st" "\<lambda>d. cid_lib_ok L \<and> trust_disk_ok L d" for L F now
proof
  fix d al v
  assume p: "cid_lib_ok L \<and> trust_disk_ok L d" and get: "pol_GetState (storePolicy L F now) al d = Inr v"
  have at: "gm_get (ts_Roots (trusted L d)) (TrimSpace al) = Some v"
    using trust_GetState_Inr [of L d F al v] p get by (simp add: storePolicy_def normalizeAlias_def)
  then have "root_wf L (TrimSpace al) v"
    using trust_wf_get [OF trusted_wf, of L d] p by blast
  then show "rs_Alias v = TrimSpace al \<and>
      accepted_root (trusted L d) (TrimSpace al) = map_option ar_Root (rs_Accepted v)"
    using at by (simp add: root_wf_def accepted_root_def root_of_def)
next
  fix d expected root al w and operation :: "'w \<Rightarrow> (trust_error + unit) \<times> 'w"
  assume p: "cid_lib_ok L \<and> trust_disk_ok L d" and c: "canonicalCID L expected = Some root"
    and acc: "accepted_root (trusted L d) (TrimSpace al) = Some root"
  have "TrimSpace al \<noteq> []" using accepted_alias [OF _ acc] trusted_wf [of L d] p by blast
  note run = WithAcceptedRoot_run [OF this c]
  show "pol_WithAcceptedRoot (storePolicy L F now) al expected operation d w = operation w \<or>
      (\<exists>e. (\<exists>st. F st \<and> e = TrustIO st) \<and> pol_WithAcceptedRoot (storePolicy L F now) al expected operation d w = (Inl e, w))"
    using fence_reading [of L d F "TrimSpace al" root] p acc fence_accepted(1) [of "TrimSpace al" root "trusted L d"]
    by (auto simp: storePolicy_def run)
next
  fix d expected al w and operation :: "'w \<Rightarrow> (trust_error + unit) \<times> 'w"
  assume p: "cid_lib_ok L \<and> trust_disk_ok L d"
    and other: "\<nexists>root. canonicalCID L expected = Some root \<and> accepted_root (trusted L d) (TrimSpace al) = Some root"
  show "\<exists>e. pol_WithAcceptedRoot (storePolicy L F now) al expected operation d w = (Inl e, w) \<and>
      (e = ErrAcceptedRootChanged \<longrightarrow> accepted_root (trusted L d) (TrimSpace al) \<noteq> None)"
  proof (cases "TrimSpace al \<noteq> [] \<and> canonicalCID L expected \<noteq> None")
    case True
    then obtain r where r: "canonicalCID L expected = Some r" by blast
    then have "fence_check (TrimSpace al) r (trusted L d) \<noteq> Inr ()"
      using other fence_accepted(1) by blast
    then show ?thesis
      using fence_reading [of L d F "TrimSpace al" r] p True r fence_accepted(2) [of "TrimSpace al" r "trusted L d"]
      by (cases "fence_check (TrimSpace al) r (trusted L d)") (auto simp: storePolicy_def WithAcceptedRoot_run)
  next
    case False
    then show ?thesis
      by (auto simp: storePolicy_def trust_WithAcceptedRoot_def aliasArgument_def
          rootArgument_def normalizeAlias_def bindE_def require_def of_option_def split: option.splits)
  qed
qed simp

section \<open>Properties\<close>

text \<open>
  C33: selecting a root never falls back to a candidate or an observation.  Whatever the history of
  the store and whichever steps fail, a selection is the CID the caller wrote, or, where the text is
  not a CID, the CID of the accepted root of the alias it names.
\<close>

theorem roots_select_accepted_only:
  assumes "cid_lib_ok L" and "trust_history_ok entries"
    and "d = trust_run L entries None"
    and "roots_Select L (Some (storePolicy L F now)) raw d = Inr sel"
  shows "cid_Parse L (TrimSpace raw) = Some (sel_Root sel) \<and> sel_Alias sel = [] \<or>
    cid_Parse L (TrimSpace raw) = None \<and> sel_Alias sel = TrimSpace raw \<and>
    (\<exists>text. accepted_root (trusted L d) (TrimSpace raw) = Some text \<and>
       cid_Parse L text = Some (sel_Root sel))"
  using store_policy.select_explicit_or_accepted [OF _ assms(4)] trust_run_ok [OF assms(1,2)] assms(1,3)
  by simp

text \<open>
  C34: the accepted-root fence.  After any history of calls whose stored texts are valid UTF-8: while the expected
  root is the accepted root of the alias, the guarded operation runs and its outcome is passed on, or a file fault
  is reported and nothing ran; without faults it runs.  Otherwise nothing runs and \<open>false\<close> is reported, without an
  error only if another root is accepted.  The outcome of an operation that itself returns
  \<open>ErrAcceptedRootChanged\<close> is passed on as \<open>false\<close> without an error, although it ran.
\<close>

theorem roots_fence:
  assumes "cid_lib_ok L" and "trust_history_ok entries" and "d = trust_run L entries None"
    and "result = roots_CompleteIfAccepted L (Some (storePolicy L F now)) al expected operation d w"
  shows "if unfenced L (accepted_root (trusted L d)) al expected
    then (result = reported (operation w) \<or> (\<exists>st. F st \<and> result = (False, Some (TrustIO st), w))) \<and>
      (F = no_faults \<longrightarrow> result = reported (operation w))
    else \<exists>e. result = (False, e, w) \<and> (e = None \<longrightarrow> accepted_root (trusted L d) (TrimSpace al) \<noteq> None)"
proof -
  have p: "cid_lib_ok L \<and> trust_disk_ok L d" using trust_run_ok [OF assms(1,2)] assms(1,3) by simp
  show ?thesis
    using store_policy.complete_unfenced [OF p, of al expected F now operation w]
      store_policy.complete_fenced [OF p, of al expected F now operation w]
    unfolding assms(4) by (auto simp: no_faults_def)
qed

lemma canonical_String:
  assumes "cid_lib_ok L" and "cid_Parse L s = Some c"
  shows "canonicalCID L (cid_String L c) = Some (cid_String L c)" and "cid_Defined c"
    and "TrimSpace (cid_String L c) \<noteq> []"
proof -
  show can: "canonicalCID L (cid_String L c) = Some (cid_String L c)" and "cid_Defined c"
    using assms by (auto simp: cid_lib_ok_def canonicalCID_def)
  show "TrimSpace (cid_String L c) \<noteq> []"
    using canonicalCID_trim [OF assms(1) can] canonicalCID_not_Nil [OF assms(1) can] by simp
qed

text \<open>
  recording a candidate and asking for it is a round trip: after a successful
  \<open>RecordCandidate\<close> of a root other than the accepted one, \<open>HasCandidate\<close> finds exactly that
  candidate with that base in the stored state.
\<close>

theorem roots_candidate_roundtrip:
  assumes ok: "cid_lib_ok L"
    and hist: "trust_history_ok (entries @ [(F, now, CallAddCandidate al (cid_String L c) (cid_text L b) source)])"
    and d: "d = trust_run L entries None"
    and c: "cid_Parse L s = Some c" and b: "b = [] \<or> cid_Parse L t = Some b"
    and call: "roots_RecordCandidate L (Some (storePolicy L F now)) al c b source d = (Inr v, d')"
    and new: "accepted_root (trusted L d) (TrimSpace al) \<noteq> Some (cid_String L c)"
  shows "roots_HasCandidate L (Some (storePolicy L no_faults now)) al c b d' = Inr True"
proof -
  let ?call = "CallAddCandidate al (cid_String L c) (cid_text L b) source" and ?a = "normalizeAlias al"
  let ?c = "\<lparr>cr_Root = cid_String L c, cr_BaseRoot = cid_text L b, cr_Source = source, cr_ObservedAt = now\<rparr>"
  have h: "trust_history_ok entries" and now: "0 < now" and u: "call_utf8 ?call"
    using hist by (simp_all add: trust_history_ok_def)
  have dok: "trust_disk_ok L d" unfolding d by (rule trust_run_ok [OF ok h])
  note cs = canonical_String [OF ok c]
  have base: "cid_text L b = [] \<or> canonicalCID L (cid_text L b) = Some (cid_text L b) \<and> TrimSpace (cid_text L b) \<noteq> []"
    using b canonical_String [OF ok, of t b] by (auto simp: cid_text_def cid_Defined_def)
  have add: "trust_AddCandidate L F now al (cid_String L c) (cid_text L b) source d = (Inr v, d')"
    and al: "TrimSpace al \<noteq> []"
    using call by (auto simp: roots_RecordCandidate_def storePolicy_def split: if_splits)
  then have w: "withLockedState L F (locked_call (addCandidateLocked ?a (cid_String L c) (cid_text L b) source now)) d
      = (Inr v, d')"
    using cs base
    by (auto simp: trust_AddCandidate_def checked_def aliasArgument_def rootArgument_def normalizeAlias_def
        split: if_splits)
  obtain w' where "addCandidateLocked ?a (cid_String L c) (cid_text L b) source now (trusted L d) = Inr (v, w')"
    and after: "trusted L d' = (case w' of None \<Rightarrow> trusted L d | Some s' \<Rightarrow> s')"
    using trust_success [OF ok dok now u _ w] step_candidate [of al L "cid_String L c" "cid_String L c"]
      cs(1) al base by (auto simp: normalizeAlias_def)
  then have at: "gm_get (ts_Roots (trusted L d')) ?a = Some v" and mem: "?c \<in> set (rs_Candidates v)"
    using new by (auto simp: addCandidateLocked_def Let_def accepted_root_def put_root_def normalizeAlias_def
        split: option.splits if_splits)
  have "d' = trust_run L (entries @ [(F, now, ?call)]) None"
    using d add by (simp add: trust_run_def)
  then have "trust_disk_ok L d'" using trust_run_ok [OF ok hist] by simp
  then have "fst (trust_GetState L no_faults al d') = Inr v"
    using at by (simp add: trust_GetState_def withLockedState_def reading_def
        trust.with_state_no_faults [where res = "Inr v" and w = None])
  then show ?thesis
    using mem cs(2) by (auto simp: roots_HasCandidate_def storePolicy_def list_ex_iff intro!: bexI [of _ ?c])
qed

section \<open>Concrete uses\<close>

theorem roots_candidate_roundtrip_witness:
  "\<exists>v d'. roots_RecordCandidate demo_cid (Some (storePolicy demo_cid no_faults 9 :: (trust_disk, unit) Policy))
       ''home'' ''bfresh'' ''broot'' ''add'' demo_trust_disk = (Inr v, d') \<and>
     roots_HasCandidate demo_cid (Some (storePolicy demo_cid no_faults 9 :: (trust_disk, unit) Policy))
       ''home'' ''bfresh'' ''broot'' d' = Inr True"
proof -
  let ?P = "storePolicy demo_cid no_faults 9 :: (trust_disk, unit) Policy"
  let ?one = "roots_RecordCandidate demo_cid (Some ?P) ''home'' ''bfresh'' ''broot'' ''add'' demo_trust_disk"
  have run: "fst ?one = Inr (projr (fst ?one))" by code_simp
  have h: "trust_history_ok (demo_trust @ [(no_faults, 9, CallAddCandidate ''home''
      (cid_String demo_cid ''bfresh'') (cid_text demo_cid ''broot'') ''add'')])" by code_simp
  have c: "cid_Parse demo_cid ''bfresh'' = Some ''bfresh''" "cid_Parse demo_cid ''broot'' = Some ''broot''"
    and n: "accepted_root (trusted demo_cid demo_trust_disk) (TrimSpace ''home'') \<noteq>
      Some (cid_String demo_cid ''bfresh'')" by code_simp+
  have one: "?one = (Inr (projr (fst ?one)), snd ?one)" using run by (metis prod.collapse)
  from roots_candidate_roundtrip [OF demo_cid_ok h demo_trust_disk_def c(1) disjI2 [OF c(2)] one n] one
  show ?thesis by blast
qed

theorem roots_select_accepted_only_witness:
  "\<exists>sel. roots_Select demo_cid (Some (storePolicy demo_cid no_faults 9 :: (trust_disk, unit) Policy))
       '' home'' demo_trust_disk = Inr sel \<and>
     sel_Root sel = ''broot'' \<and> sel_Alias sel = TrimSpace '' home''"
proof -
  let ?P = "storePolicy demo_cid no_faults 9 :: (trust_disk, unit) Policy"
  let ?one = "roots_Select demo_cid (Some ?P) '' home'' demo_trust_disk"
  have run: "?one = Inr (projr ?one)" "sel_Root (projr ?one) = ''broot''"
    "cid_Parse demo_cid (TrimSpace '' home'') = None"
    by code_simp+
  from roots_select_accepted_only [OF demo_cid_ok demo_trust_ok demo_trust_disk_def run(1)] run
  show ?thesis by auto
qed

text \<open>An operation that counts its runs.\<close>

definition counting :: "nat \<Rightarrow> (trust_error + unit) \<times> nat" where
  "counting n = (Inr (), Suc n)"

theorem roots_fence_witness:
  "roots_CompleteIfAccepted demo_cid (Some (storePolicy demo_cid no_faults 9)) ''home'' ''broot''
     counting demo_trust_disk 0 = (True, None, 1) \<and>
   roots_CompleteIfAccepted demo_cid (Some (storePolicy demo_cid no_faults 9)) ''home'' ''bnew''
     counting demo_trust_disk 0 = (False, None, 0) \<and>
   accepted_root (trusted demo_cid demo_trust_disk) (TrimSpace ''home'') =
     canonicalCID demo_cid (cid_String demo_cid ''broot'')"
proof -
  have yes: "roots_CompleteIfAccepted demo_cid (Some (storePolicy demo_cid no_faults 9)) ''home'' ''broot''
      counting demo_trust_disk 0 = (True, None, 1)"
    and no: "roots_CompleteIfAccepted demo_cid (Some (storePolicy demo_cid no_faults 9)) ''home'' ''bnew''
      counting demo_trust_disk 0 = (False, None, 0)"
    by code_simp+
  have "unfenced demo_cid (accepted_root (trusted demo_cid demo_trust_disk)) ''home'' ''broot''"
    using roots_fence [OF demo_cid_ok demo_trust_ok demo_trust_disk_def yes [symmetric]] by (auto split: if_splits)
  then show ?thesis using yes no by (simp add: unfenced_def)
qed

end
