(* ===== verification/Cache.thy ===== *)
theory Cache
  imports CidLib Durable "HOL-Library.List_Lexorder" "HOL-Library.Char_ord"
begin

text \<open>
  The payload cache (\<open>cache/store.go\<close>): one metadata file and a directory of payload files.  Every
  operation runs under the lock, reloads and validates the metadata, removes orphaned payload files
  and then acts on the directory.
\<close>

section \<open>Data\<close>

datatype State =
    StateUnmaterializedRemote | StateVerifiedClean | StateLocalDirty | StatePendingUpload
  | StateCandidate | StateConflicted | StateOfflineOnly | StateStale | StateOther string

record Binding =
  b_DatasetID :: string
  b_Branch :: string
  b_Root :: cid
  b_Revision :: uint64
  b_CID :: cid
  b_EncryptionEpoch :: nat

record VerificationEvidence =
  ve_Profile :: string
  ve_Evidence :: bytes
  ve_VerifiedAt :: time

record Entry =
  e_Binding :: Binding
  e_State :: State
  e_Verification :: "VerificationEvidence option"
  e_BodyPresent :: bool
  e_Size :: int
  e_UpdatedAt :: time

record metadata =
  md_Version :: int
  md_Entries :: "(string, Entry) gomap"

record metadata_file =
  mf_Version :: int
  mf_Entries :: "(string, Entry) gomap option"

datatype cache_error =
    ErrMiss | ErrBindingMismatch | ErrNotVerified | ErrCorrupt | ErrInvalidState | ErrBodyTooLarge
  | CacheInvalid string | CacheIO io_step | CacheVerify string | CacheJoin cache_error cache_error

text \<open>
  The directory: the metadata file, the files of \<open>blobs/\<close> by name, and the names of the other files
  beside the metadata.
\<close>

record cache_disk =
  cd_meta :: "metadata_file content option"
  cd_blobs :: "(string, bytes) gomap"
  cd_names :: "string list"

definition empty_cache :: cache_disk where
  "empty_cache = \<lparr>cd_meta = None, cd_blobs = [], cd_names = []\<rparr>"

definition metadataVersion :: int where
  "metadataVersion = 1"

definition emptyMetadata :: metadata where
  "emptyMetadata = \<lparr>md_Version = metadataVersion, md_Entries = []\<rparr>"

definition maxIntValue :: int where
  "maxIntValue = 2 ^ 63 - 1"

section \<open>States\<close>

definition validState :: "State \<Rightarrow> bool" where
  "validState v = (case v of StateOther _ \<Rightarrow> False | _ \<Rightarrow> True)"

definition isLocalBodyState :: "State \<Rightarrow> bool" where
  "isLocalBodyState v =
     (case v of
        StateLocalDirty \<Rightarrow> True | StatePendingUpload \<Rightarrow> True | StateCandidate \<Rightarrow> True
      | StateConflicted \<Rightarrow> True | StateOfflineOnly \<Rightarrow> True | _ \<Rightarrow> False)"

definition allowedTransition :: "State \<Rightarrow> State \<Rightarrow> bool" where
  "allowedTransition current next \<longleftrightarrow>
     current = next \<or>
     (case current of
        StateVerifiedClean \<Rightarrow> next = StateStale
      | StateUnmaterializedRemote \<Rightarrow> next = StateStale
      | StateLocalDirty \<Rightarrow> next \<in> {StatePendingUpload, StateOfflineOnly, StateConflicted, StateStale}
      | StateOfflineOnly \<Rightarrow> next \<in> {StatePendingUpload, StateLocalDirty, StateConflicted, StateStale}
      | StatePendingUpload \<Rightarrow> next \<in> {StateCandidate, StateConflicted, StateStale}
      | StateCandidate \<Rightarrow>
          next \<in> {StatePendingUpload, StateLocalDirty, StateOfflineOnly, StateConflicted, StateStale}
      | StateConflicted \<Rightarrow> next \<in> {StateLocalDirty, StateOfflineOnly, StateStale}
      | _ \<Rightarrow> False)"

definition allowedPut :: "State \<Rightarrow> State \<Rightarrow> bool" where
  "allowedPut current next \<longleftrightarrow>
     current = next \<or>
     (current = StateUnmaterializedRemote \<or> current = StateStale) \<and>
     next \<in> {StateVerifiedClean, StateLocalDirty, StateOfflineOnly}"

section \<open>Normalization\<close>

definition normalizeBinding :: "cid_lib \<Rightarrow> Binding \<Rightarrow> cache_error + Binding" where
  "normalizeBinding L raw =
     (let b = raw\<lparr>b_DatasetID := TrimSpace (b_DatasetID raw), b_Branch := TrimSpace (b_Branch raw)\<rparr> in
      require (b_DatasetID b \<noteq> [] \<and> b_Branch b \<noteq> [] \<and> ValidString (b_DatasetID b) \<and>
               ValidString (b_Branch b) \<and> \<not> has_nul (b_DatasetID b) \<and> \<not> has_nul (b_Branch b))
        (CacheInvalid ''cache dataset and branch are required'') (
      require (cid_Defined (b_Root b) \<and> cid_Defined (b_CID b))
        (CacheInvalid ''cache root and payload CID are required'') (
      bindE (of_option (CacheInvalid ''cache root'') (cid_Parse L (cid_String L (b_Root b)))) (\<lambda>root.
      bindE (of_option (CacheInvalid ''cache payload CID'') (cid_Parse L (cid_String L (b_CID b)))) (\<lambda>payload.
      Inr (b\<lparr>b_Root := root, b_CID := payload\<rparr>))))))"

definition stateMetadata_ok :: "Entry \<Rightarrow> bool" where
  "stateMetadata_ok e \<longleftrightarrow>
     (case e_State e of
        StateUnmaterializedRemote \<Rightarrow> \<not> (e_BodyPresent e \<or> e_Size e \<noteq> 0 \<or> e_Verification e \<noteq> None)
      | StateVerifiedClean \<Rightarrow>
          (case e_Verification e of
             None \<Rightarrow> False
           | Some v \<Rightarrow> e_BodyPresent e \<and> ve_VerifiedAt v \<noteq> 0 \<and> TrimSpace (ve_Profile v) \<noteq> [] \<and>
               ValidString (ve_Profile v) \<and> ve_Evidence v \<noteq> [])
      | StateStale \<Rightarrow> e_Verification e = None
      | StateOther _ \<Rightarrow> True
      | _ \<Rightarrow> e_BodyPresent e \<and> e_Verification e = None)"

definition normalizeEntry :: "cid_lib \<Rightarrow> Entry \<Rightarrow> cache_error + Entry" where
  "normalizeEntry L e =
     bindE (normalizeBinding L (e_Binding e)) (\<lambda>b.
     require (validState (e_State e) \<and> e_UpdatedAt e \<noteq> 0 \<and> 0 \<le> e_Size e)
       (CacheInvalid ''invalid state metadata'') (
     require (\<not> (\<not> e_BodyPresent e \<and> e_Size e \<noteq> 0))
       (CacheInvalid ''bodyless entry has a nonzero size'') (
     require (stateMetadata_ok e) (CacheInvalid ''entry state and its metadata disagree'') (
     Inr (e\<lparr>e_Binding := b\<rparr>)))))"

fun check_entries ::
  "cid_lib \<Rightarrow> (Binding \<Rightarrow> string) \<Rightarrow> (string, Entry) gomap \<Rightarrow> cache_error + (string, Entry) gomap" where
  "check_entries L bid [] = Inr []"
| "check_entries L bid ((key, e) # rest) =
     bindE (normalizeEntry L e) (\<lambda>normalized.
     require (bid (e_Binding normalized) = key)
       (CacheInvalid ''cache entry has mismatched binding identity'') (
     bindE (check_entries L bid rest) (\<lambda>rest'. Inr ((key, normalized) # rest'))))"

definition checkMetadata ::
  "cid_lib \<Rightarrow> (Binding \<Rightarrow> string) \<Rightarrow> metadata_file \<Rightarrow> cache_error + metadata" where
  "checkMetadata L bid file =
     (case mf_Entries file of
        None \<Rightarrow> Inl (CacheInvalid ''unsupported cache metadata version'')
      | Some entries \<Rightarrow>
          require (mf_Version file = metadataVersion)
            (CacheInvalid ''unsupported cache metadata version'') (
          bindE (check_entries L bid entries) (\<lambda>entries'.
          Inr \<lparr>md_Version = mf_Version file, md_Entries = entries'\<rparr>)))"

definition encodeMetadata :: "metadata \<Rightarrow> metadata_file" where
  "encodeMetadata m = \<lparr>mf_Version = metadataVersion, mf_Entries = Some (md_Entries m)\<rparr>"

definition verifyPayloadCID :: "cid_lib \<Rightarrow> cid \<Rightarrow> bytes \<Rightarrow> cache_error + unit" where
  "verifyPayloadCID L expected body =
     (case cid_Sum L expected body of
        None \<Rightarrow> Inl (CacheInvalid ''compute cached payload CID'')
      | Some actual \<Rightarrow>
          require (actual = expected) (CacheInvalid ''payload CID mismatch'') (Inr ()))"

definition hasRelatedBinding :: "(string, Entry) gomap \<Rightarrow> Binding \<Rightarrow> bool" where
  "hasRelatedBinding entries b \<longleftrightarrow>
     list_ex (\<lambda>(key, e). b_DatasetID (e_Binding e) = b_DatasetID b \<and>
       b_Branch (e_Binding e) = b_Branch b \<and> b_CID (e_Binding e) = b_CID b) entries"

definition sameEvidence :: "VerificationEvidence \<Rightarrow> VerificationEvidence \<Rightarrow> bool" where
  "sameEvidence left right \<longleftrightarrow>
     ve_Profile left = ve_Profile right \<and> ve_VerifiedAt left = ve_VerifiedAt right \<and>
     ve_Evidence left = ve_Evidence right"

section \<open>Files\<close>

definition bodyName :: "string \<Rightarrow> string" where
  "bodyName key = key @ ''.blob''"

definition atomicSteps :: "io_step list" where
  "atomicSteps =
     [MkdirTarget, CreateTemp, SecureTemp, WriteTemp, ShortWrite, SyncTemp, CloseTemp, RenameTemp,
      SyncParent, SecureTarget]"

definition writeMetadataLocked :: "faults \<Rightarrow> metadata \<Rightarrow> cache_disk \<Rightarrow> (cache_error + unit) \<times> cache_disk" where
  "writeMetadataLocked F m disk =
     (case run_steps (Marshal # atomicSteps) F (encodeMetadata m) (cd_meta disk) of
        (None, file) \<Rightarrow> (Inr (), disk\<lparr>cd_meta := file\<rparr>)
      | (Some st, file) \<Rightarrow> (Inl (CacheIO st), disk\<lparr>cd_meta := file\<rparr>))"

definition writeBodyLocked ::
  "faults \<Rightarrow> string \<Rightarrow> bytes \<Rightarrow> cache_disk \<Rightarrow> (cache_error + unit) \<times> cache_disk" where
  "writeBodyLocked F key body disk =
     (case run_steps atomicSteps (\<lambda>st. F (OnBody st)) body None of
        (e, file) \<Rightarrow>
          (case e of None \<Rightarrow> Inr () | Some st \<Rightarrow> Inl (CacheIO (OnBody st)),
           case file of None \<Rightarrow> disk
           | Some _ \<Rightarrow> disk\<lparr>cd_blobs := gm_put (cd_blobs disk) (bodyName key) body\<rparr>))"

text \<open>Removing files in order until one removal fails.\<close>

fun remove_all :: "faults \<Rightarrow> string list \<Rightarrow> string list \<Rightarrow> io_step option \<times> string list" where
  "remove_all F [] removed = (None, removed)"
| "remove_all F (name # names) removed =
     (if F (RemoveFile name) then (Some (RemoveFile name), removed)
      else remove_all F names (name # removed))"

definition referenced :: "metadata \<Rightarrow> string list" where
  "referenced m = map (\<lambda>(key, e). bodyName key) (filter (\<lambda>(key, e). e_BodyPresent e) (md_Entries m))"

definition orphan_body :: "metadata \<Rightarrow> string \<Rightarrow> bool" where
  "orphan_body m name \<longleftrightarrow>
     name \<notin> set (referenced m) \<and> (HasSuffix name ''.blob'' \<or> HasPrefix name ''.cache-body-'')"

definition reconcileLocked :: "faults \<Rightarrow> metadata \<Rightarrow> cache_disk \<Rightarrow> (cache_error + unit) \<times> cache_disk" where
  "reconcileLocked F m disk =
     (if F ReadDir then (Inl (CacheIO ReadDir), disk)
      else
        case remove_all F (filter (orphan_body m) (map fst (cd_blobs disk))) [] of
          (e, removed) \<Rightarrow>
            let disk1 = disk\<lparr>cd_blobs := filter (\<lambda>(name, body). name \<notin> set removed) (cd_blobs disk)\<rparr> in
            (case e of
               Some st \<Rightarrow> (Inl (CacheIO st), disk1)
             | None \<Rightarrow>
                 if F ReadRootDir then (Inl (CacheIO ReadRootDir), disk1)
                 else
                 (case remove_all F (filter (\<lambda>name. HasPrefix name ''.cache-metadata-'') (cd_names disk1)) [] of
                    (e', removed') \<Rightarrow>
                      let disk2 = disk1\<lparr>cd_names := filter (\<lambda>name. name \<notin> set removed') (cd_names disk1)\<rparr> in
                      (case e' of Some st \<Rightarrow> (Inl (CacheIO st), disk2) | None \<Rightarrow> (Inr (), disk2)))))"

definition cache_reloadLocked ::
  "cid_lib \<Rightarrow> (Binding \<Rightarrow> string) \<Rightarrow> faults \<Rightarrow> cache_disk \<Rightarrow> (cache_error + metadata) \<times> cache_disk" where
  "cache_reloadLocked L bid F disk =
     (case reload_with F CacheIO (CacheInvalid ''decode cache metadata'') emptyMetadata
             (checkMetadata L bid) (cd_meta disk) of
        Inl e \<Rightarrow> (Inl e, disk)
      | Inr m \<Rightarrow>
          (case reconcileLocked F m disk of
             (Inl e, disk1) \<Rightarrow> (Inl e, disk1)
           | (Inr _, disk1) \<Rightarrow> (Inr m, disk1)))"

text \<open>
  \<open>withState\<close>: the operation gets the loaded metadata and the directory, and returns its result with
  the metadata to keep in memory; that metadata is written at the end when \<open>write\<close> is set.
\<close>

type_synonym 'r cache_op = "metadata \<Rightarrow> cache_disk \<Rightarrow> (cache_error + ('r \<times> metadata)) \<times> cache_disk"

definition cache_withState ::
  "cid_lib \<Rightarrow> (Binding \<Rightarrow> string) \<Rightarrow> faults \<Rightarrow> bool \<Rightarrow> 'r cache_op \<Rightarrow> cache_disk
    \<Rightarrow> (cache_error + 'r) \<times> cache_disk" where
  "cache_withState L bid F write operation disk =
     (if F MkdirAll then (Inl (CacheIO MkdirAll), disk)
      else if F AcquireLock then (Inl (CacheIO AcquireLock), disk)
      else
        case cache_reloadLocked L bid F disk of
          (Inl e, disk1) \<Rightarrow> (Inl e, disk1)
        | (Inr m, disk1) \<Rightarrow>
            (case operation m disk1 of
               (Inl e, disk2) \<Rightarrow> (Inl e, disk2)
             | (Inr (r, m'), disk2) \<Rightarrow>
                 if write
                 then (case writeMetadataLocked F m' disk2 of
                         (Inl e, disk3) \<Rightarrow> (Inl e, disk3) | (Inr _, disk3) \<Rightarrow> (Inr r, disk3))
                 else (Inr r, disk2)))"

end
