(* ===== verification/CacheOps.thy ===== *)
theory CacheOps
  imports Cache
begin

text \<open>
  The operations of the payload cache: recording, staging, verified and local reads, state
  transitions, reconciliation and removal.
\<close>

section \<open>Streams and ranges\<close>

text \<open>
  \<open>verifyLocalStream\<close> reads at most \<open>size\<close> bytes, hashes them, and then expects the end of the file.
\<close>

definition verifyLocalStream :: "cid_lib \<Rightarrow> bytes \<Rightarrow> cid \<Rightarrow> int \<Rightarrow> cache_error + unit" where
  "verifyLocalStream L file payload sz =
     (let data = take (nat sz) file in
      case mh_SumStream L payload data of
        None \<Rightarrow> Inl (CacheJoin ErrCorrupt (CacheInvalid ''stream digest''))
      | Some digest \<Rightarrow>
          require (int (length data) = sz \<and> digest = cid_Hash L payload) ErrCorrupt (
          require (drop (nat sz) file = []) ErrCorrupt (Inr ())))"

definition u64 :: "nat \<Rightarrow> nat" where
  "u64 n = n mod 2 ^ 64"

text \<open>\<open>rangeCapture\<close>: the writer behind the tee that keeps one range of the stream.\<close>

record rangeCapture =
  rc_offset :: uint64
  rc_seen :: uint64
  rc_body :: bytes
  rc_copied :: nat

definition copy_into :: "bytes \<Rightarrow> nat \<Rightarrow> bytes \<Rightarrow> bytes \<times> nat" where
  "copy_into body destination source =
     (let n = min (length body - destination) (length source)
      in (take destination body @ take n source @ drop (destination + n) body, n))"

definition rangeCapture_Write :: "rangeCapture \<Rightarrow> bytes \<Rightarrow> rangeCapture" where
  "rangeCapture_Write w chunk =
     (let start = rc_seen w; stop = u64 (start + length chunk); w = w\<lparr>rc_seen := stop\<rparr>;
          wantedEnd = u64 (rc_offset w + length (rc_body w)) in
      if stop \<le> rc_offset w \<or> wantedEnd \<le> start then w
      else
        let copyStart = max start (rc_offset w); copyEnd = min stop wantedEnd;
            sourceStart = copyStart - start; sourceEnd = copyEnd - start;
            destination = copyStart - rc_offset w;
            (body', n) = copy_into (rc_body w) destination (take (sourceEnd - sourceStart) (drop sourceStart chunk))
        in w\<lparr>rc_body := body', rc_copied := rc_copied w + n\<rparr>)"

definition wantedBytes :: "uint64 \<Rightarrow> uint64 \<Rightarrow> nat \<Rightarrow> nat" where
  "wantedBytes offset len sz =
     (if len \<noteq> 0 \<and> offset < sz
      then let stop = u64 (offset + len) in
           (if stop < offset \<or> sz < stop then sz else stop) - offset
      else 0)"

section \<open>Opening a local body\<close>

definition openBoundedLocalBodyLocked ::
  "faults \<Rightarrow> string \<Rightarrow> Entry \<Rightarrow> uint64 \<Rightarrow> cache_disk \<Rightarrow> cache_error + bytes" where
  "openBoundedLocalBodyLocked F key e maxBytes disk =
     require (isLocalBodyState (e_State e) \<and> e_BodyPresent e \<and> 0 \<le> e_Size e) ErrInvalidState (
     require (\<not> (nat (e_Size e) > maxBytes \<or> e_Size e > maxIntValue)) ErrBodyTooLarge (
     if F ReadBody then Inl (CacheJoin ErrCorrupt (CacheIO ReadBody))
     else
       case gm_get (cd_blobs disk) (bodyName key) of
         None \<Rightarrow> Inl (CacheJoin ErrCorrupt (CacheInvalid ''file does not exist''))
       | Some file \<Rightarrow> require (int (length file) = e_Size e) ErrCorrupt (Inr file)))"

section \<open>Operations on the loaded metadata\<close>

definition put_entry :: "metadata \<Rightarrow> string \<Rightarrow> Entry \<Rightarrow> metadata" where
  "put_entry m key e = m\<lparr>md_Entries := gm_put (md_Entries m) key e\<rparr>"

text \<open>An operation that only looks at the metadata and the directory.\<close>

definition looking :: "(metadata \<Rightarrow> cache_disk \<Rightarrow> cache_error + 'r) \<Rightarrow> 'r cache_op" where
  "looking f m disk = (case f m disk of Inl e \<Rightarrow> Inl e | Inr r \<Rightarrow> Inr (r, m), disk)"

text \<open>An operation that changes the metadata in memory, written by \<open>withState\<close>.\<close>

definition changing :: "(metadata \<Rightarrow> cache_error + ('r \<times> metadata)) \<Rightarrow> 'r cache_op" where
  "changing f m disk = (f m, disk)"

definition recordRemoteLocked ::
  "(Binding \<Rightarrow> string) \<Rightarrow> Binding \<Rightarrow> time \<Rightarrow> metadata \<Rightarrow> cache_error + (Entry \<times> metadata)" where
  "recordRemoteLocked bid b now m =
     (case gm_get (md_Entries m) (bid b) of
        Some existing \<Rightarrow> Inr (existing, m)
      | None \<Rightarrow>
          let e = \<lparr>e_Binding = b, e_State = StateUnmaterializedRemote, e_Verification = None,
                e_BodyPresent = False, e_Size = 0, e_UpdatedAt = now\<rparr>
          in Inr (e, put_entry m (bid b) e))"

definition putBodyLocked ::
  "(Binding \<Rightarrow> string) \<Rightarrow> faults \<Rightarrow> Entry \<Rightarrow> bytes \<Rightarrow> unit cache_op" where
  "putBodyLocked bid F e body m disk =
     (let key = bid (e_Binding e); existing = gm_get (md_Entries m) key in
      if (case existing of None \<Rightarrow> False | Some x \<Rightarrow> \<not> allowedPut (e_State x) (e_State e))
      then (Inl ErrInvalidState, disk)
      else
        case writeBodyLocked F key body disk of
          (Inl err, disk1) \<Rightarrow> (Inl err, disk1)
        | (Inr _, disk1) \<Rightarrow>
            let m' = put_entry m key e in
            (case writeMetadataLocked F m' disk1 of
               (Inr _, disk2) \<Rightarrow> (Inr ((), m'), disk2)
             | (Inl err, disk2) \<Rightarrow>
                 if (case existing of None \<Rightarrow> True | Some x \<Rightarrow> \<not> e_BodyPresent x)
                 then if F (RemoveFile (bodyName key))
                      then (Inl (CacheJoin err (CacheIO (RemoveFile (bodyName key)))), disk2)
                      else (Inl err, disk2\<lparr>cd_blobs := gm_del (cd_blobs disk2) (bodyName key)\<rparr>)
                 else (Inl err, disk2)))"

definition markCorruptLocked ::
  "faults \<Rightarrow> time \<Rightarrow> string \<Rightarrow> Entry \<Rightarrow> cache_error \<Rightarrow> 'r cache_op" where
  "markCorruptLocked F now key e cause m disk =
     (let m' = put_entry m key (e\<lparr>e_State := StateStale, e_Verification := None, e_UpdatedAt := now\<rparr>) in
      case writeMetadataLocked F m' disk of
        (Inl err, disk1) \<Rightarrow> (Inl (CacheJoin cause err), disk1)
      | (Inr _, disk1) \<Rightarrow> (Inl cause, disk1))"

definition readVerifiedLocked ::
  "cid_lib \<Rightarrow> (Binding \<Rightarrow> string) \<Rightarrow> faults \<Rightarrow> time \<Rightarrow> Binding \<Rightarrow> (bytes \<times> Entry) cache_op" where
  "readVerifiedLocked L bid F now b m disk =
     (case gm_get (md_Entries m) (bid b) of
        None \<Rightarrow>
          (if hasRelatedBinding (md_Entries m) b then Inl ErrBindingMismatch else Inl ErrMiss, disk)
      | Some e \<Rightarrow>
          if e_State e \<noteq> StateVerifiedClean \<or> e_Verification e = None then (Inl ErrNotVerified, disk)
          else if \<not> e_BodyPresent e then markCorruptLocked F now (bid b) e ErrCorrupt m disk
          else if F ReadBody
          then markCorruptLocked F now (bid b) e (CacheJoin ErrCorrupt (CacheIO ReadBody)) m disk
          else
            case gm_get (cd_blobs disk) (bodyName (bid b)) of
              None \<Rightarrow> markCorruptLocked F now (bid b) e
                (CacheJoin ErrCorrupt (CacheInvalid ''file does not exist'')) m disk
            | Some body \<Rightarrow>
                if int (length body) \<noteq> e_Size e then markCorruptLocked F now (bid b) e ErrCorrupt m disk
                else
                  (case verifyPayloadCID L (b_CID b) body of
                     Inl err \<Rightarrow> markCorruptLocked F now (bid b) e (CacheJoin ErrCorrupt err) m disk
                   | Inr _ \<Rightarrow> (Inr ((body, e), m), disk)))"

definition invalidateLocked ::
  "(Binding \<Rightarrow> string) \<Rightarrow> Binding \<Rightarrow> VerificationEvidence \<Rightarrow> time \<Rightarrow> metadata
    \<Rightarrow> cache_error + (unit \<times> metadata)" where
  "invalidateLocked bid b rejected now m =
     (case gm_get (md_Entries m) (bid b) of
        None \<Rightarrow> Inl ErrMiss
      | Some e \<Rightarrow>
          if (case e_Verification e of None \<Rightarrow> True | Some v \<Rightarrow> \<not> sameEvidence v rejected) then Inr ((), m)
          else Inr ((), put_entry m (bid b)
                 (e\<lparr>e_State := StateStale, e_Verification := None, e_UpdatedAt := now\<rparr>)))"

definition readLocalLocked ::
  "cid_lib \<Rightarrow> (Binding \<Rightarrow> string) \<Rightarrow> faults \<Rightarrow> Binding \<Rightarrow> uint64 \<Rightarrow> metadata \<Rightarrow> cache_disk
    \<Rightarrow> cache_error + (bytes \<times> Entry)" where
  "readLocalLocked L bid F b maxBytes m disk =
     bindE (of_option ErrMiss (gm_get (md_Entries m) (bid b))) (\<lambda>e.
     require (\<not> (e_State e = StateVerifiedClean \<or> e_State e = StateUnmaterializedRemote \<or>
                 e_State e = StateStale \<or> \<not> e_BodyPresent e)) ErrInvalidState (
     bindE (openBoundedLocalBodyLocked F (bid b) e maxBytes disk) (\<lambda>file.
     require (nat (e_Size e) \<le> length file) (CacheJoin ErrCorrupt (CacheInvalid ''unexpected EOF'')) (
     require (drop (nat (e_Size e)) file = []) ErrCorrupt (
     bindE (case verifyPayloadCID L (b_CID b) (take (nat (e_Size e)) file) of
              Inl err \<Rightarrow> Inl (CacheJoin ErrCorrupt err) | Inr u \<Rightarrow> Inr u) (\<lambda>_.
     Inr (take (nat (e_Size e)) file, e)))))))"

definition verifyLocalLocked ::
  "cid_lib \<Rightarrow> (Binding \<Rightarrow> string) \<Rightarrow> faults \<Rightarrow> Binding \<Rightarrow> uint64 \<Rightarrow> metadata \<Rightarrow> cache_disk
    \<Rightarrow> cache_error + Entry" where
  "verifyLocalLocked L bid F b maxBytes m disk =
     bindE (of_option ErrMiss (gm_get (md_Entries m) (bid b))) (\<lambda>e.
     bindE (openBoundedLocalBodyLocked F (bid b) e maxBytes disk) (\<lambda>file.
     bindE (verifyLocalStream L file (b_CID (e_Binding e)) (e_Size e)) (\<lambda>_. Inr e)))"

text \<open>\<open>split\<close> is how the reads of the hash partition the stream.\<close>

definition readRangeLocked ::
  "cid_lib \<Rightarrow> (Binding \<Rightarrow> string) \<Rightarrow> (bytes \<Rightarrow> bytes list) \<Rightarrow> faults \<Rightarrow> Binding \<Rightarrow> uint64 \<Rightarrow> uint64 \<Rightarrow> uint64
    \<Rightarrow> metadata \<Rightarrow> cache_disk \<Rightarrow> cache_error + (bytes \<times> Entry)" where
  "readRangeLocked L bid split F b offset len maxBytes m disk =
     bindE (of_option ErrMiss (gm_get (md_Entries m) (bid b))) (\<lambda>e.
     bindE (openBoundedLocalBodyLocked F (bid b) e maxBytes disk) (\<lambda>file.
     let wanted = wantedBytes offset len (nat (e_Size e)) in
     require (\<not> (int wanted > maxIntValue)) ErrBodyTooLarge (
     bindE (verifyLocalStream L file (b_CID (e_Binding e)) (e_Size e)) (\<lambda>_.
     let capture = foldl rangeCapture_Write
           \<lparr>rc_offset = offset, rc_seen = 0, rc_body = replicate wanted (CHR 0x00), rc_copied = 0\<rparr>
           (split (take (nat (e_Size e)) file)) in
     require (rc_copied capture = wanted) ErrCorrupt (Inr (rc_body capture, e))))))"

definition transitionEntryLocked ::
  "(Binding \<Rightarrow> string) \<Rightarrow> Binding \<Rightarrow> State \<Rightarrow> time \<Rightarrow> metadata \<Rightarrow> cache_error + (Entry \<times> metadata)" where
  "transitionEntryLocked bid b next now m =
     (case gm_get (md_Entries m) (bid b) of
        None \<Rightarrow> Inl ErrMiss
      | Some e \<Rightarrow>
          if \<not> allowedTransition (e_State e) next then Inl ErrInvalidState
          else let e' = e\<lparr>e_State := next, e_UpdatedAt := now,
                 e_Verification := (if next \<noteq> StateVerifiedClean then None else e_Verification e)\<rparr>
               in Inr (e', put_entry m (bid b) e'))"

definition reconcileStateLocked ::
  "cid_lib \<Rightarrow> (Binding \<Rightarrow> string) \<Rightarrow> faults \<Rightarrow> Binding \<Rightarrow> State \<Rightarrow> uint64 \<Rightarrow> time \<Rightarrow> Entry cache_op" where
  "reconcileStateLocked L bid F b next maxBytes now m disk =
     (case bindE (of_option ErrMiss (gm_get (md_Entries m) (bid b))) (\<lambda>e.
             require (isLocalBodyState (e_State e) \<and> e_BodyPresent e) ErrInvalidState (
             bindE (openBoundedLocalBodyLocked F (bid b) e maxBytes disk) (\<lambda>file.
             bindE (verifyLocalStream L file (b_CID (e_Binding e)) (e_Size e)) (\<lambda>_. Inr e)))) of
        Inl err \<Rightarrow> (Inl err, disk)
      | Inr e \<Rightarrow>
          let e' = e\<lparr>e_State := next, e_Verification := None, e_UpdatedAt := now\<rparr>;
              m' = put_entry m (bid b) e' in
          (case writeMetadataLocked F m' disk of
             (Inl err, disk1) \<Rightarrow> (Inl err, disk1)
           | (Inr _, disk1) \<Rightarrow> (Inr (e', m'), disk1)))"

definition removeLocked :: "faults \<Rightarrow> string \<Rightarrow> unit cache_op" where
  "removeLocked F key m disk =
     (if gm_get (md_Entries m) key = None then (Inl ErrMiss, disk)
      else if F (RemoveFile (bodyName key)) then (Inl (CacheIO (RemoveFile (bodyName key))), disk)
      else
        let disk1 = disk\<lparr>cd_blobs := gm_del (cd_blobs disk) (bodyName key)\<rparr>;
            m' = m\<lparr>md_Entries := gm_del (md_Entries m) key\<rparr> in
        (case writeMetadataLocked F m' disk1 of
           (Inl err, disk2) \<Rightarrow> (Inl err, disk2)
         | (Inr _, disk2) \<Rightarrow> (Inr ((), m'), disk2)))"

section \<open>The store\<close>

definition with_binding ::
  "cid_lib \<Rightarrow> Binding \<Rightarrow> (Binding \<Rightarrow> cache_disk \<Rightarrow> (cache_error + 'r) \<times> cache_disk) \<Rightarrow> cache_disk
    \<Rightarrow> (cache_error + 'r) \<times> cache_disk" where
  "with_binding L b k disk =
     (case normalizeBinding L b of Inl e \<Rightarrow> (Inl e, disk) | Inr b' \<Rightarrow> k b' disk)"

definition cache_Open ::
  "cid_lib \<Rightarrow> (Binding \<Rightarrow> string) \<Rightarrow> faults \<Rightarrow> string \<Rightarrow> cache_disk \<Rightarrow> (cache_error + unit) \<times> cache_disk" where
  "cache_Open L bid F directory disk =
     (if TrimSpace directory = [] then (Inl (CacheInvalid ''cache directory is empty''), disk)
      else cache_withState L bid F False (looking (\<lambda>_ _. Inr ())) disk)"

definition cache_RecordRemote ::
  "cid_lib \<Rightarrow> (Binding \<Rightarrow> string) \<Rightarrow> faults \<Rightarrow> time \<Rightarrow> Binding \<Rightarrow> cache_disk
    \<Rightarrow> (cache_error + Entry) \<times> cache_disk" where
  "cache_RecordRemote L bid F now b =
     with_binding L b (\<lambda>b. cache_withState L bid F True (changing (recordRemoteLocked bid b now)))"

text \<open>\<open>Put\<close> operations return the entry they built once \<open>putWithBody\<close> succeeds.\<close>

definition putWithBody ::
  "cid_lib \<Rightarrow> (Binding \<Rightarrow> string) \<Rightarrow> faults \<Rightarrow> Entry \<Rightarrow> bytes \<Rightarrow> cache_disk
    \<Rightarrow> (cache_error + Entry) \<times> cache_disk" where
  "putWithBody L bid F e body disk =
     (case cache_withState L bid F False (putBodyLocked bid F e body) disk of
        (Inl err, disk') \<Rightarrow> (Inl err, disk') | (Inr _, disk') \<Rightarrow> (Inr e, disk'))"

definition cache_PutVerified ::
  "cid_lib \<Rightarrow> (Binding \<Rightarrow> string) \<Rightarrow> faults \<Rightarrow> time \<Rightarrow> Binding \<Rightarrow> bytes \<Rightarrow> VerificationEvidence \<Rightarrow> cache_disk
    \<Rightarrow> (cache_error + Entry) \<times> cache_disk" where
  "cache_PutVerified L bid F now b body evidence =
     with_binding L b (\<lambda>b disk.
       let ev = evidence\<lparr>ve_Profile := TrimSpace (ve_Profile evidence)\<rparr> in
       if ve_Profile ev = [] \<or> \<not> ValidString (ve_Profile ev) \<or> ve_Evidence ev = [] \<or> ve_VerifiedAt ev = 0
       then (Inl (CacheInvalid ''verified cache evidence is incomplete''), disk)
       else
         case verifyPayloadCID L (b_CID b) body of
           Inl err \<Rightarrow> (Inl err, disk)
         | Inr _ \<Rightarrow>
             putWithBody L bid F
               \<lparr>e_Binding = b, e_State = StateVerifiedClean, e_Verification = Some ev,
                e_BodyPresent = True, e_Size = int (length body), e_UpdatedAt = now\<rparr> body disk)"

definition cache_PutLocal ::
  "cid_lib \<Rightarrow> (Binding \<Rightarrow> string) \<Rightarrow> faults \<Rightarrow> time \<Rightarrow> Binding \<Rightarrow> bytes \<Rightarrow> State \<Rightarrow> cache_disk
    \<Rightarrow> (cache_error + Entry) \<times> cache_disk" where
  "cache_PutLocal L bid F now b body state =
     with_binding L b (\<lambda>b disk.
       if state \<noteq> StateLocalDirty \<and> state \<noteq> StateOfflineOnly then (Inl ErrInvalidState, disk)
       else
         case verifyPayloadCID L (b_CID b) body of
           Inl err \<Rightarrow> (Inl err, disk)
         | Inr _ \<Rightarrow>
             putWithBody L bid F
               \<lparr>e_Binding = b, e_State = state, e_Verification = None,
                e_BodyPresent = True, e_Size = int (length body), e_UpdatedAt = now\<rparr> body disk)"

text \<open>
  \<open>ReadVerified\<close> has two locked phases: loading (under the faults \<open>F\<close>), and, after the verifier
  rejected the evidence, invalidating it (under \<open>F2\<close>).  \<open>verify\<close> is the caller's proof verifier.
\<close>

definition cache_invalidate ::
  "cid_lib \<Rightarrow> (Binding \<Rightarrow> string) \<Rightarrow> faults \<Rightarrow> time \<Rightarrow> Binding \<Rightarrow> VerificationEvidence \<Rightarrow> cache_disk
    \<Rightarrow> (cache_error + unit) \<times> cache_disk" where
  "cache_invalidate L bid F now b rejected =
     cache_withState L bid F True (changing (invalidateLocked bid b rejected now))"

definition cache_ReadVerified ::
  "cid_lib \<Rightarrow> (Binding \<Rightarrow> string) \<Rightarrow> (Binding \<Rightarrow> VerificationEvidence \<Rightarrow> string option) \<Rightarrow> faults \<Rightarrow> faults
    \<Rightarrow> time \<Rightarrow> Binding \<Rightarrow> cache_disk \<Rightarrow> (cache_error + (bytes \<times> Entry)) \<times> cache_disk" where
  "cache_ReadVerified L bid verify F F2 now b =
     with_binding L b (\<lambda>b disk.
       case cache_withState L bid F False (readVerifiedLocked L bid F now b) disk of
         (Inl err, disk1) \<Rightarrow> (Inl err, disk1)
       | (Inr (body, e), disk1) \<Rightarrow>
           (case e_Verification e of
              None \<Rightarrow> (Inl ErrNotVerified, disk1)
            | Some ev \<Rightarrow>
                (case verify b ev of
                   None \<Rightarrow> (Inr (body, e), disk1)
                 | Some msg \<Rightarrow>
                     (case cache_invalidate L bid F2 now b ev disk1 of
                        (Inl err, disk2) \<Rightarrow> (Inl (CacheJoin (CacheVerify msg) err), disk2)
                      | (Inr _, disk2) \<Rightarrow> (Inl (CacheVerify msg), disk2)))))"

definition cache_ReadLocalBounded ::
  "cid_lib \<Rightarrow> (Binding \<Rightarrow> string) \<Rightarrow> faults \<Rightarrow> Binding \<Rightarrow> uint64 \<Rightarrow> cache_disk
    \<Rightarrow> (cache_error + (bytes \<times> Entry)) \<times> cache_disk" where
  "cache_ReadLocalBounded L bid F b maxBytes =
     with_binding L b (\<lambda>b. cache_withState L bid F False (looking (readLocalLocked L bid F b maxBytes)))"

definition cache_ReadLocal ::
  "cid_lib \<Rightarrow> (Binding \<Rightarrow> string) \<Rightarrow> faults \<Rightarrow> Binding \<Rightarrow> cache_disk
    \<Rightarrow> (cache_error + (bytes \<times> Entry)) \<times> cache_disk" where
  "cache_ReadLocal L bid F b = cache_ReadLocalBounded L bid F b (2 ^ 63 - 1)"

definition cache_VerifyLocal ::
  "cid_lib \<Rightarrow> (Binding \<Rightarrow> string) \<Rightarrow> faults \<Rightarrow> Binding \<Rightarrow> uint64 \<Rightarrow> cache_disk
    \<Rightarrow> (cache_error + Entry) \<times> cache_disk" where
  "cache_VerifyLocal L bid F b maxBytes =
     with_binding L b (\<lambda>b. cache_withState L bid F False (looking (verifyLocalLocked L bid F b maxBytes)))"

definition cache_ReadLocalRange ::
  "cid_lib \<Rightarrow> (Binding \<Rightarrow> string) \<Rightarrow> (bytes \<Rightarrow> bytes list) \<Rightarrow> faults \<Rightarrow> Binding \<Rightarrow> uint64 \<Rightarrow> uint64 \<Rightarrow> uint64
    \<Rightarrow> cache_disk \<Rightarrow> (cache_error + (bytes \<times> Entry)) \<times> cache_disk" where
  "cache_ReadLocalRange L bid split F b offset len maxBytes =
     with_binding L b (\<lambda>b. cache_withState L bid F False
       (looking (readRangeLocked L bid split F b offset len maxBytes)))"

definition cache_Transition ::
  "cid_lib \<Rightarrow> (Binding \<Rightarrow> string) \<Rightarrow> faults \<Rightarrow> time \<Rightarrow> Binding \<Rightarrow> State \<Rightarrow> cache_disk
    \<Rightarrow> (cache_error + Entry) \<times> cache_disk" where
  "cache_Transition L bid F now b next =
     with_binding L b (\<lambda>b. cache_withState L bid F True (changing (transitionEntryLocked bid b next now)))"

definition cache_ReconcileLocalStateBounded ::
  "cid_lib \<Rightarrow> (Binding \<Rightarrow> string) \<Rightarrow> faults \<Rightarrow> time \<Rightarrow> Binding \<Rightarrow> State \<Rightarrow> uint64 \<Rightarrow> cache_disk
    \<Rightarrow> (cache_error + Entry) \<times> cache_disk" where
  "cache_ReconcileLocalStateBounded L bid F now b next maxBytes =
     with_binding L b (\<lambda>b disk.
       if \<not> isLocalBodyState next then (Inl ErrInvalidState, disk)
       else cache_withState L bid F False (reconcileStateLocked L bid F b next maxBytes now) disk)"

definition cache_ReconcileLocalState ::
  "cid_lib \<Rightarrow> (Binding \<Rightarrow> string) \<Rightarrow> faults \<Rightarrow> time \<Rightarrow> Binding \<Rightarrow> State \<Rightarrow> cache_disk
    \<Rightarrow> (cache_error + Entry) \<times> cache_disk" where
  "cache_ReconcileLocalState L bid F now b next =
     cache_ReconcileLocalStateBounded L bid F now b next (2 ^ 63 - 1)"

definition cache_Inspect ::
  "cid_lib \<Rightarrow> (Binding \<Rightarrow> string) \<Rightarrow> faults \<Rightarrow> Binding \<Rightarrow> cache_disk \<Rightarrow> (cache_error + Entry) \<times> cache_disk" where
  "cache_Inspect L bid F b =
     with_binding L b (\<lambda>b. cache_withState L bid F False
       (looking (\<lambda>m _. of_option ErrMiss (gm_get (md_Entries m) (bid b)))))"

definition cache_List ::
  "cid_lib \<Rightarrow> (Binding \<Rightarrow> string) \<Rightarrow> faults \<Rightarrow> cache_disk \<Rightarrow> (cache_error + Entry list) \<times> cache_disk" where
  "cache_List L bid F =
     cache_withState L bid F False
       (looking (\<lambda>m _. Inr (sort_key (\<lambda>e. bid (e_Binding e)) (map snd (md_Entries m)))))"

definition cache_Remove ::
  "cid_lib \<Rightarrow> (Binding \<Rightarrow> string) \<Rightarrow> faults \<Rightarrow> Binding \<Rightarrow> cache_disk \<Rightarrow> (cache_error + unit) \<times> cache_disk" where
  "cache_Remove L bid F b =
     with_binding L b (\<lambda>b. cache_withState L bid F False (removeLocked F (bid b)))"

end
