(* ===== verification/CacheInv.thy ===== *)
theory CacheInv
  imports CacheOps
begin

text \<open>
  Soundness of the cache directory: the metadata file decodes to well-formed entries filed under
  their own identity.  The theory decomposes a locked call into the sweep of orphaned files, the
  operation and the metadata write.
\<close>

section \<open>Well-formed metadata\<close>

definition entry_ok :: "cid_lib \<Rightarrow> (Binding \<Rightarrow> string) \<Rightarrow> string \<Rightarrow> Entry \<Rightarrow> bool" where
  "entry_ok L bid key e \<longleftrightarrow> normalizeEntry L e = Inr e \<and> bid (e_Binding e) = key"

definition metadata_ok :: "cid_lib \<Rightarrow> (Binding \<Rightarrow> string) \<Rightarrow> metadata \<Rightarrow> bool" where
  "metadata_ok L bid m \<longleftrightarrow>
     md_Version m = metadataVersion \<and> gm_wf (md_Entries m) \<and>
     list_all (\<lambda>(key, e). entry_ok L bid key e) (md_Entries m)"

lemma check_entries_ok:
  "list_all (\<lambda>(key, e). entry_ok L bid key e) entries \<Longrightarrow> check_entries L bid entries = Inr entries"
  by (induction entries) (auto simp: entry_ok_def)

lemma checkMetadata_encode: "metadata_ok L bid m \<Longrightarrow> checkMetadata L bid (encodeMetadata m) = Inr m"
  by (cases m) (simp add: metadata_ok_def checkMetadata_def encodeMetadata_def check_entries_ok)

lemma check_entries_get:
  "check_entries L bid raw = Inr entries \<Longrightarrow> gm_get entries key = Some e \<Longrightarrow>
     bid (e_Binding e) = key \<and> (\<exists>x. gm_get raw key = Some x \<and> normalizeEntry L x = Inr e)"
  by (induction raw arbitrary: entries) (auto simp: result_simps split: if_splits)

lemma metadata_ok_empty: "metadata_ok L bid emptyMetadata"
  by (simp add: metadata_ok_def emptyMetadata_def)

lemma metadata_ok_get: "metadata_ok L bid m \<Longrightarrow> gm_get (md_Entries m) key = Some e \<Longrightarrow> entry_ok L bid key e"
  by (auto simp: metadata_ok_def list_all_iff dest: map_of_SomeD)

lemma metadata_ok_put:
  "metadata_ok L bid m \<Longrightarrow> entry_ok L bid key e \<Longrightarrow> metadata_ok L bid (put_entry m key e)"
  by (auto simp: metadata_ok_def put_entry_def list_all_iff gm_set_put)

lemma metadata_ok_del:
  "metadata_ok L bid m \<Longrightarrow> metadata_ok L bid (m\<lparr>md_Entries := gm_del (md_Entries m) key\<rparr>)"
  using delete_keys [of key "md_Entries m"]
  by (auto simp: metadata_ok_def list_all_iff AList.delete_eq)

interpretation cache_meta: durable_store "Marshal # atomicSteps" CacheIO
    "CacheInvalid ''decode cache metadata''" emptyMetadata "checkMetadata L bid" encodeMetadata
    "metadata_ok L bid" for L bid
  by unfold_locales (simp_all add: atomicSteps_def metadata_ok_empty checkMetadata_encode)

section \<open>Normal bindings\<close>

lemma normalizeBinding_idem:
  assumes "cid_lib_ok L" and "normalizeBinding L raw = Inr b"
  shows "normalizeBinding L b = Inr b"
  using assms
  by (auto simp: normalizeBinding_def Let_def result_simps cid_lib_ok_def)

lemma entry_ok_intro:
  assumes "normalizeBinding L b = Inr b" and "e_Binding e = b" and "validState (e_State e)"
    and "e_UpdatedAt e \<noteq> 0" and "0 \<le> e_Size e" and "e_BodyPresent e \<or> e_Size e = 0" and "stateMetadata_ok e"
  shows "entry_ok L bid (bid b) e"
  using assms by (auto simp: entry_ok_def normalizeEntry_def require_def)

lemma entry_ok_dest:
  assumes "entry_ok L bid key e"
  shows "normalizeBinding L (e_Binding e) = Inr (e_Binding e)" and "validState (e_State e)"
    and "e_UpdatedAt e \<noteq> 0" and "0 \<le> e_Size e" and "e_BodyPresent e \<or> e_Size e = 0"
    and "stateMetadata_ok e" and "bid (e_Binding e) = key"
  using assms by (cases e; auto simp: entry_ok_def normalizeEntry_def result_simps)+

section \<open>Sound directories\<close>

definition cache_ok :: "cid_lib \<Rightarrow> (Binding \<Rightarrow> string) \<Rightarrow> cache_disk \<Rightarrow> bool" where
  "cache_ok L bid disk \<longleftrightarrow> disk_ok encodeMetadata (metadata_ok L bid) (cd_meta disk)"

definition cache_loaded :: "cid_lib \<Rightarrow> (Binding \<Rightarrow> string) \<Rightarrow> cache_disk \<Rightarrow> metadata" where
  "cache_loaded L bid disk = loaded emptyMetadata (checkMetadata L bid) (cd_meta disk)"

lemma cache_loaded_ok: "cache_ok L bid disk \<Longrightarrow> metadata_ok L bid (cache_loaded L bid disk)"
  unfolding cache_ok_def cache_loaded_def by (rule cache_meta.loaded_invar)

lemma cache_ok_empty: "cache_ok L bid empty_cache"
  by (simp add: cache_ok_def disk_ok_def empty_cache_def)

abbreviation with_meta :: "cache_disk \<Rightarrow> metadata \<Rightarrow> cache_disk" where
  "with_meta disk m \<equiv> disk\<lparr>cd_meta := Some (Decoded (encodeMetadata m))\<rparr>"

lemma cache_ok_with_meta: "metadata_ok L bid m \<Longrightarrow> cache_ok L bid (with_meta disk m)"
  by (auto simp: cache_ok_def disk_ok_def)

lemma cache_loaded_with_meta: "metadata_ok L bid m \<Longrightarrow> cache_loaded L bid (with_meta disk m) = m"
  by (simp add: cache_loaded_def loaded_def checkMetadata_encode)

lemma cache_ok_meta_cong: "cd_meta d = cd_meta d' \<Longrightarrow> cache_ok L bid d = cache_ok L bid d'"
  by (simp add: cache_ok_def)

lemma cache_loaded_meta_cong: "cd_meta d = cd_meta d' \<Longrightarrow> cache_loaded L bid d = cache_loaded L bid d'"
  by (simp add: cache_loaded_def)

section \<open>Writes\<close>

lemma writeMetadataLocked_cases:
  assumes "writeMetadataLocked F m d = (r, d')"
  obtains (kept) err where "r = Inl err" "d' = d" | (committed) "d' = with_meta d m"
proof -
  obtain e f where run: "run_steps (Marshal # atomicSteps) F (encodeMetadata m) (cd_meta d) = (e, f)"
    by (cases "run_steps (Marshal # atomicSteps) F (encodeMetadata m) (cd_meta d)")
  have f: "f = cd_meta d \<or> f = Some (Decoded (encodeMetadata m))"
    using run_steps_disk [of "Marshal # atomicSteps" F "encodeMetadata m" "cd_meta d"] run by simp
  have "e = None \<Longrightarrow> f = Some (Decoded (encodeMetadata m))"
    using run_steps_ok [of "Marshal # atomicSteps" F "encodeMetadata m" "cd_meta d"] run
    by (simp add: atomicSteps_def)
  then show ?thesis
    using f assms run kept committed by (cases e) (auto simp: writeMetadataLocked_def)
qed

lemma writeMetadataLocked_ok:
  assumes "writeMetadataLocked F m d = (Inr u, d')"
  shows "d' = with_meta d m"
  using writeMetadataLocked_cases [OF assms] by auto

lemma writeMetadataLocked_no_faults: "writeMetadataLocked no_faults m d = (Inr (), with_meta d m)"
  using run_steps_no_faults [of "Marshal # atomicSteps" "encodeMetadata m" "cd_meta d"]
  by (simp add: writeMetadataLocked_def atomicSteps_def)

lemma writeBodyLocked_cases:
  assumes "writeBodyLocked F key body d = (r, d')"
  obtains (kept) err where "r = Inl err" "d' = d"
    | (written) "d' = d\<lparr>cd_blobs := gm_put (cd_blobs d) (bodyName key) body\<rparr>"
proof -
  let ?F = "\<lambda>st. F (OnBody st)"
  obtain e f where run: "run_steps atomicSteps ?F body None = (e, f)"
    by (cases "run_steps atomicSteps ?F body None")
  have "e = None \<Longrightarrow> f = Some (Decoded body)"
    using run_steps_ok [of atomicSteps ?F body None] run by (simp add: atomicSteps_def)
  then show ?thesis
    using assms run kept written by (cases e; cases f) (auto simp: writeBodyLocked_def)
qed

lemma writeBodyLocked_ok:
  assumes "writeBodyLocked F key body d = (Inr u, d')"
  shows "d' = d\<lparr>cd_blobs := gm_put (cd_blobs d) (bodyName key) body\<rparr>"
  using writeBodyLocked_cases [OF assms] by auto

section \<open>The sweep\<close>

text \<open>Loading keeps the metadata file and every payload file that is not orphaned.\<close>

definition swept :: "metadata \<Rightarrow> cache_disk \<Rightarrow> cache_disk \<Rightarrow> bool" where
  "swept m d d1 \<longleftrightarrow> cd_meta d1 = cd_meta d \<and>
     (\<forall>name. \<not> orphan_body m name \<longrightarrow> gm_get (cd_blobs d1) name = gm_get (cd_blobs d) name)"

lemma swept_refl [simp]: "swept m d d"
  by (simp add: swept_def)

lemma remove_all_removed:
  "remove_all F names removed = (e, removed') \<Longrightarrow> set removed' \<subseteq> set names \<union> set removed"
proof (induction names arbitrary: removed)
  case (Cons name names)
  then show ?case using Cons.IH [of "name # removed"] by (auto split: if_splits)
qed simp

lemma reconcileLocked_swept:
  assumes "reconcileLocked F m d = (r, d1)"
  shows "swept m d d1"
proof -
  obtain e removed where ra: "remove_all F (filter (orphan_body m) (map fst (cd_blobs d))) [] = (e, removed)"
    by (cases "remove_all F (filter (orphan_body m) (map fst (cd_blobs d))) []")
  have orphans: "orphan_body m name" if "name \<in> set removed" for name
    using remove_all_removed [OF ra] that by auto
  have "d1 = d \<or> cd_meta d1 = cd_meta d \<and>
      cd_blobs d1 = filter (\<lambda>(name, body). name \<notin> set removed) (cd_blobs d)"
    using assms ra by (auto simp: reconcileLocked_def Let_def split: if_splits option.splits prod.splits)
  then show ?thesis
    using orphans by (auto simp: swept_def gm_get_filter_key)
qed

lemma cache_reloadLocked_ok:
  assumes "cache_ok L bid d" and "cache_reloadLocked L bid F d = (r, d1)"
  shows "swept (cache_loaded L bid d) d d1" and "r = Inr m \<Longrightarrow> m = cache_loaded L bid d"
  using assms cache_meta.reload_cases [of L bid "cd_meta d" F]
  by (auto simp: cache_reloadLocked_def cache_ok_def cache_loaded_def
      split: sum.splits prod.splits dest: reconcileLocked_swept)

section \<open>Locked calls\<close>

lemma cache_withState_disk:
  assumes "cache_ok L bid d" and "cache_withState L bid F w op d = (r, d')"
    and m: "m = cache_loaded L bid d"
  obtains (loading) "swept m d d'"
    | (operating) d1 r2 where "swept m d d1" "op m d1 = (r2, d')"
    | (writing) d1 x m' d2 where "swept m d d1" "op m d1 = (Inr (x, m'), d2)" "w" "d' = with_meta d2 m'"
proof -
  obtain r1 d1 where rl: "cache_reloadLocked L bid F d = (r1, d1)"
    by (cases "cache_reloadLocked L bid F d")
  note sw = cache_reloadLocked_ok [OF assms(1) rl, folded m]
  show ?thesis
  proof (cases "F MkdirAll \<or> F AcquireLock \<or> isl r1")
    case True
    then have "d' = d \<or> d' = d1"
      using assms(2) rl by (cases r1) (auto simp: cache_withState_def split: if_splits)
    then show ?thesis using loading sw(1) by auto
  next
    case False
    then have r1: "r1 = Inr m" using sw(2) by (cases r1) auto
    obtain r2 d2 where op: "op m d1 = (r2, d2)" by (cases "op m d1")
    have "d' = d2 \<or> (\<exists>x m'. r2 = Inr (x, m') \<and> w \<and> d' = snd (writeMetadataLocked F m' d2))"
      using assms(2) False rl r1 op
      by (auto simp: cache_withState_def split: sum.splits prod.splits if_splits)
    then consider "d' = d2" | x m' where "r2 = Inr (x, m')" "w" "d' = snd (writeMetadataLocked F m' d2)"
      by auto
    then show ?thesis
    proof cases
      case 1
      then show ?thesis using operating sw(1) op by simp
    next
      case (2 x m')
      from prod.collapse [symmetric, of "writeMetadataLocked F m' d2"] show ?thesis
        by (rule writeMetadataLocked_cases) (use 2 operating writing sw(1) op in auto)
    qed
  qed
qed

lemma cache_withState_success:
  assumes "cache_withState L bid F w op d = (Inr x, d')"
  obtains m d1 m' d2 where "cache_reloadLocked L bid F d = (Inr m, d1)"
    and "op m d1 = (Inr (x, m'), d2)" and "d' = (if w then with_meta d2 m' else d2)"
proof -
  from assms obtain m d1 where rl: "cache_reloadLocked L bid F d = (Inr m, d1)"
    by (auto simp: cache_withState_def split: if_splits sum.splits prod.splits)
  obtain r2 d2 where op: "op m d1 = (r2, d2)" by (cases "op m d1")
  from assms rl op obtain m' where r2: "r2 = Inr (x, m')"
    by (auto simp: cache_withState_def split: if_splits sum.splits prod.splits)
  have "d' = (if w then with_meta d2 m' else d2)"
    using assms rl op r2 writeMetadataLocked_ok [of F m' d2]
    by (auto simp: cache_withState_def split: if_splits sum.splits prod.splits)
  then show ?thesis using that rl op r2 by blast
qed

lemma cache_withState_no_faults:
  assumes "cache_ok L bid d" and "m = cache_loaded L bid d"
  obtains d1 where "swept m d d1"
    and "cache_withState L bid no_faults w op d =
      (case op m d1 of
         (Inl e, d2) \<Rightarrow> (Inl e, d2)
       | (Inr (x, m'), d2) \<Rightarrow> (Inr x, if w then with_meta d2 m' else d2))"
proof -
  have nf: "\<not> no_faults st" for st by (simp add: no_faults_def)
  have ra: "fst (remove_all no_faults names removed) = None" for names removed
    by (induction names arbitrary: removed) (simp_all add: nf)
  then have rc: "fst (reconcileLocked no_faults m d) = Inr ()"
    by (auto simp: reconcileLocked_def nf Let_def split: option.splits prod.splits) (metis fst_conv option.distinct(1))+
  obtain d1 where d1: "reconcileLocked no_faults m d = (Inr (), d1)"
    using rc by (metis prod.collapse)
  have "cache_reloadLocked L bid no_faults d = (Inr m, d1)"
    using cache_meta.reload_ok [of L bid "cd_meta d" no_faults] assms d1
    by (simp add: cache_reloadLocked_def cache_ok_def cache_loaded_def nf)
  then show ?thesis
    using that reconcileLocked_swept [OF d1]
    by (auto simp: cache_withState_def nf writeMetadataLocked_no_faults split: sum.splits prod.splits)
qed

end
