(* ===== verification/CacheSlots.thy ===== *)
theory CacheSlots
  imports CacheInv
begin

text \<open>
  The abstract cache: every identity has a slot, empty or holding an entry and, when the entry says
  so, a payload.  Each call of the store changes at most the slot of its own binding, in one of a few
  ways.  The theory states those ways as a relation and proves that the store refines it under any
  faults.
\<close>

section \<open>Calls\<close>

datatype cache_call =
    CallOpen string
  | CallRecordRemote time Binding
  | CallPutVerified time Binding bytes VerificationEvidence
  | CallPutLocal time Binding bytes State
  | CallReadVerified "Binding \<Rightarrow> VerificationEvidence \<Rightarrow> string option" faults time Binding
  | CallReadLocal Binding uint64
  | CallVerifyLocal Binding uint64
  | CallReadLocalRange "bytes \<Rightarrow> bytes list" Binding uint64 uint64 uint64
  | CallTransition time Binding State
  | CallReconcile time Binding State uint64
  | CallInspect Binding
  | CallList
  | CallRemove Binding

text \<open>The directory after a call.\<close>

fun cache_do :: "cid_lib \<Rightarrow> (Binding \<Rightarrow> string) \<Rightarrow> faults \<Rightarrow> cache_call \<Rightarrow> cache_disk \<Rightarrow> cache_disk" where
  "cache_do L bid F (CallOpen directory) d = snd (cache_Open L bid F directory d)"
| "cache_do L bid F (CallRecordRemote now b) d = snd (cache_RecordRemote L bid F now b d)"
| "cache_do L bid F (CallPutVerified now b body ev) d = snd (cache_PutVerified L bid F now b body ev d)"
| "cache_do L bid F (CallPutLocal now b body st) d = snd (cache_PutLocal L bid F now b body st d)"
| "cache_do L bid F (CallReadVerified verify F2 now b) d = snd (cache_ReadVerified L bid verify F F2 now b d)"
| "cache_do L bid F (CallReadLocal b n) d = snd (cache_ReadLocalBounded L bid F b n d)"
| "cache_do L bid F (CallVerifyLocal b n) d = snd (cache_VerifyLocal L bid F b n d)"
| "cache_do L bid F (CallReadLocalRange split b off len n) d = snd (cache_ReadLocalRange L bid split F b off len n d)"
| "cache_do L bid F (CallTransition now b st) d = snd (cache_Transition L bid F now b st d)"
| "cache_do L bid F (CallReconcile now b st n) d = snd (cache_ReconcileLocalStateBounded L bid F now b st n d)"
| "cache_do L bid F (CallInspect b) d = snd (cache_Inspect L bid F b d)"
| "cache_do L bid F CallList d = snd (cache_List L bid F d)"
| "cache_do L bid F (CallRemove b) d = snd (cache_Remove L bid F b d)"

text \<open>The clock of a call reads a time other than the zero time.\<close>

fun clock_ok :: "cache_call \<Rightarrow> bool" where
  "clock_ok (CallRecordRemote now _) = (now \<noteq> 0)"
| "clock_ok (CallPutVerified now _ _ _) = (now \<noteq> 0)"
| "clock_ok (CallPutLocal now _ _ _) = (now \<noteq> 0)"
| "clock_ok (CallReadVerified _ _ now _) = (now \<noteq> 0)"
| "clock_ok (CallTransition now _ _) = (now \<noteq> 0)"
| "clock_ok (CallReconcile now _ _ _) = (now \<noteq> 0)"
| "clock_ok _ = True"

fun call_binding :: "cache_call \<Rightarrow> Binding option" where
  "call_binding (CallRecordRemote _ b) = Some b"
| "call_binding (CallPutVerified _ b _ _) = Some b"
| "call_binding (CallPutLocal _ b _ _) = Some b"
| "call_binding (CallReadVerified _ _ _ b) = Some b"
| "call_binding (CallTransition _ b _) = Some b"
| "call_binding (CallReconcile _ b _ _) = Some b"
| "call_binding (CallRemove b) = Some b"
| "call_binding _ = None"

text \<open>The identity a call works on, if its binding is valid.\<close>

definition call_key :: "cid_lib \<Rightarrow> (Binding \<Rightarrow> string) \<Rightarrow> cache_call \<Rightarrow> string option" where
  "call_key L bid c =
     (case call_binding c of
        None \<Rightarrow> None
      | Some raw \<Rightarrow> (case normalizeBinding L raw of Inl _ \<Rightarrow> None | Inr b \<Rightarrow> Some (bid b)))"

section \<open>Slots\<close>

type_synonym slot = "(Entry \<times> bytes option) option"

definition cache_slot :: "cid_lib \<Rightarrow> (Binding \<Rightarrow> string) \<Rightarrow> cache_disk \<Rightarrow> string \<Rightarrow> slot" where
  "cache_slot L bid d key =
     (case gm_get (md_Entries (cache_loaded L bid d)) key of
        None \<Rightarrow> None
      | Some e \<Rightarrow> Some (e, if e_BodyPresent e then gm_get (cd_blobs d) (bodyName key) else None))"

definition remote_entry :: "Binding \<Rightarrow> time \<Rightarrow> Entry" where
  "remote_entry b now =
     \<lparr>e_Binding = b, e_State = StateUnmaterializedRemote, e_Verification = None,
      e_BodyPresent = False, e_Size = 0, e_UpdatedAt = now\<rparr>"

definition relabel :: "Entry \<Rightarrow> State \<Rightarrow> time \<Rightarrow> Entry" where
  "relabel e st now = e\<lparr>e_State := st, e_Verification := None, e_UpdatedAt := now\<rparr>"

text \<open>The state a call may give to the entry of its slot; none of them is a verified state.\<close>

fun may_relabel :: "cache_call \<Rightarrow> State \<Rightarrow> State \<Rightarrow> time \<Rightarrow> bool" where
  "may_relabel (CallReadVerified _ _ now _) current st t \<longleftrightarrow> current = StateVerifiedClean \<and> st = StateStale \<and> t = now"
| "may_relabel (CallTransition now _ next) current st t \<longleftrightarrow>
     allowedTransition current next \<and> next \<noteq> StateVerifiedClean \<and> st = next \<and> t = now"
| "may_relabel (CallReconcile now _ next _) current st t \<longleftrightarrow>
     isLocalBodyState current \<and> isLocalBodyState next \<and> st = next \<and> t = now"
| "may_relabel _ _ _ _ \<longleftrightarrow> False"

text \<open>The entry and payload a call puts, when the payload has the CID of its binding.\<close>

fun put_of :: "cid_lib \<Rightarrow> cache_call \<Rightarrow> (Entry \<times> bytes) option" where
  "put_of L (CallPutVerified now raw body evidence) =
     (case normalizeBinding L raw of
        Inl _ \<Rightarrow> None
      | Inr b \<Rightarrow>
          let ev = evidence\<lparr>ve_Profile := TrimSpace (ve_Profile evidence)\<rparr> in
          if ve_Profile ev \<noteq> [] \<and> ValidString (ve_Profile ev) \<and> ve_Evidence ev \<noteq> [] \<and> ve_VerifiedAt ev \<noteq> 0 \<and>
             cid_Sum L (b_CID b) body = Some (b_CID b)
          then Some (\<lparr>e_Binding = b, e_State = StateVerifiedClean, e_Verification = Some ev,
            e_BodyPresent = True, e_Size = int (length body), e_UpdatedAt = now\<rparr>, body)
          else None)"
| "put_of L (CallPutLocal now raw body st) =
     (case normalizeBinding L raw of
        Inl _ \<Rightarrow> None
      | Inr b \<Rightarrow>
          if (st = StateLocalDirty \<or> st = StateOfflineOnly) \<and> cid_Sum L (b_CID b) body = Some (b_CID b)
          then Some (\<lparr>e_Binding = b, e_State = st, e_Verification = None,
            e_BodyPresent = True, e_Size = int (length body), e_UpdatedAt = now\<rparr>, body)
          else None)"
| "put_of L _ = None"

definition put_allowed :: "slot \<Rightarrow> Entry \<Rightarrow> bool" where
  "put_allowed s e \<longleftrightarrow> (case s of None \<Rightarrow> True | Some (x, _) \<Rightarrow> allowedPut (e_State x) (e_State e))"

definition has_body :: "slot \<Rightarrow> bool" where
  "has_body s \<longleftrightarrow> (case s of None \<Rightarrow> False | Some (x, _) \<Rightarrow> e_BodyPresent x)"

text \<open>
  What one locked phase of a call may do to its slot.  The last four rules are what faults leave
  behind: a payload replaced under the old entry, an entry whose payload was taken back, and the two
  halves of a removal.
\<close>

inductive slot_change :: "cid_lib \<Rightarrow> cache_call \<Rightarrow> slot \<Rightarrow> slot \<Rightarrow> bool"
  for L :: cid_lib and c :: cache_call where
  keep: "slot_change L c s s"
| record_remote: "c = CallRecordRemote now raw \<Longrightarrow> normalizeBinding L raw = Inr b \<Longrightarrow>
    slot_change L c None (Some (remote_entry b now, None))"
| relabel: "may_relabel c (e_State e) st now \<Longrightarrow>
    slot_change L c (Some (e, body)) (Some (relabel e st now, body))"
| touch: "c = CallTransition now raw StateVerifiedClean \<Longrightarrow> e_State e = StateVerifiedClean \<Longrightarrow>
    slot_change L c (Some (e, body)) (Some (e\<lparr>e_UpdatedAt := now\<rparr>, body))"
| store: "put_of L c = Some (e, body) \<Longrightarrow> put_allowed s e \<Longrightarrow>
    slot_change L c s (Some (e, Some body))"
| rewrite: "put_of L c = Some (e, body) \<Longrightarrow> put_allowed (Some (x, old)) e \<Longrightarrow> e_BodyPresent x \<Longrightarrow>
    slot_change L c (Some (x, old)) (Some (x, Some body))"
| taken_back: "put_of L c = Some (e, body) \<Longrightarrow> put_allowed s e \<Longrightarrow> \<not> has_body s \<Longrightarrow>
    slot_change L c s (Some (e, None))"
| body_removed: "c = CallRemove raw \<Longrightarrow> slot_change L c (Some (e, body)) (Some (e, None))"
| removed: "c = CallRemove raw \<Longrightarrow> slot_change L c (Some (e, body)) None"

section \<open>What a directory change does to the slots\<close>

text \<open>A step on the directory that refines one change of the slot of \<open>key\<close>.\<close>

definition refines ::
  "cid_lib \<Rightarrow> (Binding \<Rightarrow> string) \<Rightarrow> cache_call \<Rightarrow> string \<Rightarrow> cache_disk \<Rightarrow> cache_disk \<Rightarrow> bool" where
  "refines L bid c key d d' \<longleftrightarrow>
     cache_ok L bid d' \<and> (\<forall>k. k \<noteq> key \<longrightarrow> cache_slot L bid d' k = cache_slot L bid d k) \<and>
     slot_change L c (cache_slot L bid d key) (cache_slot L bid d' key)"

lemma bodyName_inject [simp]: "bodyName k = bodyName k' \<longleftrightarrow> k = k'"
  by (simp add: bodyName_def)

lemma referenced_get:
  assumes "gm_get (md_Entries m) key = Some e" and "e_BodyPresent e"
  shows "\<not> orphan_body m (bodyName key)"
  using map_of_SomeD [OF assms(1)] assms(2) by (force simp: orphan_body_def referenced_def)

lemma cache_slot_swept:
  assumes "swept (cache_loaded L bid d) d d1"
  shows "cache_slot L bid d1 = cache_slot L bid d"
proof
  fix key
  have "cache_loaded L bid d1 = cache_loaded L bid d"
    using assms by (auto simp: swept_def intro: cache_loaded_meta_cong)
  then show "cache_slot L bid d1 key = cache_slot L bid d key"
    using assms referenced_get [of "cache_loaded L bid d" key]
    by (auto simp: cache_slot_def swept_def split: option.splits)
qed

lemma cache_ok_swept: "cache_ok L bid d \<Longrightarrow> swept m d d1 \<Longrightarrow> cache_ok L bid d1"
  by (simp add: cache_ok_def swept_def)

lemma loaded_swept: "swept m d d1 \<Longrightarrow> cache_loaded L bid d1 = cache_loaded L bid d"
  by (auto simp: swept_def intro: cache_loaded_meta_cong)

lemma refines_refl: "cache_ok L bid d \<Longrightarrow> refines L bid c key d d"
  by (simp add: refines_def slot_change.keep)

lemma refines_swept:
  assumes "cache_ok L bid d" and "swept (cache_loaded L bid d) d d1" and "refines L bid c key d1 d'"
  shows "refines L bid c key d d'"
  using assms cache_slot_swept [OF assms(2)] by (simp add: refines_def)

lemma refines_swept_only:
  "cache_ok L bid d \<Longrightarrow> swept (cache_loaded L bid d) d d1 \<Longrightarrow> refines L bid c key d d1"
  by (blast intro: refines_swept refines_refl cache_ok_swept)

lemma cache_slot_meta:
  assumes "metadata_ok L bid m"
  shows "cache_slot L bid (with_meta d m) k =
    (case gm_get (md_Entries m) k of
       None \<Rightarrow> None | Some e \<Rightarrow> Some (e, if e_BodyPresent e then gm_get (cd_blobs d) (bodyName k) else None))"
  by (simp add: cache_slot_def cache_loaded_with_meta [OF assms] split: option.split)

text \<open>Replacing the entry of a slot, with the payload files as they are.\<close>

lemma refines_put_entry:
  assumes ok: "cache_ok L bid d" and e: "entry_ok L bid key e" and m: "m = cache_loaded L bid d"
    and blobs: "\<And>k. k \<noteq> key \<Longrightarrow> gm_get blobs (bodyName k) = gm_get (cd_blobs d) (bodyName k)"
    and change: "slot_change L c (cache_slot L bid d key)
      (Some (e, if e_BodyPresent e then gm_get blobs (bodyName key) else None))"
  shows "refines L bid c key d (with_meta (d\<lparr>cd_blobs := blobs\<rparr>) (put_entry m key e))"
proof -
  have m': "metadata_ok L bid (put_entry m key e)"
    using metadata_ok_put [OF cache_loaded_ok [OF ok] e] m by simp
  then show ?thesis
    using assms cache_ok_with_meta [OF m'] cache_slot_meta [OF m']
    by (auto simp: refines_def put_entry_def) (auto simp: cache_slot_def split: option.splits)
qed

lemma refines_blobs:
  assumes "cache_ok L bid d"
    and "\<And>k. k \<noteq> key \<Longrightarrow> gm_get blobs (bodyName k) = gm_get (cd_blobs d) (bodyName k)"
    and "slot_change L c (cache_slot L bid d key) (cache_slot L bid (d\<lparr>cd_blobs := blobs\<rparr>) key)"
  shows "refines L bid c key d (d\<lparr>cd_blobs := blobs\<rparr>)"
proof -
  have "cache_loaded L bid (d\<lparr>cd_blobs := blobs\<rparr>) = cache_loaded L bid d"
    by (rule cache_loaded_meta_cong) simp
  then show ?thesis
    using assms by (auto simp: refines_def cache_ok_def cache_slot_def split: option.splits)
qed

end
