(* ===== verification/CacheRefine.thy ===== *)
theory CacheRefine
  imports CacheSlots
begin

text \<open>
  Every call of the payload cache refines the slot changes of \<open>CacheSlots\<close>, whatever fails.
\<close>

section \<open>Entries stay well formed\<close>

lemma relabel_ok:
  assumes e: "entry_ok L bid key e" and "may_relabel c (e_State e) st now" and "clock_ok c"
  shows "entry_ok L bid key (relabel e st now)"
proof -
  note d = entry_ok_dest [OF e]
  have now: "now \<noteq> 0" using assms(2,3) by (cases c) auto
  have "validState st \<and> stateMetadata_ok (relabel e st now)"
  proof (cases c)
    case (CallReconcile t b nx n)
    then have "isLocalBodyState (e_State e)" and "isLocalBodyState st" using assms(2) by auto
    then show ?thesis
      using d(6) by (cases "e_State e"; cases st)
        (auto simp: isLocalBodyState_def validState_def stateMetadata_ok_def relabel_def)
  next
    case (CallTransition t b nx)
    then have al: "allowedTransition (e_State e) st" and nv: "st \<noteq> StateVerifiedClean" using assms(2) by auto
    then show ?thesis
      using d(2,6) by (cases "e_State e"; cases st)
        (auto simp: allowedTransition_def validState_def stateMetadata_ok_def relabel_def)
  qed (use assms(2) in \<open>auto simp: validState_def stateMetadata_ok_def relabel_def\<close>)
  then have "entry_ok L bid (bid (e_Binding e)) (relabel e st now)"
    using d now by (intro entry_ok_intro) (auto simp: relabel_def)
  then show ?thesis using d(7) by simp
qed

lemma touch_ok:
  assumes e: "entry_ok L bid key e" and "now \<noteq> 0"
  shows "entry_ok L bid key (e\<lparr>e_UpdatedAt := now\<rparr>)"
proof -
  note d = entry_ok_dest [OF e]
  have "entry_ok L bid (bid (e_Binding e)) (e\<lparr>e_UpdatedAt := now\<rparr>)"
    using d assms(2) by (intro entry_ok_intro) (auto simp: stateMetadata_ok_def split: State.splits option.splits)
  then show ?thesis using d(7) by simp
qed

lemma remote_entry_ok:
  "normalizeBinding L b = Inr b \<Longrightarrow> now \<noteq> 0 \<Longrightarrow> entry_ok L bid (bid b) (remote_entry b now)"
  by (rule entry_ok_intro) (auto simp: remote_entry_def validState_def stateMetadata_ok_def)

lemma put_of_ok:
  assumes "cid_lib_ok L" and "put_of L c = Some (e, body)" and "clock_ok c"
  shows "entry_ok L bid (bid (e_Binding e)) e" and "e_BodyPresent e"
    and "e_Size e = int (length body)" and "cid_Sum L (b_CID (e_Binding e)) body = Some (b_CID (e_Binding e))"
    and "isLocalBodyState (e_State e) \<or> e_State e = StateVerifiedClean"
    and "call_key L bid c = Some (bid (e_Binding e))"
proof -
  have "entry_ok L bid (bid (e_Binding e)) e \<and> e_BodyPresent e \<and> e_Size e = int (length body) \<and>
      cid_Sum L (b_CID (e_Binding e)) body = Some (b_CID (e_Binding e)) \<and>
      (isLocalBodyState (e_State e) \<or> e_State e = StateVerifiedClean) \<and>
      call_key L bid c = Some (bid (e_Binding e))"
  proof (cases c)
    case (CallPutVerified now raw bd evidence)
    then obtain b where b: "normalizeBinding L raw = Inr b"
      using assms(2) by (cases "normalizeBinding L raw") auto
    then show ?thesis
      using assms CallPutVerified normalizeBinding_idem [OF assms(1) b]
      by (auto simp: Let_def call_key_def validState_def stateMetadata_ok_def
          intro!: entry_ok_intro split: if_splits)
  next
    case (CallPutLocal now raw bd st)
    then obtain b where b: "normalizeBinding L raw = Inr b"
      using assms(2) by (cases "normalizeBinding L raw") auto
    then show ?thesis
      using assms CallPutLocal normalizeBinding_idem [OF assms(1) b]
      by (auto simp: call_key_def validState_def stateMetadata_ok_def isLocalBodyState_def
          intro!: entry_ok_intro split: if_splits)
  qed (use assms(2) in auto)
  then show "entry_ok L bid (bid (e_Binding e)) e" and "e_BodyPresent e"
    and "e_Size e = int (length body)" and "cid_Sum L (b_CID (e_Binding e)) body = Some (b_CID (e_Binding e))"
    and "isLocalBodyState (e_State e) \<or> e_State e = StateVerifiedClean"
    and "call_key L bid c = Some (bid (e_Binding e))"
    by blast+
qed

section \<open>Locked phases\<close>

lemma withState_refines:
  assumes ok: "cache_ok L bid d" and ws: "cache_withState L bid F w op d = (r, d')"
    and op: "\<And>d1 r2 d2. cache_ok L bid d1 \<Longrightarrow> op (cache_loaded L bid d1) d1 = (r2, d2) \<Longrightarrow>
      refines L bid c key d1 d2"
    and wr: "\<And>d1 x m' d2. w \<Longrightarrow> cache_ok L bid d1 \<Longrightarrow> op (cache_loaded L bid d1) d1 = (Inr (x, m'), d2) \<Longrightarrow>
      refines L bid c key d1 (with_meta d2 m')"
  shows "refines L bid c key d d'"
  using ok ws refl
proof (cases rule: cache_withState_disk)
  case loading
  then show ?thesis using refines_swept_only [OF ok] by blast
next
  case (operating d1 r2)
  have "cache_ok L bid d1" by (rule cache_ok_swept [OF ok operating(1)])
  then show ?thesis
    using refines_swept [OF ok operating(1)] op [of d1] operating(2) loaded_swept [OF operating(1), of L bid] by auto
next
  case (writing d1 x m' d2)
  have "cache_ok L bid d1" by (rule cache_ok_swept [OF ok writing(1)])
  then have "refines L bid c key d1 (with_meta d2 m')"
    using wr [of d1] writing loaded_swept [OF writing(1), of L bid] by auto
  then show ?thesis using refines_swept [OF ok writing(1)] writing(4) by simp
qed

lemma looking_refines:
  assumes "cache_ok L bid d" and "cache_withState L bid F False (looking f) d = (r, d')"
  shows "refines L bid c key d d'"
  by (rule withState_refines [OF assms]) (auto simp: looking_def intro: refines_refl)

lemma changing_refines:
  assumes "cache_ok L bid d" and "cache_withState L bid F True (changing f) d = (r, d')"
    and "\<And>d1 x m'. cache_ok L bid d1 \<Longrightarrow> f (cache_loaded L bid d1) = Inr (x, m') \<Longrightarrow>
      refines L bid c key d1 (with_meta d1 m')"
  shows "refines L bid c key d d'"
  by (rule withState_refines [OF assms(1,2)]) (auto simp: changing_def intro: refines_refl assms(3))

text \<open>Changing the entry alone.\<close>

lemma refines_entry:
  assumes ok: "cache_ok L bid d" and e: "entry_ok L bid key e"
    and change: "slot_change L c (cache_slot L bid d key)
      (Some (e, if e_BodyPresent e then gm_get (cd_blobs d) (bodyName key) else None))"
  shows "refines L bid c key d (with_meta d (put_entry (cache_loaded L bid d) key e))"
  using refines_put_entry [OF ok e refl, of "cd_blobs d"] change by simp

lemma refines_same:
  assumes "cache_ok L bid d"
  shows "refines L bid c key d (with_meta d (cache_loaded L bid d))"
proof -
  note m = cache_loaded_ok [OF assms]
  have "cache_slot L bid (with_meta d (cache_loaded L bid d)) k = cache_slot L bid d k" for k
    by (simp add: cache_slot_meta [OF m]) (simp add: cache_slot_def)
  then show ?thesis
    by (simp add: refines_def cache_ok_with_meta [OF m] slot_change.keep)
qed

lemma refines_relabel:
  assumes ok: "cache_ok L bid d" and get: "gm_get (md_Entries (cache_loaded L bid d)) key = Some e"
    and may: "may_relabel c (e_State e) st now" and "clock_ok c"
  shows "refines L bid c key d (with_meta d (put_entry (cache_loaded L bid d) key (relabel e st now)))"
proof (rule refines_entry [OF ok])
  show "entry_ok L bid key (relabel e st now)"
    by (rule relabel_ok [OF metadata_ok_get [OF cache_loaded_ok [OF ok] get] may assms(4)])
  have "e_BodyPresent (relabel e st now) = e_BodyPresent e" by (simp add: relabel_def)
  then show "slot_change L c (cache_slot L bid d key) (Some (relabel e st now,
      if e_BodyPresent (relabel e st now) then gm_get (cd_blobs d) (bodyName key) else None))"
    using slot_change.relabel [OF may] by (simp add: cache_slot_def get)
qed

text \<open>A metadata write that may fail.\<close>

lemma refines_write:
  assumes "writeMetadataLocked F m' d1 = (r, d')" and "refines L bid c key d d1"
    and "refines L bid c key d (with_meta d1 m')"
  shows "refines L bid c key d d'"
  using assms(1) by (rule writeMetadataLocked_cases) (use assms in auto)

section \<open>The operations\<close>

lemma recordRemote_refines:
  assumes "cid_lib_ok L" and "cache_ok L bid d" and "normalizeBinding L raw = Inr b" and "now \<noteq> 0"
    and "recordRemoteLocked bid b now (cache_loaded L bid d) = Inr (x, m')"
  shows "refines L bid (CallRecordRemote now raw) (bid b) d (with_meta d m')"
proof (cases "gm_get (md_Entries (cache_loaded L bid d)) (bid b)")
  case None
  then have m': "m' = put_entry (cache_loaded L bid d) (bid b) (remote_entry b now)"
    using assms(5) by (auto simp: recordRemoteLocked_def Let_def remote_entry_def)
  have "\<not> e_BodyPresent (remote_entry b now)" by (simp add: remote_entry_def)
  then show ?thesis unfolding m'
    using slot_change.record_remote [OF refl assms(3)] None
    by (intro refines_entry [OF assms(2)] remote_entry_ok [OF normalizeBinding_idem [OF assms(1,3)] assms(4)])
      (simp add: cache_slot_def)
next
  case (Some e)
  then show ?thesis
    using assms(5) refines_same [OF assms(2)] by (simp add: recordRemoteLocked_def)
qed

lemma transition_refines:
  assumes "cache_ok L bid d" and "now \<noteq> 0"
    and run: "transitionEntryLocked bid b st now (cache_loaded L bid d) = Inr (x, m')"
  shows "refines L bid (CallTransition now raw st) (bid b) d (with_meta d m')"
proof -
  let ?m = "cache_loaded L bid d" and ?c = "CallTransition now raw st"
  from run obtain e where get: "gm_get (md_Entries ?m) (bid b) = Some e" and al: "allowedTransition (e_State e) st"
    and m': "m' = put_entry ?m (bid b) (e\<lparr>e_State := st, e_UpdatedAt := now,
        e_Verification := (if st \<noteq> StateVerifiedClean then None else e_Verification e)\<rparr>)"
    by (auto simp: transitionEntryLocked_def Let_def split: option.splits if_splits)
  show ?thesis
  proof (cases "st = StateVerifiedClean")
    case False
    then have "m' = put_entry ?m (bid b) (relabel e st now)" by (cases e) (simp add: m' relabel_def)
    then show ?thesis
      using refines_relabel [OF assms(1) get, of ?c st now] False al assms(2) by simp
  next
    case True
    then have clean: "e_State e = StateVerifiedClean"
      using al by (cases "e_State e") (auto simp: allowedTransition_def)
    then have "m' = put_entry ?m (bid b) (e\<lparr>e_UpdatedAt := now\<rparr>)" using True by (cases e) (simp add: m')
    moreover have "refines L bid ?c (bid b) d (with_meta d (put_entry ?m (bid b) (e\<lparr>e_UpdatedAt := now\<rparr>)))"
      using slot_change.touch [of ?c now raw e L] True clean get
      by (intro refines_entry [OF assms(1)] touch_ok metadata_ok_get [OF cache_loaded_ok [OF assms(1)] get] assms(2))
        (simp add: cache_slot_def)
    ultimately show ?thesis by simp
  qed
qed

lemma invalidate_refines:
  assumes "cache_ok L bid d" and "now \<noteq> 0"
    and run: "invalidateLocked bid b rejected now (cache_loaded L bid d) = Inr (x, m')"
  shows "refines L bid (CallReadVerified verify F2 now raw) (bid b) d (with_meta d m')"
proof -
  let ?m = "cache_loaded L bid d" and ?c = "CallReadVerified verify F2 now raw"
  from run obtain e where get: "gm_get (md_Entries ?m) (bid b) = Some e"
    and "m' = ?m \<or> e_Verification e \<noteq> None \<and> m' = put_entry ?m (bid b) (relabel e StateStale now)"
    by (auto simp: invalidateLocked_def relabel_def split: option.splits if_splits)
  then consider "m' = ?m" | "e_Verification e \<noteq> None" "m' = put_entry ?m (bid b) (relabel e StateStale now)"
    by auto
  then show ?thesis
  proof cases
    case 1
    then show ?thesis using refines_same [OF assms(1)] by simp
  next
    case 2
    note d = entry_ok_dest [OF metadata_ok_get [OF cache_loaded_ok [OF assms(1)] get]]
    have "e_State e = StateVerifiedClean"
      using d(2,6) 2(1) by (cases "e_State e") (auto simp: stateMetadata_ok_def validState_def)
    then show ?thesis
      using refines_relabel [OF assms(1) get, of ?c StateStale now] 2 assms(2) by simp
  qed
qed

lemma markCorrupt_refines:
  assumes "cache_ok L bid d" and "now \<noteq> 0" and get: "gm_get (md_Entries (cache_loaded L bid d)) key = Some e"
    and "e_State e = StateVerifiedClean"
    and run: "markCorruptLocked F now key e cause (cache_loaded L bid d) d = (r, d')"
  shows "refines L bid (CallReadVerified verify F2 now raw) key d d'"
proof -
  let ?m' = "put_entry (cache_loaded L bid d) key (relabel e StateStale now)"
  have "d' = snd (writeMetadataLocked F ?m' d)"
    using run by (auto simp: markCorruptLocked_def Let_def relabel_def split: prod.splits sum.splits)
  then show ?thesis
    using refines_write [OF prod.collapse [symmetric] refines_refl [OF assms(1)]]
      refines_relabel [OF assms(1) get, of "CallReadVerified verify F2 now raw" StateStale now] assms(2,4)
    by simp
qed

lemma readVerified_refines:
  assumes "cache_ok L bid d" and "now \<noteq> 0"
    and run: "readVerifiedLocked L bid F now b (cache_loaded L bid d) d = (r, d')"
  shows "refines L bid (CallReadVerified verify F2 now raw) (bid b) d d'"
proof (cases "gm_get (md_Entries (cache_loaded L bid d)) (bid b)")
  case None
  then show ?thesis using run refines_refl [OF assms(1)] by (auto simp: readVerifiedLocked_def split: if_splits)
next
  case (Some e)
  have "d' = d \<or> e_State e = StateVerifiedClean \<and>
      (\<exists>cause. markCorruptLocked F now (bid b) e cause (cache_loaded L bid d) d = (r, d'))"
    using run by (auto simp: readVerifiedLocked_def Some split: if_splits option.splits sum.splits)
  then show ?thesis
    using markCorrupt_refines [OF assms(1,2) Some] refines_refl [OF assms(1)] by blast
qed

lemma reconcileState_refines:
  assumes "cache_ok L bid d" and "now \<noteq> 0" and "isLocalBodyState st"
    and run: "reconcileStateLocked L bid F b st n now (cache_loaded L bid d) d = (r, d')"
  shows "refines L bid (CallReconcile now raw st n) (bid b) d d'"
proof -
  let ?m = "cache_loaded L bid d" and ?c = "CallReconcile now raw st n"
  have "d' = d \<or> (\<exists>e. gm_get (md_Entries ?m) (bid b) = Some e \<and> isLocalBodyState (e_State e) \<and>
      d' = snd (writeMetadataLocked F (put_entry ?m (bid b) (relabel e st now)) d))"
    using run by (auto simp: reconcileStateLocked_def Let_def result_simps relabel_def
        split: sum.splits prod.splits)
  then show ?thesis
  proof (elim disjE exE conjE)
    fix e assume get: "gm_get (md_Entries ?m) (bid b) = Some e" and "isLocalBodyState (e_State e)"
      and d': "d' = snd (writeMetadataLocked F (put_entry ?m (bid b) (relabel e st now)) d)"
    then have "refines L bid ?c (bid b) d (with_meta d (put_entry ?m (bid b) (relabel e st now)))"
      using refines_relabel [OF assms(1) get, of ?c st now] assms(2,3) by simp
    then show ?thesis
      using refines_write [OF prod.collapse [symmetric] refines_refl [OF assms(1)]] d' by simp
  qed (use refines_refl [OF assms(1)] in simp)
qed

text \<open>
  Putting a payload: the payload file first, then the metadata; a failed metadata write takes a payload
  back that the old entry did not have.
\<close>

lemma putBody_blob_refines:
  assumes ok: "cache_ok L bid d" and "put_of L c = Some (e, body)" and key: "key = bid (e_Binding e)"
    and al: "put_allowed (cache_slot L bid d key) e"
  shows "refines L bid c key d (d\<lparr>cd_blobs := gm_put (cd_blobs d) (bodyName key) body\<rparr>)"
proof (rule refines_blobs [OF ok])
  let ?d = "d\<lparr>cd_blobs := gm_put (cd_blobs d) (bodyName key) body\<rparr>"
  have ld: "cache_loaded L bid ?d = cache_loaded L bid d" by (rule cache_loaded_meta_cong) simp
  show "slot_change L c (cache_slot L bid d key) (cache_slot L bid ?d key)"
  proof (cases "gm_get (md_Entries (cache_loaded L bid d)) key")
    case None
    then show ?thesis by (simp add: cache_slot_def ld slot_change.keep)
  next
    case (Some x)
    then show ?thesis
      using slot_change.rewrite [OF assms(2), of x] slot_change.keep al
      by (auto simp: cache_slot_def ld)
  qed
qed simp

lemma putBody_refines:
  assumes L: "cid_lib_ok L" and ok: "cache_ok L bid d" and put: "put_of L c = Some (e, body)" and "clock_ok c"
    and run: "putBodyLocked bid F e body (cache_loaded L bid d) d = (r, d')"
  shows "refines L bid c (bid (e_Binding e)) d d'"
proof -
  let ?m = "cache_loaded L bid d" and ?key = "bid (e_Binding e)"
  let ?d1 = "d\<lparr>cd_blobs := gm_put (cd_blobs d) (bodyName ?key) body\<rparr>"
  let ?m' = "put_entry ?m ?key e"
  let ?undo = "\<lambda>d2. d2\<lparr>cd_blobs := gm_del (cd_blobs d2) (bodyName ?key)\<rparr>"
  note pf = put_of_ok(1) [OF L put assms(4), where bid = bid] put_of_ok(2) [OF L put assms(4)]
  show ?thesis
  proof (cases "put_allowed (cache_slot L bid d ?key) e")
    case False
    then show ?thesis
      using run refines_refl [OF ok]
      by (auto simp: putBodyLocked_def Let_def put_allowed_def cache_slot_def split: option.splits if_splits)
  next
    case al: True
    have d1: "refines L bid c ?key d ?d1" by (rule putBody_blob_refines [OF ok put refl al])
    have stored: "refines L bid c ?key d (with_meta ?d1 ?m')"
      using slot_change.store [OF put al] pf(2) by (intro refines_put_entry [OF ok pf(1) refl]) simp_all
    have order: "?undo (with_meta ?d1 ?m') = with_meta (d\<lparr>cd_blobs := gm_del (cd_blobs ?d1) (bodyName ?key)\<rparr>) ?m'"
      by (cases d) simp
    have taken: "refines L bid c ?key d (?undo (with_meta ?d1 ?m'))" if "\<not> has_body (cache_slot L bid d ?key)"
      unfolding order using slot_change.taken_back [OF put al that] pf(2)
      by (intro refines_put_entry [OF ok pf(1) refl]) simp_all
    have undone: "refines L bid c ?key d (?undo ?d1)" if nb: "\<not> has_body (cache_slot L bid d ?key)"
    proof -
      have "cache_slot L bid (?undo ?d1) ?key = cache_slot L bid d ?key"
        using nb cache_loaded_meta_cong [of "?undo ?d1" d L bid]
        by (auto simp: cache_slot_def has_body_def split: option.splits)
      then show ?thesis
        using refines_blobs [OF ok, of ?key "gm_del (cd_blobs ?d1) (bodyName ?key)" c] slot_change.keep by simp
    qed
    consider "d' = d" | "d' = ?d1" | d2 where "d2 = ?d1 \<or> d2 = with_meta ?d1 ?m'" "d' = d2"
      | d2 where "d2 = ?d1 \<or> d2 = with_meta ?d1 ?m'" "\<not> has_body (cache_slot L bid d ?key)" "d' = ?undo d2"
    proof -
      obtain rb db where wb: "writeBodyLocked F ?key body d = (rb, db)" by (cases "writeBodyLocked F ?key body d")
      have allowed: "\<not> (case gm_get (md_Entries ?m) ?key of None \<Rightarrow> False | Some x \<Rightarrow> \<not> allowedPut (e_State x) (e_State e))"
        using al by (auto simp: put_allowed_def cache_slot_def split: option.splits)
      have nb: "(case gm_get (md_Entries ?m) ?key of None \<Rightarrow> True | Some x \<Rightarrow> \<not> e_BodyPresent x) \<longleftrightarrow>
          \<not> has_body (cache_slot L bid d ?key)"
        by (auto simp: has_body_def cache_slot_def split: option.splits)
      show thesis
      proof (cases rb)
        case (Inl err)
        then have "d' = db" using run wb allowed by (auto simp: putBodyLocked_def Let_def)
        then show thesis using writeBodyLocked_cases [OF wb] that(1,2) by metis
      next
        case (Inr u)
        then have db: "db = ?d1" using writeBodyLocked_ok wb by simp
        obtain rm dm where wm: "writeMetadataLocked F ?m' ?d1 = (rm, dm)" by (cases "writeMetadataLocked F ?m' ?d1")
        have dm: "dm = ?d1 \<or> dm = with_meta ?d1 ?m'" using writeMetadataLocked_cases [OF wm] by metis
        have "d' = dm \<or> \<not> has_body (cache_slot L bid d ?key) \<and> d' = ?undo dm"
          using run wb Inr db wm allowed nb
          by (auto simp: putBodyLocked_def Let_def split: sum.splits if_splits)
        then show thesis using that(3,4) dm by blast
      qed
    qed
    then show ?thesis
      by cases (use refines_refl [OF ok] d1 stored taken undone in auto)
  qed
qed

lemma remove_refines:
  assumes ok: "cache_ok L bid d" and run: "removeLocked F key (cache_loaded L bid d) d = (r, d')"
  shows "refines L bid (CallRemove raw) key d d'"
proof (cases "gm_get (md_Entries (cache_loaded L bid d)) key")
  case None
  then show ?thesis using run refines_refl [OF ok] by (simp add: removeLocked_def)
next
  case (Some e)
  let ?m = "cache_loaded L bid d" and ?c = "CallRemove raw"
  let ?d1 = "d\<lparr>cd_blobs := gm_del (cd_blobs d) (bodyName key)\<rparr>"
  let ?m' = "?m\<lparr>md_Entries := gm_del (md_Entries ?m) key\<rparr>"
  have ld: "cache_loaded L bid ?d1 = ?m" by (rule cache_loaded_meta_cong) simp
  have m': "metadata_ok L bid ?m'" by (rule metadata_ok_del [OF cache_loaded_ok [OF ok]])
  have d1: "refines L bid ?c key d ?d1"
    by (rule refines_blobs [OF ok]) (auto simp: cache_slot_def ld Some intro: slot_change.intros)
  have d2: "refines L bid ?c key d (with_meta ?d1 ?m')"
  proof -
    have "cache_slot L bid (with_meta ?d1 ?m') k = (if k = key then None else cache_slot L bid d k)" for k
      unfolding cache_slot_meta [OF m'] by (auto simp: cache_slot_def split: option.split)
    then show ?thesis
      using slot_change.removed [OF refl, of L raw e]
      by (simp add: refines_def cache_ok_with_meta [OF m']) (simp add: cache_slot_def Some)
  qed
  have "d' = d \<or> d' = snd (writeMetadataLocked F ?m' ?d1)"
    using run by (auto simp: removeLocked_def Let_def Some split: if_splits sum.splits prod.splits)
  then show ?thesis
    using refines_refl [OF ok] refines_write [OF prod.collapse [symmetric] d1 d2] by metis
qed

section \<open>Calls\<close>

text \<open>Two phases in a row, as \<open>ReadVerified\<close> has them.\<close>

definition refines2 ::
  "cid_lib \<Rightarrow> (Binding \<Rightarrow> string) \<Rightarrow> cache_call \<Rightarrow> cache_disk \<Rightarrow> cache_disk \<Rightarrow> bool" where
  "refines2 L bid c d d' \<longleftrightarrow>
     cache_ok L bid d' \<and> (\<forall>k. call_key L bid c \<noteq> Some k \<longrightarrow> cache_slot L bid d' k = cache_slot L bid d k) \<and>
     (\<forall>k. call_key L bid c = Some k \<longrightarrow>
        (\<exists>s. slot_change L c (cache_slot L bid d k) s \<and> slot_change L c s (cache_slot L bid d' k)))"

lemma refines2_refl: "cache_ok L bid d \<Longrightarrow> refines2 L bid c d d"
  by (auto simp: refines2_def intro: slot_change.keep)

lemma refines2I:
  assumes "call_key L bid c = Some key" and "refines L bid c key d d1" and "refines L bid c key d1 d'"
  shows "refines2 L bid c d d'"
  using assms by (auto simp: refines2_def refines_def)

lemma refines2_once:
  assumes "call_key L bid c = Some key" and "refines L bid c key d d'"
  shows "refines2 L bid c d d'"
  using refines2I [OF assms] assms(2) refines_refl by (auto simp: refines_def)

lemma refines2_look:
  assumes "cache_ok L bid d" and "cache_withState L bid F False (looking f) d = (r, d')"
  shows "refines2 L bid c d d'"
proof -
  have "cache_ok L bid d'"
    using looking_refines [OF assms, where c = CallList] by (auto simp: refines_def)
  moreover have "cache_slot L bid d' k = cache_slot L bid d k" for k
    using looking_refines [OF assms, where c = CallList and key = "k @ ''x''"] by (simp add: refines_def)
  ultimately show ?thesis by (auto simp: refines2_def intro: slot_change.keep)
qed

lemma looking_call_refines2:
  assumes "cache_ok L bid d"
  shows "refines2 L bid c d (snd (with_binding L raw (\<lambda>b. cache_withState L bid F False (looking (f b))) d))"
  using refines2_look [OF assms prod.collapse [symmetric]] refines2_refl [OF assms]
  by (auto simp: with_binding_def split: sum.split)

lemma binding_refines2:
  assumes "cache_ok L bid d" and "call_binding c = Some raw"
    and "\<And>b. normalizeBinding L raw = Inr b \<Longrightarrow> call_key L bid c = Some (bid b) \<Longrightarrow> refines2 L bid c d (snd (k b d))"
  shows "refines2 L bid c d (snd (with_binding L raw k d))"
proof (cases "normalizeBinding L raw")
  case (Inl e)
  then show ?thesis using refines2_refl [OF assms(1)] by (simp add: with_binding_def)
next
  case (Inr b)
  then show ?thesis using assms(3) [OF Inr] assms(2) by (simp add: with_binding_def call_key_def)
qed

lemma verifyPayloadCID_ok: "verifyPayloadCID L c body = Inr u \<longleftrightarrow> cid_Sum L c body = Some c"
  by (auto simp: verifyPayloadCID_def require_def split: option.splits)

lemma putWithBody_refines2:
  assumes "cid_lib_ok L" and "cache_ok L bid d" and "put_of L c = Some (e, body)" and "clock_ok c"
  shows "refines2 L bid c d (snd (putWithBody L bid F e body d))"
proof -
  obtain r d' where ws: "cache_withState L bid F False (putBodyLocked bid F e body) d = (r, d')"
    by (cases "cache_withState L bid F False (putBodyLocked bid F e body) d")
  have "refines L bid c (bid (e_Binding e)) d d'"
    by (rule withState_refines [OF assms(2) ws]) (use putBody_refines [OF assms(1) _ assms(3,4)] in auto)
  then have "refines2 L bid c d d'"
    by (rule refines2_once [OF put_of_ok(6) [OF assms(1,3,4)]])
  then show ?thesis using ws by (cases r) (simp_all add: putWithBody_def)
qed

end
