(* ===== verification/CacheRun.thy ===== *)
theory CacheRun
  imports CacheRefine
begin

text \<open>
  Histories of the payload cache: sequences of calls, each under its own faults, as sequences of slot
  changes, and what such histories keep.
\<close>

section \<open>One call\<close>

lemma cache_Put_refines2:
  assumes "cid_lib_ok L" and "cache_ok L bid d" and "clock_ok c"
    and "c = CallPutVerified now raw body ev \<or> c = CallPutLocal now raw body st"
  shows "refines2 L bid c d (cache_do L bid F c d)"
  using assms(4)
proof
  assume c: "c = CallPutVerified now raw body ev"
  show ?thesis unfolding c cache_do.simps cache_PutVerified_def
  proof (rule binding_refines2 [OF assms(2)])
    fix b assume b: "normalizeBinding L raw = Inr b"
    let ?ev = "ev\<lparr>ve_Profile := TrimSpace (ve_Profile ev)\<rparr>"
    let ?k = "if ve_Profile ?ev = [] \<or> \<not> ValidString (ve_Profile ?ev) \<or> ve_Evidence ?ev = [] \<or> ve_VerifiedAt ?ev = 0
       then (Inl (CacheInvalid ''verified cache evidence is incomplete''), d)
       else case verifyPayloadCID L (b_CID b) body of Inl err \<Rightarrow> (Inl err, d)
         | Inr _ \<Rightarrow> putWithBody L bid F
             \<lparr>e_Binding = b, e_State = StateVerifiedClean, e_Verification = Some ?ev,
              e_BodyPresent = True, e_Size = int (length body), e_UpdatedAt = now\<rparr> body d"
    have "refines2 L bid (CallPutVerified now raw body ev) d (snd ?k)"
    proof (cases "put_of L (CallPutVerified now raw body ev)")
      case None
      then have "snd ?k = d"
        using b verifyPayloadCID_ok [of L "b_CID b" body]
        by (auto simp: Let_def split: sum.splits if_splits)
      then show ?thesis using refines2_refl [OF assms(2)] by simp
    next
      case (Some p)
      then have p: "p = (\<lparr>e_Binding = b, e_State = StateVerifiedClean, e_Verification = Some ?ev,
              e_BodyPresent = True, e_Size = int (length body), e_UpdatedAt = now\<rparr>, body)"
        and k: "snd ?k = snd (putWithBody L bid F (fst p) body d)"
        using b verifyPayloadCID_ok [of L "b_CID b" body]
        by (auto simp: Let_def split: sum.splits if_splits)
      then show ?thesis
        using putWithBody_refines2 [OF assms(1,2) _ assms(3), of "fst p" body F] Some c by simp
    qed
    then show "refines2 L bid (CallPutVerified now raw body ev) d (snd (let ev' = ?ev in
       if ve_Profile ev' = [] \<or> \<not> ValidString (ve_Profile ev') \<or> ve_Evidence ev' = [] \<or> ve_VerifiedAt ev' = 0
       then (Inl (CacheInvalid ''verified cache evidence is incomplete''), d)
       else case verifyPayloadCID L (b_CID b) body of Inl err \<Rightarrow> (Inl err, d)
         | Inr _ \<Rightarrow> putWithBody L bid F
             \<lparr>e_Binding = b, e_State = StateVerifiedClean, e_Verification = Some ev',
              e_BodyPresent = True, e_Size = int (length body), e_UpdatedAt = now\<rparr> body d))"
      by (simp only: Let_def)
  qed simp
next
  assume c: "c = CallPutLocal now raw body st"
  show ?thesis unfolding c cache_do.simps cache_PutLocal_def
  proof (rule binding_refines2 [OF assms(2)])
    fix b assume b: "normalizeBinding L raw = Inr b"
    let ?e = "\<lparr>e_Binding = b, e_State = st, e_Verification = None,
                e_BodyPresent = True, e_Size = int (length body), e_UpdatedAt = now\<rparr>"
    let ?k = "if st \<noteq> StateLocalDirty \<and> st \<noteq> StateOfflineOnly then (Inl ErrInvalidState, d)
       else case verifyPayloadCID L (b_CID b) body of Inl err \<Rightarrow> (Inl err, d)
         | Inr _ \<Rightarrow> putWithBody L bid F ?e body d"
    show "refines2 L bid (CallPutLocal now raw body st) d (snd ?k)"
    proof (cases "put_of L (CallPutLocal now raw body st)")
      case None
      then have "snd ?k = d"
        using b verifyPayloadCID_ok [of L "b_CID b" body] by (auto split: sum.splits if_splits)
      then show ?thesis using refines2_refl [OF assms(2)] by simp
    next
      case (Some p)
      then have "p = (?e, body)" and "snd ?k = snd (putWithBody L bid F ?e body d)"
        using b verifyPayloadCID_ok [of L "b_CID b" body] by (auto split: sum.splits if_splits)
      then show ?thesis
        using putWithBody_refines2 [OF assms(1,2) _ assms(3), of ?e body F] Some c by simp
    qed
  qed simp
qed

lemma cache_ReadVerified_refines2:
  assumes "cache_ok L bid d" and "now \<noteq> 0"
  shows "refines2 L bid (CallReadVerified verify F2 now raw) d
    (snd (cache_ReadVerified L bid verify F F2 now raw d))"
  unfolding cache_ReadVerified_def
proof (rule binding_refines2 [OF assms(1)])
  let ?c = "CallReadVerified verify F2 now raw"
  fix b assume key: "call_key L bid ?c = Some (bid b)"
  obtain r d1 where ws: "cache_withState L bid F False (readVerifiedLocked L bid F now b) d = (r, d1)"
    by (cases "cache_withState L bid F False (readVerifiedLocked L bid F now b) d")
  have one: "refines L bid ?c (bid b) d d1"
    by (rule withState_refines [OF assms(1) ws]) (use readVerified_refines [OF _ assms(2)] in auto)
  then have ok1: "cache_ok L bid d1" by (simp add: refines_def)
  have two: "refines L bid ?c (bid b) d1 (snd (cache_invalidate L bid F2 now b ev d1))" for ev
    by (rule changing_refines [OF ok1, of F2 "invalidateLocked bid b ev now"])
      (use invalidate_refines [OF _ assms(2)] in \<open>auto simp: cache_invalidate_def intro: prod.collapse [symmetric]\<close>)
  have three: "refines2 L bid ?c d (snd (cache_invalidate L bid F2 now b ev d1))" for ev
    by (rule refines2I [OF key one two])
  show "refines2 L bid ?c d (snd (case cache_withState L bid F False (readVerifiedLocked L bid F now b) d of
         (Inl err, disk1) \<Rightarrow> (Inl err, disk1)
       | (Inr (body, e), disk1) \<Rightarrow>
           (case e_Verification e of
              None \<Rightarrow> (Inl ErrNotVerified, disk1)
            | Some ev \<Rightarrow>
                (case verify b ev of
                   None \<Rightarrow> (Inr (body, e), disk1)
                 | Some msg \<Rightarrow>
                     (case cache_invalidate L bid F2 now b ev disk1 of
                        (Inl err, disk2) \<Rightarrow> (Inl (CacheJoin (CacheVerify msg) err), disk2)
                      | (Inr _, disk2) \<Rightarrow> (Inl (CacheVerify msg), disk2))))))"
    using refines2_once [OF key one] three
    by (simp add: ws split: sum.split prod.split option.split) (metis snd_conv)
qed simp

lemma cache_do_refines2:
  assumes "cid_lib_ok L" and "cache_ok L bid d" and "clock_ok c"
  shows "refines2 L bid c d (cache_do L bid F c d)"
proof (cases c)
  case (CallOpen directory)
  then show ?thesis
    using refines2_look [OF assms(2) prod.collapse [symmetric]] refines2_refl [OF assms(2)]
    by (auto simp: cache_Open_def)
next
  case (CallRecordRemote now raw)
  show ?thesis unfolding CallRecordRemote cache_do.simps cache_RecordRemote_def
  proof (rule binding_refines2 [OF assms(2)])
    fix b assume b: "normalizeBinding L raw = Inr b"
      and key: "call_key L bid (CallRecordRemote now raw) = Some (bid b)"
    show "refines2 L bid (CallRecordRemote now raw) d
        (snd (cache_withState L bid F True (changing (recordRemoteLocked bid b now)) d))"
      using assms(3) CallRecordRemote
      by (intro refines2_once [OF key] changing_refines [OF assms(2) prod.collapse [symmetric]]
          recordRemote_refines [OF assms(1) _ b]) auto
  qed simp
next
  case (CallReadVerified verify F2 now raw)
  then show ?thesis using cache_ReadVerified_refines2 [OF assms(2)] assms(3) by simp
next
  case (CallTransition now raw st)
  show ?thesis unfolding CallTransition cache_do.simps cache_Transition_def
  proof (rule binding_refines2 [OF assms(2)])
    fix b assume key: "call_key L bid (CallTransition now raw st) = Some (bid b)"
    show "refines2 L bid (CallTransition now raw st) d
        (snd (cache_withState L bid F True (changing (transitionEntryLocked bid b st now)) d))"
      using assms(3) CallTransition
      by (intro refines2_once [OF key] changing_refines [OF assms(2) prod.collapse [symmetric]]
          transition_refines) auto
  qed simp
next
  case (CallReconcile now raw st n)
  show ?thesis unfolding CallReconcile cache_do.simps cache_ReconcileLocalStateBounded_def
  proof (rule binding_refines2 [OF assms(2)])
    fix b assume key: "call_key L bid (CallReconcile now raw st n) = Some (bid b)"
    have "refines L bid (CallReconcile now raw st n) (bid b) d
        (snd (cache_withState L bid F False (reconcileStateLocked L bid F b st n now) d))"
      if "isLocalBodyState st"
      by (rule withState_refines [OF assms(2) prod.collapse [symmetric]])
        (use reconcileState_refines [OF _ _ that] assms(3) CallReconcile in auto)
    then show "refines2 L bid (CallReconcile now raw st n) d
        (snd (if \<not> isLocalBodyState st then (Inl ErrInvalidState, d)
              else cache_withState L bid F False (reconcileStateLocked L bid F b st n now) d))"
      using refines2_once [OF key] refines2_refl [OF assms(2)] by simp
  qed simp
next
  case (CallRemove raw)
  show ?thesis unfolding CallRemove cache_do.simps cache_Remove_def
  proof (rule binding_refines2 [OF assms(2)])
    fix b assume key: "call_key L bid (CallRemove raw) = Some (bid b)"
    show "refines2 L bid (CallRemove raw) d (snd (cache_withState L bid F False (removeLocked F (bid b)) d))"
      by (intro refines2_once [OF key] withState_refines [OF assms(2) prod.collapse [symmetric]])
        (auto intro: remove_refines)
  qed simp
next
  case CallList
  then show ?thesis
    using refines2_look [OF assms(2) prod.collapse [symmetric]] by (simp add: cache_List_def)
qed (use cache_Put_refines2 [OF assms] looking_call_refines2 [OF assms(2)] in
    \<open>auto simp: cache_ReadLocalBounded_def cache_VerifyLocal_def cache_ReadLocalRange_def cache_Inspect_def\<close>)

section \<open>Histories\<close>

definition cache_run ::
  "cid_lib \<Rightarrow> (Binding \<Rightarrow> string) \<Rightarrow> (faults \<times> cache_call) list \<Rightarrow> cache_disk \<Rightarrow> cache_disk" where
  "cache_run L bid history d = foldl (\<lambda>d (F, c). cache_do L bid F c d) d history"

definition calls_of :: "(faults \<times> cache_call) list \<Rightarrow> cache_call list" where
  "calls_of history = map snd history"

lemma cache_run_Nil [simp]: "cache_run L bid [] d = d"
  by (simp add: cache_run_def)

lemma cache_run_Cons [simp]:
  "cache_run L bid ((F, c) # history) d = cache_run L bid history (cache_do L bid F c d)"
  by (simp add: cache_run_def)

lemma calls_of_simps [simp]: "calls_of [] = []" "calls_of ((F, c) # history) = c # calls_of history"
  by (simp_all add: calls_of_def)

text \<open>
  A property of the slot of \<open>key\<close> that the changes of the calls keep is kept by the history.
\<close>

lemma cache_run_slot:
  assumes L: "cid_lib_ok L" and "cache_ok L bid d" and "list_all clock_ok (calls_of history)"
    and "P (cache_slot L bid d key)"
    and step: "\<And>c s s'. c \<in> set (calls_of history) \<Longrightarrow> call_key L bid c = Some key \<Longrightarrow>
      slot_change L c s s' \<Longrightarrow> P s \<Longrightarrow> P s'"
  shows "cache_ok L bid (cache_run L bid history d) \<and> P (cache_slot L bid (cache_run L bid history d) key)"
  using assms(2-)
proof (induction history arbitrary: d)
  case (Cons fc history)
  obtain F c where fc: "fc = (F, c)" by (cases fc)
  have r: "refines2 L bid c d (cache_do L bid F c d)"
    using cache_do_refines2 [OF L Cons.prems(1)] Cons.prems(2) fc by simp
  have "P (cache_slot L bid (cache_do L bid F c d) key)"
  proof (cases "call_key L bid c = Some key")
    case True
    then obtain s where "slot_change L c (cache_slot L bid d key) s"
      and "slot_change L c s (cache_slot L bid (cache_do L bid F c d) key)"
      using r by (auto simp: refines2_def)
    then show ?thesis using Cons.prems(3) Cons.prems(4) [of c] True fc by auto
  next
    case False
    then show ?thesis using r Cons.prems(3) by (auto simp: refines2_def)
  qed
  then show ?case
    using Cons.IH [of "cache_do L bid F c d"] Cons.prems(2,4) r fc by (auto simp: refines2_def)
qed simp

lemma cache_run_ok:
  assumes "cid_lib_ok L" and "cache_ok L bid d" and "list_all clock_ok (calls_of history)"
  shows "cache_ok L bid (cache_run L bid history d)"
  using cache_run_slot [OF assms, of "\<lambda>_. True"] by simp

section \<open>Verified entries come from verified puts\<close>

definition put_verified :: "cid_lib \<Rightarrow> cache_call list \<Rightarrow> Binding \<Rightarrow> VerificationEvidence \<Rightarrow> int \<Rightarrow> bool" where
  "put_verified L calls b ev sz \<longleftrightarrow>
     (\<exists>now raw body evidence e. CallPutVerified now raw body evidence \<in> set calls \<and>
        put_of L (CallPutVerified now raw body evidence) = Some (e, body) \<and>
        e_Binding e = b \<and> e_Verification e = Some ev \<and> e_Size e = sz)"

definition sourced :: "cid_lib \<Rightarrow> cache_call list \<Rightarrow> slot \<Rightarrow> bool" where
  "sourced L calls s \<longleftrightarrow>
     (\<forall>e body. s = Some (e, body) \<longrightarrow> e_State e = StateVerifiedClean \<longrightarrow>
        (\<exists>ev. e_Verification e = Some ev \<and> put_verified L calls (e_Binding e) ev (e_Size e)))"

lemma may_relabel_unverified: "may_relabel c current st now \<Longrightarrow> st \<noteq> StateVerifiedClean"
  by (cases c) (auto simp: isLocalBodyState_def)

lemma put_of_verified:
  assumes "put_of L c = Some (e, body)" and "e_State e = StateVerifiedClean" and "c \<in> set calls"
  shows "\<exists>ev. e_Verification e = Some ev \<and> put_verified L calls (e_Binding e) ev (e_Size e)"
proof (cases c)
  case (CallPutVerified now raw bd evidence)
  then have "bd = body" and v: "\<exists>ev. e_Verification e = Some ev"
    using assms(1) by (auto simp: Let_def split: sum.splits if_splits)
  then show ?thesis using assms CallPutVerified unfolding put_verified_def by blast
next
  case (CallPutLocal now raw bd st)
  then show ?thesis using assms(1,2) by (auto split: sum.splits if_splits)
qed (use assms(1) in auto)

lemma slot_change_sourced:
  assumes "slot_change L c s s'" and "c \<in> set calls" and "sourced L calls s"
  shows "sourced L calls s'"
  using assms
proof (cases rule: slot_change.cases)
  case (store e body)
  then show ?thesis using put_of_verified [OF _ _ assms(2)] by (auto simp: sourced_def)
next
  case (taken_back e body)
  then show ?thesis using put_of_verified [OF _ _ assms(2)] by (auto simp: sourced_def)
qed (auto simp: sourced_def remote_entry_def relabel_def dest: may_relabel_unverified)

section \<open>Local payloads stay\<close>

text \<open>A call gives up the payload of its slot when it removes the entry or makes it stale.\<close>

fun gives_up :: "cache_call \<Rightarrow> bool" where
  "gives_up (CallRemove _) = True"
| "gives_up (CallTransition _ _ st) = (st = StateStale)"
| "gives_up _ = False"

definition kept :: "Binding \<Rightarrow> bytes \<Rightarrow> slot \<Rightarrow> bool" where
  "kept b body s \<longleftrightarrow>
     (\<exists>e. s = Some (e, Some body) \<and> isLocalBodyState (e_State e) \<and> e_BodyPresent e \<and>
        e_Size e = int (length body) \<and> e_Binding e = b)"

text \<open>Identities and content identifiers do not collide: a put into the slot is the same put.\<close>

definition same_put :: "cid_lib \<Rightarrow> Binding \<Rightarrow> bytes \<Rightarrow> cache_call \<Rightarrow> bool" where
  "same_put L b body c \<longleftrightarrow>
     (case put_of L c of None \<Rightarrow> True | Some (e, x) \<Rightarrow> e_Binding e = b \<and> x = body)"

lemma allowedTransition_local:
  "allowedTransition current st \<Longrightarrow> isLocalBodyState current \<Longrightarrow> st \<noteq> StateStale \<Longrightarrow> isLocalBodyState st"
  by (cases current) (auto simp: allowedTransition_def isLocalBodyState_def)

lemma may_relabel_local:
  assumes "may_relabel c current st now" and "isLocalBodyState current" and "\<not> gives_up c"
  shows "isLocalBodyState st"
  using assms by (cases c) (auto simp: isLocalBodyState_def dest: allowedTransition_local)

lemma allowedPut_local: "allowedPut current st \<Longrightarrow> isLocalBodyState current \<Longrightarrow> st = current"
  by (cases current) (auto simp: allowedPut_def isLocalBodyState_def)

lemma slot_change_kept:
  assumes L: "cid_lib_ok L" and "slot_change L c s s'" and "\<not> gives_up c" and "clock_ok c"
    and "same_put L b body c" and "kept b body s"
  shows "kept b body s'"
  using assms(2)
proof (cases rule: slot_change.cases)
  case (relabel e st now x)
  then show ?thesis
    using assms(3,6) may_relabel_local by (auto simp: kept_def relabel_def)
next
  case (store e x)
  note pf = put_of_ok(2,3) [OF L store(2) assms(4)]
  have "e_Binding e = b" and "x = body" using assms(5) store(2) by (auto simp: same_put_def)
  moreover have "isLocalBodyState (e_State e)"
    using assms(6) store(3) allowedPut_local by (fastforce simp: kept_def put_allowed_def)
  ultimately show ?thesis using store pf by (simp add: kept_def)
next
  case (rewrite e x y old)
  then show ?thesis using assms(5,6) by (auto simp: same_put_def kept_def)
qed (use assms(3,6) in \<open>auto simp: kept_def isLocalBodyState_def has_body_def\<close>)

lemma cache_run_kept:
  assumes "cid_lib_ok L" and "cache_ok L bid d" and "list_all clock_ok (calls_of history)"
    and "kept b body (cache_slot L bid d key)"
    and "list_all (\<lambda>c. call_key L bid c = Some key \<longrightarrow> \<not> gives_up c \<and> same_put L b body c) (calls_of history)"
  shows "cache_ok L bid (cache_run L bid history d) \<and> kept b body (cache_slot L bid (cache_run L bid history d) key)"
  by (rule cache_run_slot [OF assms(1-3), where P = "kept b body"])
    (use assms(3-5) slot_change_kept [OF assms(1)] in \<open>auto simp: list_all_iff\<close>)

end
