(* ===== verification/CacheRange.thy ===== *)
theory CacheRange
  imports CacheOps
begin

text \<open>
  The range reader of the payload cache: whatever way the reads split the stream, the capture holds
  exactly the requested slice, also at the limits of 64-bit offsets and lengths.
\<close>

definition slice :: "nat \<Rightarrow> nat \<Rightarrow> bytes \<Rightarrow> bytes" where
  "slice offset len data = take len (drop offset data)"

lemma wantedBytes_slice:
  assumes "offset < 2 ^ 64" and "len < 2 ^ 64" and "length data < 2 ^ 63"
  shows "wantedBytes offset len (length data) = length (slice offset len data)"
    and "slice offset (wantedBytes offset len (length data)) data = slice offset len data"
proof -
  have "wantedBytes offset len (length data) = min len (length data - offset)"
  proof (cases "len \<noteq> 0 \<and> offset < length data")
    case True
    show ?thesis
    proof (cases "offset + len < 2 ^ 64")
      case True
      then have "u64 (offset + len) = offset + len" by (simp add: u64_def)
      then show ?thesis using \<open>len \<noteq> 0 \<and> _\<close> by (auto simp: wantedBytes_def Let_def min_def)
    next
      case False
      then have "u64 (offset + len) = offset + len - 2 ^ 64"
        using assms(1,2) by (simp add: u64_def le_mod_geq)
      then have "u64 (offset + len) < offset" using assms(2) False by linarith
      moreover have "length data - offset \<le> len" using False assms(3) by simp
      ultimately show ?thesis using \<open>len \<noteq> 0 \<and> _\<close> by (simp add: wantedBytes_def Let_def)
    qed
  qed (auto simp: wantedBytes_def)
  then show "wantedBytes offset len (length data) = length (slice offset len data)"
    and "slice offset (wantedBytes offset len (length data)) data = slice offset len data"
    by (simp_all add: slice_def min.commute) (simp add: min_def)
qed

text \<open>
  The state of the capture after the prefix \<open>p\<close> of the stream, for \<open>w\<close> wanted bytes.
\<close>

definition captured :: "nat \<Rightarrow> nat \<Rightarrow> bytes \<Rightarrow> rangeCapture" where
  "captured offset w p =
     \<lparr>rc_offset = offset, rc_seen = length p,
      rc_body = take w (drop offset p) @ replicate (w - (length p - offset)) (CHR 0x00),
      rc_copied = min w (length p - offset)\<rparr>"

lemma captured_start:
  "captured offset w [] =
     \<lparr>rc_offset = offset, rc_seen = 0, rc_body = replicate w (CHR 0x00), rc_copied = 0\<rparr>"
  by (simp add: captured_def)

lemma take_drop_append:
  assumes "length p - offset \<le> w"
  shows "take w (drop offset (p @ chunk)) =
    drop offset p @ take (w - (length p - offset)) (drop (offset - length p) chunk)"
  using assms by simp

lemma take_min_length: "take (min (length xs) n) xs = take n xs"
  by (simp add: min_def)

lemma arith_tail:
  fixes w q m n :: nat
  assumes "n = min w m - q" and "q \<le> w" and "q \<le> m"
  shows "w - q - n = w - m" and "min w q + n = min w m"
  using assms by (cases "w \<le> m"; simp)+

lemma copy_into_tail:
  assumes "length source \<le> k"
  shows "copy_into (xs @ replicate k z) (length xs) source =
    (xs @ source @ replicate (k - length source) z, length source)"
  using assms by (simp add: copy_into_def Let_def min_absorb2)

lemma rangeCapture_Write_captured:
  assumes "length p + length chunk < 2 ^ 64" and "offset + w < 2 ^ 64"
  shows "rangeCapture_Write (captured offset w p) chunk = captured offset w (p @ chunk)"
proof -
  let ?q = "length p - offset" and ?c = "captured offset w p"
  have stop: "u64 (length p + length chunk) = length p + length chunk" using assms(1) by (simp add: u64_def)
  have blen: "length (rc_body ?c) = w" by (simp add: captured_def min_def)
  have wend: "u64 (rc_offset ?c + length (rc_body ?c)) = offset + w"
    using assms(2) blen by (simp add: u64_def captured_def)
  consider (before) "length p + length chunk \<le> offset" | (after) "offset + w \<le> length p"
    | (inside) "offset < length p + length chunk" "length p < offset + w" by linarith
  then show ?thesis
  proof cases
    case before
    then show ?thesis
      using stop by (simp add: rangeCapture_Write_def Let_def captured_def)
  next
    case after
    then have "take w (drop offset (p @ chunk)) = take w (drop offset p)" by simp
    then show ?thesis
      using stop wend after by (simp add: rangeCapture_Write_def Let_def captured_def)
  next
    case inside
    let ?ce = "min (length p + length chunk) (offset + w)"
    define src where "src = take (?ce - length p - (offset - length p)) (drop (offset - length p) chunk)"
    have q: "?q \<le> w" using inside by linarith
    have "?ce - length p - (offset - length p) = min (length (drop (offset - length p) chunk)) (w - ?q)"
      using inside by (simp add: min_def) linarith
    then have src: "src = take (w - ?q) (drop (offset - length p) chunk)"
      unfolding src_def by (simp only: take_min_length)
    have n: "length src \<le> w - ?q" "length src = min w (length p + length chunk - offset) - ?q"
      using inside by (simp_all add: src)
    have copy: "copy_into (rc_body ?c) ?q src =
        (drop offset p @ src @ replicate (w - ?q - length src) (CHR 0x00), length src)"
      using copy_into_tail [OF n(1), of "drop offset p"] q by (simp add: captured_def)
    have "rangeCapture_Write ?c chunk =
        ?c\<lparr>rc_seen := length p + length chunk,
            rc_body := drop offset p @ src @ replicate (w - ?q - length src) (CHR 0x00),
            rc_copied := rc_copied ?c + length src\<rparr>"
    proof -
      have fields: "rc_seen ?c = length p" "rc_offset ?c = offset" by (simp_all add: captured_def)
      have max: "max (length p) offset - length p = offset - length p"
        "max (length p) offset - offset = ?q" by linarith+
      have fold_src: "take (?ce - (length p + (offset - length p))) (drop (offset - length p) chunk) = src"
        by (simp add: src_def)
      show ?thesis
        using stop wend inside copy
        by (simp add: rangeCapture_Write_def Let_def fields max fold_src)
    qed
    moreover have "take w (drop offset (p @ chunk)) = drop offset p @ src"
      unfolding src by (rule take_drop_append [OF q])
    moreover have "w - ?q - length src = w - (length p + length chunk - offset)"
      and "min w ?q + length src = min w (length p + length chunk - offset)"
      using arith_tail [OF n(2) q] by simp_all
    ultimately show ?thesis by (simp add: captured_def)
  qed
qed

lemma foldl_rangeCapture:
  assumes "length (p @ concat chunks) < 2 ^ 64" and "offset + w < 2 ^ 64"
  shows "foldl rangeCapture_Write (captured offset w p) chunks = captured offset w (p @ concat chunks)"
  using assms(1)
proof (induction chunks arbitrary: p)
  case (Cons chunk chunks)
  then show ?case
    using rangeCapture_Write_captured [of p chunk offset w] assms(2) Cons.IH [of "p @ chunk"] by simp
qed simp

text \<open>Whatever the partition of the stream, the capture of the wanted bytes is the slice.\<close>

lemma rangeCapture_slice:
  assumes "concat chunks = data" and "offset < 2 ^ 64" and "len < 2 ^ 64" and "length data < 2 ^ 63"
    and w: "w = wantedBytes offset len (length data)"
  shows "foldl rangeCapture_Write
      \<lparr>rc_offset = offset, rc_seen = 0, rc_body = replicate w (CHR 0x00), rc_copied = 0\<rparr> chunks =
    \<lparr>rc_offset = offset, rc_seen = length data, rc_body = slice offset len data, rc_copied = w\<rparr>"
proof -
  note sl = wantedBytes_slice [OF assms(2-4)]
  have wl: "w \<le> length data - offset" using sl(1) w by (simp add: slice_def)
  have "offset + w < 2 ^ 64" using wl assms(2,4) by (cases "w = 0") auto
  then have "foldl rangeCapture_Write (captured offset w []) chunks = captured offset w data"
    using foldl_rangeCapture [of "[]" chunks offset w] assms(1,4) by simp
  moreover have "take w (drop offset data) = slice offset len data"
    using sl(2) w by (simp add: slice_def)
  ultimately show ?thesis
    using wl by (simp add: captured_start) (simp add: captured_def)
qed

end
