(* ===== verification/CacheProps.thy ===== *)
theory CacheProps
  imports CacheRun CacheRange
begin

text \<open>
  The properties of the payload cache, with concrete instances evaluated on \<open>demo_cid\<close>.
\<close>

section \<open>Concrete data\<close>

definition demo_bid :: "Binding \<Rightarrow> string" where
  "demo_bid b = b_DatasetID b @ ''/'' @ b_Branch b @ ''/'' @ b_Root b @ ''/'' @ b_CID b"

definition demo_binding :: Binding where
  "demo_binding = \<lparr>b_DatasetID = ''data'', b_Branch = '' main '', b_Root = ''broot'', b_Revision = 3,
     b_CID = ''bxyz'', b_EncryptionEpoch = 0\<rparr>"

definition other_binding :: Binding where
  "other_binding = demo_binding\<lparr>b_CID := ''bq''\<rparr>"

definition demo_evidence :: VerificationEvidence where
  "demo_evidence = \<lparr>ve_Profile = ''profile'', ve_Evidence = ''proof'', ve_VerifiedAt = 7\<rparr>"

section \<open>Local payloads\<close>

lemma putWithBody_success:
  assumes "cid_lib_ok L" and "cache_ok L bid d" and "put_of L c = Some (e, body)" and "clock_ok c"
    and run: "putWithBody L bid F e body d = (Inr x, d')"
  shows "cache_ok L bid d'" and "cache_slot L bid d' (bid (e_Binding e)) = Some (e, Some body)" and "x = e"
proof -
  let ?key = "bid (e_Binding e)"
  from run obtain u where ws: "cache_withState L bid F False (putBodyLocked bid F e body) d = (Inr u, d')" and "x = e"
    by (auto simp: putWithBody_def split: prod.splits sum.splits)
  from ws obtain m d1 m' d2 where rl: "cache_reloadLocked L bid F d = (Inr m, d1)"
    and op: "putBodyLocked bid F e body m d1 = (Inr (u, m'), d2)" and d': "d' = d2"
    by (rule cache_withState_success) simp
  have sw: "swept (cache_loaded L bid d) d d1" and m: "m = cache_loaded L bid d"
    using cache_reloadLocked_ok [OF assms(2) rl] by auto
  have d2: "d2 = with_meta (d1\<lparr>cd_blobs := gm_put (cd_blobs d1) (bodyName ?key) body\<rparr>) (put_entry m ?key e)"
    using op by (auto simp: putBodyLocked_def Let_def split: if_splits prod.splits sum.splits
        dest!: writeBodyLocked_ok writeMetadataLocked_ok)
  have m': "metadata_ok L bid (put_entry m ?key e)"
    using metadata_ok_put [OF cache_loaded_ok [OF assms(2)] put_of_ok(1) [OF assms(1,3,4)]] m by simp
  show "cache_ok L bid d'" unfolding d' d2 by (rule cache_ok_with_meta [OF m'])
  show "cache_slot L bid d' ?key = Some (e, Some body)"
    unfolding d' d2 cache_slot_meta [OF m'] using put_of_ok(2) [OF assms(1,3,4)] by (simp add: put_entry_def)
  show "x = e" by fact
qed

lemma cache_PutLocal_success:
  assumes "cid_lib_ok L" and "cache_ok L bid d" and "now \<noteq> 0"
    and "cache_PutLocal L bid F now raw body st d = (Inr e, d1)"
  shows "cache_ok L bid d1" and "kept (e_Binding e) body (cache_slot L bid d1 (bid (e_Binding e)))"
    and "normalizeBinding L raw = Inr (e_Binding e)"
    and "cid_Sum L (b_CID (e_Binding e)) body = Some (b_CID (e_Binding e))"
    and "cache_slot L bid d1 (bid (e_Binding e)) = Some (e, Some body)"
proof -
  let ?c = "CallPutLocal now raw body st"
  obtain b where b: "normalizeBinding L raw = Inr b"
    using assms(4) by (cases "normalizeBinding L raw") (auto simp: cache_PutLocal_def with_binding_def)
  let ?e = "\<lparr>e_Binding = b, e_State = st, e_Verification = None, e_BodyPresent = True,
    e_Size = int (length body), e_UpdatedAt = now\<rparr>"
  have put: "put_of L ?c = Some (?e, body)" and run: "putWithBody L bid F ?e body d = (Inr e, d1)"
    and st: "isLocalBodyState st"
    using assms(4) b verifyPayloadCID_ok [of L "b_CID b" body]
    by (auto simp: cache_PutLocal_def with_binding_def isLocalBodyState_def split: if_splits sum.splits)
  note s = putWithBody_success [OF assms(1,2) put _ run]
  have clock: "clock_ok ?c" using assms(3) by simp
  show "cache_ok L bid d1" using s(1) clock by blast
  have e: "e = ?e" using s(3) clock by blast
  show "kept (e_Binding e) body (cache_slot L bid d1 (bid (e_Binding e)))"
    using s(2) [OF clock] st by (simp add: e kept_def)
  show "cache_slot L bid d1 (bid (e_Binding e)) = Some (e, Some body)" using s(2) [OF clock] by (simp add: e)
  show "normalizeBinding L raw = Inr (e_Binding e)" by (simp add: e b)
  show "cid_Sum L (b_CID (e_Binding e)) body = Some (b_CID (e_Binding e))"
    using put_of_ok(4) [OF assms(1) put clock] by (simp add: e)
qed

lemma cache_ReadLocal_kept:
  assumes "cache_ok L bid d" and "kept b body (cache_slot L bid d (bid b))" and "normalizeBinding L raw = Inr b"
    and "cid_Sum L (b_CID b) body = Some (b_CID b)" and "length body < 2 ^ 63"
  shows "\<exists>e d'. cache_ReadLocal L bid no_faults raw d = (Inr (body, e), d') \<and> e_Binding e = b"
proof -
  let ?m = "cache_loaded L bid d"
  obtain d1 where sw: "swept ?m d d1"
    and ws: "cache_withState L bid no_faults False (looking (readLocalLocked L bid no_faults b (2 ^ 63 - 1))) d =
      (case looking (readLocalLocked L bid no_faults b (2 ^ 63 - 1)) ?m d1 of
         (Inl e, d2) \<Rightarrow> (Inl e, d2) | (Inr (x, m'), d2) \<Rightarrow> (Inr x, if False then with_meta d2 m' else d2))"
    by (rule cache_withState_no_faults [OF assms(1) refl])
  from assms(2) obtain e where get: "gm_get (md_Entries ?m) (bid b) = Some e"
    and e: "isLocalBodyState (e_State e)" "e_BodyPresent e" "e_Size e = int (length body)" "e_Binding e = b"
    and blob: "gm_get (cd_blobs d) (bodyName (bid b)) = Some body"
    by (auto simp: kept_def cache_slot_def split: option.splits if_splits)
  have blob1: "gm_get (cd_blobs d1) (bodyName (bid b)) = Some body"
    using sw blob referenced_get [OF get e(2)] by (simp add: swept_def)
  have "e_State e \<noteq> StateVerifiedClean" "e_State e \<noteq> StateUnmaterializedRemote" "e_State e \<noteq> StateStale"
    using e(1) by (auto simp: isLocalBodyState_def)
  moreover have "int (length body) \<le> maxIntValue" "length body \<le> 2 ^ 63 - 1"
    using assms(5) by (simp_all add: maxIntValue_def)
  moreover have "verifyPayloadCID L (b_CID b) body = Inr ()"
    using assms(4) by (simp add: verifyPayloadCID_def)
  ultimately have "readLocalLocked L bid no_faults b (2 ^ 63 - 1) ?m d1 = Inr (body, e)"
    using get e blob1
    by (simp add: readLocalLocked_def openBoundedLocalBodyLocked_def no_faults_def)
  then show ?thesis
    using ws e(4) assms(3)
    by (simp add: cache_ReadLocal_def cache_ReadLocalBounded_def with_binding_def looking_def)
qed

text \<open>
  C11: a payload that \<open>PutLocal\<close> acknowledged is not lost.  After any further calls on the cache, each
  under arbitrary faults, as long as none of them removes the entry or marks it stale and identities
  and content identifiers do not collide, \<open>ReadLocal\<close> returns exactly that payload (of less than \<open>2 ^ 63\<close> bytes).
\<close>

theorem cache_local_durable:
  assumes "cid_lib_ok L" and "cache_ok L bid d" and "now \<noteq> 0"
    and "cache_PutLocal L bid F now raw body st d = (Inr e, d1)"
    and "list_all clock_ok (calls_of history)"
    and "list_all (\<lambda>c. call_key L bid c = Some (bid (e_Binding e)) \<longrightarrow>
           \<not> gives_up c \<and> same_put L (e_Binding e) body c) (calls_of history)"
    and "length body < 2 ^ 63"
  shows "\<exists>e' d2. cache_ReadLocal L bid no_faults raw (cache_run L bid history d1) = (Inr (body, e'), d2) \<and>
    e_Binding e' = e_Binding e"
proof -
  note put = cache_PutLocal_success [OF assms(1-4)]
  have "cache_ok L bid (cache_run L bid history d1)"
    and "kept (e_Binding e) body (cache_slot L bid (cache_run L bid history d1) (bid (e_Binding e)))"
    using cache_run_kept [OF assms(1) put(1) assms(5) put(2) assms(6)] by auto
  then show ?thesis using cache_ReadLocal_kept put(3,4) assms(7) by blast
qed

definition demo_cache_history :: "(faults \<times> cache_call) list" where
  "demo_cache_history =
     [(\<lambda>st. st = OnBody SyncParent, CallPutLocal 5 demo_binding ''xyz'' StateLocalDirty),
      (no_faults, CallTransition 6 demo_binding StatePendingUpload),
      (\<lambda>st. st = SyncParent, CallPutVerified 7 other_binding ''q'' demo_evidence),
      (no_faults, CallRemove other_binding),
      (no_faults, CallReconcile 8 demo_binding StateConflicted 100)]"

theorem cache_local_durable_witness:
  "\<exists>e' d2. cache_ReadLocal demo_cid demo_bid no_faults demo_binding
     (cache_run demo_cid demo_bid demo_cache_history
        (snd (cache_PutLocal demo_cid demo_bid no_faults 4 demo_binding ''xyz'' StateLocalDirty empty_cache)))
     = (Inr (''xyz'', e'), d2) \<and> b_Branch (e_Binding e') = ''main''"
proof -
  let ?put = "cache_PutLocal demo_cid demo_bid no_faults 4 demo_binding ''xyz'' StateLocalDirty empty_cache"
  have run: "fst ?put = Inr (projr (fst ?put))" "b_Branch (e_Binding (projr (fst ?put))) = ''main''"
    by code_simp+
  have one: "?put = (Inr (projr (fst ?put)), snd ?put)" using run(1) by (metis prod.collapse)
  have clocks: "list_all clock_ok (calls_of demo_cache_history)" by code_simp
  have calls: "list_all (\<lambda>c. call_key demo_cid demo_bid c = Some (demo_bid (e_Binding (projr (fst ?put)))) \<longrightarrow>
      \<not> gives_up c \<and> same_put demo_cid (e_Binding (projr (fst ?put))) ''xyz'' c) (calls_of demo_cache_history)"
    by code_simp
  show ?thesis
    using cache_local_durable [OF demo_cid_ok cache_ok_empty _ one clocks calls] run(2) by auto
qed

section \<open>Verified payloads\<close>

lemma markCorruptLocked_fails: "markCorruptLocked F now key e cause m d \<noteq> (Inr x, d')"
  by (auto simp: markCorruptLocked_def Let_def split: prod.splits sum.splits)

lemma readVerifiedLocked_success:
  assumes "readVerifiedLocked L bid F now b m d = (Inr ((body, e), m'), d')"
  shows "gm_get (md_Entries m) (bid b) = Some e" and "e_State e = StateVerifiedClean" and "e_BodyPresent e"
    and "gm_get (cd_blobs d) (bodyName (bid b)) = Some body" and "int (length body) = e_Size e"
    and "cid_Sum L (b_CID b) body = Some (b_CID b)" and "d' = d"
  using assms verifyPayloadCID_ok [of L "b_CID b" body]
  by (auto simp: readVerifiedLocked_def markCorruptLocked_fails split: option.splits if_splits sum.splits)

lemma cache_ReadVerified_success:
  assumes "cache_ReadVerified L bid verify F F2 now raw d = (Inr (body, e), d')"
  obtains b m d1 ev where "normalizeBinding L raw = Inr b" and "cache_reloadLocked L bid F d = (Inr m, d1)"
    and "gm_get (md_Entries m) (bid b) = Some e" and "e_State e = StateVerifiedClean"
    and "e_Verification e = Some ev" and "verify b ev = None" and "int (length body) = e_Size e"
    and "cid_Sum L (b_CID b) body = Some (b_CID b)"
    and "gm_get (cd_blobs d1) (bodyName (bid b)) = Some body"
proof -
  obtain b where b: "normalizeBinding L raw = Inr b"
    using assms by (cases "normalizeBinding L raw") (auto simp: cache_ReadVerified_def with_binding_def)
  from assms b obtain d2 ev where
    ws: "cache_withState L bid F False (readVerifiedLocked L bid F now b) d = (Inr (body, e), d2)"
    and ev: "e_Verification e = Some ev" "verify b ev = None"
    by (auto simp: cache_ReadVerified_def with_binding_def split: prod.splits sum.splits option.splits)
  from ws obtain m d1 m' where rl: "cache_reloadLocked L bid F d = (Inr m, d1)"
    and op: "readVerifiedLocked L bid F now b m d1 = (Inr ((body, e), m'), d2)"
    by (rule cache_withState_success) simp
  show ?thesis
    using that [OF b rl _ _ ev] readVerifiedLocked_success [OF op] by blast
qed

lemma cache_reloadLocked_entry:
  assumes "cache_reloadLocked L bid F d = (Inr m, d1)" and "gm_get (md_Entries m) key = Some e"
  shows "bid (e_Binding e) = key"
    and "\<exists>file entries x. cd_meta d = Some (Decoded file) \<and> mf_Entries file = Some entries \<and>
      gm_get entries key = Some x \<and> normalizeEntry L x = Inr e"
proof -
  have rl: "reload_with F CacheIO (CacheInvalid ''decode cache metadata'') emptyMetadata
      (checkMetadata L bid) (cd_meta d) = Inr m"
    using assms(1) by (auto simp: cache_reloadLocked_def split: sum.splits prod.splits)
  then obtain f where fd: "cd_meta d = Some (Decoded f)" and check: "checkMetadata L bid f = Inr m"
    using assms(2) by (auto simp: reload_with_def emptyMetadata_def split: if_splits option.splits content.splits)
  then obtain entries where entries: "mf_Entries f = Some entries"
    and "check_entries L bid entries = Inr (md_Entries m)"
    by (auto simp: checkMetadata_def result_simps split: option.splits)
  from check_entries_get [OF this(2) assms(2)] fd entries show "bid (e_Binding e) = key"
    and "\<exists>file entries x. cd_meta d = Some (Decoded file) \<and> mf_Entries file = Some entries \<and>
      gm_get entries key = Some x \<and> normalizeEntry L x = Inr e"
    by auto
qed

text \<open>
  C4: whatever the files of the cache directory hold, also after tampering, \<open>ReadVerified\<close> returns bytes
  only if they hash to the payload CID the caller asked for, the metadata records them as verified
  under the identity of the caller's binding, and the caller's verifier accepted the recorded evidence for
  that binding.
\<close>

theorem cache_read_verified_safe:
  assumes "cache_ReadVerified L bid verify F F2 now raw d = (Inr (body, e), d')"
  shows "\<exists>b ev. normalizeBinding L raw = Inr b \<and> cid_Sum L (b_CID b) body = Some (b_CID b) \<and>
    e_State e = StateVerifiedClean \<and> e_Verification e = Some ev \<and> verify b ev = None \<and>
    bid (e_Binding e) = bid b \<and> e_Size e = int (length body) \<and>
    gm_get (cd_blobs d) (bodyName (bid b)) = Some body"
proof -
  from assms show ?thesis
  proof (rule cache_ReadVerified_success)
    fix b m d1 ev
    assume b: "normalizeBinding L raw = Inr b" and rl: "cache_reloadLocked L bid F d = (Inr m, d1)"
      and get: "gm_get (md_Entries m) (bid b) = Some e" and e: "e_State e = StateVerifiedClean"
      and ev: "e_Verification e = Some ev" "verify b ev = None" and len: "int (length body) = e_Size e"
      and sum: "cid_Sum L (b_CID b) body = Some (b_CID b)"
      and blob: "gm_get (cd_blobs d1) (bodyName (bid b)) = Some body"
    obtain u where "reconcileLocked F m d = (Inr u, d1)"
      using rl by (auto simp: cache_reloadLocked_def split: sum.splits prod.splits)
    then have sw: "swept m d d1" by (rule reconcileLocked_swept)
    have x: "normalizeEntry L y = Inr e \<Longrightarrow> e_BodyPresent e" for y
      using e by (auto simp: normalizeEntry_def result_simps stateMetadata_ok_def split: option.splits)
    then have "e_BodyPresent e" using cache_reloadLocked_entry(2) [OF rl get] by blast
    then have "gm_get (cd_blobs d) (bodyName (bid b)) = Some body"
      using sw blob referenced_get [OF get] by (simp add: swept_def)
    then show ?thesis
      using b e ev len sum cache_reloadLocked_entry(1) [OF rl get] by auto
  qed
qed

definition demo_cache_disk :: cache_disk where
  "demo_cache_disk =
     snd (cache_PutVerified demo_cid demo_bid no_faults 4 demo_binding ''xyz'' demo_evidence empty_cache)"

theorem cache_read_verified_safe_witness:
  "\<exists>b (ev :: VerificationEvidence). normalizeBinding demo_cid demo_binding = Inr b \<and> cid_Sum demo_cid (b_CID b) ''xyz'' = Some (b_CID b) \<and>
     (if ve_Profile ev = ''profile'' then None else Some ''rejected'') = None \<and>
     gm_get (cd_blobs demo_cache_disk) (bodyName (demo_bid b)) = Some ''xyz''"
proof -
  let ?verify = "\<lambda>(b :: Binding) ev. if ve_Profile ev = ''profile'' then None else Some ''rejected''"
  let ?read = "cache_ReadVerified demo_cid demo_bid ?verify no_faults no_faults 9 demo_binding demo_cache_disk"
  have run: "fst ?read = Inr (''xyz'', snd (projr (fst ?read)))" by code_simp
  then have one: "?read = (Inr (''xyz'', snd (projr (fst ?read))), snd ?read)" by (metis prod.collapse)
  from cache_read_verified_safe [OF one] show ?thesis by blast
qed

text \<open>
  C30: verified data has a verified origin.  A payload that \<open>ReadVerified\<close> serves after any history of
  calls on a new cache, under arbitrary faults, was stored by a \<open>PutVerified\<close> of that history with the
  same binding, size and evidence; no sequence of transitions, reconciliations or local puts yields it.
\<close>

theorem cache_verified_provenance:
  assumes "cid_lib_ok L" and "list_all clock_ok (calls_of history)"
    and "cache_ReadVerified L bid verify F F2 now raw (cache_run L bid history empty_cache) = (Inr (body, e), d')"
  shows "\<exists>t raw' stored evidence. CallPutVerified t raw' stored evidence \<in> set (calls_of history) \<and>
    normalizeBinding L raw' = Inr (e_Binding e) \<and> length stored = length body \<and>
    cid_Sum L (b_CID (e_Binding e)) stored = Some (b_CID (e_Binding e)) \<and>
    e_Verification e = Some (evidence\<lparr>ve_Profile := TrimSpace (ve_Profile evidence)\<rparr>)"
proof -
  let ?d = "cache_run L bid history empty_cache" and ?calls = "calls_of history"
  from assms(3) show ?thesis
  proof (rule cache_ReadVerified_success)
    fix b m d1 ev
    assume rl: "cache_reloadLocked L bid F ?d = (Inr m, d1)" and get: "gm_get (md_Entries m) (bid b) = Some e"
      and e: "e_State e = StateVerifiedClean" and len: "int (length body) = e_Size e"
    have "sourced L ?calls (cache_slot L bid empty_cache (bid b))"
      by (simp add: sourced_def cache_slot_def cache_loaded_def loaded_def empty_cache_def emptyMetadata_def)
    then have "cache_ok L bid ?d" and src: "sourced L ?calls (cache_slot L bid ?d (bid b))"
      using cache_run_slot [OF assms(1) cache_ok_empty assms(2), where P = "sourced L ?calls"]
        slot_change_sourced by blast+
    then have "m = cache_loaded L bid ?d" using cache_reloadLocked_ok(2) [OF _ rl] by blast
    then have "cache_slot L bid ?d (bid b) =
        Some (e, if e_BodyPresent e then gm_get (cd_blobs ?d) (bodyName (bid b)) else None)"
      using get by (simp add: cache_slot_def)
    then obtain ev' t raw' stored evidence e' where c: "CallPutVerified t raw' stored evidence \<in> set ?calls"
      and put: "put_of L (CallPutVerified t raw' stored evidence) = Some (e', stored)"
      and e': "e_Binding e' = e_Binding e" "e_Verification e' = e_Verification e" "e_Size e' = e_Size e"
      using src e by (auto simp: sourced_def put_verified_def)
    from put have "normalizeBinding L raw' = Inr (e_Binding e')" and "e_Size e' = int (length stored)"
      and "cid_Sum L (b_CID (e_Binding e')) stored = Some (b_CID (e_Binding e'))"
      and "e_Verification e' = Some (evidence\<lparr>ve_Profile := TrimSpace (ve_Profile evidence)\<rparr>)"
      by (auto simp: Let_def split: sum.splits if_splits)
    then show ?thesis using c e' len by fastforce
  qed
qed

definition demo_verified_history :: "(faults \<times> cache_call) list" where
  "demo_verified_history =
     [(no_faults, CallRecordRemote 2 demo_binding),
      (no_faults, CallPutVerified 3 demo_binding ''xyz'' demo_evidence),
      (\<lambda>st. st = RenameTemp, CallTransition 4 demo_binding StateStale)]"

theorem cache_verified_provenance_witness:
  "\<exists>t raw' stored evidence. CallPutVerified t raw' stored evidence \<in> set (calls_of demo_verified_history) \<and>
     length stored = length ''xyz''"
proof -
  let ?d = "cache_run demo_cid demo_bid demo_verified_history empty_cache"
  let ?read = "cache_ReadVerified demo_cid demo_bid (\<lambda>b ev. None) no_faults no_faults 9 demo_binding ?d"
  have run: "fst ?read = Inr (''xyz'', snd (projr (fst ?read)))" by code_simp
  then have one: "?read = (Inr (''xyz'', snd (projr (fst ?read))), snd ?read)" by (metis prod.collapse)
  have clocks: "list_all clock_ok (calls_of demo_verified_history)" by code_simp
  show ?thesis using cache_verified_provenance [OF demo_cid_ok clocks one] by blast
qed

end
