(* ===== verification/CacheBehaviour.thy ===== *)
theory CacheBehaviour
  imports CacheProps
begin

text \<open>
  Refinement of the slot model, the branches of verified reads, and the range reader of the payload
  cache.
\<close>

text \<open>
  C5: every call of the cache, under any faults, changes at most the slot of its own binding, and there
  only as the slot relation allows: at most two changes, one per locked phase.  The directory stays
  sound.
\<close>

theorem cache_refines_slots:
  assumes "cid_lib_ok L" and "cache_ok L bid d" and "clock_ok c"
  shows "cache_ok L bid (cache_do L bid F c d) \<and>
    (if call_key L bid c = Some k
     then (slot_change L c OO slot_change L c) (cache_slot L bid d k) (cache_slot L bid (cache_do L bid F c d) k)
     else cache_slot L bid (cache_do L bid F c d) k = cache_slot L bid d k)"
  using cache_do_refines2 [OF assms, of F] by (auto simp: refines2_def OO_def)

theorem cache_refines_slots_witness:
  "cache_slot demo_cid demo_bid (cache_do demo_cid demo_bid (\<lambda>st. st = SyncParent)
       (CallRemove other_binding) demo_cache_disk) (demo_bid (demo_binding\<lparr>b_Branch := ''main''\<rparr>)) =
     cache_slot demo_cid demo_bid demo_cache_disk (demo_bid (demo_binding\<lparr>b_Branch := ''main''\<rparr>)) \<and>
   (slot_change demo_cid (CallRemove demo_binding) OO slot_change demo_cid (CallRemove demo_binding))
     (cache_slot demo_cid demo_bid demo_cache_disk (demo_bid (demo_binding\<lparr>b_Branch := ''main''\<rparr>)))
     (cache_slot demo_cid demo_bid (cache_do demo_cid demo_bid (\<lambda>st. st = RenameTemp)
       (CallRemove demo_binding) demo_cache_disk) (demo_bid (demo_binding\<lparr>b_Branch := ''main''\<rparr>)))"
proof -
  have ok: "cache_ok demo_cid demo_bid demo_cache_disk"
    using cache_do_refines2 [OF demo_cid_ok cache_ok_empty, of "CallPutVerified 4 demo_binding ''xyz'' demo_evidence" demo_bid no_faults]
    by (simp add: refines2_def demo_cache_disk_def)
  have keys: "call_key demo_cid demo_bid (CallRemove other_binding) \<noteq> Some (demo_bid (demo_binding\<lparr>b_Branch := ''main''\<rparr>))"
    "call_key demo_cid demo_bid (CallRemove demo_binding) = Some (demo_bid (demo_binding\<lparr>b_Branch := ''main''\<rparr>))"
    by code_simp+
  show ?thesis
    using cache_refines_slots [OF demo_cid_ok ok, of "CallRemove other_binding" "\<lambda>st. st = SyncParent"
        "demo_bid (demo_binding\<lparr>b_Branch := ''main''\<rparr>)"]
      cache_refines_slots [OF demo_cid_ok ok, of "CallRemove demo_binding" "\<lambda>st. st = RenameTemp"
        "demo_bid (demo_binding\<lparr>b_Branch := ''main''\<rparr>)"] keys
    by (simp del: cache_do.simps)
qed

text \<open>
  the cache always reopens.  Any history of calls under arbitrary faults, started on a new
  directory, leaves metadata that validates, so opening the cache without faults succeeds.
\<close>

theorem cache_always_reopens:
  assumes "cid_lib_ok L" and "list_all clock_ok (calls_of history)" and "TrimSpace directory \<noteq> []"
  shows "fst (cache_Open L bid no_faults directory (cache_run L bid history empty_cache)) = Inr ()"
proof -
  have "cache_ok L bid (cache_run L bid history empty_cache)"
    by (rule cache_run_ok [OF assms(1) cache_ok_empty assms(2)])
  from this refl show ?thesis
    by (rule cache_withState_no_faults [where w = False and op = "looking (\<lambda>_ _. Inr ())"])
      (use assms(3) in \<open>simp add: cache_Open_def looking_def\<close>)
qed

theorem cache_always_reopens_witness:
  "fst (cache_Open demo_cid demo_bid no_faults ''cache''
     (cache_run demo_cid demo_bid demo_cache_history empty_cache)) = Inr ()"
  by (rule cache_always_reopens [OF demo_cid_ok]) code_simp+

section \<open>The branches of a verified read\<close>

definition served :: "cid_lib \<Rightarrow> Binding \<Rightarrow> Entry \<Rightarrow> bytes option \<Rightarrow> bool" where
  "served L b e x \<longleftrightarrow>
     (\<exists>body. x = Some body \<and> int (length body) = e_Size e \<and> cid_Sum L (b_CID b) body = Some (b_CID b))"

lemma cache_slot_relabel:
  assumes ok: "cache_ok L bid d" and slot: "cache_slot L bid d key = Some (e, x)"
    and may: "may_relabel c (e_State e) st now" and "clock_ok c"
  shows "cache_ok L bid (with_meta d (put_entry (cache_loaded L bid d) key (relabel e st now)))"
    and "cache_slot L bid (with_meta d (put_entry (cache_loaded L bid d) key (relabel e st now))) key =
      Some (relabel e st now, x)"
proof -
  have get: "gm_get (md_Entries (cache_loaded L bid d)) key = Some e"
    and x: "x = (if e_BodyPresent e then gm_get (cd_blobs d) (bodyName key) else None)"
    using slot by (auto simp: cache_slot_def split: option.splits)
  have m': "metadata_ok L bid (put_entry (cache_loaded L bid d) key (relabel e st now))"
    using cache_loaded_ok [OF ok] relabel_ok [OF metadata_ok_get [OF cache_loaded_ok [OF ok] get] may assms(4)]
    by (rule metadata_ok_put)
  show "cache_ok L bid (with_meta d (put_entry (cache_loaded L bid d) key (relabel e st now)))"
    by (rule cache_ok_with_meta [OF m'])
  show "cache_slot L bid (with_meta d (put_entry (cache_loaded L bid d) key (relabel e st now))) key =
      Some (relabel e st now, x)"
    unfolding cache_slot_meta [OF m'] by (simp add: put_entry_def x relabel_def)
qed

lemma readVerified_no_faults:
  assumes ok: "cache_ok L bid d" and slot: "cache_slot L bid d (bid b) = Some (e, x)"
    and clean: "e_State e = StateVerifiedClean" and "now \<noteq> 0"
  shows "\<exists>d'. cache_ok L bid d' \<and>
    (if served L b e x
     then cache_withState L bid no_faults False (readVerifiedLocked L bid no_faults now b) d = (Inr (the x, e), d') \<and>
       cache_slot L bid d' = cache_slot L bid d
     else (\<exists>err. cache_withState L bid no_faults False (readVerifiedLocked L bid no_faults now b) d = (Inl err, d')) \<and>
       cache_slot L bid d' (bid b) = Some (relabel e StateStale now, x))"
proof -
  let ?m = "cache_loaded L bid d" and ?op = "readVerifiedLocked L bid no_faults now b"
  obtain d1 where sw: "swept ?m d d1" and ws: "cache_withState L bid no_faults False ?op d =
      (case ?op ?m d1 of (Inl e, d2) \<Rightarrow> (Inl e, d2) | (Inr (x, m'), d2) \<Rightarrow> (Inr x, if False then with_meta d2 m' else d2))"
    by (rule cache_withState_no_faults [OF ok refl])
  have ok1: "cache_ok L bid d1" and slot1: "cache_slot L bid d1 = cache_slot L bid d"
    and m1: "cache_loaded L bid d1 = ?m"
    using cache_ok_swept [OF ok sw] cache_slot_swept [OF sw] loaded_swept [OF sw] by auto
  have get: "gm_get (md_Entries ?m) (bid b) = Some e"
    and x: "x = (if e_BodyPresent e then gm_get (cd_blobs d1) (bodyName (bid b)) else None)"
    using slot slot1 by (auto simp: cache_slot_def m1 fun_eq_iff split: option.splits dest: spec [of _ "bid b"])
  note eok = entry_ok_dest(6) [OF metadata_ok_get [OF cache_loaded_ok [OF ok] get]]
  then have ev: "e_Verification e \<noteq> None" and bp: "e_BodyPresent e"
    using clean by (auto simp: stateMetadata_ok_def split: option.splits)
  let ?d2 = "with_meta d1 (put_entry ?m (bid b) (relabel e StateStale now))"
  have may: "may_relabel (CallReadVerified (\<lambda>_ _. None) no_faults now b) (e_State e) StateStale now"
    using clean by simp
  have stale: "cache_ok L bid ?d2" "cache_slot L bid ?d2 (bid b) = Some (relabel e StateStale now, x)"
    using cache_slot_relabel [OF ok1 _ may, of "bid b" x] slot slot1 assms(4) m1 by auto
  have nf: "no_faults st = False" for st by (simp add: no_faults_def)
  have corrupt: "markCorruptLocked no_faults now (bid b) e cause ?m d1 = (Inl cause, ?d2)" for cause :: cache_error
    by (simp add: markCorruptLocked_def writeMetadataLocked_no_faults relabel_def)
  show ?thesis
  proof (cases "served L b e x")
    case True
    then have "?op ?m d1 = (Inr ((the x, e), ?m), d1)"
      using get clean ev bp x by (auto simp: readVerifiedLocked_def served_def nf verifyPayloadCID_def)
    then show ?thesis using True ws ok1 slot1 by simp
  next
    case False
    have "\<exists>cause. ?op ?m d1 = (Inl cause, ?d2)"
    proof (cases x)
      case None
      then show ?thesis
        using get clean ev bp x by (auto simp: readVerifiedLocked_def corrupt nf)
    next
      case (Some body)
      then have "int (length body) \<noteq> e_Size e \<or> (\<exists>err. verifyPayloadCID L (b_CID b) body = Inl err)"
        using False verifyPayloadCID_ok [of L "b_CID b" body]
        by (cases "verifyPayloadCID L (b_CID b) body") (auto simp: served_def)
      then show ?thesis
        using Some get clean ev bp x by (auto simp: readVerifiedLocked_def corrupt nf)
    qed
    then show ?thesis using False ws stale by auto
  qed
qed

lemma invalidate_no_faults:
  assumes ok: "cache_ok L bid d" and slot: "cache_slot L bid d (bid b) = Some (e, x)"
    and clean: "e_State e = StateVerifiedClean" and ev: "e_Verification e = Some ev" and "now \<noteq> 0"
  shows "\<exists>d'. cache_invalidate L bid no_faults now b ev d = (Inr (), d') \<and>
    cache_slot L bid d' (bid b) = Some (relabel e StateStale now, x)"
proof -
  let ?m' = "put_entry (cache_loaded L bid d) (bid b) (relabel e StateStale now)"
  have inv: "invalidateLocked bid b ev now (cache_loaded L bid d) = Inr ((), ?m')"
    using slot ev by (auto simp: invalidateLocked_def cache_slot_def sameEvidence_def relabel_def split: option.splits)
  obtain d1 where sw: "swept (cache_loaded L bid d) d d1"
    and run: "cache_invalidate L bid no_faults now b ev d = (Inr (), with_meta d1 ?m')"
    by (rule cache_withState_no_faults [OF ok refl, where w = True and op = "changing (invalidateLocked bid b ev now)"])
      (simp add: cache_invalidate_def changing_def inv)
  have may: "may_relabel (CallReadVerified (\<lambda>_ _. None) no_faults now b) (e_State e) StateStale now"
    using clean by simp
  have "cache_slot L bid (with_meta d1 ?m') (bid b) = Some (relabel e StateStale now, x)"
    using cache_slot_relabel(2) [OF cache_ok_swept [OF ok sw] _ may, of "bid b" x] assms(5) slot
      cache_slot_swept [OF sw] loaded_swept [OF sw, of L bid] by simp
  then show ?thesis using run by blast
qed

text \<open>
  what \<open>ReadVerified\<close> does on each branch of a sound cache without faults: an entry that is not
  verified is refused; a verified entry is served only with an intact payload and accepted
  evidence, and otherwise the read fails and demotes the entry to stale, keeping its payload file.
\<close>

theorem cache_read_verified_branches:
  assumes "cache_ok L bid d" and "normalizeBinding L raw = Inr b" and "now \<noteq> 0"
    and "cache_ReadVerified L bid verify no_faults no_faults now raw d = (r, d')"
  shows "case cache_slot L bid d (bid b) of
      None \<Rightarrow> r \<in> {Inl ErrMiss, Inl ErrBindingMismatch} \<and> cache_slot L bid d' = cache_slot L bid d
    | Some (e, x) \<Rightarrow>
        if e_State e \<noteq> StateVerifiedClean
        then r = Inl ErrNotVerified \<and> cache_slot L bid d' = cache_slot L bid d
        else if served L b e x \<and> verify b (the (e_Verification e)) = None
        then r = Inr (the x, e) \<and> cache_slot L bid d' = cache_slot L bid d
        else isl r \<and> cache_slot L bid d' (bid b) = Some (relabel e StateStale now, x)"
proof -
  let ?m = "cache_loaded L bid d" and ?op = "readVerifiedLocked L bid no_faults now b"
  let ?ws = "cache_withState L bid no_faults False ?op d"
  obtain d1 where sw: "swept ?m d d1" and ws: "?ws =
      (case ?op ?m d1 of (Inl e, d2) \<Rightarrow> (Inl e, d2) | (Inr (x, m'), d2) \<Rightarrow> (Inr x, if False then with_meta d2 m' else d2))"
    by (rule cache_withState_no_faults [OF assms(1) refl])
  note slot1 = cache_slot_swept [OF sw]
  have outer: "(r, d') = (case ?ws of
         (Inl err, disk1) \<Rightarrow> (Inl err, disk1)
       | (Inr (body, e), disk1) \<Rightarrow>
           (case e_Verification e of
              None \<Rightarrow> (Inl ErrNotVerified, disk1)
            | Some ev \<Rightarrow>
                (case verify b ev of
                   None \<Rightarrow> (Inr (body, e), disk1)
                 | Some msg \<Rightarrow>
                     (case cache_invalidate L bid no_faults now b ev disk1 of
                        (Inl err, disk2) \<Rightarrow> (Inl (CacheJoin (CacheVerify msg) err), disk2)
                      | (Inr _, disk2) \<Rightarrow> (Inl (CacheVerify msg), disk2)))))"
    using assms(2,4) by (simp add: cache_ReadVerified_def with_binding_def)
  show ?thesis
  proof (cases "cache_slot L bid d (bid b)")
    case None
    then have "gm_get (md_Entries ?m) (bid b) = None" by (auto simp: cache_slot_def split: option.splits)
    then show ?thesis using outer ws slot1 None by (simp add: readVerifiedLocked_def split: if_splits)
  next
    case (Some p)
    obtain e x where p: "p = (e, x)" by (cases p)
    note slot = Some [unfolded p]
    then have get: "gm_get (md_Entries ?m) (bid b) = Some e" by (auto simp: cache_slot_def split: option.splits)
    show ?thesis
    proof (cases "e_State e = StateVerifiedClean")
      case False
      then show ?thesis using outer ws slot1 slot get by (simp add: readVerifiedLocked_def)
    next
      case clean: True
      then obtain ev where ev: "e_Verification e = Some ev"
        using entry_ok_dest(6) [OF metadata_ok_get [OF cache_loaded_ok [OF assms(1)] get]]
        by (auto simp: stateMetadata_ok_def split: option.splits)
      from readVerified_no_faults [OF assms(1) slot clean assms(3)] obtain d2 where ok2: "cache_ok L bid d2"
        and phase: "if served L b e x
          then ?ws = (Inr (the x, e), d2) \<and> cache_slot L bid d2 = cache_slot L bid d
          else (\<exists>err. ?ws = (Inl err, d2)) \<and> cache_slot L bid d2 (bid b) = Some (relabel e StateStale now, x)" by blast
      show ?thesis
      proof (cases "served L b e x \<and> verify b ev \<noteq> None")
        case False
        then show ?thesis using outer phase slot clean ev by (auto split: if_splits)
      next
        case True
        then obtain msg where msg: "verify b ev = Some msg" by auto
        have slot2: "cache_slot L bid d2 (bid b) = Some (e, x)" using phase True slot by simp
        obtain d3 where "cache_invalidate L bid no_faults now b ev d2 = (Inr (), d3)"
          and "cache_slot L bid d3 (bid b) = Some (relabel e StateStale now, x)"
          using invalidate_no_faults [OF ok2 slot2 clean ev assms(3)] by blast
        then show ?thesis using outer phase slot clean ev True msg by simp
      qed
    qed
  qed
qed

theorem cache_read_verified_branches_witness:
  "cache_slot demo_cid demo_bid
     (snd (cache_ReadVerified demo_cid demo_bid (\<lambda>b ev. Some ''expired'') no_faults no_faults 9 demo_binding demo_cache_disk))
     (demo_bid (demo_binding\<lparr>b_Branch := ''main''\<rparr>)) =
   (case cache_slot demo_cid demo_bid demo_cache_disk (demo_bid (demo_binding\<lparr>b_Branch := ''main''\<rparr>)) of
      None \<Rightarrow> None | Some (e, x) \<Rightarrow> Some (relabel e StateStale 9, x))"
proof -
  let ?b = "demo_binding\<lparr>b_Branch := ''main''\<rparr>"
  let ?slot = "cache_slot demo_cid demo_bid demo_cache_disk (demo_bid ?b)"
  have ok: "cache_ok demo_cid demo_bid demo_cache_disk"
    using cache_do_refines2 [OF demo_cid_ok cache_ok_empty, of "CallPutVerified 4 demo_binding ''xyz'' demo_evidence" demo_bid no_faults]
    by (simp add: refines2_def demo_cache_disk_def)
  have b: "normalizeBinding demo_cid demo_binding = Inr ?b" by code_simp
  have slot: "?slot = Some (fst (the ?slot), snd (the ?slot))" and clean: "e_State (fst (the ?slot)) = StateVerifiedClean"
    by code_simp+
  show ?thesis
    using cache_read_verified_branches [OF ok b _ prod.collapse [symmetric], of 9 "\<lambda>b ev. Some ''expired''"] slot clean
    by (simp split: option.splits prod.splits)
qed

section \<open>Reading a range\<close>

lemma openBounded_size:
  assumes "openBoundedLocalBodyLocked F key e n d = Inr x"
  shows "gm_get (cd_blobs d) (bodyName key) = Some x" and "e_Size e = int (length x)" and "length x < 2 ^ 63"
    and "length x \<le> n"
  using assms by (auto simp: openBoundedLocalBodyLocked_def result_simps maxIntValue_def split: if_splits option.splits)

lemma readRange_verifyLocal:
  assumes parts: "\<And>x. concat (split x) = x" and "offset < 2 ^ 64" and "len < 2 ^ 64"
  shows "readRangeLocked L bid split F b offset len n m d =
    (case verifyLocalLocked L bid F b n m d of
       Inl err \<Rightarrow> Inl err
     | Inr e \<Rightarrow> Inr (slice offset len (the (gm_get (cd_blobs d) (bodyName (bid b)))), e))"
proof (cases "gm_get (md_Entries m) (bid b)")
  case (Some e)
  show ?thesis
  proof (cases "openBoundedLocalBodyLocked F (bid b) e n d")
    case (Inr x)
    note x = openBounded_size [OF Inr]
    note cap = rangeCapture_slice [OF parts assms(2,3) x(3) refl]
    have "wantedBytes offset len (length x) \<le> length x"
      using wantedBytes_slice(1) [OF assms(2,3) x(3)] by (simp add: slice_def)
    then have "\<not> maxIntValue < int (wantedBytes offset len (length x))"
      using x(3) by (simp add: maxIntValue_def)
    then show ?thesis
      using Some Inr x cap
      by (simp add: readRangeLocked_def verifyLocalLocked_def Let_def bindE_def split: sum.split)
  qed (simp add: readRangeLocked_def verifyLocalLocked_def Some)
qed (simp add: readRangeLocked_def verifyLocalLocked_def)

lemma withState_looking_map:
  assumes "\<And>m d. f m d = (case g m d of Inl err \<Rightarrow> Inl err | Inr e \<Rightarrow> Inr (h d e))"
  shows "cache_withState L bid F False (looking f) d =
    (case cache_withState L bid F False (looking g) d of
       (Inl err, d') \<Rightarrow> (Inl err, d') | (Inr e, d') \<Rightarrow> (Inr (h d' e), d'))"
  by (simp add: cache_withState_def looking_def assms split: prod.split sum.split)

text \<open>
  C31: reading a range is the full verification of the payload followed by the slice.  For every way the
  reads split the stream and every 64-bit offset and length, also where their sum overflows,
  \<open>ReadLocalRange\<close> fails exactly as \<open>VerifyLocal\<close> does and otherwise returns the requested slice of the
  payload file.
\<close>

theorem cache_range_equiv:
  assumes "\<And>x. concat (split x) = x" and "offset < 2 ^ 64" and "len < 2 ^ 64"
    and "normalizeBinding L raw = Inr b"
  shows "cache_ReadLocalRange L bid split F raw offset len n d =
    (case cache_VerifyLocal L bid F raw n d of
       (Inl err, d') \<Rightarrow> (Inl err, d')
     | (Inr e, d') \<Rightarrow> (Inr (slice offset len (the (gm_get (cd_blobs d') (bodyName (bid b)))), e), d'))"
  using withState_looking_map [where f = "readRangeLocked L bid split F b offset len n"
      and g = "verifyLocalLocked L bid F b n"
      and h = "\<lambda>d e. (slice offset len (the (gm_get (cd_blobs d) (bodyName (bid b)))), e)",
      OF readRange_verifyLocal [OF assms(1-3)]] assms(4)
  by (simp add: cache_ReadLocalRange_def cache_VerifyLocal_def with_binding_def)

definition local_demo_disk :: cache_disk where
  "local_demo_disk =
     snd (cache_PutLocal demo_cid demo_bid no_faults 4 demo_binding ''xyz'' StateLocalDirty empty_cache)"

definition bytewise :: "bytes \<Rightarrow> bytes list" where
  "bytewise x = map (\<lambda>c. [c]) x"

theorem cache_range_equiv_witness:
  "fst (cache_ReadLocalRange demo_cid demo_bid bytewise no_faults demo_binding 1 (2 ^ 64 - 1) 10 local_demo_disk) =
     Inr (''yz'', projr (fst (cache_VerifyLocal demo_cid demo_bid no_faults demo_binding 10 local_demo_disk)))"
proof -
  let ?verify = "cache_VerifyLocal demo_cid demo_bid no_faults demo_binding 10 local_demo_disk"
  have parts: "concat (bytewise x) = x" for x by (simp add: bytewise_def)
  have b: "normalizeBinding demo_cid demo_binding = Inr (demo_binding\<lparr>b_Branch := ''main''\<rparr>)" by code_simp
  have run: "fst ?verify = Inr (projr (fst ?verify))"
    and blob: "gm_get (cd_blobs (snd ?verify)) (bodyName (demo_bid (demo_binding\<lparr>b_Branch := ''main''\<rparr>))) = Some ''xyz''"
    by code_simp+
  then have one: "?verify = (Inr (projr (fst ?verify)), snd ?verify)" by (metis prod.collapse)
  have "slice 1 (2 ^ 64 - 1) ''xyz'' = ''yz''" by (simp add: slice_def)
  then show ?thesis
    using cache_range_equiv [OF parts _ _ b, of 1 "2 ^ 64 - 1" demo_bid no_faults 10 local_demo_disk] one blob
    by (simp split: prod.splits sum.splits)
qed

text \<open>
  the size of the buffer a range read allocates.  For all 64-bit offsets and lengths it is the part
  of the range inside the payload, although the code adds offset and length with wrap-around; it never
  exceeds the payload, and the limit the caller gave bounds the payload.
\<close>

theorem cache_range_bounds:
  assumes "offset < 2 ^ 64" and "len < 2 ^ 64" and "openBoundedLocalBodyLocked F key e n d = Inr x"
  shows "wantedBytes offset len (nat (e_Size e)) = min len (length x - offset) \<and>
    wantedBytes offset len (nat (e_Size e)) \<le> n \<and> int (wantedBytes offset len (nat (e_Size e))) \<le> maxIntValue"
proof -
  note x = openBounded_size [OF assms(3)]
  have "wantedBytes offset len (length x) = min len (length x - offset)"
    using wantedBytes_slice(1) [OF assms(1,2) x(3)] by (simp add: slice_def min.commute)
  then show ?thesis using x by (auto simp: maxIntValue_def)
qed

theorem cache_range_bounds_witness:
  "wantedBytes 2 (2 ^ 64 - 1) 3 = 1"
proof -
  let ?e = "\<lparr>e_Binding = demo_binding, e_State = StateLocalDirty, e_Verification = None, e_BodyPresent = True,
    e_Size = 3, e_UpdatedAt = 1\<rparr>"
  have "openBoundedLocalBodyLocked no_faults ''k'' ?e 10 (empty_cache\<lparr>cd_blobs := [(''k.blob'', ''xyz'')]\<rparr>) = Inr ''xyz''"
    by code_simp
  from cache_range_bounds [OF _ _ this, of 2 "2 ^ 64 - 1"] show ?thesis by simp
qed

section \<open>A payload taken back from a committed entry\<close>

text \<open>The same faults, with the directory sync after the metadata rename failing too.\<close>

abbreviation unsynced :: "faults \<Rightarrow> faults" where
  "unsynced F \<equiv> F(SyncParent := True)"

lemma remove_all_unsynced [simp]: "remove_all (unsynced F) names removed = remove_all F names removed"
  by (induction names arbitrary: removed) simp_all

lemma reload_with_unsynced:
  "reload_with (unsynced F) ioerr malformed init validate c = reload_with F ioerr malformed init validate c"
  by (simp add: reload_with_def split: option.split)

lemma cache_reloadLocked_unsynced: "cache_reloadLocked L bid (unsynced F) d = cache_reloadLocked L bid F d"
proof -
  have "reconcileLocked (unsynced F) m d = reconcileLocked F m d" for m
    by (simp add: reconcileLocked_def Let_def split: prod.split option.split)
  then show ?thesis by (simp add: cache_reloadLocked_def reload_with_unsynced split: sum.split)
qed

lemma writeBodyLocked_unsynced: "writeBodyLocked (unsynced F) key body d = writeBodyLocked F key body d"
  by (simp add: writeBodyLocked_def)

lemma writeMetadataLocked_unsynced:
  assumes "writeMetadataLocked F m d = (Inr u, d')"
  shows "writeMetadataLocked (unsynced F) m d = (Inl (CacheIO SyncParent), with_meta d m)"
  using assms by (auto simp: writeMetadataLocked_def atomicSteps_def split: if_splits)

lemma putWithBody_unsynced:
  assumes ok: "cache_ok L bid d" and run: "putWithBody L bid F e body d = (Inr x, d')"
    and absent: "case gm_get (md_Entries (cache_loaded L bid d)) (bid (e_Binding e)) of None \<Rightarrow> True | Some y \<Rightarrow> \<not> e_BodyPresent y"
    and removable: "\<not> F (RemoveFile (bodyName (bid (e_Binding e))))"
  obtains d2 where "putWithBody L bid (unsynced F) e body d = (Inl (CacheIO SyncParent), d2)"
    and "cd_meta d2 = cd_meta d'" and "gm_get (cd_blobs d2) (bodyName (bid (e_Binding e))) = None"
proof -
  let ?key = "bid (e_Binding e)"
  from run obtain u where ws: "cache_withState L bid F False (putBodyLocked bid F e body) d = (Inr u, d')"
    by (auto simp: putWithBody_def split: prod.splits sum.splits)
  then have free: "\<not> F MkdirAll" "\<not> F AcquireLock" by (auto simp: cache_withState_def split: if_splits)
  from ws obtain m d1 m' d2 where rl: "cache_reloadLocked L bid F d = (Inr m, d1)"
    and op: "putBodyLocked bid F e body m d1 = (Inr (u, m'), d2)" and d': "d' = d2"
    by (rule cache_withState_success) simp
  have m: "m = cache_loaded L bid d" using cache_reloadLocked_ok [OF ok rl] by auto
  from op obtain v d3 w where allowed: "\<not> (case gm_get (md_Entries m) ?key of None \<Rightarrow> False | Some y \<Rightarrow> \<not> allowedPut (e_State y) (e_State e))"
    and wb: "writeBodyLocked F ?key body d1 = (Inr v, d3)" and wm: "writeMetadataLocked F (put_entry m ?key e) d3 = (Inr w, d2)"
    by (auto simp: putBodyLocked_def Let_def split: if_splits prod.splits sum.splits)
  let ?d = "(with_meta d3 (put_entry m ?key e))\<lparr>cd_blobs := gm_del (cd_blobs d3) (bodyName ?key)\<rparr>"
  have "putBodyLocked bid (unsynced F) e body m d1 = (Inl (CacheIO SyncParent), ?d)"
    unfolding putBodyLocked_def Let_def
    using allowed wb absent removable writeMetadataLocked_unsynced [OF wm] by (simp add: m writeBodyLocked_unsynced)
  then have "putWithBody L bid (unsynced F) e body d = (Inl (CacheIO SyncParent), ?d)"
    using rl free by (simp add: putWithBody_def cache_withState_def cache_reloadLocked_unsynced)
  then show thesis using writeMetadataLocked_ok [OF wm] d' by (intro that [of ?d]) simp_all
qed

text \<open>An entry whose payload file is gone is still listed as present, and reading it reports corruption.\<close>

lemma missing_payload:
  assumes ok: "cache_ok L bid d" and get: "gm_get (md_Entries (cache_loaded L bid d)) (bid b) = Some e"
    and e: "isLocalBodyState (e_State e)" "e_BodyPresent e" "0 \<le> e_Size e" "e_Size e < 2 ^ 63"
    and gone: "gm_get (cd_blobs d) (bodyName (bid b)) = None" and b: "normalizeBinding L raw = Inr b"
  shows "fst (cache_Inspect L bid no_faults raw d) = Inr e"
    and "fst (cache_ReadLocal L bid no_faults raw d) = Inl (CacheJoin ErrCorrupt (CacheInvalid ''file does not exist''))"
proof -
  let ?m = "cache_loaded L bid d"
  have looked: "\<exists>d1. swept ?m d d1 \<and> fst (cache_withState L bid no_faults False (looking f) d) = f ?m d1" for f :: "_ \<Rightarrow> _ \<Rightarrow> _ + 'r"
    by (rule cache_withState_no_faults [OF ok refl, of False "looking f"])
      (auto simp: looking_def split: sum.splits)
  show "fst (cache_Inspect L bid no_faults raw d) = Inr e"
    using looked [of "\<lambda>m _. of_option ErrMiss (gm_get (md_Entries m) (bid b))"] get b
    by (simp add: cache_Inspect_def with_binding_def of_option_def)
  obtain d1 where sw: "swept ?m d d1"
    and rd: "fst (cache_withState L bid no_faults False (looking (readLocalLocked L bid no_faults b (2 ^ 63 - 1))) d) =
      readLocalLocked L bid no_faults b (2 ^ 63 - 1) ?m d1"
    using looked by blast
  have "gm_get (cd_blobs d1) (bodyName (bid b)) = None"
    using sw gone referenced_get [OF get e(2)] by (simp add: swept_def)
  moreover have "e_State e \<noteq> StateVerifiedClean" "e_State e \<noteq> StateUnmaterializedRemote" "e_State e \<noteq> StateStale"
    using e(1) by (auto simp: isLocalBodyState_def)
  moreover have "e_Size e \<le> maxIntValue" "nat (e_Size e) \<le> 2 ^ 63 - 1" using e(3,4) by (simp_all add: maxIntValue_def)
  ultimately have "readLocalLocked L bid no_faults b (2 ^ 63 - 1) ?m d1 = Inl (CacheJoin ErrCorrupt (CacheInvalid ''file does not exist''))"
    using get e by (simp add: readLocalLocked_def openBoundedLocalBodyLocked_def no_faults_def)
  then show "fst (cache_ReadLocal L bid no_faults raw d) = Inl (CacheJoin ErrCorrupt (CacheInvalid ''file does not exist''))"
    using rd b by (simp add: cache_ReadLocal_def cache_ReadLocalBounded_def with_binding_def)
qed

text \<open>
  C37: an error after the metadata rename takes the payload back from a committed entry.  Take any \<open>PutLocal\<close> that
  succeeds on a binding with no payload yet.  Had only the directory sync after the metadata rename
  failed (and the payload could be removed), the call would have returned that error and removed the payload
  file, although the metadata that refers to it is in place: \<open>Inspect\<close> then reports the entry with its payload present,
  and \<open>ReadLocal\<close> reports corruption.
\<close>

theorem cache_put_takes_payload_back:
  assumes "cid_lib_ok L" and "cache_ok L bid d" and "now \<noteq> 0" and "length body < 2 ^ 63"
    and "cache_PutLocal L bid F now raw body st d = (Inr e, d1)"
    and "case gm_get (md_Entries (cache_loaded L bid d)) (bid (e_Binding e)) of None \<Rightarrow> True | Some y \<Rightarrow> \<not> e_BodyPresent y"
    and "\<not> F (RemoveFile (bodyName (bid (e_Binding e))))"
  shows "\<exists>d2. cache_PutLocal L bid (unsynced F) now raw body st d = (Inl (CacheIO SyncParent), d2) \<and>
    fst (cache_Inspect L bid no_faults raw d2) = Inr e \<and> e_BodyPresent e \<and>
    fst (cache_ReadLocal L bid no_faults raw d2) = Inl (CacheJoin ErrCorrupt (CacheInvalid ''file does not exist''))"
proof -
  note put = cache_PutLocal_success [OF assms(1-3,5)]
  have unfolded: "cache_PutLocal L bid F' now raw body st d = putWithBody L bid F' e body d" for F'
    using assms(5) put(3)
    by (auto simp: cache_PutLocal_def with_binding_def putWithBody_def split: if_splits sum.splits prod.splits)
  have run: "putWithBody L bid F e body d = (Inr e, d1)" using assms(5) by (simp add: unfolded)
  obtain d2 where d2: "putWithBody L bid (unsynced F) e body d = (Inl (CacheIO SyncParent), d2)"
      "cd_meta d2 = cd_meta d1" "gm_get (cd_blobs d2) (bodyName (bid (e_Binding e))) = None"
    by (rule putWithBody_unsynced [OF assms(2) run assms(6,7)])
  have e: "isLocalBodyState (e_State e)" "e_BodyPresent e" "e_Size e = int (length body)"
    using put(2,5) by (auto simp: kept_def)
  have ok2: "cache_ok L bid d2" using put(1) cache_ok_meta_cong [OF d2(2)] by simp
  have "gm_get (md_Entries (cache_loaded L bid d1)) (bid (e_Binding e)) = Some e"
    using put(5) by (auto simp: cache_slot_def split: option.splits)
  then have get: "gm_get (md_Entries (cache_loaded L bid d2)) (bid (e_Binding e)) = Some e"
    using cache_loaded_meta_cong [OF d2(2)] by simp
  have "0 \<le> e_Size e" "e_Size e < 2 ^ 63" using e(3) assms(4) by simp_all
  note missing = missing_payload [OF ok2 get e(1,2) this d2(3) put(3)]
  show ?thesis using missing d2(1) e(2) by (simp add: unfolded)
qed

theorem cache_put_takes_payload_back_witness:
  "\<exists>e d1 d2. cache_PutLocal demo_cid demo_bid no_faults 4 demo_binding ''xyz'' StateLocalDirty empty_cache = (Inr e, d1) \<and>
     cache_PutLocal demo_cid demo_bid (unsynced no_faults) 4 demo_binding ''xyz'' StateLocalDirty empty_cache = (Inl (CacheIO SyncParent), d2) \<and>
     fst (cache_ReadLocal demo_cid demo_bid no_faults demo_binding d2) = Inl (CacheJoin ErrCorrupt (CacheInvalid ''file does not exist''))"
proof -
  let ?put = "cache_PutLocal demo_cid demo_bid no_faults 4 demo_binding ''xyz'' StateLocalDirty empty_cache"
  have run: "fst ?put = Inr (projr (fst ?put))" by code_simp
  have one: "?put = (Inr (projr (fst ?put)), snd ?put)" using run by (metis prod.collapse)
  have empty: "gm_get (md_Entries (cache_loaded demo_cid demo_bid empty_cache)) k = None" for k
    by (simp add: cache_loaded_def loaded_def empty_cache_def emptyMetadata_def)
  from cache_put_takes_payload_back [OF demo_cid_ok cache_ok_empty _ _ one] empty one show ?thesis
    by (auto simp: no_faults_def)
qed

end
