(* ===== verification/Dataset.thy ===== *)
theory Dataset
  imports Branch CidLib
begin

text \<open>
  The dataset contract of the node API (\<open>nodeapi/dataset.go\<close>): canonical apply requests, and the checks
  that bind an untrusted head or apply result to the dataset, the branch and the exact request.
\<close>

section \<open>Data\<close>

record ObservedHead =
  nh_DatasetID :: string
  nh_Name :: string
  nh_Kind :: string
  nh_State :: string
  nh_CommitID :: string
  nh_Root :: string
  nh_Revision :: uint64
  nh_CreatedBy :: string
  nh_CreatedAt :: time
  nh_UpdatedAt :: time

record Commit =
  cm_ID :: string
  cm_DatasetID :: string
  cm_Root :: string
  cm_Parents :: "string list"
  cm_BaseRoot :: string
  cm_Author :: string
  cm_Credential :: string
  cm_ChangeSetCID :: string
  cm_Message :: string
  cm_CreatedAt :: time

record Conflict =
  cf_Coordinate :: string
  cf_Base :: string
  cf_Local :: string
  cf_Remote :: string

record ApplyRequest =
  rq_OperationID :: string
  rq_Branch :: string
  rq_BaseCommit :: string
  rq_BaseRoot :: string
  rq_CandidateRoot :: string
  rq_BaseRevision :: uint64
  rq_ChangeSetCID :: string
  rq_Message :: string
  rq_MergePolicy :: string

record ApplyResult =
  ap_Status :: string
  ap_Head :: ObservedHead
  ap_Candidate :: Commit
  ap_Commit :: Commit
  ap_Branch :: "ObservedHead option"
  ap_MergeBase :: string
  ap_Conflicts :: "Conflict list"

record DatasetBinding =
  db_DatasetID :: string
  db_Branch :: string

datatype dataset_error = BadBranch branch_error | DatasetInvalid string

definition NormalizeBranch :: "string \<Rightarrow> dataset_error + string" where
  "NormalizeBranch raw = (case NormalizeSelector raw of Inl e \<Rightarrow> Inl (BadBranch e) | Inr s \<Rightarrow> Inr s)"

section \<open>Requests\<close>

definition trimRequest :: "ApplyRequest \<Rightarrow> ApplyRequest" where
  "trimRequest r =
     r\<lparr>rq_OperationID := TrimSpace (rq_OperationID r), rq_BaseCommit := TrimSpace (rq_BaseCommit r),
       rq_BaseRoot := TrimSpace (rq_BaseRoot r), rq_CandidateRoot := TrimSpace (rq_CandidateRoot r),
       rq_ChangeSetCID := TrimSpace (rq_ChangeSetCID r), rq_Message := TrimSpace (rq_Message r),
       rq_MergePolicy := TrimSpace (rq_MergePolicy r)\<rparr>"

text \<open>An optional CID field: empty, or the canonical text of a CID.\<close>

definition optionalCID :: "cid_lib \<Rightarrow> string \<Rightarrow> string \<Rightarrow> dataset_error + string" where
  "optionalCID L what raw =
     (if raw \<noteq> [] then of_option (DatasetInvalid what) (canonicalCID L raw) else Inr raw)"

definition NormalizeApplyRequest :: "cid_lib \<Rightarrow> string \<Rightarrow> ApplyRequest \<Rightarrow> dataset_error + ApplyRequest" where
  "NormalizeApplyRequest L selected0 request =
     (let r = trimRequest request in
      require (\<not> (rq_MergePolicy r \<noteq> [] \<and> rq_MergePolicy r \<noteq> ''preserve''))
        (DatasetInvalid ''merge policy must be empty or preserve'') (
      bindE (NormalizeBranch (rq_Branch r)) (\<lambda>branch.
      bindE (NormalizeBranch selected0) (\<lambda>selected.
      require (\<not> (rq_Branch r \<noteq> [] \<and> branch \<noteq> selected))
        (DatasetInvalid ''dataset apply branch does not match selected branch'') (
      let r = r\<lparr>rq_Branch := (if selected \<noteq> ''main'' then selected else [])\<rparr> in
      require (\<not> (rq_OperationID r = [] \<or> length (rq_OperationID r) > 256))
        (DatasetInvalid ''dataset apply operation ID must contain 1..256 bytes'') (
      bindE (of_option (DatasetInvalid ''invalid candidate root'') (canonicalCID L (rq_CandidateRoot r))) (\<lambda>candidate.
      require (\<not> ((rq_BaseCommit r = []) \<noteq> (rq_BaseRoot r = []) \<or>
                 (rq_BaseCommit r = []) \<noteq> (rq_BaseRevision r = 0)))
        (DatasetInvalid ''dataset base commit, root, and non-zero revision must be supplied together'') (
      bindE (optionalCID L ''invalid base root'' (rq_BaseRoot r)) (\<lambda>base.
      bindE (optionalCID L ''invalid change-set CID'' (rq_ChangeSetCID r)) (\<lambda>changeSet.
      Inr (r\<lparr>rq_CandidateRoot := candidate, rq_BaseRoot := base, rq_ChangeSetCID := changeSet\<rparr>)))))))))))"

section \<open>Untrusted values\<close>

definition ValidateBinding :: "string \<Rightarrow> string \<Rightarrow> DatasetBinding \<Rightarrow> dataset_error + unit" where
  "ValidateBinding datasetID branch0 b =
     bindE (NormalizeBranch branch0) (\<lambda>branch.
     bindE (NormalizeBranch (db_Branch b)) (\<lambda>bound.
     require (\<not> (TrimSpace datasetID = [] \<or> db_DatasetID b \<noteq> datasetID \<or> bound \<noteq> branch))
       (DatasetInvalid ''remote dataset binding does not match'') (Inr ())))"

definition ValidateObservedHead ::
  "cid_lib \<Rightarrow> string \<Rightarrow> string \<Rightarrow> ObservedHead \<Rightarrow> dataset_error + unit" where
  "ValidateObservedHead L datasetID branch v =
     bindE (case RefName branch of Inl e \<Rightarrow> Inl (BadBranch e) | Inr n \<Rightarrow> Inr n) (\<lambda>wantName.
     let wantKind = (if wantName \<noteq> ''main'' then ''explicit'' else ''main'') in
     require (\<not> (TrimSpace datasetID = [] \<or> nh_DatasetID v \<noteq> datasetID \<or> nh_Name v \<noteq> wantName \<or>
                nh_Kind v \<noteq> wantKind \<or> nh_State v \<noteq> ''open''))
       (DatasetInvalid ''remote returned an invalid dataset head'') (
     if nh_CommitID v = []
     then require (\<not> (nh_Root v \<noteq> [] \<or> nh_Revision v \<noteq> 0))
            (DatasetInvalid ''remote returned an invalid empty dataset head'') (Inr ())
     else require (\<not> (nh_Root v = [] \<or> nh_Revision v = 0))
            (DatasetInvalid ''remote returned an invalid dataset head tuple'') (
          require (cid_Parse L (nh_Root v) \<noteq> None)
            (DatasetInvalid ''remote returned an invalid dataset head root'') (Inr ()))))"

fun check_parents :: "string \<Rightarrow> string list \<Rightarrow> string list \<Rightarrow> dataset_error + unit" where
  "check_parents ident seen [] = Inr ()"
| "check_parents ident seen (parent # parents) =
     require (\<not> (parent = [] \<or> parent = ident)) (DatasetInvalid ''invalid commit parent'') (
     require (parent \<notin> set seen) (DatasetInvalid ''duplicate commit parent'') (
     check_parents ident (parent # seen) parents))"

definition validateCommit :: "cid_lib \<Rightarrow> string \<Rightarrow> Commit \<Rightarrow> dataset_error + unit" where
  "validateCommit L datasetID v =
     require (\<not> (cm_ID v = [] \<or> cm_DatasetID v \<noteq> datasetID))
       (DatasetInvalid ''commit identity does not match the selected dataset'') (
     require (cid_Parse L (cm_Root v) \<noteq> None) (DatasetInvalid ''invalid commit root'') (
     require (cm_BaseRoot v = [] \<or> cid_Parse L (cm_BaseRoot v) \<noteq> None)
       (DatasetInvalid ''invalid commit base root'') (
     require (cm_ChangeSetCID v = [] \<or> cid_Parse L (cm_ChangeSetCID v) \<noteq> None)
       (DatasetInvalid ''invalid commit change-set CID'') (
     check_parents (cm_ID v) [] (cm_Parents v)))))"

definition candidateParentsMatchRequest :: "Commit \<Rightarrow> ApplyRequest \<Rightarrow> bool \<Rightarrow> bool" where
  "candidateParentsMatchRequest candidate request allowMissing \<longleftrightarrow>
     (if rq_BaseCommit request = [] then length (cm_Parents candidate) = 0
      else if length (cm_Parents candidate) = 1 \<and> cm_Parents candidate ! 0 = rq_BaseCommit request then True
      else allowMissing \<and> length (cm_Parents candidate) = 0)"

definition validateConflictRef :: "cid_lib \<Rightarrow> string \<Rightarrow> ObservedHead \<Rightarrow> dataset_error + unit" where
  "validateConflictRef L datasetID v =
     (let nameParts = split_on (CHR ''/'') (nh_Name v) in
      require (\<not> (nh_DatasetID v \<noteq> datasetID \<or> nh_Kind v \<noteq> ''conflict'' \<or> nh_State v \<noteq> ''open'' \<or>
                 length nameParts \<noteq> 3 \<or> nameParts ! 0 \<noteq> ''conflicts'' \<or> nameParts ! 1 = [] \<or> nameParts ! 2 = []))
        (DatasetInvalid ''remote returned an invalid dataset conflict ref'') (
      require (\<not> (nh_CommitID v = [] \<or> nh_Root v = [] \<or> nh_Revision v = 0))
        (DatasetInvalid ''remote returned an empty dataset conflict ref'') (
      require (cid_Parse L (nh_Root v) \<noteq> None)
        (DatasetInvalid ''remote returned an invalid dataset conflict ref root'') (Inr ()))))"

definition refPointsToCommit :: "ObservedHead \<Rightarrow> Commit \<Rightarrow> bool" where
  "refPointsToCommit ref commit \<longleftrightarrow>
     nh_DatasetID ref = cm_DatasetID commit \<and> nh_CommitID ref = cm_ID commit \<and> nh_Root ref = cm_Root commit"

text \<open>\<open>equalCommit\<close> compares every field.\<close>

definition equalCommit :: "Commit \<Rightarrow> Commit \<Rightarrow> bool" where
  "equalCommit left right \<longleftrightarrow>
     cm_ID left = cm_ID right \<and> cm_DatasetID left = cm_DatasetID right \<and> cm_Root left = cm_Root right \<and>
     cm_Parents left = cm_Parents right \<and> cm_BaseRoot left = cm_BaseRoot right \<and>
     cm_Author left = cm_Author right \<and> cm_Credential left = cm_Credential right \<and>
     cm_ChangeSetCID left = cm_ChangeSetCID right \<and> cm_Message left = cm_Message right \<and>
     cm_CreatedAt left = cm_CreatedAt right"

section \<open>Apply results\<close>

text \<open>The three outcomes an executor may report.\<close>

definition fastForward_ok :: "ApplyRequest \<Rightarrow> ApplyResult \<Rightarrow> dataset_error + unit" where
  "fastForward_ok request v =
     require (\<not> (ap_Branch v \<noteq> None \<or> length (ap_Conflicts v) \<noteq> 0 \<or> ap_MergeBase v \<noteq> [] \<or>
                nh_CommitID (ap_Head v) = []))
       (DatasetInvalid ''remote returned an inconsistent fast-forward dataset apply'') (
     require (\<not> (\<not> equalCommit (ap_Candidate v) (ap_Commit v) \<or> cm_Root (ap_Commit v) \<noteq> rq_CandidateRoot request))
       (DatasetInvalid ''remote returned a fast-forward result for a different candidate'') (
     require (refPointsToCommit (ap_Head v) (ap_Commit v))
       (DatasetInvalid ''remote returned a fast-forward head that does not point to the final commit'') (Inr ())))"

definition merged_ok :: "ApplyRequest \<Rightarrow> ApplyResult \<Rightarrow> dataset_error + unit" where
  "merged_ok request v =
     (let parents = cm_Parents (ap_Commit v) in
      require (rq_MergePolicy request \<noteq> ''preserve'')
        (DatasetInvalid ''remote merged a candidate despite preserve policy'') (
      require (\<not> (ap_Branch v \<noteq> None \<or> length (ap_Conflicts v) \<noteq> 0 \<or>
                 cm_ID (ap_Candidate v) = cm_ID (ap_Commit v) \<or> nh_CommitID (ap_Head v) = []))
        (DatasetInvalid ''remote returned an inconsistent merged dataset apply'') (
      require (ap_MergeBase v = rq_BaseRoot request)
        (DatasetInvalid ''remote returned a merge result for a different base'') (
      require (\<not> (length parents \<noteq> 2 \<or> parents ! 0 = [] \<or> parents ! 0 = cm_ID (ap_Candidate v) \<or>
                 parents ! 1 \<noteq> cm_ID (ap_Candidate v)))
        (DatasetInvalid ''remote returned a merge commit with inconsistent parents'') (
      require (cm_BaseRoot (ap_Commit v) \<noteq> [])
        (DatasetInvalid ''remote returned a merge commit without its remote base root'') (
      require (refPointsToCommit (ap_Head v) (ap_Commit v))
        (DatasetInvalid ''remote returned a merged head that does not point to the final commit'') (Inr ())))))))"

definition branched_ok :: "cid_lib \<Rightarrow> string \<Rightarrow> ApplyRequest \<Rightarrow> ApplyResult \<Rightarrow> dataset_error + unit" where
  "branched_ok L datasetID request v =
     (case ap_Branch v of
        None \<Rightarrow> Inl (DatasetInvalid ''remote returned an inconsistent conflicted dataset apply'')
      | Some branch \<Rightarrow>
          require (\<not> (\<not> equalCommit (ap_Candidate v) (ap_Commit v) \<or> length (ap_Conflicts v) = 0 \<or>
                     ap_MergeBase v \<noteq> rq_BaseRoot request))
            (DatasetInvalid ''remote returned an inconsistent conflicted dataset apply'') (
          bindE (validateConflictRef L datasetID branch) (\<lambda>_.
          require (refPointsToCommit branch (ap_Candidate v))
            (DatasetInvalid ''remote returned a conflict branch that does not preserve the candidate'') (Inr ()))))"

definition ValidateApplyResult ::
  "cid_lib \<Rightarrow> string \<Rightarrow> ApplyRequest \<Rightarrow> ApplyResult \<Rightarrow> dataset_error + unit" where
  "ValidateApplyResult L datasetID request0 v =
     bindE (NormalizeApplyRequest L (rq_Branch request0) request0) (\<lambda>request.
     bindE (ValidateObservedHead L datasetID (rq_Branch request) (ap_Head v)) (\<lambda>_.
     bindE (validateCommit L datasetID (ap_Candidate v)) (\<lambda>_.
     bindE (validateCommit L datasetID (ap_Commit v)) (\<lambda>_.
     require (cm_Root (ap_Candidate v) = rq_CandidateRoot request)
       (DatasetInvalid ''remote returned a dataset candidate for a different root'') (
     require (cm_BaseRoot (ap_Candidate v) = rq_BaseRoot request)
       (DatasetInvalid ''remote returned a dataset candidate for a different base root'') (
     require (\<not> (cm_ChangeSetCID (ap_Candidate v) \<noteq> rq_ChangeSetCID request \<or>
                cm_Message (ap_Candidate v) \<noteq> rq_Message request))
       (DatasetInvalid ''remote returned a dataset candidate for different apply metadata'') (
     require (candidateParentsMatchRequest (ap_Candidate v) request (ap_Status v = ''branched''))
       (DatasetInvalid ''remote returned a dataset candidate with inconsistent parents'') (
     if ap_Status v = ''fast_forward'' then fastForward_ok request v
     else if ap_Status v = ''merged'' then merged_ok request v
     else if ap_Status v = ''branched'' then branched_ok L datasetID request v
     else Inl (DatasetInvalid ''remote returned unsupported dataset apply status'')))))))))"

section \<open>Canonical requests\<close>

lemma NormalizeBranch_idem: "NormalizeBranch raw = Inr s \<Longrightarrow> NormalizeBranch s = Inr s"
  using NormalizeSelector_idem by (auto simp: NormalizeBranch_def split: sum.splits)

lemma NormalizeBranch_Nil [simp]: "NormalizeBranch [] = Inr ''main''"
  by (simp add: NormalizeBranch_def NormalizeSelector_def)

lemma NormalizeBranch_not_Nil: "NormalizeBranch raw = Inr s \<Longrightarrow> s \<noteq> []"
  using NormalizeBranch_idem NormalizeBranch_Nil by fastforce

lemma optionalCID_idem:
  assumes "cid_lib_ok L" and "optionalCID L what raw = Inr t"
  shows "optionalCID L what' t = Inr t" and "t = [] \<longleftrightarrow> raw = []" and "TrimSpace raw = raw \<Longrightarrow> TrimSpace t = t"
proof -
  have "t = [] \<and> raw = [] \<or> raw \<noteq> [] \<and> canonicalCID L raw = Some t"
    using assms(2) by (auto simp: optionalCID_def result_simps split: if_splits)
  then consider "t = []" "raw = []" | "raw \<noteq> []" "canonicalCID L t = Some t" "TrimSpace t = t" "t \<noteq> []"
    using canonicalCID_idem [OF assms(1)] canonicalCID_trim [OF assms(1)] canonicalCID_not_Nil [OF assms(1)] by blast
  then have "optionalCID L what' t = Inr t \<and> (t = [] \<longleftrightarrow> raw = []) \<and> (TrimSpace raw = raw \<longrightarrow> TrimSpace t = t)"
    by cases (simp_all add: optionalCID_def)
  then show "optionalCID L what' t = Inr t" and "t = [] \<longleftrightarrow> raw = []" and "TrimSpace raw = raw \<Longrightarrow> TrimSpace t = t"
    by blast+
qed

lemma NormalizeApplyRequest_cases:
  assumes "NormalizeApplyRequest L sel request = Inr r"
  obtains selected candidate base changeSet where
    "NormalizeBranch sel = Inr selected" and "canonicalCID L (TrimSpace (rq_CandidateRoot request)) = Some candidate"
    and "optionalCID L ''invalid base root'' (TrimSpace (rq_BaseRoot request)) = Inr base"
    and "optionalCID L ''invalid change-set CID'' (TrimSpace (rq_ChangeSetCID request)) = Inr changeSet"
    and "r = (trimRequest request)\<lparr>rq_Branch := (if selected \<noteq> ''main'' then selected else []),
      rq_CandidateRoot := candidate, rq_BaseRoot := base, rq_ChangeSetCID := changeSet\<rparr>"
    and "rq_MergePolicy r = [] \<or> rq_MergePolicy r = ''preserve''"
    and "rq_OperationID r \<noteq> []" and "length (rq_OperationID r) \<le> 256"
    and "(rq_BaseCommit r = []) = (TrimSpace (rq_BaseRoot request) = [])"
    and "(rq_BaseCommit r = []) = (rq_BaseRevision r = 0)"
proof -
  have rec: "rq_Branch (x\<lparr>rq_Branch := y\<rparr>) = y" "rq_OperationID (x\<lparr>rq_Branch := y\<rparr>) = rq_OperationID x"
    "rq_CandidateRoot (x\<lparr>rq_Branch := y\<rparr>) = rq_CandidateRoot x" "rq_BaseCommit (x\<lparr>rq_Branch := y\<rparr>) = rq_BaseCommit x"
    "rq_BaseRoot (x\<lparr>rq_Branch := y\<rparr>) = rq_BaseRoot x" "rq_BaseRevision (x\<lparr>rq_Branch := y\<rparr>) = rq_BaseRevision x"
    "rq_ChangeSetCID (x\<lparr>rq_Branch := y\<rparr>) = rq_ChangeSetCID x" for x :: ApplyRequest and y
    by simp_all
  have trim: "rq_CandidateRoot (trimRequest x) = TrimSpace (rq_CandidateRoot x)"
    "rq_BaseRoot (trimRequest x) = TrimSpace (rq_BaseRoot x)"
    "rq_ChangeSetCID (trimRequest x) = TrimSpace (rq_ChangeSetCID x)" for x
    by (simp_all add: trimRequest_def)
  show ?thesis
    by (insert assms [unfolded NormalizeApplyRequest_def Let_def], simp only: result_simps rec trim sum.inject, elim exE conjE, rule that, assumption, assumption, assumption, assumption)
      auto
qed

text \<open>
  A canonical request is a fixed point: normalizing it again for its own branch changes nothing.
\<close>

lemma NormalizeApplyRequest_fixed:
  assumes L: "cid_lib_ok L" and norm: "NormalizeApplyRequest L sel request = Inr r"
  shows "NormalizeApplyRequest L (rq_Branch r) r = Inr r"
  using norm
proof (rule NormalizeApplyRequest_cases)
  fix selected candidate base changeSet
  assume sel: "NormalizeBranch sel = Inr selected"
    and cand: "canonicalCID L (TrimSpace (rq_CandidateRoot request)) = Some candidate"
    and base: "optionalCID L ''invalid base root'' (TrimSpace (rq_BaseRoot request)) = Inr base"
    and change: "optionalCID L ''invalid change-set CID'' (TrimSpace (rq_ChangeSetCID request)) = Inr changeSet"
    and r: "r = (trimRequest request)\<lparr>rq_Branch := (if selected \<noteq> ''main'' then selected else []),
      rq_CandidateRoot := candidate, rq_BaseRoot := base, rq_ChangeSetCID := changeSet\<rparr>"
    and rest: "rq_MergePolicy r = [] \<or> rq_MergePolicy r = ''preserve''" "rq_OperationID r \<noteq> []"
      "length (rq_OperationID r) \<le> 256" "(rq_BaseCommit r = []) = (TrimSpace (rq_BaseRoot request) = [])"
      "(rq_BaseCommit r = []) = (rq_BaseRevision r = 0)"
  have fields: "rq_CandidateRoot r = candidate" "rq_BaseRoot r = base" "rq_ChangeSetCID r = changeSet" by (simp_all add: r)
  note b = optionalCID_idem [OF L base] and c = optionalCID_idem [OF L change]
  have trim: "trimRequest r = r"
    using b(3) c(3) canonicalCID_trim [OF L cand] by (cases request) (simp add: r trimRequest_def)
  have branch: "NormalizeBranch (rq_Branch r) = Inr selected"
    using sel NormalizeBranch_idem by (auto simp: r)
  have cand': "canonicalCID L candidate = Some candidate" by (rule canonicalCID_idem [OF L cand])
  have again: "r\<lparr>rq_Branch := (if selected \<noteq> ''main'' then selected else [])\<rparr> = r"
    "r\<lparr>rq_CandidateRoot := candidate, rq_BaseRoot := base, rq_ChangeSetCID := changeSet\<rparr> = r"
    by (cases request; simp add: r trimRequest_def)+
  show ?thesis
    using rest branch cand' b(1,2) c(1)
    by (simp add: NormalizeApplyRequest_def Let_def trim again fields require_def)
qed

section \<open>Properties\<close>

lemma equalCommit_iff: "equalCommit a b \<longleftrightarrow> a = b"
  by (cases a; cases b) (auto simp: equalCommit_def)

lemma check_parents_ok:
  "check_parents ident seen parents = Inr () \<longleftrightarrow>
     [] \<notin> set parents \<and> ident \<notin> set parents \<and> distinct parents \<and> set seen \<inter> set parents = {}"
  by (induction parents arbitrary: seen) (auto simp: result_simps)

text \<open>
  normalization of an apply request is idempotent.  A request made canonical for one branch is
  accepted unchanged when it is normalized again for the branch it carries, as every adapter and the
  result check do; its operation ID and base tuple are then complete.
\<close>

theorem apply_request_canonical:
  assumes "cid_lib_ok L" and "NormalizeApplyRequest L sel request = Inr r"
  shows "NormalizeApplyRequest L (rq_Branch r) r = Inr r \<and> NormalizeApplyRequest L sel r = Inr r \<and>
    rq_OperationID r \<noteq> [] \<and> length (rq_OperationID r) \<le> 256 \<and>
    (rq_BaseCommit r = []) = (rq_BaseRoot r = []) \<and> (rq_BaseCommit r = []) = (rq_BaseRevision r = 0)"
proof -
  note fixed = NormalizeApplyRequest_fixed [OF assms]
  from assms(2) obtain selected base where sel: "NormalizeBranch sel = Inr selected"
    and branch: "rq_Branch r = (if selected \<noteq> ''main'' then selected else [])"
    and opid: "rq_OperationID r \<noteq> []" "length (rq_OperationID r) \<le> 256"
    and base: "optionalCID L ''invalid base root'' (TrimSpace (rq_BaseRoot request)) = Inr base" "rq_BaseRoot r = base"
    and tuple: "(rq_BaseCommit r = []) = (TrimSpace (rq_BaseRoot request) = [])"
      "(rq_BaseCommit r = []) = (rq_BaseRevision r = 0)"
    by (rule NormalizeApplyRequest_cases) simp
  have "NormalizeBranch (rq_Branch r) = Inr selected"
    using sel NormalizeBranch_idem by (auto simp: branch)
  then have "NormalizeApplyRequest L sel r = NormalizeApplyRequest L (rq_Branch r) r"
    by (simp add: NormalizeApplyRequest_def sel)
  then show ?thesis
    using fixed opid tuple optionalCID_idem(2) [OF assms(1) base(1)] base(2) by simp
qed

definition demo_request :: ApplyRequest where
  "demo_request = \<lparr>rq_OperationID = '' push_1 '', rq_Branch = '' heads/dev'', rq_BaseCommit = ''c1'', rq_BaseRoot = ''bone '',
     rq_CandidateRoot = '' btwo'', rq_BaseRevision = 4, rq_ChangeSetCID = [], rq_Message = '' hello'', rq_MergePolicy = []\<rparr>"

theorem apply_request_canonical_witness:
  "\<exists>r. NormalizeApplyRequest demo_cid ''dev'' demo_request = Inr r \<and> rq_Branch r = ''dev'' \<and> rq_Message r = ''hello'' \<and>
     NormalizeApplyRequest demo_cid (rq_Branch r) r = Inr r"
proof -
  let ?n = "NormalizeApplyRequest demo_cid ''dev'' demo_request"
  have run: "?n = Inr (projr ?n)" "rq_Branch (projr ?n) = ''dev''" "rq_Message (projr ?n) = ''hello''" by code_simp+
  show ?thesis using apply_request_canonical [OF demo_cid_ok run(1)] run by metis
qed

text \<open>
  C10: an accepted apply result keeps the candidate.  A result that passes validation names the exact
  candidate root and base of the request, and some ref of the dataset reaches the candidate commit: the
  branch head is the candidate, or a two-parent merge commit whose second parent is the candidate, or an
  open conflict branch holds it.  Under the preserve policy the candidate is never merged.
\<close>

theorem apply_result_keeps_candidate:
  assumes "ValidateApplyResult L ds request v = Inr ()"
  shows "\<exists>r. NormalizeApplyRequest L (rq_Branch request) request = Inr r \<and>
    cm_Root (ap_Candidate v) = rq_CandidateRoot r \<and> cm_BaseRoot (ap_Candidate v) = rq_BaseRoot r \<and>
    nh_DatasetID (ap_Head v) = ds \<and> distinct (cm_Parents (ap_Commit v)) \<and>
    (ap_Status v = ''fast_forward'' \<and> refPointsToCommit (ap_Head v) (ap_Candidate v) \<or>
     ap_Status v = ''merged'' \<and> rq_MergePolicy r \<noteq> ''preserve'' \<and> refPointsToCommit (ap_Head v) (ap_Commit v) \<and>
       (\<exists>p. cm_Parents (ap_Commit v) = [p, cm_ID (ap_Candidate v)]) \<or>
     ap_Status v = ''branched'' \<and>
       (\<exists>ref x y. ap_Branch v = Some ref \<and> refPointsToCommit ref (ap_Candidate v) \<and> nh_DatasetID ref = ds \<and>
          split_on (CHR ''/'') (nh_Name ref) = [''conflicts'', x, y]))"
proof -
  from assms obtain r where r: "NormalizeApplyRequest L (rq_Branch request) request = Inr r"
    and head: "ValidateObservedHead L ds (rq_Branch r) (ap_Head v) = Inr ()"
    and commit: "validateCommit L ds (ap_Commit v) = Inr ()"
    and fields: "cm_Root (ap_Candidate v) = rq_CandidateRoot r" "cm_BaseRoot (ap_Candidate v) = rq_BaseRoot r"
    and status: "ap_Status v = ''fast_forward'' \<and> fastForward_ok r v = Inr () \<or>
      ap_Status v = ''merged'' \<and> merged_ok r v = Inr () \<or> ap_Status v = ''branched'' \<and> branched_ok L ds r v = Inr ()"
    by (auto simp: ValidateApplyResult_def result_simps split: if_splits)
  have ds: "nh_DatasetID (ap_Head v) = ds"
    using head by (auto simp: ValidateObservedHead_def Let_def result_simps)
  have parents: "distinct (cm_Parents (ap_Commit v))"
    using commit by (auto simp: validateCommit_def result_simps check_parents_ok)
  have two: "\<exists>p. xs = [p, c]" if "length xs = 2" "xs ! 1 = c" for xs and c :: string
    using that by (auto simp: length_Suc_conv numeral_2_eq_2)
  have three: "\<exists>x y. xs = [c, x, y]" if "length xs = 3" "xs ! 0 = c" for xs and c :: string
    using that by (auto simp: length_Suc_conv numeral_3_eq_3)
  from status show ?thesis
  proof (elim disjE conjE)
    assume s: "ap_Status v = ''fast_forward''" "fastForward_ok r v = Inr ()"
    then have "refPointsToCommit (ap_Head v) (ap_Candidate v)"
      by (auto simp: fastForward_ok_def result_simps equalCommit_iff)
    then show ?thesis using r fields ds parents s(1) by auto
  next
    assume s: "ap_Status v = ''merged''" "merged_ok r v = Inr ()"
    then have "rq_MergePolicy r \<noteq> ''preserve''" "refPointsToCommit (ap_Head v) (ap_Commit v)"
      "length (cm_Parents (ap_Commit v)) = 2" "cm_Parents (ap_Commit v) ! 1 = cm_ID (ap_Candidate v)"
      by (simp_all add: merged_ok_def Let_def result_simps)
    then show ?thesis using r fields ds parents s(1) two by auto
  next
    assume s: "ap_Status v = ''branched''" "branched_ok L ds r v = Inr ()"
    then obtain ref where ref: "ap_Branch v = Some ref" "refPointsToCommit ref (ap_Candidate v)"
      and c: "validateConflictRef L ds ref = Inr ()"
      by (auto simp: branched_ok_def result_simps split: option.splits)
    have "nh_DatasetID ref = ds" "length (split_on (CHR ''/'') (nh_Name ref)) = 3"
      "split_on (CHR ''/'') (nh_Name ref) ! 0 = ''conflicts''"
      using c by (simp_all add: validateConflictRef_def Let_def result_simps)
    then show ?thesis using r fields ds parents s(1) ref three by blast
  qed
qed

definition demo_commit :: Commit where
  "demo_commit = \<lparr>cm_ID = ''c2'', cm_DatasetID = ''data'', cm_Root = ''btwo'', cm_Parents = [''c1''], cm_BaseRoot = ''bone'',
     cm_Author = ''a'', cm_Credential = [], cm_ChangeSetCID = [], cm_Message = ''hello'', cm_CreatedAt = 5\<rparr>"

definition demo_head :: ObservedHead where
  "demo_head = \<lparr>nh_DatasetID = ''data'', nh_Name = ''heads/dev'', nh_Kind = ''explicit'', nh_State = ''open'',
     nh_CommitID = ''c3'', nh_Root = ''bthree'', nh_Revision = 6, nh_CreatedBy = [], nh_CreatedAt = 1, nh_UpdatedAt = 2\<rparr>"

definition demo_conflict_ref :: ObservedHead where
  "demo_conflict_ref = demo_head\<lparr>nh_Name := ''conflicts/dev/7'', nh_Kind := ''conflict'', nh_CommitID := ''c2'', nh_Root := ''btwo''\<rparr>"

definition demo_branched :: ApplyResult where
  "demo_branched = \<lparr>ap_Status = ''branched'', ap_Head = demo_head, ap_Candidate = demo_commit, ap_Commit = demo_commit,
     ap_Branch = Some demo_conflict_ref, ap_MergeBase = ''bone'',
     ap_Conflicts = [\<lparr>cf_Coordinate = ''/x'', cf_Base = [], cf_Local = ''l'', cf_Remote = ''r''\<rparr>]\<rparr>"

theorem apply_result_keeps_candidate_witness:
  "\<exists>ref x y. ap_Branch demo_branched = Some ref \<and> refPointsToCommit ref (ap_Candidate demo_branched) \<and>
     split_on (CHR ''/'') (nh_Name ref) = [''conflicts'', x, y]"
proof -
  have ok: "ValidateApplyResult demo_cid ''data'' demo_request demo_branched = Inr ()" by code_simp
  have st: "ap_Status demo_branched = ''branched''" by (simp add: demo_branched_def)
  from apply_result_keeps_candidate [OF ok] show ?thesis by (simp add: st) blast
qed

end
