(* ===== verification/Base64.thy ===== *)
theory Base64
  imports GoText
begin

text \<open>
  \<open>base64.RawURLEncoding\<close> of the Go library: the unpadded URL alphabet, with the decoder that shows the
  encoding is unambiguous.
\<close>

definition b64_alphabet :: string where
  "b64_alphabet = ''ABCDEFGHIJKLMNOPQRSTUVWXYZabcdefghijklmnopqrstuvwxyz0123456789-_''"

definition b64_char :: "nat \<Rightarrow> char" where
  "b64_char n = b64_alphabet ! n"

fun EncodeToString :: "string \<Rightarrow> string" where
  "EncodeToString [] = []"
| "EncodeToString [a] = [b64_char (byte a div 4), b64_char (byte a mod 4 * 16)]"
| "EncodeToString [a, b] =
     [b64_char (byte a div 4), b64_char (byte a mod 4 * 16 + byte b div 16), b64_char (byte b mod 16 * 4)]"
| "EncodeToString (a # b # c # rest) =
     b64_char (byte a div 4) # b64_char (byte a mod 4 * 16 + byte b div 16) #
     b64_char (byte b mod 16 * 4 + byte c div 64) # b64_char (byte c mod 64) # EncodeToString rest"

definition b64_index :: "char \<Rightarrow> nat" where
  "b64_index c = length (takeWhile (\<lambda>x. x \<noteq> c) b64_alphabet)"

fun decode_string :: "string \<Rightarrow> nat list" where
  "decode_string [] = []"
| "decode_string [w] = []"
| "decode_string [w, x] = [b64_index w * 4 + b64_index x div 16]"
| "decode_string [w, x, y] =
     [b64_index w * 4 + b64_index x div 16, b64_index x mod 16 * 16 + b64_index y div 4]"
| "decode_string (w # x # y # z # rest) =
     (b64_index w * 4 + b64_index x div 16) # (b64_index x mod 16 * 16 + b64_index y div 4) #
     (b64_index y mod 4 * 64 + b64_index z) # decode_string rest"

lemma b64_alphabet_facts:
  "distinct b64_alphabet" "length b64_alphabet = 64"
  "list_all (\<lambda>c. graphic c \<and> c \<noteq> CHR ''@'') b64_alphabet"
  by (simp_all add: b64_alphabet_def graphic_code)

lemma takeWhile_nth:
  "distinct xs \<Longrightarrow> n < length xs \<Longrightarrow> length (takeWhile (\<lambda>x. x \<noteq> xs ! n) xs) = n"
proof (induction xs arbitrary: n)
  case (Cons a xs)
  then show ?case by (cases n) auto
qed simp

lemma b64_index_char: "n < 64 \<Longrightarrow> b64_index (b64_char n) = n"
  using takeWhile_nth [OF b64_alphabet_facts(1)] b64_alphabet_facts(2) by (simp add: b64_index_def b64_char_def)

lemma b64_char_plain: "n < 64 \<Longrightarrow> graphic (b64_char n) \<and> b64_char n \<noteq> CHR ''@''"
  using b64_alphabet_facts(2,3) by (simp add: b64_char_def list_all_length)

lemma byte_lt: "byte c < 256"
  by (simp add: byte_def)

lemma sextets:
  "byte a div 4 < 64" "byte a mod 4 * 16 < 64" "byte a mod 4 * 16 + byte b div 16 < 64"
  "byte b mod 16 * 4 < 64" "byte b mod 16 * 4 + byte c div 64 < 64" "byte c mod 64 < 64"
  using byte_lt [of a] byte_lt [of b] byte_lt [of c] by linarith+

lemma regroup:
  "byte a div 4 * 4 + byte a mod 4 * 16 div 16 = byte a"
  "byte a div 4 * 4 + (byte a mod 4 * 16 + byte b div 16) div 16 = byte a"
  "(byte a mod 4 * 16 + byte b div 16) mod 16 * 16 + byte b mod 16 * 4 div 4 = byte b"
  "(byte a mod 4 * 16 + byte b div 16) mod 16 * 16 + (byte b mod 16 * 4 + byte c div 64) div 4 = byte b"
  "(byte b mod 16 * 4 + byte c div 64) mod 4 * 64 + byte c mod 64 = byte c"
proof -
  have high: "byte b div 16 < 16" "byte c div 64 < 4" using byte_lt [of b] byte_lt [of c] by linarith+
  have join: "(k * n + h) div n = k" "(k * n + h) mod n = h" if "h < n" for k n h :: nat
    using that by simp_all
  show "byte a div 4 * 4 + byte a mod 4 * 16 div 16 = byte a" by simp
  show "byte a div 4 * 4 + (byte a mod 4 * 16 + byte b div 16) div 16 = byte a"
    using high by (simp only: join div_mult_mod_eq)
  show "(byte a mod 4 * 16 + byte b div 16) mod 16 * 16 + byte b mod 16 * 4 div 4 = byte b"
    using high join(1) [of 0 4 "byte b mod 16"] by (simp only: join) simp
  show "(byte a mod 4 * 16 + byte b div 16) mod 16 * 16 + (byte b mod 16 * 4 + byte c div 64) div 4 = byte b"
    using high by (simp only: join div_mult_mod_eq)
  show "(byte b mod 16 * 4 + byte c div 64) mod 4 * 64 + byte c mod 64 = byte c"
    using high by (simp only: join div_mult_mod_eq)
qed

lemma decode_EncodeToString: "decode_string (EncodeToString x) = map byte x"
  by (induction x rule: EncodeToString.induct) 
    (simp_all only: EncodeToString.simps decode_string.simps list.map sextets [THEN b64_index_char] regroup)

lemma byte_inject [simp]: "byte a = byte b \<longleftrightarrow> a = b"
  by (simp add: byte_def)

lemma EncodeToString_inject [simp]: "EncodeToString x = EncodeToString y \<longleftrightarrow> x = y"
proof
  assume "EncodeToString x = EncodeToString y"
  then have "map byte x = map byte y" using decode_EncodeToString by metis
  then show "x = y" by (simp add: inj_def list.inj_map_strong)
qed simp

lemma EncodeToString_plain: "c \<in> set (EncodeToString x) \<Longrightarrow> graphic c \<and> c \<noteq> CHR ''@''"
  by (induction x rule: EncodeToString.induct) (auto simp: b64_char_plain sextets)

lemma EncodeToString_Nil [simp]: "EncodeToString x = [] \<longleftrightarrow> x = []"
  by (cases x rule: EncodeToString.cases) simp_all

end
