(* ===== verification/BucketSync.thy ===== *)
theory BucketSync
  imports Dataset Base64 JsonText Durable "HOL-Library.List_Lexorder" "HOL-Library.Char_ord"
begin

text \<open>
  Bucket synchronization (\<open>bucketsync/service.go\<close>): the durable workspaces of dataset branches, each with
  its base, the last observed remote head and the stashed local candidates.  A push runs as three locked
  phases around the remote call: freeze the request, pull, settle the result.
\<close>

section \<open>Data\<close>

record Head =
  hd_CommitID :: string
  hd_Root :: string
  hd_Revision :: uint64

record Stash =
  st_ID :: string
  st_PushID :: string
  st_CandidateRoot :: string
  st_Base :: Head
  st_ChangeSetCID :: string
  st_Message :: string
  st_RequestFrozen :: bool
  st_Status :: string
  st_Branch :: string
  st_Conflicts :: "Conflict list"
  st_CreatedAt :: time
  st_UpdatedAt :: time

record Workspace =
  ws_BucketID :: string
  ws_Branch :: string
  ws_Initialized :: bool
  ws_Base :: Head
  ws_Remote :: Head
  ws_Stashes :: "Stash list"
  ws_UpdatedAt :: time

record PushOutcome =
  po_Result :: ApplyResult
  po_Workspace :: Workspace

record sync_state =
  ss_Version :: int
  ss_Workspaces :: "(string, Workspace) gomap"

text \<open>
  The decoded file; next to each workspace the explicit \<open>request_frozen\<close> fields of its stashes, \<open>None\<close>
  where the field is missing or not a boolean.
\<close>

record sync_file =
  sf_Version :: int
  sf_Workspaces :: "(string, Workspace \<times> bool option list) gomap option"

type_synonym sync_disk = "sync_file content option"

record Service =
  sv_bucketID :: string
  sv_branch :: string
  sv_stateKey :: string

datatype sync_error =
    ErrNotInitialized | ErrNotStaged | SyncInvalid string | SyncIO io_step | SyncRemote string
  | SyncDataset dataset_error

definition bucketWorkspaceVersion :: int where
  "bucketWorkspaceVersion = 3"

definition sync_init :: sync_state where
  "sync_init = \<lparr>ss_Version = bucketWorkspaceVersion, ss_Workspaces = []\<rparr>"

definition no_head :: Head where
  "no_head = \<lparr>hd_CommitID = [], hd_Root = [], hd_Revision = 0\<rparr>"

definition no_workspace :: Workspace where
  "no_workspace = \<lparr>ws_BucketID = [], ws_Branch = [], ws_Initialized = False, ws_Base = no_head,
     ws_Remote = no_head, ws_Stashes = [], ws_UpdatedAt = 0\<rparr>"

definition workspaceKey :: "string \<Rightarrow> string \<Rightarrow> string" where
  "workspaceKey bucketID branch = bucketID @ ''@'' @ EncodeToString branch"

definition lift_dataset :: "dataset_error + 'a \<Rightarrow> sync_error + 'a" where
  "lift_dataset x = (case x of Inl e \<Rightarrow> Inl (SyncDataset e) | Inr v \<Rightarrow> Inr v)"

section \<open>Heads and stashes\<close>

definition validateHead :: "cid_lib \<Rightarrow> Head \<Rightarrow> sync_error + unit" where
  "validateHead L v =
     (if hd_CommitID v = []
      then require (\<not> (hd_Root v \<noteq> [] \<or> hd_Revision v \<noteq> 0)) (SyncInvalid ''empty head has root or revision'') (Inr ())
      else require (\<not> (hd_Root v = [] \<or> hd_Revision v = 0)) (SyncInvalid ''non-empty head lacks root or revision'') (
           require (cid_Parse L (hd_Root v) \<noteq> None) (SyncInvalid ''head root'') (Inr ())))"

definition headFromRef :: "cid_lib \<Rightarrow> ObservedHead \<Rightarrow> sync_error + Head" where
  "headFromRef L v =
     (let h = \<lparr>hd_CommitID = nh_CommitID v, hd_Root = nh_Root v, hd_Revision = nh_Revision v\<rparr>
      in bindE (validateHead L h) (\<lambda>_. Inr h))"

definition monotonicHead :: "Head \<Rightarrow> Head \<Rightarrow> sync_error + Head" where
  "monotonicHead current incoming =
     (if hd_Revision incoming < hd_Revision current then Inr current
      else if hd_Revision incoming > hd_Revision current then Inr incoming
      else if current \<noteq> incoming then Inl (SyncInvalid ''revision identifies different commits or roots'')
      else Inr current)"

definition hasPending :: "Stash list \<Rightarrow> bool" where
  "hasPending xs \<longleftrightarrow> list_ex (\<lambda>x. st_Status x = ''pending'' \<or> st_Status x = ''branched'') xs"

definition sameFrozenStash :: "Stash \<Rightarrow> Stash \<Rightarrow> bool" where
  "sameFrozenStash existing restored \<longleftrightarrow>
     st_ID existing = st_ID restored \<and> st_PushID existing = st_PushID restored \<and>
     st_CandidateRoot existing = st_CandidateRoot restored \<and> st_Base existing = st_Base restored \<and>
     st_ChangeSetCID existing = st_ChangeSetCID restored \<and> st_Message existing = st_Message restored \<and>
     st_RequestFrozen existing \<and> st_Status existing = ''pending''"

text \<open>\<open>sort.Slice\<close> by coordinate; conflicts that share a coordinate keep their order here.\<close>

definition conflictsFromRemote :: "Conflict list \<Rightarrow> Conflict list" where
  "conflictsFromRemote xs = sort_key cf_Coordinate xs"

section \<open>The file\<close>

definition stash_ok :: "cid_lib \<Rightarrow> Stash \<Rightarrow> sync_error + unit" where
  "stash_ok L x =
     require (\<not> (st_ID x = [] \<or> st_PushID x = [] \<or> st_Status x \<noteq> ''pending'' \<and> st_Status x \<noteq> ''branched''))
       (SyncInvalid ''Bucket has an invalid stash'') (
     require (cid_Parse L (st_CandidateRoot x) \<noteq> None) (SyncInvalid ''Bucket stash root'') (
     validateHead L (st_Base x)))"

fun stashes_ok :: "cid_lib \<Rightarrow> Stash list \<Rightarrow> sync_error + unit" where
  "stashes_ok L [] = Inr ()"
| "stashes_ok L (x # xs) = bindE (stash_ok L x) (\<lambda>_. stashes_ok L xs)"

definition workspace_ok :: "cid_lib \<Rightarrow> string \<Rightarrow> Workspace \<Rightarrow> sync_error + unit" where
  "workspace_ok L key w =
     (case NormalizeSelector (ws_Branch w) of
        Inl _ \<Rightarrow> Inl (SyncInvalid ''Bucket workspace key does not match record'')
      | Inr branch \<Rightarrow>
          require (workspaceKey (ws_BucketID w) branch = key)
            (SyncInvalid ''Bucket workspace key does not match record'') (
          bindE (validateHead L (ws_Base w)) (\<lambda>_.
          bindE (validateHead L (ws_Remote w)) (\<lambda>_.
          stashes_ok L (ws_Stashes w)))))"

fun workspaces_ok :: "cid_lib \<Rightarrow> (string, Workspace) gomap \<Rightarrow> sync_error + unit" where
  "workspaces_ok L [] = Inr ()"
| "workspaces_ok L ((key, w) # rest) = bindE (workspace_ok L key w) (\<lambda>_. workspaces_ok L rest)"

definition validateFreezeFields :: "(string, Workspace \<times> bool option list) gomap \<Rightarrow> bool" where
  "validateFreezeFields m \<longleftrightarrow> list_all (\<lambda>(key, w, frozen). list_all (\<lambda>x. x \<noteq> None) frozen) m"

text \<open>\<open>strictjson.Decode\<close> rejects a document with a repeated key.\<close>

definition sync_reload :: "cid_lib \<Rightarrow> sync_file \<Rightarrow> sync_error + sync_state" where
  "sync_reload L f =
     (let raw = (case sf_Workspaces f of None \<Rightarrow> [] | Some m \<Rightarrow> m);
          m = map (\<lambda>(key, w, frozen). (key, w)) raw in
      require (gm_wf m) (SyncInvalid ''decode Bucket workspace'') (
      require (sf_Version f = bucketWorkspaceVersion) (SyncInvalid ''unsupported Bucket workspace version'') (
      require (validateFreezeFields raw) (SyncInvalid ''stash lacks explicit request_frozen'') (
      bindE (workspaces_ok L m) (\<lambda>_. Inr \<lparr>ss_Version = sf_Version f, ss_Workspaces = m\<rparr>)))))"

definition json_head :: "Head \<Rightarrow> Head" where
  "json_head h = h\<lparr>hd_CommitID := json_text (hd_CommitID h), hd_Root := json_text (hd_Root h)\<rparr>"

definition json_conflict :: "Conflict \<Rightarrow> Conflict" where
  "json_conflict c =
     \<lparr>cf_Coordinate = json_text (cf_Coordinate c), cf_Base = json_text (cf_Base c),
      cf_Local = json_text (cf_Local c), cf_Remote = json_text (cf_Remote c)\<rparr>"

definition json_stash :: "Stash \<Rightarrow> Stash" where
  "json_stash x =
     x\<lparr>st_ID := json_text (st_ID x), st_PushID := json_text (st_PushID x),
       st_CandidateRoot := json_text (st_CandidateRoot x), st_Base := json_head (st_Base x),
       st_ChangeSetCID := json_text (st_ChangeSetCID x), st_Message := json_text (st_Message x),
       st_Status := json_text (st_Status x), st_Branch := json_text (st_Branch x),
       st_Conflicts := map json_conflict (st_Conflicts x)\<rparr>"

definition json_workspace :: "Workspace \<Rightarrow> Workspace" where
  "json_workspace w =
     w\<lparr>ws_BucketID := json_text (ws_BucketID w), ws_Branch := json_text (ws_Branch w),
       ws_Base := json_head (ws_Base w), ws_Remote := json_head (ws_Remote w),
       ws_Stashes := map json_stash (ws_Stashes w)\<rparr>"

definition sync_encode :: "sync_state \<Rightarrow> sync_file" where
  "sync_encode s =
     \<lparr>sf_Version = ss_Version s,
      sf_Workspaces = Some (map (\<lambda>(key, w). (json_text key, json_workspace w,
        map (\<lambda>x. Some (st_RequestFrozen x)) (ws_Stashes w))) (ss_Workspaces s))\<rparr>"

text \<open>The directory sync after the rename is best effort and cannot fail the write.\<close>

definition syncSteps :: "io_step list" where
  "syncSteps = [Marshal, CreateTemp, SecureTemp, WriteTemp, SyncTemp, CloseTemp, RenameTemp, SecureTarget]"

definition sync_withState ::
  "cid_lib \<Rightarrow> faults \<Rightarrow> (sync_state \<Rightarrow> (sync_error + 'r) \<times> sync_state option) \<Rightarrow> sync_disk
    \<Rightarrow> (sync_error + 'r) \<times> sync_disk" where
  "sync_withState L F operation disk =
     with_state syncSteps F SyncIO (SyncInvalid ''decode Bucket workspace'') sync_init (sync_reload L)
       sync_encode operation disk"

section \<open>Phases on the loaded state\<close>

definition workspace :: "Service \<Rightarrow> sync_state \<Rightarrow> Workspace" where
  "workspace sv s =
     (case gm_get (ss_Workspaces s) (sv_stateKey sv) of None \<Rightarrow> no_workspace | Some w \<Rightarrow> w)
       \<lparr>ws_BucketID := sv_bucketID sv, ws_Branch := sv_branch sv\<rparr>"

definition put_workspace :: "Service \<Rightarrow> sync_state \<Rightarrow> Workspace \<Rightarrow> sync_state" where
  "put_workspace sv s w = s\<lparr>ss_Workspaces := gm_put (ss_Workspaces s) (sv_stateKey sv) w\<rparr>"

text \<open>The base follows the remote only when nothing is pending.\<close>

definition advanceBase :: "Workspace \<Rightarrow> Head \<Rightarrow> sync_error + Head" where
  "advanceBase w remote =
     (if \<not> hasPending (ws_Stashes w) then monotonicHead (ws_Base w) remote else Inr (ws_Base w))"

definition pullLocked :: "Service \<Rightarrow> Head \<Rightarrow> time \<Rightarrow> sync_state \<Rightarrow> sync_error + (Workspace \<times> sync_state)" where
  "pullLocked sv observed now s =
     (let w = (workspace sv s)\<lparr>ws_Initialized := True\<rparr> in
      bindE (monotonicHead (ws_Remote w) observed) (\<lambda>remote.
      bindE (advanceBase w remote) (\<lambda>base.
      let w' = w\<lparr>ws_Remote := remote, ws_Base := base, ws_UpdatedAt := now\<rparr>
      in Inr (w', put_workspace sv s w'))))"

definition currentBaseLocked :: "Service \<Rightarrow> string \<Rightarrow> sync_state \<Rightarrow> sync_error + Head" where
  "currentBaseLocked sv want s =
     (let w = workspace sv s in
      require (ws_Initialized w) ErrNotInitialized (
      require (hd_Root (ws_Base w) = want)
        (SyncInvalid ''candidate base root does not match staged workspace base'') (Inr (ws_Base w))))"

definition is_pending :: "string \<Rightarrow> Stash \<Rightarrow> bool" where
  "is_pending root x \<longleftrightarrow> st_Status x = ''pending'' \<and> st_CandidateRoot x = root"

definition new_stash :: "string \<Rightarrow> string \<Rightarrow> Head \<Rightarrow> string \<Rightarrow> string \<Rightarrow> time \<Rightarrow> Stash" where
  "new_stash ident root base changeSet message now =
     \<lparr>st_ID = ident, st_PushID = ''push_'' @ ident, st_CandidateRoot = root, st_Base = base,
      st_ChangeSetCID = changeSet, st_Message = TrimSpace message, st_RequestFrozen = False,
      st_Status = ''pending'', st_Branch = [], st_Conflicts = [], st_CreatedAt = now, st_UpdatedAt = now\<rparr>"

text \<open>\<open>randomID\<close> encodes sixteen bytes of the random source, which may fail.\<close>

definition randomID :: "bytes option \<Rightarrow> sync_error + string" where
  "randomID random =
     (case random of None \<Rightarrow> Inl (SyncInvalid ''random'') | Some bytes \<Rightarrow> Inr (EncodeToString bytes))"

definition stageLocked ::
  "Service \<Rightarrow> string \<Rightarrow> Head \<Rightarrow> string \<Rightarrow> string \<Rightarrow> bytes option \<Rightarrow> time \<Rightarrow> sync_state
    \<Rightarrow> sync_error + (Stash \<times> sync_state)" where
  "stageLocked sv root base changeSet message random now s =
     (let w = workspace sv s in
      require (ws_Initialized w) ErrNotInitialized (
      case find (is_pending root) (ws_Stashes w) of
        Some existing \<Rightarrow>
          require (st_Base existing = base)
            (SyncInvalid ''candidate is already staged against a different base'') (Inr (existing, s))
      | None \<Rightarrow>
          bindE (randomID random) (\<lambda>ident.
          let x = new_stash ident root base changeSet message now
          in Inr (x, put_workspace sv s (w\<lparr>ws_Stashes := ws_Stashes w @ [x], ws_UpdatedAt := now\<rparr>)))))"

fun restore_scan :: "Stash \<Rightarrow> Stash list \<Rightarrow> sync_error + Stash option" where
  "restore_scan x [] = Inr None"
| "restore_scan x (existing # rest) =
     (if st_ID existing = st_ID x
      then require (sameFrozenStash existing x)
             (SyncInvalid ''restored Bucket stash conflicts with local stash'') (Inr (Some existing))
      else if is_pending (st_CandidateRoot x) existing
      then Inl (SyncInvalid ''restored Bucket stash candidate already has a different pending identity'')
      else restore_scan x rest)"

definition restoreLocked :: "Service \<Rightarrow> Stash \<Rightarrow> time \<Rightarrow> sync_state \<Rightarrow> sync_error + (Stash \<times> sync_state)" where
  "restoreLocked sv x now s =
     (let w = workspace sv s in
      require (ws_Initialized w) ErrNotInitialized (
      bindE (restore_scan x (ws_Stashes w)) (\<lambda>found.
      case found of
        Some existing \<Rightarrow> Inr (existing, s)
      | None \<Rightarrow>
          let x' = x\<lparr>st_UpdatedAt := now\<rparr>
          in Inr (x', put_workspace sv s (w\<lparr>ws_Stashes := ws_Stashes w @ [x'], ws_UpdatedAt := now\<rparr>)))))"

text \<open>Push, first phase: fix the request of the pending stash, or check a retry against it.\<close>

definition freezeStash :: "string \<Rightarrow> string \<Rightarrow> time \<Rightarrow> Stash \<Rightarrow> sync_error + Stash" where
  "freezeStash changeSet message now x =
     (if st_RequestFrozen x
      then require (\<not> (changeSet \<noteq> [] \<and> changeSet \<noteq> st_ChangeSetCID x))
             (SyncInvalid ''Bucket retry change set differs from the persisted push request'') (
           require (\<not> (message \<noteq> [] \<and> message \<noteq> st_Message x))
             (SyncInvalid ''Bucket retry message differs from the persisted push request'') (
           Inr (x\<lparr>st_UpdatedAt := now\<rparr>)))
      else Inr (x\<lparr>st_ChangeSetCID := (if changeSet \<noteq> [] then changeSet else st_ChangeSetCID x),
                 st_Message := (if message \<noteq> [] then message else st_Message x),
                 st_RequestFrozen := True, st_UpdatedAt := now\<rparr>))"

fun freeze_first :: "string \<Rightarrow> string \<Rightarrow> string \<Rightarrow> time \<Rightarrow> Stash list \<Rightarrow> sync_error + (Stash \<times> Stash list)" where
  "freeze_first root changeSet message now [] = Inl ErrNotStaged"
| "freeze_first root changeSet message now (x # xs) =
     (if is_pending root x
      then bindE (freezeStash changeSet message now x) (\<lambda>x'. Inr (x', x' # xs))
      else bindE (freeze_first root changeSet message now xs) (\<lambda>(y, ys). Inr (y, x # ys)))"

definition freezeLocked ::
  "Service \<Rightarrow> string \<Rightarrow> string \<Rightarrow> string \<Rightarrow> time \<Rightarrow> time \<Rightarrow> sync_state \<Rightarrow> sync_error + (Stash \<times> sync_state)" where
  "freezeLocked sv root changeSet message now now' s =
     (let w = workspace sv s in
      require (ws_Initialized w) ErrNotInitialized (
      bindE (freeze_first root changeSet (TrimSpace message) now (ws_Stashes w)) (\<lambda>(x, xs).
      Inr (x, put_workspace sv s (w\<lparr>ws_Stashes := xs, ws_UpdatedAt := now'\<rparr>)))))"

text \<open>Push, last phase: a conflicted stash is marked, any other settled stash is removed.\<close>

fun settle :: "string \<Rightarrow> ApplyResult \<Rightarrow> time \<Rightarrow> Stash list \<Rightarrow> Stash list" where
  "settle ident r now [] = []"
| "settle ident r now (x # xs) =
     (if st_ID x \<noteq> ident then x # settle ident r now xs
      else if ap_Status r = ''branched''
      then x\<lparr>st_Status := ''branched'',
             st_Branch := (case ap_Branch r of None \<Rightarrow> st_Branch x | Some ref \<Rightarrow> nh_Name ref),
             st_Conflicts := conflictsFromRemote (ap_Conflicts r), st_UpdatedAt := now\<rparr> # xs
      else xs)"

definition finishLocked ::
  "cid_lib \<Rightarrow> Service \<Rightarrow> string \<Rightarrow> ApplyResult \<Rightarrow> time \<Rightarrow> time \<Rightarrow> sync_state
    \<Rightarrow> sync_error + (Workspace \<times> sync_state)" where
  "finishLocked L sv ident r now now' s =
     (let w = workspace sv s; w = w\<lparr>ws_Stashes := settle ident r now (ws_Stashes w)\<rparr> in
      bindE (headFromRef L (ap_Head r)) (\<lambda>h.
      bindE (monotonicHead (ws_Remote w) h) (\<lambda>remote.
      bindE (advanceBase w remote) (\<lambda>base.
      let w' = w\<lparr>ws_Remote := remote, ws_Base := base, ws_UpdatedAt := now'\<rparr>
      in Inr (w', put_workspace sv s w')))))"

fun resolve_first :: "string \<Rightarrow> string \<Rightarrow> Stash list \<Rightarrow> sync_error + Stash list" where
  "resolve_first ident root [] = Inl (SyncInvalid ''branched Bucket stash was not found'')"
| "resolve_first ident root (x # xs) =
     (if st_ID x \<noteq> ident then bindE (resolve_first ident root xs) (\<lambda>ys. Inr (x # ys))
      else require (\<not> (st_Status x \<noteq> ''branched'' \<or> st_CandidateRoot x \<noteq> root))
             (SyncInvalid ''Bucket stash is not the selected branched candidate'') (Inr xs))"

definition resolveLocked ::
  "Service \<Rightarrow> string \<Rightarrow> string \<Rightarrow> time \<Rightarrow> sync_state \<Rightarrow> sync_error + (Workspace \<times> sync_state)" where
  "resolveLocked sv ident root now s =
     (let w = workspace sv s in
      bindE (resolve_first ident root (ws_Stashes w)) (\<lambda>xs.
      let w = w\<lparr>ws_Stashes := xs\<rparr> in
      bindE (advanceBase w (ws_Remote w)) (\<lambda>base.
      let w' = w\<lparr>ws_Base := base, ws_UpdatedAt := now\<rparr>
      in Inr (w', put_workspace sv s w'))))"

section \<open>The service\<close>

definition OpenRemoteBranch ::
  "cid_lib \<Rightarrow> faults \<Rightarrow> string \<Rightarrow> DatasetBinding option \<Rightarrow> string \<Rightarrow> string \<Rightarrow> sync_disk
    \<Rightarrow> (sync_error + Service) \<times> sync_disk" where
  "OpenRemoteBranch L F path0 remote bucketID0 branch0 disk =
     (let path = TrimSpace path0; bucketID = TrimSpace bucketID0 in
      case bindE (lift_dataset (NormalizeBranch branch0)) (\<lambda>branch.
           bindE (case remote of
                    None \<Rightarrow> Inl (SyncInvalid ''Bucket sync path, remote dataset capability, Bucket ID, and branch are required'')
                  | Some b \<Rightarrow>
                      require (\<not> (path = [] \<or> bucketID = []))
                        (SyncInvalid ''Bucket sync path, remote dataset capability, Bucket ID, and branch are required'') (
                      lift_dataset (ValidateBinding bucketID branch b))) (\<lambda>_.
           Inr \<lparr>sv_bucketID = bucketID, sv_branch = branch, sv_stateKey = workspaceKey bucketID branch\<rparr>)) of
        Inl e \<Rightarrow> (Inl e, disk)
      | Inr sv \<Rightarrow>
          (case sync_withState L F (reading (\<lambda>_. Inr ())) disk of
             (Inl e, disk') \<Rightarrow> (Inl e, disk') | (Inr _, disk') \<Rightarrow> (Inr sv, disk')))"

definition OpenRemote ::
  "cid_lib \<Rightarrow> faults \<Rightarrow> string \<Rightarrow> DatasetBinding option \<Rightarrow> string \<Rightarrow> sync_disk \<Rightarrow> (sync_error + Service) \<times> sync_disk" where
  "OpenRemote L F path remote bucketID = OpenRemoteBranch L F path remote bucketID ''main''"

text \<open>\<open>observed\<close> is the answer of the remote: an error, no response, or a head.\<close>

definition checkObserved ::
  "cid_lib \<Rightarrow> Service \<Rightarrow> string + ObservedHead option \<Rightarrow> sync_error + Head" where
  "checkObserved L sv observed =
     (case observed of
        Inl e \<Rightarrow> Inl (SyncRemote e)
      | Inr None \<Rightarrow> Inl (SyncInvalid ''remote returned an empty dataset head response'')
      | Inr (Some h) \<Rightarrow>
          bindE (lift_dataset (ValidateObservedHead L (sv_bucketID sv) (sv_branch sv) h)) (\<lambda>_. headFromRef L h))"

definition sync_Pull ::
  "cid_lib \<Rightarrow> faults \<Rightarrow> Service \<Rightarrow> string + ObservedHead option \<Rightarrow> time \<Rightarrow> sync_disk
    \<Rightarrow> (sync_error + Workspace) \<times> sync_disk" where
  "sync_Pull L F sv observed now disk =
     (case checkObserved L sv observed of
        Inl e \<Rightarrow> (Inl e, disk) | Inr h \<Rightarrow> sync_withState L F (writing (pullLocked sv h now)) disk)"

definition sync_CurrentBase ::
  "cid_lib \<Rightarrow> faults \<Rightarrow> Service \<Rightarrow> cid \<Rightarrow> sync_disk \<Rightarrow> (sync_error + Head) \<times> sync_disk" where
  "sync_CurrentBase L F sv baseRoot =
     sync_withState L F (reading (currentBaseLocked sv (if cid_Defined baseRoot then cid_String L baseRoot else [])))"

definition sync_Stage ::
  "cid_lib \<Rightarrow> faults \<Rightarrow> Service \<Rightarrow> cid \<Rightarrow> Head \<Rightarrow> cid \<Rightarrow> string \<Rightarrow> bytes option \<Rightarrow> time \<Rightarrow> sync_disk
    \<Rightarrow> (sync_error + Stash) \<times> sync_disk" where
  "sync_Stage L F sv candidate base changeSet message random now disk =
     (case require (cid_Defined candidate) (SyncInvalid ''candidate root is undefined'') (validateHead L base) of
        Inl e \<Rightarrow> (Inl e, disk)
      | Inr _ \<Rightarrow>
          sync_withState L F (writing (stageLocked sv (cid_String L candidate) base
            (if cid_Defined changeSet then cid_String L changeSet else []) message random now)) disk)"

definition checkRestored :: "cid_lib \<Rightarrow> Stash \<Rightarrow> sync_error + Stash" where
  "checkRestored L x =
     require (\<not> (st_ID x = [] \<or> st_PushID x = [] \<or> st_Status x \<noteq> ''pending'' \<or> \<not> st_RequestFrozen x))
       (SyncInvalid ''restored Bucket stash identity is incomplete'') (
     require (cid_Parse L (st_CandidateRoot x) \<noteq> None) (SyncInvalid ''restored Bucket stash candidate'') (
     bindE (validateHead L (st_Base x)) (\<lambda>_.
     require (st_ChangeSetCID x = [] \<or> cid_Parse L (st_ChangeSetCID x) \<noteq> None)
       (SyncInvalid ''restored Bucket stash change set'') (
     require (st_CreatedAt x \<noteq> 0) (SyncInvalid ''restored Bucket stash creation time is missing'') (
     Inr (x\<lparr>st_Message := TrimSpace (st_Message x)\<rparr>))))))"

definition sync_RestorePending ::
  "cid_lib \<Rightarrow> faults \<Rightarrow> Service \<Rightarrow> Stash \<Rightarrow> time \<Rightarrow> sync_disk \<Rightarrow> (sync_error + Stash) \<times> sync_disk" where
  "sync_RestorePending L F sv x now disk =
     (case checkRestored L x of
        Inl e \<Rightarrow> (Inl e, disk) | Inr x' \<Rightarrow> sync_withState L F (writing (restoreLocked sv x' now)) disk)"

definition sync_Status ::
  "cid_lib \<Rightarrow> faults \<Rightarrow> Service \<Rightarrow> sync_disk \<Rightarrow> (sync_error + Workspace) \<times> sync_disk" where
  "sync_Status L F sv = sync_withState L F (reading (\<lambda>s. Inr (workspace sv s)))"

definition sync_ResolveBranched ::
  "cid_lib \<Rightarrow> faults \<Rightarrow> Service \<Rightarrow> string \<Rightarrow> string \<Rightarrow> time \<Rightarrow> sync_disk
    \<Rightarrow> (sync_error + Workspace) \<times> sync_disk" where
  "sync_ResolveBranched L F sv ident0 root0 now disk =
     (let ident = TrimSpace ident0; root = TrimSpace root0 in
      if ident = [] then (Inl (SyncInvalid ''branched stash ID is empty''), disk)
      else if cid_Parse L root = None then (Inl (SyncInvalid ''branched stash candidate''), disk)
      else sync_withState L F (writing (resolveLocked sv ident root now)) disk)"

section \<open>Push\<close>

text \<open>
  What surrounds one push: the faults and clock readings of its three locked phases and the answers of
  the remote.
\<close>

record push_env =
  pe_freeze :: "faults \<times> time \<times> time"
  pe_pull :: "faults \<times> time"
  pe_finish :: "faults \<times> time \<times> time"
  pe_observe :: "string + ObservedHead option"
  pe_apply :: "ApplyRequest \<Rightarrow> string + ApplyResult option"

definition push_request :: "Service \<Rightarrow> Stash \<Rightarrow> ApplyRequest" where
  "push_request sv x =
     \<lparr>rq_OperationID = st_PushID x, rq_Branch = sv_branch sv, rq_BaseCommit = hd_CommitID (st_Base x),
      rq_BaseRoot = hd_Root (st_Base x), rq_CandidateRoot = st_CandidateRoot x,
      rq_BaseRevision = hd_Revision (st_Base x), rq_ChangeSetCID = st_ChangeSetCID x,
      rq_Message = st_Message x, rq_MergePolicy = []\<rparr>"

definition sync_freeze ::
  "cid_lib \<Rightarrow> Service \<Rightarrow> cid \<Rightarrow> cid \<Rightarrow> string \<Rightarrow> faults \<times> time \<times> time \<Rightarrow> sync_disk
    \<Rightarrow> (sync_error + Stash) \<times> sync_disk" where
  "sync_freeze L sv candidate changeSet message = (\<lambda>(F, now, now').
     sync_withState L F (writing (freezeLocked sv (cid_String L candidate)
       (if cid_Defined changeSet then cid_String L changeSet else []) message now now')))"

definition sync_finish ::
  "cid_lib \<Rightarrow> Service \<Rightarrow> string \<Rightarrow> ApplyResult \<Rightarrow> faults \<times> time \<times> time \<Rightarrow> sync_disk
    \<Rightarrow> (sync_error + Workspace) \<times> sync_disk" where
  "sync_finish L sv ident r = (\<lambda>(F, now, now').
     sync_withState L F (writing (finishLocked L sv ident r now now')))"

text \<open>The result of a push with the requests it handed to the remote.\<close>

definition sync_Push ::
  "cid_lib \<Rightarrow> Service \<Rightarrow> push_env \<Rightarrow> cid \<Rightarrow> cid \<Rightarrow> string \<Rightarrow> sync_disk
    \<Rightarrow> ((sync_error + PushOutcome) \<times> ApplyRequest list) \<times> sync_disk" where
  "sync_Push L sv env candidate changeSet message disk =
     (if \<not> cid_Defined candidate then ((Inl (SyncInvalid ''candidate root is undefined''), []), disk)
      else
        case sync_freeze L sv candidate changeSet message (pe_freeze env) disk of
          (Inl e, disk1) \<Rightarrow> ((Inl e, []), disk1)
        | (Inr x, disk1) \<Rightarrow>
            (case sync_Pull L (fst (pe_pull env)) sv (pe_observe env) (snd (pe_pull env)) disk1 of
               (Inl e, disk2) \<Rightarrow> ((Inl e, []), disk2)
             | (Inr _, disk2) \<Rightarrow>
                 (case NormalizeApplyRequest L (sv_branch sv) (push_request sv x) of
                    Inl e \<Rightarrow> ((Inl (SyncDataset e), []), disk2)
                  | Inr request \<Rightarrow>
                      (case pe_apply env request of
                         Inl e \<Rightarrow> ((Inl (SyncRemote e), [request]), disk2)
                       | Inr None \<Rightarrow>
                           ((Inl (SyncInvalid ''remote returned an empty dataset apply response''), [request]), disk2)
                       | Inr (Some r) \<Rightarrow>
                           (case ValidateApplyResult L (sv_bucketID sv) request r of
                              Inl e \<Rightarrow> ((Inl (SyncDataset e), [request]), disk2)
                            | Inr _ \<Rightarrow>
                                (case sync_finish L sv (st_ID x) r (pe_finish env) disk2 of
                                   (Inl e, disk3) \<Rightarrow> ((Inl e, [request]), disk3)
                                 | (Inr w, disk3) \<Rightarrow>
                                     ((Inr \<lparr>po_Result = r, po_Workspace = w\<rparr>, [request]), disk3)))))))"

end
