(* ===== verification/History.thy ===== *)
theory History
  imports BucketSync
begin

text \<open>
  The backup history (\<open>application/backup/scheduler.go\<close>): per plan the last attempt and result, the journal
  of the one backup that is being published, and the conflict checkout prepared for it.  Every method is
  a locked read or a read-modify-write of one file.
\<close>

section \<open>Data\<close>

text \<open>\<open>Result\<close> of \<open>application/backup/service.go\<close>.\<close>

record Result =
  br_PlanID :: string
  br_PlanName :: string
  br_Branch :: string
  br_Source :: string
  br_Profile :: string
  br_KeyEpoch :: nat
  br_EncryptedBytes :: int
  br_SourceFingerprint :: string
  br_BindingFingerprints :: "(string, string) gomap"
  br_ManifestFingerprint :: string
  br_ChangedBindings :: "string list"
  br_Skipped :: bool
  br_Base :: Head
  br_CandidateRoot :: string
  br_Push :: PushOutcome
  br_CompletedAt :: time
  br_RetriedPending :: bool
  br_ReconciledPending :: bool

record PlanState =
  ps_Name :: string
  ps_LastCheckedAt :: time
  ps_LastAttemptAt :: time
  ps_LastSuccessAt :: time
  ps_LastError :: string
  ps_FailureCount :: int
  ps_AttemptActive :: bool
  ps_LastResult :: "Result option"

record PendingBackup =
  pb_BucketID :: string
  pb_PlanID :: string
  pb_Message :: string
  pb_StashID :: string
  pb_PushID :: string
  pb_CandidateBase :: string
  pb_CandidateRecorded :: bool
  pb_Result :: Result
  pb_CreatedAt :: time

record BindingConflict =
  bc_BindingID :: string
  bc_BindingName :: string
  bc_Paths :: "string list"

record ConflictCheckout =
  cc_PlanID :: string
  cc_StashID :: string
  cc_Branch :: string
  cc_BaseRoot :: string
  cc_LocalRoot :: string
  cc_RemoteRoot :: string
  cc_Path :: string
  cc_Bindings :: "BindingConflict list"
  cc_CreatedAt :: time

record historyFile =
  hf_Version :: int
  hf_Plans :: "(string, PlanState) gomap"
  hf_Pending :: "PendingBackup option"
  hf_Conflict :: "ConflictCheckout option"

text \<open>The decoded document; a \<open>null\<close> or missing \<open>plans\<close> decodes to a nil map.\<close>

record history_doc =
  hd_Version :: int
  hd_Plans :: "(string, PlanState) gomap option"
  hd_Pending :: "PendingBackup option"
  hd_Conflict :: "ConflictCheckout option"

type_synonym history_disk = "history_doc content option"

datatype history_error = HistoryInvalid string | HistoryIO io_step

definition ProfileID :: string where
  "ProfileID = ''malt.encrypted-unixfs/v1''"

definition no_plan :: PlanState where
  "no_plan = \<lparr>ps_Name = [], ps_LastCheckedAt = 0, ps_LastAttemptAt = 0, ps_LastSuccessAt = 0, ps_LastError = [],
     ps_FailureCount = 0, ps_AttemptActive = False, ps_LastResult = None\<rparr>"

definition history_init :: historyFile where
  "history_init = \<lparr>hf_Version = 2, hf_Plans = [], hf_Pending = None, hf_Conflict = None\<rparr>"

section \<open>JSON\<close>

definition json_commit :: "Commit \<Rightarrow> Commit" where
  "json_commit c =
     c\<lparr>cm_ID := json_text (cm_ID c), cm_DatasetID := json_text (cm_DatasetID c), cm_Root := json_text (cm_Root c),
       cm_Parents := map json_text (cm_Parents c), cm_BaseRoot := json_text (cm_BaseRoot c),
       cm_Author := json_text (cm_Author c), cm_Credential := json_text (cm_Credential c),
       cm_ChangeSetCID := json_text (cm_ChangeSetCID c), cm_Message := json_text (cm_Message c)\<rparr>"

definition json_observed_head :: "ObservedHead \<Rightarrow> ObservedHead" where
  "json_observed_head h =
     h\<lparr>nh_DatasetID := json_text (nh_DatasetID h), nh_Name := json_text (nh_Name h), nh_Kind := json_text (nh_Kind h),
       nh_State := json_text (nh_State h), nh_CommitID := json_text (nh_CommitID h), nh_Root := json_text (nh_Root h),
       nh_CreatedBy := json_text (nh_CreatedBy h)\<rparr>"

definition json_apply_result :: "ApplyResult \<Rightarrow> ApplyResult" where
  "json_apply_result r =
     r\<lparr>ap_Status := json_text (ap_Status r), ap_Head := json_observed_head (ap_Head r),
       ap_Candidate := json_commit (ap_Candidate r), ap_Commit := json_commit (ap_Commit r),
       ap_Branch := map_option json_observed_head (ap_Branch r), ap_MergeBase := json_text (ap_MergeBase r),
       ap_Conflicts := map json_conflict (ap_Conflicts r)\<rparr>"

definition json_push :: "PushOutcome \<Rightarrow> PushOutcome" where
  "json_push p = \<lparr>po_Result = json_apply_result (po_Result p), po_Workspace = json_workspace (po_Workspace p)\<rparr>"

definition json_result :: "Result \<Rightarrow> Result" where
  "json_result r =
     r\<lparr>br_PlanID := json_text (br_PlanID r), br_PlanName := json_text (br_PlanName r),
       br_Branch := json_text (br_Branch r), br_Source := json_text (br_Source r),
       br_Profile := json_text (br_Profile r), br_SourceFingerprint := json_text (br_SourceFingerprint r),
       br_BindingFingerprints := map (map_prod json_text json_text) (br_BindingFingerprints r),
       br_ManifestFingerprint := json_text (br_ManifestFingerprint r),
       br_ChangedBindings := map json_text (br_ChangedBindings r), br_Base := json_head (br_Base r),
       br_CandidateRoot := json_text (br_CandidateRoot r), br_Push := json_push (br_Push r)\<rparr>"

definition json_plan_state :: "PlanState \<Rightarrow> PlanState" where
  "json_plan_state p =
     p\<lparr>ps_Name := json_text (ps_Name p), ps_LastError := json_text (ps_LastError p),
       ps_LastResult := map_option json_result (ps_LastResult p)\<rparr>"

definition json_pending :: "PendingBackup \<Rightarrow> PendingBackup" where
  "json_pending p =
     p\<lparr>pb_BucketID := json_text (pb_BucketID p), pb_PlanID := json_text (pb_PlanID p),
       pb_Message := json_text (pb_Message p), pb_StashID := json_text (pb_StashID p),
       pb_PushID := json_text (pb_PushID p), pb_CandidateBase := json_text (pb_CandidateBase p),
       pb_Result := json_result (pb_Result p)\<rparr>"

definition json_binding_conflict :: "BindingConflict \<Rightarrow> BindingConflict" where
  "json_binding_conflict b =
     \<lparr>bc_BindingID = json_text (bc_BindingID b), bc_BindingName = json_text (bc_BindingName b),
      bc_Paths = map json_text (bc_Paths b)\<rparr>"

definition json_checkout :: "ConflictCheckout \<Rightarrow> ConflictCheckout" where
  "json_checkout c =
     c\<lparr>cc_PlanID := json_text (cc_PlanID c), cc_StashID := json_text (cc_StashID c),
       cc_Branch := json_text (cc_Branch c), cc_BaseRoot := json_text (cc_BaseRoot c),
       cc_LocalRoot := json_text (cc_LocalRoot c), cc_RemoteRoot := json_text (cc_RemoteRoot c),
       cc_Path := json_text (cc_Path c), cc_Bindings := map json_binding_conflict (cc_Bindings c)\<rparr>"

definition history_encode :: "historyFile \<Rightarrow> history_doc" where
  "history_encode h =
     \<lparr>hd_Version = hf_Version h, hd_Plans = Some (map (map_prod json_text json_plan_state) (hf_Plans h)),
      hd_Pending = map_option json_pending (hf_Pending h),
      hd_Conflict = map_option json_checkout (hf_Conflict h)\<rparr>"

section \<open>Loading\<close>

text \<open>
  \<open>strictjson.Decode\<close> refuses a document in which an object repeats a key: the plans, and the binding
  fingerprints of every result.
\<close>

definition result_keys_ok :: "Result \<Rightarrow> bool" where
  "result_keys_ok r \<longleftrightarrow> gm_wf (br_BindingFingerprints r)"

definition doc_keys_ok :: "history_doc \<Rightarrow> bool" where
  "doc_keys_ok f \<longleftrightarrow>
     (case hd_Plans f of
        None \<Rightarrow> True
      | Some m \<Rightarrow> gm_wf m \<and>
          list_all (\<lambda>(k, p). case ps_LastResult p of None \<Rightarrow> True | Some r \<Rightarrow> result_keys_ok r) m) \<and>
     (case hd_Pending f of None \<Rightarrow> True | Some p \<Rightarrow> result_keys_ok (pb_Result p))"

definition pending_identity_ok :: "PendingBackup option \<Rightarrow> bool" where
  "pending_identity_ok pending \<longleftrightarrow>
     (case pending of None \<Rightarrow> True | Some p \<Rightarrow> (pb_StashID p = []) = (pb_PushID p = []))"

definition conflict_matches :: "PendingBackup option \<Rightarrow> ConflictCheckout option \<Rightarrow> bool" where
  "conflict_matches pending conflict \<longleftrightarrow>
     (case conflict of
        None \<Rightarrow> True
      | Some c \<Rightarrow>
          (case pending of
             None \<Rightarrow> False
           | Some p \<Rightarrow>
               \<not> (cc_StashID c = [] \<or> cc_StashID c \<noteq> pb_StashID p \<or>
                  cc_LocalRoot c \<noteq> br_CandidateRoot (pb_Result p) \<or> cc_Path c = [] \<or> length (cc_Bindings c) = 0)))"

definition history_load :: "history_doc \<Rightarrow> history_error + historyFile" where
  "history_load f =
     require (doc_keys_ok f) (HistoryInvalid ''decode backup history'') (
     require (hd_Version f = 2) (HistoryInvalid ''unsupported backup history version'') (
     require (pending_identity_ok (hd_Pending f))
       (HistoryInvalid ''pending backup journal has incomplete frozen stash identity'') (
     require (conflict_matches (hd_Pending f) (hd_Conflict f))
       (HistoryInvalid ''backup conflict checkout does not match pending backup'') (
     Inr \<lparr>hf_Version = hd_Version f, hf_Plans = (case hd_Plans f of None \<Rightarrow> [] | Some m \<Rightarrow> m),
          hf_Pending = hd_Pending f, hf_Conflict = hd_Conflict f\<rparr>))))"

text \<open>\<open>filelock.Acquire\<close> makes the directory and takes the lock; \<open>write\<close> makes the directory again.\<close>

definition historySteps :: "io_step list" where
  "historySteps =
     [MkdirTarget, Marshal, CreateTemp, SecureTemp, WriteTemp, SyncTemp, CloseTemp, RenameTemp, SyncParent]"

definition history_withState ::
  "faults \<Rightarrow> (historyFile \<Rightarrow> (history_error + 'r) \<times> historyFile option) \<Rightarrow> history_disk
    \<Rightarrow> (history_error + 'r) \<times> history_disk" where
  "history_withState F operation disk =
     with_state historySteps F HistoryIO (HistoryInvalid ''decode backup history'') history_init history_load
       history_encode operation disk"

text \<open>\<open>mutate\<close>: the update either fails, or its result is written.\<close>

definition history_mutate ::
  "faults \<Rightarrow> (historyFile \<Rightarrow> history_error + historyFile) \<Rightarrow> history_disk \<Rightarrow> (history_error + unit) \<times> history_disk" where
  "history_mutate F f = history_withState F (writing (\<lambda>h. bindE (f h) (\<lambda>h'. Inr ((), h'))))"

section \<open>Methods\<close>

definition history_Snapshot :: "faults \<Rightarrow> history_disk \<Rightarrow> (history_error + (string, PlanState) gomap) \<times> history_disk" where
  "history_Snapshot F = history_withState F (reading (\<lambda>h. Inr (hf_Plans h)))"

definition NewHistory :: "faults \<Rightarrow> string \<Rightarrow> history_disk \<Rightarrow> (history_error + unit) \<times> history_disk" where
  "NewHistory F path disk =
     (if path = [] then (Inl (HistoryInvalid ''backup history path is empty''), disk)
      else case history_Snapshot F disk of (Inl e, d) \<Rightarrow> (Inl e, d) | (Inr _, d) \<Rightarrow> (Inr (), d))"

definition history_Pending :: "faults \<Rightarrow> history_disk \<Rightarrow> (history_error + PendingBackup option) \<times> history_disk" where
  "history_Pending F = history_withState F (reading (\<lambda>h. Inr (hf_Pending h)))"

definition history_Conflict :: "faults \<Rightarrow> history_disk \<Rightarrow> (history_error + ConflictCheckout option) \<times> history_disk" where
  "history_Conflict F = history_withState F (reading (\<lambda>h. Inr (hf_Conflict h)))"

text \<open>The checks a method makes on its arguments before it locks the file.\<close>

definition checked_mutate ::
  "history_error + 'a \<Rightarrow> faults \<Rightarrow> ('a \<Rightarrow> historyFile \<Rightarrow> history_error + historyFile) \<Rightarrow> history_disk
    \<Rightarrow> (history_error + unit) \<times> history_disk" where
  "checked_mutate check F f disk =
     (case check of Inl e \<Rightarrow> (Inl e, disk) | Inr a \<Rightarrow> history_mutate F (f a) disk)"

definition checkPending :: "PendingBackup \<Rightarrow> history_error + PendingBackup" where
  "checkPending p =
     (let r = pb_Result p in
      require (\<not> (TrimSpace (pb_BucketID p) = [] \<or> TrimSpace (pb_PlanID p) = [] \<or> pb_PlanID p \<noteq> br_PlanID r \<or>
                 TrimSpace (br_Source r) = [] \<or> TrimSpace (br_CandidateRoot r) = [] \<or> pb_CreatedAt p = 0))
        (HistoryInvalid ''pending backup journal is incomplete'') (
      require (\<not> (br_Profile r = ProfileID \<and> \<not> pb_CandidateRecorded p))
        (HistoryInvalid ''encrypted filesystem pending backup lacks a recorded local candidate'') (Inr p)))"

definition setPending :: "PendingBackup \<Rightarrow> historyFile \<Rightarrow> history_error + historyFile" where
  "setPending p h =
     require (hf_Pending h = None)
       (HistoryInvalid ''pending backup candidate must be retried before recording another candidate'') (
     Inr (h\<lparr>hf_Pending := Some p\<rparr>))"

definition history_SetPending :: "faults \<Rightarrow> PendingBackup \<Rightarrow> history_disk \<Rightarrow> (history_error + unit) \<times> history_disk" where
  "history_SetPending F p = checked_mutate (checkPending p) F setPending"

definition clearPending :: "string \<Rightarrow> historyFile \<Rightarrow> history_error + historyFile" where
  "clearPending candidate h =
     (case hf_Pending h of
        None \<Rightarrow> Inr h
      | Some p \<Rightarrow>
          require (br_CandidateRoot (pb_Result p) = candidate) (HistoryInvalid ''pending backup candidate changed'') (
          Inr (h\<lparr>hf_Pending := None\<rparr>)))"

definition history_ClearPending :: "faults \<Rightarrow> string \<Rightarrow> history_disk \<Rightarrow> (history_error + unit) \<times> history_disk" where
  "history_ClearPending F candidate =
     (let candidate = TrimSpace candidate in
      checked_mutate (require (candidate \<noteq> []) (HistoryInvalid ''pending backup candidate is empty'') (Inr candidate))
        F clearPending)"

text \<open>\<open>value.Plans[name]\<close> with its name filled in.\<close>

definition plan_of :: "historyFile \<Rightarrow> string \<Rightarrow> PlanState" where
  "plan_of h name = (case gm_get (hf_Plans h) name of None \<Rightarrow> no_plan | Some p \<Rightarrow> p)\<lparr>ps_Name := name\<rparr>"

definition put_plan :: "historyFile \<Rightarrow> string \<Rightarrow> PlanState \<Rightarrow> historyFile" where
  "put_plan h name p = h\<lparr>hf_Plans := gm_put (hf_Plans h) name p\<rparr>"

definition completePending :: "string \<Rightarrow> string \<Rightarrow> Result \<Rightarrow> historyFile \<Rightarrow> history_error + historyFile" where
  "completePending candidate planID r h =
     (case hf_Pending h of
        None \<Rightarrow> Inl (HistoryInvalid ''pending backup candidate is unavailable for completion'')
      | Some p \<Rightarrow>
          require (br_CandidateRoot (pb_Result p) = candidate)
            (HistoryInvalid ''pending backup candidate is unavailable for completion'') (
          require (pb_PlanID p = planID)
            (HistoryInvalid ''pending backup candidate belongs to another backup plan'') (
          Inr (put_plan (h\<lparr>hf_Pending := None\<rparr>) planID
            ((plan_of h planID)\<lparr>ps_LastSuccessAt := br_CompletedAt r, ps_LastResult := Some r, ps_LastError := [],
               ps_FailureCount := 0, ps_AttemptActive := False\<rparr>)))))"

definition history_CompletePending ::
  "faults \<Rightarrow> string \<Rightarrow> string \<Rightarrow> Result \<Rightarrow> history_disk \<Rightarrow> (history_error + unit) \<times> history_disk" where
  "history_CompletePending F candidate planID r =
     (let candidate = TrimSpace candidate; planID = TrimSpace planID in
      checked_mutate (require (\<not> (candidate = [] \<or> planID = [] \<or> br_PlanID r \<noteq> planID \<or> br_CandidateRoot r \<noteq> candidate))
          (HistoryInvalid ''completed backup candidate does not match its result'') (Inr ()))
        F (\<lambda>_. completePending candidate planID r))"

definition markStaged :: "string \<Rightarrow> Stash \<Rightarrow> historyFile \<Rightarrow> history_error + historyFile" where
  "markStaged candidate x h =
     (case hf_Pending h of
        None \<Rightarrow> Inl (HistoryInvalid ''pending backup candidate is unavailable'')
      | Some p \<Rightarrow>
          require (br_CandidateRoot (pb_Result p) = candidate)
            (HistoryInvalid ''pending backup candidate is unavailable'') (
          require (\<not> (st_Base x \<noteq> br_Base (pb_Result p) \<or> st_Message x \<noteq> pb_Message p \<or> st_ChangeSetCID x \<noteq> [] \<or>
                     st_Status x \<noteq> ''pending'' \<and> st_Status x \<noteq> ''branched''))
            (HistoryInvalid ''pending backup candidate does not match its staged request'') (
          require (\<not> (pb_StashID p \<noteq> [] \<and> (pb_StashID p \<noteq> st_ID x \<or> pb_PushID p \<noteq> st_PushID x)))
            (HistoryInvalid ''pending backup candidate changed its frozen stash identity'') (
          Inr (h\<lparr>hf_Pending := Some (p\<lparr>pb_StashID := st_ID x, pb_PushID := st_PushID x\<rparr>)\<rparr>)))))"

definition history_MarkPendingStaged ::
  "faults \<Rightarrow> string \<Rightarrow> Stash \<Rightarrow> history_disk \<Rightarrow> (history_error + unit) \<times> history_disk" where
  "history_MarkPendingStaged F candidate x =
     (let candidate = TrimSpace candidate in
      checked_mutate (require (\<not> (candidate = [] \<or> st_ID x = [] \<or> st_PushID x = [] \<or> st_CandidateRoot x \<noteq> candidate))
          (HistoryInvalid ''staged backup journal metadata is incomplete'') (Inr ()))
        F (\<lambda>_. markStaged candidate x))"

definition markConflict :: "string \<Rightarrow> Result \<Rightarrow> historyFile \<Rightarrow> history_error + historyFile" where
  "markConflict candidate r h =
     (case hf_Pending h of
        None \<Rightarrow> Inl (HistoryInvalid ''pending backup candidate is unavailable'')
      | Some p \<Rightarrow>
          require (br_CandidateRoot (pb_Result p) = candidate)
            (HistoryInvalid ''pending backup candidate is unavailable'') (
          Inr (h\<lparr>hf_Pending := Some (p\<lparr>pb_Result := r\<rparr>)\<rparr>)))"

definition history_MarkPendingConflict ::
  "faults \<Rightarrow> string \<Rightarrow> Result \<Rightarrow> history_disk \<Rightarrow> (history_error + unit) \<times> history_disk" where
  "history_MarkPendingConflict F candidate r =
     (let candidate = TrimSpace candidate; result = po_Result (br_Push r) in
      checked_mutate (require (\<not> (candidate = [] \<or> br_CandidateRoot r \<noteq> candidate \<or> ap_Status result \<noteq> ''branched'' \<or>
          (case ap_Branch result of None \<Rightarrow> True | Some b \<Rightarrow> TrimSpace (nh_Name b) = [])))
          (HistoryInvalid ''branched backup journal metadata is incomplete'') (Inr ()))
        F (\<lambda>_. markConflict candidate r))"

definition setConflict :: "ConflictCheckout \<Rightarrow> historyFile \<Rightarrow> history_error + historyFile" where
  "setConflict c h =
     require (case hf_Pending h of None \<Rightarrow> False
              | Some p \<Rightarrow> \<not> (pb_StashID p \<noteq> cc_StashID c \<or> br_CandidateRoot (pb_Result p) \<noteq> cc_LocalRoot c))
       (HistoryInvalid ''backup conflict checkout does not match the pending candidate'') (
     Inr (h\<lparr>hf_Conflict := Some c\<rparr>))"

definition history_SetConflictCheckout ::
  "faults \<Rightarrow> ConflictCheckout \<Rightarrow> history_disk \<Rightarrow> (history_error + unit) \<times> history_disk" where
  "history_SetConflictCheckout F c =
     checked_mutate (require (\<not> (TrimSpace (cc_PlanID c) = [] \<or> TrimSpace (cc_StashID c) = [] \<or>
         TrimSpace (cc_LocalRoot c) = [] \<or> TrimSpace (cc_RemoteRoot c) = [] \<or> TrimSpace (cc_Path c) = [] \<or>
         cc_CreatedAt c = 0 \<or> length (cc_Bindings c) = 0))
         (HistoryInvalid ''backup conflict checkout is incomplete'') (Inr c))
       F setConflict"

definition clearConflict :: "string \<Rightarrow> historyFile \<Rightarrow> history_error + historyFile" where
  "clearConflict stashID h =
     require (case hf_Conflict h of None \<Rightarrow> True | Some c \<Rightarrow> cc_StashID c = stashID)
       (HistoryInvalid ''backup conflict checkout belongs to another stash'') (
     Inr (h\<lparr>hf_Conflict := None\<rparr>))"

definition history_ClearConflictCheckout :: "faults \<Rightarrow> string \<Rightarrow> history_disk \<Rightarrow> (history_error + unit) \<times> history_disk" where
  "history_ClearConflictCheckout F stashID =
     (let stashID = TrimSpace stashID in
      checked_mutate (require (stashID \<noteq> []) (HistoryInvalid ''backup conflict stash ID is empty'') (Inr stashID))
        F clearConflict)"

definition history_update :: "string \<Rightarrow> (PlanState \<Rightarrow> PlanState) \<Rightarrow> historyFile \<Rightarrow> history_error + historyFile" where
  "history_update name f h = Inr (put_plan h name (f (plan_of h name)))"

definition history_RecordResult ::
  "faults \<Rightarrow> string \<Rightarrow> Result \<Rightarrow> history_disk \<Rightarrow> (history_error + unit) \<times> history_disk" where
  "history_RecordResult F name r =
     (let name = TrimSpace name in
      checked_mutate (require (\<not> (name = [] \<or> br_CompletedAt r = 0))
          (HistoryInvalid ''backup result name and completion time are required'') (Inr name))
        F (\<lambda>name. history_update name (\<lambda>p. p\<lparr>ps_LastCheckedAt := br_CompletedAt r, ps_LastSuccessAt := br_CompletedAt r,
             ps_LastResult := Some r, ps_LastError := [], ps_FailureCount := 0, ps_AttemptActive := False\<rparr>)))"

definition history_RecordPlanAttempt ::
  "faults \<Rightarrow> string \<Rightarrow> time \<Rightarrow> history_disk \<Rightarrow> (history_error + unit) \<times> history_disk" where
  "history_RecordPlanAttempt F name at =
     (let name = TrimSpace name in
      checked_mutate (require (name \<noteq> []) (HistoryInvalid ''backup plan attempt name is empty'') (Inr name))
        F (\<lambda>name. history_update name (\<lambda>p. p\<lparr>ps_LastCheckedAt := at, ps_LastAttemptAt := at, ps_AttemptActive := True\<rparr>)))"

text \<open>\<open>runErr\<close> is the text of the error, \<open>None\<close> for a nil error; \<open>FailureCount++\<close> is an \<open>int\<close>.\<close>

definition int64_inc :: "int \<Rightarrow> int" where
  "int64_inc n = (n + 1 + 2 ^ 63) mod 2 ^ 64 - 2 ^ 63"

definition history_RecordPlanFailure ::
  "faults \<Rightarrow> string \<Rightarrow> time \<Rightarrow> string option \<Rightarrow> history_disk \<Rightarrow> (history_error + unit) \<times> history_disk" where
  "history_RecordPlanFailure F name at runErr =
     (let name = TrimSpace name in
      checked_mutate (case runErr of
          None \<Rightarrow> Inl (HistoryInvalid ''backup plan failure name and error are required'')
        | Some e \<Rightarrow> require (name \<noteq> []) (HistoryInvalid ''backup plan failure name and error are required'') (Inr (name, e)))
        F (\<lambda>(name, e). history_update name (\<lambda>p. p\<lparr>ps_LastCheckedAt := at, ps_LastAttemptAt := at, ps_LastError := e,
             ps_FailureCount := int64_inc (ps_FailureCount p), ps_AttemptActive := False\<rparr>)))"

end
