(* ===== verification/PlanBackup.thy ===== *)
theory PlanBackup
  imports History
begin

text \<open>
  Publishing a backup (\<open>application/backup/plan_backup.go\<close>): the candidate is journaled in the history, staged
  in the bucket workspace, its push identity is frozen in the journal, and only then it is pushed.  A later
  process finds the journal and finishes the same publication.  The snapshot that produces the candidate and
  the trusted-root policy are outside this part; their answers are arguments.
\<close>

record plan_info =
  pl_ID :: string
  pl_BucketID :: string

datatype plan_error =
    PlanHistory history_error | PlanSync sync_error | PlanInvalid string | PlanRoots string
  | ErrPendingWorkspace string | ConflictError

text \<open>
  What surrounds one attempt: the faults, clock readings and random bytes of each call, and the answers of
  the root policy for the plan's alias.
\<close>

record plan_env =
  pv_journal :: faults
  pv_created :: time
  pv_accepted :: "string + cid"
  pv_hasCandidate :: "cid \<Rightarrow> cid \<Rightarrow> string + bool"
  pv_status :: faults
  pv_restore :: "faults \<times> time"
  pv_stage :: "faults \<times> bytes option \<times> time"
  pv_mark :: faults
  pv_push :: push_env
  pv_now :: time
  pv_done :: faults

text \<open>The two files, and the outcome of an attempt with the requests it sent.\<close>

type_synonym plan_disk = "history_disk \<times> sync_disk"
type_synonym plan_outcome = "((plan_error + Result) \<times> ApplyRequest list) \<times> plan_disk"

definition rootCID :: "cid_lib \<Rightarrow> string \<Rightarrow> plan_error + cid" where
  "rootCID L raw =
     (if TrimSpace raw = [] then Inr [] else of_option (PlanInvalid ''decode backup base root'') (cid_Parse L raw))"

text \<open>The stash of the journaled candidate: by identity once it is frozen, by candidate before.\<close>

fun pendingStash :: "PendingBackup \<Rightarrow> string \<Rightarrow> Stash list \<Rightarrow> plan_error + Stash option" where
  "pendingStash p candidate [] = Inr None"
| "pendingStash p candidate (x # xs) =
     (if pb_StashID p \<noteq> [] then
        (if st_ID x \<noteq> pb_StashID p then pendingStash p candidate xs
         else if st_PushID x \<noteq> pb_PushID p \<or> st_CandidateRoot x \<noteq> candidate \<or> st_Base x \<noteq> br_Base (pb_Result p) \<or>
           st_Message x \<noteq> pb_Message p \<or> st_ChangeSetCID x \<noteq> [] \<or>
           st_Status x \<noteq> ''pending'' \<and> st_Status x \<noteq> ''branched''
         then Inl (PlanInvalid ''pending backup stash conflicts with its journaled push identity'')
         else Inr (Some x))
      else if st_CandidateRoot x = candidate \<and> (st_Status x = ''pending'' \<or> st_Status x = ''branched'') then
        (if st_Base x \<noteq> br_Base (pb_Result p) \<or> st_Message x \<noteq> pb_Message p \<or> st_ChangeSetCID x \<noteq> []
         then Inl (PlanInvalid ''pending backup candidate conflicts with an existing Bucket stash'')
         else Inr (Some x))
      else pendingStash p candidate xs)"

text \<open>Push the frozen candidate and record how it ended.\<close>

definition pushCandidate ::
  "cid_lib \<Rightarrow> Service \<Rightarrow> plan_info \<Rightarrow> plan_env \<Rightarrow> cid \<Rightarrow> string \<Rightarrow> Result \<Rightarrow> plan_disk \<Rightarrow> plan_outcome" where
  "pushCandidate L sv pl env candidate message r = (\<lambda>(jd, sd).
     case sync_Push L sv (pv_push env) candidate [] message sd of
       ((Inl e, sent), sd') \<Rightarrow> ((Inl (PlanSync e), sent), (jd, sd'))
     | ((Inr push, sent), sd') \<Rightarrow>
         let r' = r\<lparr>br_Push := push, br_CompletedAt := pv_now env\<rparr> in
         if ap_Status (po_Result push) = ''branched'' then
           (case history_MarkPendingConflict (pv_done env) (cid_String L candidate) r' jd of
              (Inl e, jd') \<Rightarrow> ((Inl (PlanHistory e), sent), (jd', sd'))
            | (Inr _, jd') \<Rightarrow> ((Inl ConflictError, sent), (jd', sd')))
         else
           (case history_CompletePending (pv_done env) (cid_String L candidate) (pl_ID pl) r' jd of
              (Inl e, jd') \<Rightarrow> ((Inl (PlanHistory e), sent), (jd', sd'))
            | (Inr _, jd') \<Rightarrow> ((Inr r', sent), (jd', sd'))))"

definition freezeAndPush ::
  "cid_lib \<Rightarrow> Service \<Rightarrow> plan_info \<Rightarrow> plan_env \<Rightarrow> cid \<Rightarrow> string \<Rightarrow> Result \<Rightarrow> Stash \<Rightarrow> plan_disk \<Rightarrow> plan_outcome" where
  "freezeAndPush L sv pl env candidate message r x = (\<lambda>(jd, sd).
     case history_MarkPendingStaged (pv_mark env) (cid_String L candidate) x jd of
       (Inl e, jd') \<Rightarrow> ((Inl (PlanHistory e), []), (jd', sd))
     | (Inr _, jd') \<Rightarrow> pushCandidate L sv pl env candidate message r (jd', sd))"

text \<open>The publishing tail of \<open>Backup\<close>, from the result of the snapshot on.\<close>

definition publishCandidate ::
  "cid_lib \<Rightarrow> Service \<Rightarrow> plan_info \<Rightarrow> plan_env \<Rightarrow> cid \<Rightarrow> cid \<Rightarrow> string \<Rightarrow> Result \<Rightarrow> plan_disk \<Rightarrow> plan_outcome" where
  "publishCandidate L sv pl env candidate candidateBase message r = (\<lambda>(jd, sd).
     let pending = \<lparr>pb_BucketID = pl_BucketID pl, pb_PlanID = pl_ID pl, pb_Message = message, pb_StashID = [],
           pb_PushID = [], pb_CandidateBase = (if cid_Defined candidateBase then cid_String L candidateBase else []),
           pb_CandidateRecorded = True, pb_Result = r, pb_CreatedAt = pv_created env\<rparr> in
     case history_SetPending (pv_journal env) pending jd of
       (Inl e, jd') \<Rightarrow> ((Inl (PlanHistory e), []), (jd', sd))
     | (Inr _, jd') \<Rightarrow>
         (case sync_Stage L (fst (pv_stage env)) sv candidate (br_Base r) [] message (fst (snd (pv_stage env)))
                 (snd (snd (pv_stage env))) sd of
            (Inl e, sd') \<Rightarrow> ((Inl (PlanSync e), []), (jd', sd'))
          | (Inr x, sd') \<Rightarrow> freezeAndPush L sv pl env candidate message r x (jd', sd')))"

text \<open>The stash a retry pushes: the one found, the frozen one restored, or a newly staged one.\<close>

definition restoredStash :: "cid_lib \<Rightarrow> PendingBackup \<Rightarrow> cid \<Rightarrow> Stash" where
  "restoredStash L p candidate =
     \<lparr>st_ID = pb_StashID p, st_PushID = pb_PushID p, st_CandidateRoot = cid_String L candidate,
      st_Base = br_Base (pb_Result p), st_ChangeSetCID = [], st_Message = pb_Message p, st_RequestFrozen = True,
      st_Status = ''pending'', st_Branch = [], st_Conflicts = [], st_CreatedAt = pb_CreatedAt p, st_UpdatedAt = 0\<rparr>"

definition retryStash ::
  "cid_lib \<Rightarrow> Service \<Rightarrow> plan_env \<Rightarrow> PendingBackup \<Rightarrow> cid \<Rightarrow> Stash option \<Rightarrow> sync_disk \<Rightarrow> (plan_error + Stash) \<times> sync_disk" where
  "retryStash L sv env p candidate found sd =
     (case found of
        Some x \<Rightarrow> (if st_Status x = ''branched'' then Inl ConflictError else Inr x, sd)
      | None \<Rightarrow>
          if pb_StashID p \<noteq> [] then
            (case sync_RestorePending L (fst (pv_restore env)) sv (restoredStash L p candidate) (snd (pv_restore env)) sd of
               (Inl e, sd') \<Rightarrow> (Inl (PlanSync e), sd')
             | (Inr x, sd') \<Rightarrow> (if st_Status x = ''branched'' then Inl ConflictError else Inr x, sd'))
          else
            (case sync_Stage L (fst (pv_stage env)) sv candidate (br_Base (pb_Result p)) [] (pb_Message p)
                    (fst (snd (pv_stage env))) (snd (snd (pv_stage env))) sd of
               (Inl e, sd') \<Rightarrow> (Inl (PlanSync e), sd') | (Inr x, sd') \<Rightarrow> (Inr x, sd')))"

text \<open>The checks of a retry before it touches the workspace; they yield the candidate.\<close>

definition checkRetry :: "cid_lib \<Rightarrow> plan_info \<Rightarrow> plan_env \<Rightarrow> PendingBackup \<Rightarrow> plan_error + cid" where
  "checkRetry L pl env p =
     require (br_Profile (pb_Result p) = ProfileID) (ErrPendingWorkspace ''pending backup uses unsupported profile'') (
     require (\<not> (pb_BucketID p \<noteq> pl_BucketID pl \<or> pb_PlanID p \<noteq> pl_ID pl \<or> br_PlanID (pb_Result p) \<noteq> pl_ID pl))
       (ErrPendingWorkspace ''pending work belongs to another backup plan'') (
     bindE (of_option (PlanInvalid ''pending backup candidate'') (cid_Parse L (br_CandidateRoot (pb_Result p)))) (\<lambda>candidate.
     require (pb_CandidateRecorded p)
       (ErrPendingWorkspace ''encrypted filesystem pending backup has no durable local-candidate record'') (
     bindE (rootCID L (pb_CandidateBase p)) (\<lambda>candidateBase.
     if pv_accepted env = Inr candidate then Inr candidate
     else
       case pv_hasCandidate env candidate candidateBase of
         Inl e \<Rightarrow> Inl (PlanRoots e)
       | Inr found \<Rightarrow>
           require found (ErrPendingWorkspace ''durable trust state has no exact pending candidate'') (Inr candidate))))))"

definition retryPending ::
  "cid_lib \<Rightarrow> Service \<Rightarrow> plan_info \<Rightarrow> plan_env \<Rightarrow> PendingBackup \<Rightarrow> plan_disk \<Rightarrow> plan_outcome" where
  "retryPending L sv pl env p = (\<lambda>(jd, sd).
     case checkRetry L pl env p of
       Inl e \<Rightarrow> ((Inl e, []), (jd, sd))
     | Inr candidate \<Rightarrow>
         (case sync_Status L (pv_status env) sv sd of
            (Inl e, sd1) \<Rightarrow> ((Inl (PlanSync e), []), (jd, sd1))
          | (Inr w, sd1) \<Rightarrow>
              (case pendingStash p (cid_String L candidate) (ws_Stashes w) of
                 Inl e \<Rightarrow> ((Inl e, []), (jd, sd1))
               | Inr found \<Rightarrow>
                   if \<not> ws_Initialized w
                   then ((Inl (ErrPendingWorkspace ''plan workspace is not initialized''), []), (jd, sd1))
                   else
                     (case retryStash L sv env p candidate found sd1 of
                        (Inl e, sd2) \<Rightarrow> ((Inl e, []), (jd, sd2))
                      | (Inr x, sd2) \<Rightarrow>
                          freezeAndPush L sv pl env candidate (pb_Message p)
                            ((pb_Result p)\<lparr>br_RetriedPending := True\<rparr>) x (jd, sd2)))))"

text \<open>\<open>Backup\<close> finds a journaled publication and resumes it; without one it has nothing to resume.\<close>

definition resumeBackup ::
  "cid_lib \<Rightarrow> Service \<Rightarrow> plan_info \<Rightarrow> plan_env \<Rightarrow> plan_disk \<Rightarrow> ((plan_error + Result option) \<times> ApplyRequest list) \<times> plan_disk" where
  "resumeBackup L sv pl env = (\<lambda>(jd, sd).
     case history_Pending (pv_journal env) jd of
       (Inl e, jd') \<Rightarrow> ((Inl (PlanHistory e), []), (jd', sd))
     | (Inr None, jd') \<Rightarrow> ((Inr None, []), (jd', sd))
     | (Inr (Some p), jd') \<Rightarrow>
         (case retryPending L sv pl env p (jd', sd) of
            ((res, sent), d) \<Rightarrow> ((bindE res (\<lambda>r. Inr (Some r)), sent), d)))"

end
