(* ===== verification/BucketInv.thy ===== *)
theory BucketInv
  imports BucketSync
begin

text \<open>
  The invariant of the synchronization file, and that every phase keeps it: records validate, texts
  survive JSON, stash identities and pending candidates are unique, and the base never runs ahead of the
  observed remote head.
\<close>

declare json_text.simps(2) [simp del]

section \<open>Keys\<close>

lemma no_at_suffix:
  assumes "CHR ''@'' \<notin> set s" and "CHR ''@'' \<notin> set t" and "b @ CHR ''@'' # s = c @ CHR ''@'' # t"
  shows "b = c \<and> s = t"
proof -
  have stop: "takeWhile (\<lambda>x. x \<noteq> CHR ''@'') (rev (u @ CHR ''@'' # v)) = rev v" if "CHR ''@'' \<notin> set v" for u v
    using takeWhile_append2 [of "rev v" "\<lambda>x. x \<noteq> CHR ''@''" "CHR ''@'' # rev u"] that by fastforce
  show ?thesis using stop [OF assms(1), of b] stop [OF assms(2), of c] assms(3) by simp
qed

lemma workspaceKey_inject: "workspaceKey b x = workspaceKey c y \<longleftrightarrow> b = c \<and> x = y"
proof
  assume "workspaceKey b x = workspaceKey c y"
  then have "b @ CHR ''@'' # EncodeToString x = c @ CHR ''@'' # EncodeToString y" by (simp add: workspaceKey_def)
  then show "b = c \<and> x = y" using no_at_suffix EncodeToString_plain by (metis EncodeToString_inject)
qed simp

section \<open>Heads\<close>

definition head_le :: "Head \<Rightarrow> Head \<Rightarrow> bool" where
  "head_le a b \<longleftrightarrow> hd_Revision a < hd_Revision b \<or> a = b"

lemma head_le_refl [simp]: "head_le a a"
  by (simp add: head_le_def)

lemma head_le_trans: "head_le a b \<Longrightarrow> head_le b c \<Longrightarrow> head_le a c"
  by (auto simp: head_le_def)

lemma monotonicHead_le:
  assumes "monotonicHead current incoming = Inr h"
  shows "head_le current h" and "h = current \<or> h = incoming"
  using assms by (auto simp: monotonicHead_def head_le_def split: if_splits)

lemma monotonicHead_up: "head_le current incoming \<Longrightarrow> monotonicHead current incoming = Inr incoming"
  by (auto simp: monotonicHead_def head_le_def)

definition head_ok :: "cid_lib \<Rightarrow> Head \<Rightarrow> bool" where
  "head_ok L h \<longleftrightarrow> validateHead L h = Inr () \<and> json_head h = h"

lemma head_ok_no_head [simp]: "head_ok L no_head"
  by (simp add: head_ok_def validateHead_def no_head_def json_head_def)

lemma validateHead_unit: "validateHead L h = Inr u \<longleftrightarrow> validateHead L h = Inr ()"
  by simp

section \<open>Stashes and workspaces\<close>

definition stash_fine :: "cid_lib \<Rightarrow> Stash \<Rightarrow> bool" where
  "stash_fine L x \<longleftrightarrow> stash_ok L x = Inr () \<and> json_stash x = x"

definition pending_roots :: "Stash list \<Rightarrow> string list" where
  "pending_roots xs = map st_CandidateRoot (filter (\<lambda>x. st_Status x = ''pending'') xs)"

definition stashes_fine :: "cid_lib \<Rightarrow> Stash list \<Rightarrow> bool" where
  "stashes_fine L xs \<longleftrightarrow>
     list_all (stash_fine L) xs \<and> distinct (map st_ID xs) \<and> distinct (pending_roots xs)"

definition workspace_fine :: "cid_lib \<Rightarrow> Workspace \<Rightarrow> bool" where
  "workspace_fine L w \<longleftrightarrow>
     head_ok L (ws_Base w) \<and> head_ok L (ws_Remote w) \<and> head_le (ws_Base w) (ws_Remote w) \<and>
     stashes_fine L (ws_Stashes w)"

definition named :: "string \<Rightarrow> Workspace \<Rightarrow> bool" where
  "named key w \<longleftrightarrow>
     (\<exists>branch. NormalizeSelector (ws_Branch w) = Inr branch \<and> key = workspaceKey (ws_BucketID w) branch) \<and>
     json_text (ws_BucketID w) = ws_BucketID w \<and> json_text (ws_Branch w) = ws_Branch w \<and> json_text key = key"

definition sync_inv :: "cid_lib \<Rightarrow> sync_state \<Rightarrow> bool" where
  "sync_inv L s \<longleftrightarrow>
     ss_Version s = bucketWorkspaceVersion \<and> gm_wf (ss_Workspaces s) \<and>
     list_all (\<lambda>(key, w). named key w \<and> workspace_fine L w) (ss_Workspaces s)"

lemma stashes_ok_all: "stashes_ok L xs = Inr () \<longleftrightarrow> list_all (\<lambda>x. stash_ok L x = Inr ()) xs"
  by (induction xs) (auto simp: result_simps)

lemma workspaces_ok_all:
  "workspaces_ok L m = Inr () \<longleftrightarrow> list_all (\<lambda>(key, w). workspace_ok L key w = Inr ()) m"
  by (induction m rule: workspaces_ok.induct) (auto simp: result_simps)

lemma json_stashes: "list_all (stash_fine L) xs \<Longrightarrow> map json_stash xs = xs"
  by (induction xs) (auto simp: stash_fine_def)

lemma workspace_fine_json:
  assumes "workspace_fine L w" and "named key w"
  shows "json_workspace w = w"
  using assms json_stashes [of L "ws_Stashes w"]
  by (cases w) (simp add: workspace_fine_def named_def json_workspace_def head_ok_def stashes_fine_def)

lemma workspace_fine_ok:
  assumes "workspace_fine L w" and "named key w"
  shows "workspace_ok L key w = Inr ()"
  using assms
  by (auto simp: workspace_fine_def named_def workspace_ok_def head_ok_def stashes_fine_def stash_fine_def
      stashes_ok_all list_all_iff)

lemma sync_reload_encode:
  assumes "sync_inv L s"
  shows "sync_reload L (sync_encode s) = Inr s"
proof -
  let ?m = "ss_Workspaces s"
  have m: "named k w \<and> workspace_fine L w" if "(k, w) \<in> set ?m" for k w
    using assms that by (auto simp: sync_inv_def list_all_iff)
  have same: "(json_text k, json_workspace w) = (k, w)" if "(k, w) \<in> set ?m" for k w
    using m [OF that] workspace_fine_json by (auto simp: named_def)
  have again: "map (\<lambda>(key, w, frozen). (key, w))
      (map (\<lambda>(key, w). (json_text key, json_workspace w, map (\<lambda>x. Some (st_RequestFrozen x)) (ws_Stashes w))) ?m) = ?m"
    unfolding map_map by (rule map_idI) (use same in auto)
  have "workspaces_ok L ?m = Inr ()"
    using m workspace_fine_ok by (auto simp: workspaces_ok_all list_all_iff)
  then show ?thesis
    using assms again
    by (cases s) (simp add: sync_inv_def sync_reload_def sync_encode_def validateFreezeFields_def list_all_iff
        case_prod_beta Let_def)
qed

lemma sync_inv_init: "sync_inv L sync_init"
  by (simp add: sync_inv_def sync_init_def)

interpretation bucket_file: durable_store syncSteps SyncIO "SyncInvalid ''decode Bucket workspace''" sync_init
    "sync_reload L" sync_encode "sync_inv L" for L
  by unfold_locales (simp_all add: syncSteps_def sync_inv_init sync_reload_encode)

end
