(* ===== verification/HistoryInv.thy ===== *)
theory HistoryInv
  imports History BucketInv
begin

text \<open>
  The invariant of the backup history file, the calls that keep it under any faults, and what a journaled
  backup keeps while it is being published.
\<close>

section \<open>The invariant\<close>

definition result_fine :: "Result \<Rightarrow> bool" where
  "result_fine r \<longleftrightarrow> json_result r = r \<and> result_keys_ok r"

definition plan_fine :: "PlanState \<Rightarrow> bool" where
  "plan_fine p \<longleftrightarrow>
     json_text (ps_Name p) = ps_Name p \<and> json_text (ps_LastError p) = ps_LastError p \<and>
     (case ps_LastResult p of None \<Rightarrow> True | Some r \<Rightarrow> result_fine r)"

definition pending_fine :: "PendingBackup \<Rightarrow> bool" where
  "pending_fine p \<longleftrightarrow> json_pending p = p \<and> result_fine (pb_Result p)"

definition history_inv :: "historyFile \<Rightarrow> bool" where
  "history_inv h \<longleftrightarrow>
     hf_Version h = 2 \<and> gm_wf (hf_Plans h) \<and>
     list_all (\<lambda>(k, p). json_text k = k \<and> plan_fine p) (hf_Plans h) \<and>
     (case hf_Pending h of None \<Rightarrow> True | Some p \<Rightarrow> pending_fine p) \<and>
     (case hf_Conflict h of None \<Rightarrow> True | Some c \<Rightarrow> json_checkout c = c) \<and>
     pending_identity_ok (hf_Pending h) \<and> conflict_matches (hf_Pending h) (hf_Conflict h)"

lemma plan_fine_json: "plan_fine p \<Longrightarrow> json_plan_state p = p"
  by (cases p) (auto simp: plan_fine_def json_plan_state_def result_fine_def split: option.splits)

lemma history_load_encode:
  assumes "history_inv h"
  shows "history_load (history_encode h) = Inr h"
proof -
  have plans: "map (map_prod json_text json_plan_state) (hf_Plans h) = hf_Plans h"
    using assms plan_fine_json by (intro map_idI) (auto simp: history_inv_def list_all_iff)
  have pending: "map_option json_pending (hf_Pending h) = hf_Pending h"
    using assms by (cases "hf_Pending h") (simp_all add: history_inv_def pending_fine_def)
  have conflict: "map_option json_checkout (hf_Conflict h) = hf_Conflict h"
    using assms by (cases "hf_Conflict h") (simp_all add: history_inv_def)
  have enc: "history_encode h = \<lparr>hd_Version = hf_Version h, hd_Plans = Some (hf_Plans h), hd_Pending = hf_Pending h,
      hd_Conflict = hf_Conflict h\<rparr>"
    by (simp add: history_encode_def plans pending conflict)
  have "doc_keys_ok (history_encode h)"
    unfolding enc doc_keys_ok_def using assms
    by (auto simp: history_inv_def list_all_iff plan_fine_def pending_fine_def result_fine_def split: option.splits)
  then have "history_load (history_encode h) =
      Inr \<lparr>hf_Version = hf_Version h, hf_Plans = hf_Plans h, hf_Pending = hf_Pending h, hf_Conflict = hf_Conflict h\<rparr>"
    using assms unfolding history_load_def enc by (simp add: history_inv_def)
  then show ?thesis by simp
qed

lemma history_inv_init: "history_inv history_init"
  by (simp add: history_inv_def history_init_def pending_identity_ok_def conflict_matches_def)

interpretation history_store: durable_store historySteps HistoryIO "HistoryInvalid ''decode backup history''"
    history_init history_load history_encode history_inv
  by unfold_locales (simp_all add: historySteps_def history_inv_init history_load_encode)

abbreviation history_ok :: "history_disk \<Rightarrow> bool" where
  "history_ok d \<equiv> disk_ok history_encode history_inv d"

abbreviation history_loaded :: "history_disk \<Rightarrow> historyFile" where
  "history_loaded d \<equiv> loaded history_init history_load d"

section \<open>Updates\<close>

lemma setPending_inv:
  assumes "history_inv h" and "setPending p h = Inr h'" and "pending_fine p" and "pending_identity_ok (Some p)"
  shows "history_inv h'"
  using assms
  by (auto simp: history_inv_def setPending_def result_simps conflict_matches_def split: option.splits)

lemma clearPending_inv:
  assumes "history_inv h" and "clearPending candidate h = Inr h'" and "hf_Conflict h = None"
  shows "history_inv h'"
  using assms
  by (auto simp: history_inv_def clearPending_def result_simps conflict_matches_def pending_identity_ok_def
      split: option.splits)

lemma plan_of_fine: "history_inv h \<Longrightarrow> json_text name = name \<Longrightarrow> plan_fine (plan_of h name)"
  by (auto simp: history_inv_def plan_of_def plan_fine_def no_plan_def list_all_iff split: option.splits dest!: map_of_SomeD)

lemma put_plan_inv:
  assumes "history_inv h" and "json_text name = name" and "plan_fine p"
  shows "history_inv (put_plan h name p)"
proof -
  have "gm_wf (hf_Plans h)" using assms(1) by (simp add: history_inv_def)
  then show ?thesis
    using assms gm_set_put [of "hf_Plans h" name p] by (auto simp: history_inv_def put_plan_def list_all_iff)
qed

lemma completePending_inv:
  assumes "history_inv h" and "completePending candidate planID r h = Inr h'" and "hf_Conflict h = None"
    and "result_fine r" and "json_text planID = planID"
  shows "history_inv h'"
proof -
  let ?h = "h\<lparr>hf_Pending := None\<rparr>"
  have "history_inv ?h"
    using assms(1,3) by (simp add: history_inv_def conflict_matches_def pending_identity_ok_def)
  moreover have "plan_fine ((plan_of h planID)\<lparr>ps_LastSuccessAt := br_CompletedAt r, ps_LastResult := Some r,
      ps_LastError := [], ps_FailureCount := 0, ps_AttemptActive := False\<rparr>)"
    using plan_of_fine [OF assms(1,5)] assms(4) by (simp add: plan_fine_def)
  ultimately show ?thesis
    using assms(2,5) put_plan_inv by (auto simp: completePending_def result_simps split: option.splits)
qed

lemma json_stash_texts:
  "json_stash x = x \<Longrightarrow> json_text (st_ID x) = st_ID x"
  "json_stash x = x \<Longrightarrow> json_text (st_PushID x) = st_PushID x"
  by (cases x, simp add: json_stash_def)+

lemma markStaged_inv:
  assumes "history_inv h" and "markStaged candidate x h = Inr h'" and "json_stash x = x"
    and "st_ID x \<noteq> []" and "st_PushID x \<noteq> []"
  shows "history_inv h'"
proof -
  from assms(2) obtain p where p: "hf_Pending h = Some p"
    and keep: "pb_StashID p \<noteq> [] \<Longrightarrow> pb_StashID p = st_ID x \<and> pb_PushID p = st_PushID x"
    and h': "h' = h\<lparr>hf_Pending := Some (p\<lparr>pb_StashID := st_ID x, pb_PushID := st_PushID x\<rparr>)\<rparr>"
    by (auto simp: markStaged_def result_simps split: option.splits)
  have "pending_fine (p\<lparr>pb_StashID := st_ID x, pb_PushID := st_PushID x\<rparr>)"
    using assms(1) p json_stash_texts [OF assms(3)]
    by (cases p) (simp add: history_inv_def pending_fine_def json_pending_def)
  moreover have "conflict_matches (Some (p\<lparr>pb_StashID := st_ID x, pb_PushID := st_PushID x\<rparr>)) (hf_Conflict h)"
    using assms(1) p keep by (auto simp: history_inv_def conflict_matches_def split: option.splits)
  ultimately show ?thesis
    using assms(1,4,5) h' by (simp add: history_inv_def pending_identity_ok_def)
qed

lemma markConflict_inv:
  assumes "history_inv h" and "markConflict candidate r h = Inr h'" and "result_fine r" and "br_CandidateRoot r = candidate"
  shows "history_inv h'"
proof -
  from assms(2) obtain p where p: "hf_Pending h = Some p" "br_CandidateRoot (pb_Result p) = candidate"
    and h': "h' = h\<lparr>hf_Pending := Some (p\<lparr>pb_Result := r\<rparr>)\<rparr>"
    by (auto simp: markConflict_def result_simps split: option.splits)
  have "pending_fine (p\<lparr>pb_Result := r\<rparr>)"
    using assms(1,3) p by (cases p) (simp add: history_inv_def pending_fine_def json_pending_def result_fine_def)
  then show ?thesis
    using assms(1,4) p h' by (auto simp: history_inv_def conflict_matches_def pending_identity_ok_def split: option.splits)
qed

lemma setConflict_inv:
  assumes "history_inv h" and "setConflict c h = Inr h'" and "json_checkout c = c"
    and "cc_StashID c \<noteq> []" and "cc_Path c \<noteq> []" and "cc_Bindings c \<noteq> []"
  shows "history_inv h'"
  using assms by (auto simp: history_inv_def setConflict_def result_simps conflict_matches_def split: option.splits)

lemma clearConflict_inv: "history_inv h \<Longrightarrow> clearConflict stashID h = Inr h' \<Longrightarrow> history_inv h'"
  by (auto simp: history_inv_def clearConflict_def result_simps conflict_matches_def)

lemma history_update_inv:
  assumes "history_inv h" and "history_update name f h = Inr h'" and "json_text name = name"
    and "\<And>p. plan_fine p \<Longrightarrow> plan_fine (f p)"
  shows "history_inv h'"
  using put_plan_inv [OF assms(1,3)] plan_of_fine [OF assms(1,3)] assms(2,4) by (auto simp: history_update_def)

section \<open>Calls\<close>

datatype history_call =
    CallSetPending PendingBackup
  | CallClearPending string
  | CallCompletePending string string Result
  | CallMarkStaged string Stash
  | CallMarkConflict string Result
  | CallSetConflict ConflictCheckout
  | CallClearConflict string
  | CallRecordResult string Result
  | CallAttempt string time
  | CallFailure string time "string option"

fun history_call_do :: "faults \<Rightarrow> history_call \<Rightarrow> history_disk \<Rightarrow> (history_error + unit) \<times> history_disk" where
  "history_call_do F (CallSetPending p) = history_SetPending F p"
| "history_call_do F (CallClearPending candidate) = history_ClearPending F candidate"
| "history_call_do F (CallCompletePending candidate planID r) = history_CompletePending F candidate planID r"
| "history_call_do F (CallMarkStaged candidate x) = history_MarkPendingStaged F candidate x"
| "history_call_do F (CallMarkConflict candidate r) = history_MarkPendingConflict F candidate r"
| "history_call_do F (CallSetConflict c) = history_SetConflictCheckout F c"
| "history_call_do F (CallClearConflict stashID) = history_ClearConflictCheckout F stashID"
| "history_call_do F (CallRecordResult name r) = history_RecordResult F name r"
| "history_call_do F (CallAttempt name t) = history_RecordPlanAttempt F name t"
| "history_call_do F (CallFailure name t e) = history_RecordPlanFailure F name t e"

text \<open>The texts of a call are valid UTF-8, and a pending backup names both or neither of its identities.\<close>

fun history_call_ok :: "history_call \<Rightarrow> bool" where
  "history_call_ok (CallSetPending p) \<longleftrightarrow> pending_fine p \<and> pending_identity_ok (Some p)"
| "history_call_ok (CallClearPending candidate) \<longleftrightarrow> True"
| "history_call_ok (CallCompletePending candidate planID r) \<longleftrightarrow> result_fine r \<and> ValidString planID"
| "history_call_ok (CallMarkStaged candidate x) \<longleftrightarrow> json_stash x = x"
| "history_call_ok (CallMarkConflict candidate r) \<longleftrightarrow> result_fine r"
| "history_call_ok (CallSetConflict c) \<longleftrightarrow> json_checkout c = c"
| "history_call_ok (CallClearConflict stashID) \<longleftrightarrow> True"
| "history_call_ok (CallRecordResult name r) \<longleftrightarrow> ValidString name \<and> result_fine r"
| "history_call_ok (CallAttempt name t) \<longleftrightarrow> ValidString name"
| "history_call_ok (CallFailure name t e) \<longleftrightarrow>
     ValidString name \<and> (case e of None \<Rightarrow> True | Some err \<Rightarrow> ValidString err)"

text \<open>
  The order the callers keep: a conflict checkout is cleared before the pending backup it belongs to
  (\<open>mergeBranchedCandidate\<close> stops at an existing checkout, \<open>clearConflictState\<close> clears it first).
\<close>

fun ends_pending :: "history_call \<Rightarrow> bool" where
  "ends_pending (CallClearPending candidate) = True"
| "ends_pending (CallCompletePending candidate planID r) = True"
| "ends_pending c = False"

definition history_step :: "history_disk \<Rightarrow> history_disk \<Rightarrow> bool" where
  "history_step d d' \<longleftrightarrow>
     (\<exists>F c. history_call_ok c \<and> (ends_pending c \<longrightarrow> hf_Conflict (history_loaded d) = None) \<and>
        d' = snd (history_call_do F c d))"

section \<open>Runs\<close>

text \<open>The update a call makes to the loaded state, its argument checks included.\<close>

fun call_update :: "history_call \<Rightarrow> historyFile \<Rightarrow> history_error + historyFile" where
  "call_update (CallSetPending p) h = bindE (checkPending p) (\<lambda>p. setPending p h)"
| "call_update (CallClearPending candidate) h =
     require (TrimSpace candidate \<noteq> []) (HistoryInvalid ''pending backup candidate is empty'')
       (clearPending (TrimSpace candidate) h)"
| "call_update (CallCompletePending candidate planID r) h =
     require (\<not> (TrimSpace candidate = [] \<or> TrimSpace planID = [] \<or> br_PlanID r \<noteq> TrimSpace planID \<or>
                br_CandidateRoot r \<noteq> TrimSpace candidate))
       (HistoryInvalid ''completed backup candidate does not match its result'')
       (completePending (TrimSpace candidate) (TrimSpace planID) r h)"
| "call_update (CallMarkStaged candidate x) h =
     require (\<not> (TrimSpace candidate = [] \<or> st_ID x = [] \<or> st_PushID x = [] \<or> st_CandidateRoot x \<noteq> TrimSpace candidate))
       (HistoryInvalid ''staged backup journal metadata is incomplete'') (markStaged (TrimSpace candidate) x h)"
| "call_update (CallMarkConflict candidate r) h =
     require (\<not> (TrimSpace candidate = [] \<or> br_CandidateRoot r \<noteq> TrimSpace candidate \<or>
                ap_Status (po_Result (br_Push r)) \<noteq> ''branched'' \<or>
                (case ap_Branch (po_Result (br_Push r)) of None \<Rightarrow> True | Some b \<Rightarrow> TrimSpace (nh_Name b) = [])))
       (HistoryInvalid ''branched backup journal metadata is incomplete'') (markConflict (TrimSpace candidate) r h)"
| "call_update (CallSetConflict c) h =
     require (\<not> (TrimSpace (cc_PlanID c) = [] \<or> TrimSpace (cc_StashID c) = [] \<or> TrimSpace (cc_LocalRoot c) = [] \<or>
                TrimSpace (cc_RemoteRoot c) = [] \<or> TrimSpace (cc_Path c) = [] \<or> cc_CreatedAt c = 0 \<or>
                length (cc_Bindings c) = 0))
       (HistoryInvalid ''backup conflict checkout is incomplete'') (setConflict c h)"
| "call_update (CallClearConflict stashID) h =
     require (TrimSpace stashID \<noteq> []) (HistoryInvalid ''backup conflict stash ID is empty'')
       (clearConflict (TrimSpace stashID) h)"
| "call_update (CallRecordResult name r) h =
     require (\<not> (TrimSpace name = [] \<or> br_CompletedAt r = 0))
       (HistoryInvalid ''backup result name and completion time are required'')
       (history_update (TrimSpace name) (\<lambda>p. p\<lparr>ps_LastCheckedAt := br_CompletedAt r, ps_LastSuccessAt := br_CompletedAt r,
          ps_LastResult := Some r, ps_LastError := [], ps_FailureCount := 0, ps_AttemptActive := False\<rparr>) h)"
| "call_update (CallAttempt name t) h =
     require (TrimSpace name \<noteq> []) (HistoryInvalid ''backup plan attempt name is empty'')
       (history_update (TrimSpace name)
          (\<lambda>p. p\<lparr>ps_LastCheckedAt := t, ps_LastAttemptAt := t, ps_AttemptActive := True\<rparr>) h)"
| "call_update (CallFailure name t e) h =
     (case e of
        None \<Rightarrow> Inl (HistoryInvalid ''backup plan failure name and error are required'')
      | Some err \<Rightarrow>
          require (TrimSpace name \<noteq> []) (HistoryInvalid ''backup plan failure name and error are required'')
            (history_update (TrimSpace name) (\<lambda>p. p\<lparr>ps_LastCheckedAt := t, ps_LastAttemptAt := t, ps_LastError := err,
               ps_FailureCount := int64_inc (ps_FailureCount p), ps_AttemptActive := False\<rparr>) h))"

definition history_apply :: "faults \<Rightarrow> (historyFile \<Rightarrow> history_error + historyFile) \<Rightarrow> history_disk
    \<Rightarrow> (history_error + unit) \<times> history_disk \<Rightarrow> bool" where
  "history_apply F f d out \<longleftrightarrow>
     snd out = d \<and> fst out \<noteq> Inr () \<or>
     (\<exists>h'. f (history_loaded d) = Inr h' \<and>
        (snd out = d \<and> fst out \<noteq> Inr () \<or> snd out = Some (Decoded (history_encode h'))))"

lemma checked_mutate_apply:
  assumes "history_ok d" and "\<And>h. bindE check (\<lambda>a. f a h) = g h"
  shows "history_apply F g d (checked_mutate check F f d)"
proof (cases check)
  case (Inl e)
  then show ?thesis by (simp add: checked_mutate_def history_apply_def)
next
  case (Inr a)
  let ?op = "writing (\<lambda>h. bindE (f a h) (\<lambda>h'. Inr ((), h')))"
  obtain res d' where ws: "history_withState F ?op d = (res, d')" by (cases "history_withState F ?op d")
  have op: "?op (history_loaded d) = (case g (history_loaded d) of Inl e \<Rightarrow> (Inl e, None) | Inr h' \<Rightarrow> (Inr (), Some h'))"
    using assms(2) [of "history_loaded d"] Inr by (simp add: writing_def bindE_def split: sum.splits)
  have "d' = d \<or> (\<exists>s'. snd (?op (history_loaded d)) = Some s' \<and> d' = Some (Decoded (history_encode s')))"
    using history_store.with_state_disk [OF assms(1)] ws by (simp add: history_withState_def)
  moreover have "snd (?op (history_loaded d)) \<noteq> None \<and>
      d' = Some (Decoded (history_encode (the (snd (?op (history_loaded d))))))" if "res = Inr ()"
    using ws that history_store.reload_cases [OF assms(1)] run_steps_ok [of historySteps] op
    by (auto simp: history_withState_def with_state_def historySteps_def split: if_splits sum.splits prod.splits option.splits)
  ultimately show ?thesis
    using op Inr ws by (auto simp: checked_mutate_def history_mutate_def history_apply_def split: sum.splits)
qed

lemma history_call_apply:
  assumes ok: "history_ok d"
  shows "history_apply F (call_update c) d (history_call_do F c d)"
proof (cases c)
  case (CallFailure name t e)
  then show ?thesis unfolding CallFailure history_call_do.simps history_RecordPlanFailure_def Let_def
    by (intro checked_mutate_apply [OF ok]) (simp add: require_def split: option.split)
qed (simp_all only: history_call_do.simps history_SetPending_def history_ClearPending_def history_CompletePending_def
    history_MarkPendingStaged_def history_MarkPendingConflict_def history_SetConflictCheckout_def
    history_ClearConflictCheckout_def history_RecordResult_def history_RecordPlanAttempt_def Let_def,
  (intro checked_mutate_apply [OF ok], simp add: require_def)+)

lemma history_call_disk:
  assumes "history_ok d"
  shows "snd (history_call_do F c d) = d \<or>
    (\<exists>h'. call_update c (history_loaded d) = Inr h' \<and> snd (history_call_do F c d) = Some (Decoded (history_encode h')))"
  using history_call_apply [OF assms, of F c] by (auto simp: history_apply_def)

lemma history_call_success:
  assumes "history_ok d" and "history_call_do F c d = (Inr (), d')"
  shows "\<exists>h'. call_update c (history_loaded d) = Inr h' \<and> d' = Some (Decoded (history_encode h'))"
  using history_call_apply [OF assms(1), of F c] assms(2) by (auto simp: history_apply_def)

lemma call_update_inv:
  assumes inv: "history_inv h" and "history_call_ok c" and "ends_pending c \<longrightarrow> hf_Conflict h = None"
    and "call_update c h = Inr h'"
  shows "history_inv h'"
proof -
  have trim: "json_text (TrimSpace s) = TrimSpace s" if "ValidString s" for s
    using ValidString_TrimSpace [OF that] by simp
  have nonempty: "s \<noteq> []" if "TrimSpace s \<noteq> []" for s using that by auto
  note facts = assms trim nonempty
  show ?thesis
  proof (cases c)
    case (CallSetPending p)
    then show ?thesis using facts setPending_inv by (auto simp: checkPending_def Let_def result_simps)
  next
    case (CallClearPending candidate)
    then show ?thesis using facts clearPending_inv by (auto simp: result_simps)
  next
    case (CallCompletePending candidate planID r)
    then show ?thesis using facts completePending_inv by (auto simp: result_simps)
  next
    case (CallMarkStaged candidate x)
    then show ?thesis using facts markStaged_inv by (auto simp: result_simps)
  next
    case (CallMarkConflict candidate r)
    then show ?thesis using facts markConflict_inv by (auto simp: result_simps)
  next
    case (CallSetConflict x)
    then show ?thesis using facts setConflict_inv by (auto simp: result_simps)
  next
    case (CallClearConflict stashID)
    then show ?thesis using facts clearConflict_inv by (auto simp: result_simps)
  next
    case (CallRecordResult name r)
    then have "history_update (TrimSpace name) (\<lambda>p. p\<lparr>ps_LastCheckedAt := br_CompletedAt r, ps_LastSuccessAt := br_CompletedAt r,
        ps_LastResult := Some r, ps_LastError := [], ps_FailureCount := 0, ps_AttemptActive := False\<rparr>) h = Inr h'"
      using assms(4) by (simp add: result_simps)
    then show ?thesis by (rule history_update_inv [OF inv]) (use facts CallRecordResult in \<open>auto simp: plan_fine_def\<close>)
  next
    case (CallAttempt name t)
    then have "history_update (TrimSpace name)
        (\<lambda>p. p\<lparr>ps_LastCheckedAt := t, ps_LastAttemptAt := t, ps_AttemptActive := True\<rparr>) h = Inr h'"
      using assms(4) by (simp add: result_simps)
    then show ?thesis by (rule history_update_inv [OF inv]) (use facts CallAttempt in \<open>auto simp: plan_fine_def\<close>)
  next
    case (CallFailure name t e)
    then obtain err where err: "e = Some err" and "history_update (TrimSpace name) (\<lambda>p. p\<lparr>ps_LastCheckedAt := t,
        ps_LastAttemptAt := t, ps_LastError := err, ps_FailureCount := int64_inc (ps_FailureCount p),
        ps_AttemptActive := False\<rparr>) h = Inr h'"
      using assms(4) by (auto simp: result_simps split: option.splits)
    then show ?thesis by (elim history_update_inv [OF inv]) (use facts CallFailure err in \<open>auto simp: plan_fine_def\<close>)
  qed
qed

lemma history_loaded_encode [simp]: "history_inv h \<Longrightarrow> history_loaded (Some (Decoded (history_encode h))) = h"
  by (simp add: loaded_def history_load_encode)

lemma history_ok_encode [simp]: "history_inv h \<Longrightarrow> history_ok (Some (Decoded (history_encode h)))"
  by (auto simp: disk_ok_def)

text \<open>A call leaves a sound file that holds the old state or the updated one.\<close>

lemma history_call_outcome:
  assumes ok: "history_ok d" and "history_call_ok c"
    and "\<And>h'. ends_pending c \<Longrightarrow> call_update c (history_loaded d) = Inr h' \<Longrightarrow> hf_Conflict (history_loaded d) = None"
  shows "history_ok (snd (history_call_do F c d)) \<and>
    (history_loaded (snd (history_call_do F c d)) = history_loaded d \<or>
     call_update c (history_loaded d) = Inr (history_loaded (snd (history_call_do F c d))))"
  using history_call_disk [OF ok, of F c]
proof
  assume "snd (history_call_do F c d) = d"
  then show ?thesis using ok by simp
next
  assume "\<exists>h'. call_update c (history_loaded d) = Inr h' \<and> snd (history_call_do F c d) = Some (Decoded (history_encode h'))"
  then obtain h' where h': "call_update c (history_loaded d) = Inr h'"
    "snd (history_call_do F c d) = Some (Decoded (history_encode h'))" by blast
  have "history_inv h'"
    using call_update_inv [OF history_store.loaded_invar [OF ok] assms(2) _ h'(1)] assms(3) h'(1) by blast
  then show ?thesis using h' by simp
qed

lemma history_step_ok: "history_ok d \<Longrightarrow> history_step d d' \<Longrightarrow> history_ok d'"
  using history_call_outcome unfolding history_step_def by blast

lemma history_steps_ok: "history_step\<^sup>*\<^sup>* d d' \<Longrightarrow> history_ok d \<Longrightarrow> history_ok d'"
  by (induction rule: rtranclp_induct) (auto intro: history_step_ok)

end
