(* ===== verification/BucketSteps.thy ===== *)
theory BucketSteps
  imports BucketInv
begin

text \<open>
  What one locked phase of the synchronization service does to its workspace, and the step relation of
  the file when any number of services and processes interleave their phases.
\<close>

section \<open>The change of one workspace\<close>

text \<open>A stash keeps its identity, base and candidate; a frozen request never changes.\<close>

definition stash_evolves :: "Stash \<Rightarrow> Stash \<Rightarrow> bool" where
  "stash_evolves x y \<longleftrightarrow>
     st_PushID y = st_PushID x \<and> st_CandidateRoot y = st_CandidateRoot x \<and> st_Base y = st_Base x \<and>
     st_CreatedAt y = st_CreatedAt x \<and>
     (st_RequestFrozen x \<longrightarrow> st_RequestFrozen y \<and> st_ChangeSetCID y = st_ChangeSetCID x \<and> st_Message y = st_Message x) \<and>
     (st_Status x = ''branched'' \<longrightarrow> st_Status y = ''branched'')"

definition stashes_evolve :: "Stash list \<Rightarrow> Stash list \<Rightarrow> bool" where
  "stashes_evolve xs ys \<longleftrightarrow> (\<forall>x\<in>set xs. \<forall>y\<in>set ys. st_ID x = st_ID y \<longrightarrow> stash_evolves x y)"

definition ws_step :: "Workspace \<Rightarrow> Workspace \<Rightarrow> bool" where
  "ws_step w w' \<longleftrightarrow>
     head_le (ws_Remote w) (ws_Remote w') \<and> head_le (ws_Base w) (ws_Base w') \<and>
     (hasPending (ws_Stashes w') \<longrightarrow> ws_Base w' = ws_Base w) \<and>
     (ws_Initialized w \<longrightarrow> ws_Initialized w') \<and>
     stashes_evolve (ws_Stashes w) (ws_Stashes w')"

lemma stash_evolves_refl [simp]: "stash_evolves x x"
  by (simp add: stash_evolves_def)

lemma stashes_evolve_sub:
  assumes "distinct (map st_ID xs)" and "set ys \<subseteq> set xs"
  shows "stashes_evolve xs ys"
  unfolding stashes_evolve_def
proof (intro ballI impI)
  fix x y assume "x \<in> set xs" and "y \<in> set ys" and "st_ID x = st_ID y"
  then have "x = y" using assms by (meson distinct_map inj_onD subsetD)
  then show "stash_evolves x y" by simp
qed

lemma stashes_evolve_new:
  assumes "distinct (map st_ID xs)" and "st_ID y \<notin> set (map st_ID xs)"
  shows "stashes_evolve xs (xs @ [y])"
  unfolding stashes_evolve_def
proof (intro ballI impI)
  fix x z assume x: "x \<in> set xs" and "z \<in> set (xs @ [y])" and ident: "st_ID x = st_ID z"
  moreover have "z \<noteq> y" using x ident assms(2) by (force simp: image_iff)
  ultimately show "stash_evolves x z"
    using stashes_evolve_sub [OF assms(1) subset_refl] by (simp add: stashes_evolve_def)
qed

lemma ws_step_refl: "distinct (map st_ID (ws_Stashes w)) \<Longrightarrow> ws_step w w"
  by (simp add: ws_step_def stashes_evolve_sub)

lemma head_le_advance:
  assumes "head_le (ws_Base w) remote" and "advanceBase w remote = Inr base"
  shows "base = (if hasPending (ws_Stashes w) then ws_Base w else remote)"
  using assms by (auto simp: advanceBase_def monotonicHead_up split: if_splits)

section \<open>Services\<close>

definition service_ok :: "Service \<Rightarrow> bool" where
  "service_ok sv \<longleftrightarrow>
     NormalizeSelector (sv_branch sv) = Inr (sv_branch sv) \<and> ValidString (sv_bucketID sv) \<and>
     sv_stateKey sv = workspaceKey (sv_bucketID sv) (sv_branch sv)"

lemma ValidString_app: "ValidString a \<Longrightarrow> ValidString b \<Longrightarrow> ValidString (a @ b)"
  by (simp add: ValidString_append)

lemma EncodeToString_valid: "ValidString (EncodeToString x)"
  by (rule ValidString_graphic) (auto simp: list_all_iff dest: EncodeToString_plain)

lemma workspaceKey_valid: "ValidString b \<Longrightarrow> ValidString (workspaceKey b x)"
proof -
  have "ValidString ''@''" by (simp add: text_eval)
  then show "ValidString b \<Longrightarrow> ValidString (workspaceKey b x)"
    by (simp add: workspaceKey_def ValidString_app EncodeToString_valid del: append_Cons)
qed

lemma branch_valid: "NormalizeSelector b = Inr b \<Longrightarrow> ValidString b"
  using selector_of_graphic
  by (auto elim!: NormalizeSelector_cases intro!: ValidString_graphic simp: graphic_def in_range_def byte_def)

lemma named_service:
  assumes "service_ok sv" and "ws_BucketID w = sv_bucketID sv" and "ws_Branch w = sv_branch sv"
  shows "named (sv_stateKey sv) w"
  using assms workspaceKey_valid branch_valid by (auto simp: named_def service_ok_def)

lemma workspace_names [simp]:
  "ws_BucketID (workspace sv s) = sv_bucketID sv" "ws_Branch (workspace sv s) = sv_branch sv"
  by (simp_all add: workspace_def)

lemma workspace_fine_rename:
  "workspace_fine L (w\<lparr>ws_BucketID := b, ws_Branch := c\<rparr>) = workspace_fine L w"
  by (simp add: workspace_fine_def)

lemma workspace_fine_get:
  assumes "sync_inv L s"
  shows "workspace_fine L (workspace sv s)"
proof -
  have "workspace_fine L no_workspace"
    by (simp add: workspace_fine_def no_workspace_def stashes_fine_def pending_roots_def)
  moreover have "workspace_fine L w" if "gm_get (ss_Workspaces s) (sv_stateKey sv) = Some w" for w
    using map_of_SomeD [OF that] assms by (auto simp: sync_inv_def list_all_iff)
  ultimately show ?thesis
    by (auto simp: workspace_def workspace_fine_rename split: option.split)
qed

text \<open>A phase leaves the state or replaces the workspace of its service.\<close>

definition phase_change :: "cid_lib \<Rightarrow> Service \<Rightarrow> sync_state \<Rightarrow> sync_state \<Rightarrow> bool" where
  "phase_change L sv s s' \<longleftrightarrow>
     s' = s \<or>
     (\<exists>w'. s' = put_workspace sv s w' \<and> ws_BucketID w' = sv_bucketID sv \<and> ws_Branch w' = sv_branch sv \<and>
        workspace_fine L w' \<and> ws_step (workspace sv s) w')"

lemma phase_change_inv:
  assumes "sync_inv L s" and "service_ok sv" and "phase_change L sv s s'"
  shows "sync_inv L s'"
  using assms(3)
  unfolding phase_change_def
proof (elim disjE exE conjE)
  fix w' assume "s' = put_workspace sv s w'" and "ws_BucketID w' = sv_bucketID sv" and "ws_Branch w' = sv_branch sv"
    and "workspace_fine L w'"
  then show ?thesis
    using assms(1) named_service [OF assms(2), of w']
    by (auto simp: sync_inv_def put_workspace_def list_all_iff gm_set_put)
qed (use assms(1) in simp)

section \<open>The phases\<close>

lemma pull_change:
  assumes inv: "sync_inv L s" and h: "head_ok L h" and run: "pullLocked sv h now s = Inr (r, s')"
  shows "phase_change L sv s s'"
proof -
  let ?w = "workspace sv s"
  note fine = workspace_fine_get [OF inv, of sv]
  from run obtain remote base where m: "monotonicHead (ws_Remote ?w) h = Inr remote"
    and b: "advanceBase (?w\<lparr>ws_Initialized := True\<rparr>) remote = Inr base"
    and s': "s' = put_workspace sv s (?w\<lparr>ws_Initialized := True, ws_Remote := remote, ws_Base := base, ws_UpdatedAt := now\<rparr>)"
    by (auto simp: pullLocked_def Let_def result_simps)
  have le: "head_le (ws_Base ?w) remote"
    using fine monotonicHead_le(1) [OF m] head_le_trans by (auto simp: workspace_fine_def)
  have base: "base = (if hasPending (ws_Stashes ?w) then ws_Base ?w else remote)"
    using head_le_advance [of "?w\<lparr>ws_Initialized := True\<rparr>" remote base] le b by simp
  have remote: "head_ok L remote" using monotonicHead_le(2) [OF m] h fine by (auto simp: workspace_fine_def)
  show ?thesis
    using fine le base remote monotonicHead_le(1) [OF m]
    by (auto simp: phase_change_def s' workspace_fine_def ws_step_def stashes_fine_def stashes_evolve_sub)
qed

lemma pending_roots_append:
  "pending_roots (xs @ [y]) = pending_roots xs @ (if st_Status y = ''pending'' then [st_CandidateRoot y] else [])"
  by (simp add: pending_roots_def)

lemma pending_roots_iff: "root \<in> set (pending_roots xs) \<longleftrightarrow> list_ex (is_pending root) xs"
  by (auto simp: pending_roots_def list_ex_iff is_pending_def)

lemma append_change:
  assumes inv: "sync_inv L s" and x: "stash_fine L x" and ident: "st_ID x \<notin> set (map st_ID (ws_Stashes (workspace sv s)))"
    and root: "\<not> list_ex (is_pending (st_CandidateRoot x)) (ws_Stashes (workspace sv s))"
  shows "phase_change L sv s
    (put_workspace sv s ((workspace sv s)\<lparr>ws_Stashes := ws_Stashes (workspace sv s) @ [x], ws_UpdatedAt := now\<rparr>))"
  using workspace_fine_get [OF inv, of sv] assms stashes_evolve_new
  by (auto simp: phase_change_def workspace_fine_def ws_step_def stashes_fine_def pending_roots_append
      pending_roots_iff)

lemma json_stash_fixed:
  "json_stash x = x \<longleftrightarrow>
     json_text (st_ID x) = st_ID x \<and> json_text (st_PushID x) = st_PushID x \<and>
     json_text (st_CandidateRoot x) = st_CandidateRoot x \<and> json_head (st_Base x) = st_Base x \<and>
     json_text (st_ChangeSetCID x) = st_ChangeSetCID x \<and> json_text (st_Message x) = st_Message x \<and>
     json_text (st_Status x) = st_Status x \<and> json_text (st_Branch x) = st_Branch x \<and>
     map json_conflict (st_Conflicts x) = st_Conflicts x"
  by (cases x) (auto simp: json_stash_def)

lemma ascii_texts [simp]: "json_text ''pending'' = ''pending''" "json_text ''branched'' = ''branched''"
  "ValidString ''push_''"
  by (simp_all add: text_eval)

lemma stage_change:
  assumes inv: "sync_inv L s" and base: "head_ok L base" and "cid_Parse L root \<noteq> None" and "ValidString root"
    and "ValidString changeSet" and "ValidString message"
    and fresh: "\<And>bytes. random = Some bytes \<Longrightarrow> bytes \<noteq> [] \<and>
      EncodeToString bytes \<notin> set (map st_ID (ws_Stashes (workspace sv s)))"
    and run: "stageLocked sv root base changeSet message random now s = Inr (r, s')"
  shows "phase_change L sv s s'"
proof (cases "find (is_pending root) (ws_Stashes (workspace sv s))")
  case (Some x)
  then show ?thesis using run by (simp add: stageLocked_def Let_def result_simps phase_change_def)
next
  case None
  from run None obtain bytes where bytes: "random = Some bytes"
    and s': "s' = put_workspace sv s ((workspace sv s)\<lparr>ws_Stashes := ws_Stashes (workspace sv s) @
        [new_stash (EncodeToString bytes) root base changeSet message now], ws_UpdatedAt := now\<rparr>)"
    by (auto simp: stageLocked_def Let_def result_simps randomID_def split: option.splits)
  let ?x = "new_stash (EncodeToString bytes) root base changeSet message now"
  have "stash_fine L ?x"
    using assms fresh [OF bytes] ValidString_app [of "''push_''" "EncodeToString bytes"]
    by (simp add: stash_fine_def stash_ok_def json_stash_fixed new_stash_def head_ok_def EncodeToString_valid
        ValidString_TrimSpace)
  moreover have "\<not> list_ex (is_pending (st_CandidateRoot ?x)) (ws_Stashes (workspace sv s))"
    using None by (auto simp: find_None_iff list_ex_iff new_stash_def)
  moreover have "st_ID ?x \<notin> set (map st_ID (ws_Stashes (workspace sv s)))"
    using fresh [OF bytes] by (simp add: new_stash_def)
  ultimately show ?thesis unfolding s' by (intro append_change [OF inv])
qed

lemma restore_scan_None:
  "restore_scan x xs = Inr None \<Longrightarrow>
     st_ID x \<notin> set (map st_ID xs) \<and> \<not> list_ex (is_pending (st_CandidateRoot x)) xs"
  by (induction xs) (auto simp: result_simps split: if_splits)

lemma restore_change:
  assumes inv: "sync_inv L s" and x: "checkRestored L raw = Inr x" and "json_stash raw = raw"
    and run: "restoreLocked sv x now s = Inr (r, s')"
  shows "phase_change L sv s s'"
proof -
  from run obtain found where scan: "restore_scan x (ws_Stashes (workspace sv s)) = Inr found"
    by (auto simp: restoreLocked_def Let_def result_simps)
  show ?thesis
  proof (cases found)
    case (Some e)
    then show ?thesis using run scan by (simp add: restoreLocked_def Let_def result_simps phase_change_def)
  next
    case None
    have x': "x = raw\<lparr>st_Message := TrimSpace (st_Message raw)\<rparr>" and "stash_ok L raw = Inr ()"
      using x by (auto simp: checkRestored_def result_simps stash_ok_def)
    then have "stash_fine L (x\<lparr>st_UpdatedAt := now\<rparr>)"
      using assms(3) ValidString_TrimSpace ValidString_json_text [of "st_Message raw"]
      by (auto simp: stash_fine_def stash_ok_def json_stash_fixed)
    moreover have "s' = put_workspace sv s ((workspace sv s)\<lparr>ws_Stashes := ws_Stashes (workspace sv s) @
        [x\<lparr>st_UpdatedAt := now\<rparr>], ws_UpdatedAt := now\<rparr>)"
      using run scan None by (auto simp: restoreLocked_def Let_def result_simps)
    moreover have "st_ID (x\<lparr>st_UpdatedAt := now\<rparr>) \<notin> set (map st_ID (ws_Stashes (workspace sv s)))"
      "\<not> list_ex (is_pending (st_CandidateRoot (x\<lparr>st_UpdatedAt := now\<rparr>))) (ws_Stashes (workspace sv s))"
      using restore_scan_None scan None by auto
    ultimately show ?thesis using append_change [OF inv] by metis
  qed
qed

text \<open>Replacing the stashes by ones that evolved from them.\<close>

lemma list_all2_evolve:
  assumes "list_all2 (\<lambda>x y. st_ID y = st_ID x \<and> stash_evolves x y) xs ys" and "distinct (map st_ID xs)"
  shows "stashes_evolve xs ys"
  unfolding stashes_evolve_def
proof (intro ballI impI)
  fix x y assume xy: "x \<in> set xs" "y \<in> set ys" "st_ID x = st_ID y"
  then obtain i where i: "i < length ys" "ys ! i = y" by (auto simp: in_set_conv_nth)
  then have "st_ID (xs ! i) = st_ID y" "stash_evolves (xs ! i) y" "i < length xs"
    using assms(1) by (auto simp: list_all2_conv_all_nth)
  moreover have "x = xs ! i"
    using xy(1,3) calculation assms(2) by (metis distinct_map inj_onD nth_mem)
  ultimately show "stash_evolves x y" by simp
qed

lemma freeze_first_spec:
  assumes "freeze_first root changeSet message now xs = Inr (x, ys)"
  obtains pre y post where "xs = pre @ y # post" and "is_pending root y" and "\<not> list_ex (is_pending root) pre"
    and "freezeStash changeSet message now y = Inr x" and "ys = pre @ x # post"
  using assms
proof (induction xs arbitrary: x ys thesis)
  case (Cons a xs)
  show ?case
  proof (cases "is_pending root a")
    case True
    then show ?thesis using Cons.prems(1) [of "[]" a xs] Cons.prems(2) by (auto simp: result_simps)
  next
    case False
    then obtain zs where "freeze_first root changeSet message now xs = Inr (x, zs)" and ys: "ys = a # zs"
      using Cons.prems(2) by (auto simp: result_simps)
    then obtain pre y post where "xs = pre @ y # post" and "is_pending root y" and "\<not> list_ex (is_pending root) pre"
      and "freezeStash changeSet message now y = Inr x" and "zs = pre @ x # post"
      using Cons.IH by blast
    then show ?thesis using Cons.prems(1) [of "a # pre" y post] False ys by simp
  qed
qed simp

lemma freezeStash_spec:
  assumes "freezeStash changeSet message now y = Inr x"
  shows "x = y\<lparr>st_ChangeSetCID := st_ChangeSetCID x, st_Message := st_Message x, st_RequestFrozen := True, st_UpdatedAt := now\<rparr>"
    and "st_RequestFrozen y \<Longrightarrow> st_ChangeSetCID x = st_ChangeSetCID y \<and> st_Message x = st_Message y"
    and "st_ChangeSetCID x \<in> {changeSet, st_ChangeSetCID y}" and "st_Message x \<in> {message, st_Message y}"
  using assms by (cases y; auto simp: freezeStash_def result_simps split: if_splits)+

lemma freezeStash_evolves:
  assumes "freezeStash changeSet message now y = Inr x"
  shows "st_ID x = st_ID y" and "stash_evolves y x" and "st_Status x = st_Status y"
    and "st_CandidateRoot x = st_CandidateRoot y" and "st_RequestFrozen x"
proof -
  note f = freezeStash_spec(1) [OF assms]
  have "st_ID x = st_ID y \<and> st_PushID x = st_PushID y \<and> st_CandidateRoot x = st_CandidateRoot y \<and>
      st_Base x = st_Base y \<and> st_CreatedAt x = st_CreatedAt y \<and> st_Status x = st_Status y \<and> st_RequestFrozen x"
    by (subst (1 2 3 4 5 6 7) f) simp
  then show "st_ID x = st_ID y" and "stash_evolves y x" and "st_Status x = st_Status y"
    and "st_CandidateRoot x = st_CandidateRoot y" and "st_RequestFrozen x"
    using freezeStash_spec(2) [OF assms] by (auto simp: stash_evolves_def)
qed

lemma freezeStash_fine:
  assumes "freezeStash changeSet message now y = Inr x" and "stash_fine L y"
    and "ValidString changeSet" and "ValidString message"
  shows "stash_fine L x"
proof -
  have "json_text (st_ChangeSetCID x) = st_ChangeSetCID x" "json_text (st_Message x) = st_Message x"
    using freezeStash_spec(3,4) [OF assms(1)] assms(2-4) by (auto simp: stash_fine_def json_stash_fixed)
  then have "stash_fine L (y\<lparr>st_ChangeSetCID := st_ChangeSetCID x, st_Message := st_Message x,
      st_RequestFrozen := True, st_UpdatedAt := now\<rparr>)"
    using assms(2) by (simp add: stash_fine_def json_stash_fixed stash_ok_def)
  then show ?thesis using freezeStash_spec(1) [OF assms(1)] by simp
qed

lemma freeze_change:
  assumes inv: "sync_inv L s" and "ValidString changeSet" and "ValidString message"
    and run: "freezeLocked sv root changeSet message now now' s = Inr (x, s')"
  shows "phase_change L sv s s'"
proof -
  let ?w = "workspace sv s"
  note fine = workspace_fine_get [OF inv, of sv]
  from run obtain xs where ff: "freeze_first root changeSet (TrimSpace message) now (ws_Stashes ?w) = Inr (x, xs)"
    and s': "s' = put_workspace sv s (?w\<lparr>ws_Stashes := xs, ws_UpdatedAt := now'\<rparr>)"
    by (auto simp: freezeLocked_def Let_def result_simps)
  from ff show ?thesis
  proof (rule freeze_first_spec)
    fix pre y post
    assume w: "ws_Stashes ?w = pre @ y # post" and fy: "freezeStash changeSet (TrimSpace message) now y = Inr x"
      and xs: "xs = pre @ x # post"
    note e = freezeStash_evolves [OF fy]
    have "stash_fine L x"
      using freezeStash_fine [OF fy] fine w assms(2,3) ValidString_TrimSpace
      by (auto simp: workspace_fine_def stashes_fine_def)
    moreover have "map st_ID xs = map st_ID (ws_Stashes ?w)" "pending_roots xs = pending_roots (ws_Stashes ?w)"
      by (simp_all add: xs w e pending_roots_def)
    ultimately have "stashes_fine L xs"
      using fine w by (simp add: workspace_fine_def stashes_fine_def xs)
    moreover have "hasPending xs = hasPending (ws_Stashes ?w)" by (simp add: hasPending_def xs w e)
    moreover have "stashes_evolve (ws_Stashes ?w) xs"
      by (rule list_all2_evolve) (use fine e in \<open>auto simp: w xs list_all2_append list.rel_refl workspace_fine_def stashes_fine_def\<close>)
    ultimately show ?thesis
      using fine by (auto simp: phase_change_def s' workspace_fine_def ws_step_def)
  qed
qed

text \<open>Settling touches the first stash with the identity, or nothing.\<close>

definition mark_branched :: "ApplyResult \<Rightarrow> time \<Rightarrow> Stash \<Rightarrow> Stash" where
  "mark_branched r now x =
     x\<lparr>st_Status := ''branched'',
       st_Branch := (case ap_Branch r of None \<Rightarrow> st_Branch x | Some ref \<Rightarrow> nh_Name ref),
       st_Conflicts := conflictsFromRemote (ap_Conflicts r), st_UpdatedAt := now\<rparr>"

lemma settle_cases:
  obtains (absent) "ident \<notin> set (map st_ID xs)" "settle ident r now xs = xs"
    | (marked) pre x post where "xs = pre @ x # post" "st_ID x = ident" "ap_Status r = ''branched''"
      "settle ident r now xs = pre @ mark_branched r now x # post"
    | (dropped) pre x post where "xs = pre @ x # post" "st_ID x = ident" "ap_Status r \<noteq> ''branched''"
      "settle ident r now xs = pre @ post"
proof (induction xs arbitrary: thesis)
  case (Cons a xs)
  show ?case
  proof (cases "st_ID a = ident")
    case True
    then show ?thesis
      using Cons.prems(2) [of "[]" a xs] Cons.prems(3) [of "[]" a xs]
      by (cases "ap_Status r = ''branched''") (auto simp: mark_branched_def)
  next
    case False
    show ?thesis
    proof (rule Cons.IH)
      show thesis if "ident \<notin> set (map st_ID xs)" "settle ident r now xs = xs"
        using that False Cons.prems(1) by simp
      show thesis if "xs = pre @ x # post" "st_ID x = ident" "ap_Status r = ''branched''"
        "settle ident r now xs = pre @ mark_branched r now x # post" for pre x post
        using that False Cons.prems(2) [of "a # pre" x post] by simp
      show thesis if "xs = pre @ x # post" "st_ID x = ident" "ap_Status r \<noteq> ''branched''"
        "settle ident r now xs = pre @ post" for pre x post
        using that False Cons.prems(3) [of "a # pre" x post] by simp
    qed
  qed
qed simp

text \<open>The texts of a result survive JSON.\<close>

definition result_text :: "ApplyResult \<Rightarrow> bool" where
  "result_text r \<longleftrightarrow>
     ValidString (nh_CommitID (ap_Head r)) \<and> ValidString (nh_Root (ap_Head r)) \<and>
     (case ap_Branch r of None \<Rightarrow> True | Some ref \<Rightarrow> ValidString (nh_Name ref)) \<and>
     list_all (\<lambda>c. json_conflict c = c) (ap_Conflicts r)"

lemma stashes_fine_drop: "stashes_fine L (pre @ x # post) \<Longrightarrow> stashes_fine L (pre @ post)"
  by (auto simp: stashes_fine_def pending_roots_def split: if_splits)

lemma mark_branched_fine:
  assumes "stash_fine L x" and "result_text r"
  shows "stash_fine L (mark_branched r now x)" and "st_ID (mark_branched r now x) = st_ID x"
    and "stash_evolves x (mark_branched r now x)"
proof -
  have "map json_conflict (conflictsFromRemote (ap_Conflicts r)) = conflictsFromRemote (ap_Conflicts r)"
    by (rule map_idI) (use assms(2) in \<open>auto simp: result_text_def conflictsFromRemote_def list_all_iff\<close>)
  then show "stash_fine L (mark_branched r now x)"
    using assms by (auto simp: stash_fine_def stash_ok_def json_stash_fixed mark_branched_def result_text_def result_simps
        split: option.splits)
  show "st_ID (mark_branched r now x) = st_ID x" "stash_evolves x (mark_branched r now x)"
    by (simp_all add: mark_branched_def stash_evolves_def)
qed

lemma stashes_fine_mark:
  assumes "stashes_fine L (pre @ x # post)" and "result_text r"
  shows "stashes_fine L (pre @ mark_branched r now x # post)"
    and "stashes_evolve (pre @ x # post) (pre @ mark_branched r now x # post)"
proof -
  have "stash_fine L x" using assms(1) by (simp add: stashes_fine_def)
  note m = mark_branched_fine [OF this assms(2), of now]
  have "pending_roots (pre @ mark_branched r now x # post) = pending_roots (pre @ post)"
    by (simp add: pending_roots_def mark_branched_def)
  moreover have "map st_ID (pre @ mark_branched r now x # post) = map st_ID (pre @ x # post)" using m(2) by simp
  ultimately show "stashes_fine L (pre @ mark_branched r now x # post)"
    using assms(1) m(1) stashes_fine_drop [OF assms(1)] unfolding stashes_fine_def by simp
  show "stashes_evolve (pre @ x # post) (pre @ mark_branched r now x # post)"
    by (rule list_all2_evolve) (use assms(1) m in \<open>auto simp: list_all2_append list.rel_refl stashes_fine_def\<close>)
qed

lemma settle_fine:
  assumes "stashes_fine L xs" and "result_text r"
  shows "stashes_fine L (settle ident r now xs)" and "stashes_evolve xs (settle ident r now xs)"
proof -
  have ids: "distinct (map st_ID xs)" using assms(1) by (simp add: stashes_fine_def)
  have "stashes_fine L (settle ident r now xs) \<and> stashes_evolve xs (settle ident r now xs)"
  proof (cases rule: settle_cases [of ident xs r now])
    case absent
    then show ?thesis using assms(1) stashes_evolve_sub [OF ids] by simp
  next
    case (marked pre x post)
    then show ?thesis using assms stashes_fine_mark by simp
  next
    case (dropped pre x post)
    then show ?thesis using assms(1) stashes_fine_drop stashes_evolve_sub [OF ids, of "pre @ post"] by auto
  qed
  then show "stashes_fine L (settle ident r now xs)" and "stashes_evolve xs (settle ident r now xs)" by simp_all
qed

lemma head_ok_ref:
  assumes "headFromRef L v = Inr h" and "ValidString (nh_CommitID v)" and "ValidString (nh_Root v)"
  shows "head_ok L h"
  using assms by (auto simp: headFromRef_def Let_def result_simps head_ok_def json_head_def)

lemma finish_change:
  assumes inv: "sync_inv L s" and utf: "result_text r"
    and run: "finishLocked L sv ident r now now' s = Inr (x, s')"
  shows "phase_change L sv s s'"
proof -
  let ?w = "workspace sv s" and ?xs = "settle ident r now (ws_Stashes (workspace sv s))"
  note fine = workspace_fine_get [OF inv, of sv]
  from run obtain h remote base where h: "headFromRef L (ap_Head r) = Inr h"
    and m: "monotonicHead (ws_Remote ?w) h = Inr remote" and b: "advanceBase (?w\<lparr>ws_Stashes := ?xs\<rparr>) remote = Inr base"
    and s': "s' = put_workspace sv s (?w\<lparr>ws_Stashes := ?xs, ws_Remote := remote, ws_Base := base, ws_UpdatedAt := now'\<rparr>)"
    by (auto simp: finishLocked_def Let_def result_simps)
  have le: "head_le (ws_Base ?w) remote"
    using fine monotonicHead_le(1) [OF m] head_le_trans by (auto simp: workspace_fine_def)
  have base: "base = (if hasPending ?xs then ws_Base ?w else remote)"
    using head_le_advance [of "?w\<lparr>ws_Stashes := ?xs\<rparr>" remote base] le b by simp
  have remote: "head_ok L remote"
    using monotonicHead_le(2) [OF m] head_ok_ref [OF h] utf fine by (auto simp: workspace_fine_def result_text_def)
  have "stashes_fine L ?xs" "stashes_evolve (ws_Stashes ?w) ?xs"
    using settle_fine [OF _ utf] fine by (auto simp: workspace_fine_def)
  then show ?thesis
    using fine le base remote monotonicHead_le(1) [OF m]
    by (auto simp: phase_change_def s' workspace_fine_def ws_step_def)
qed

lemma resolve_first_spec:
  "resolve_first ident root xs = Inr ys \<Longrightarrow>
     \<exists>pre x post. xs = pre @ x # post \<and> ys = pre @ post \<and> st_ID x = ident \<and> st_Status x = ''branched''"
proof (induction xs arbitrary: ys)
  case (Cons a xs)
  show ?case
  proof (cases "st_ID a = ident")
    case True
    then have "ys = xs" "st_Status a = ''branched''" using Cons.prems by (simp_all add: result_simps)
    then show ?thesis using True by (intro exI [of _ "[]"]) auto
  next
    case False
    then obtain zs where "resolve_first ident root xs = Inr zs" and ys: "ys = a # zs"
      using Cons.prems by (auto simp: result_simps)
    then obtain pre x post where "xs = pre @ x # post \<and> zs = pre @ post \<and> st_ID x = ident \<and> st_Status x = ''branched''"
      using Cons.IH by blast
    then show ?thesis using ys by (intro exI [of _ "a # pre"]) auto
  qed
qed simp

lemma resolve_change:
  assumes inv: "sync_inv L s" and run: "resolveLocked sv ident root now s = Inr (x, s')"
  shows "phase_change L sv s s'"
proof -
  let ?w = "workspace sv s"
  note fine = workspace_fine_get [OF inv, of sv]
  from run obtain xs base where xs: "resolve_first ident root (ws_Stashes ?w) = Inr xs"
    and b: "advanceBase (?w\<lparr>ws_Stashes := xs\<rparr>) (ws_Remote ?w) = Inr base"
    and s': "s' = put_workspace sv s (?w\<lparr>ws_Stashes := xs, ws_Base := base, ws_UpdatedAt := now\<rparr>)"
    by (auto simp: resolveLocked_def Let_def result_simps)
  obtain pre y post where split: "ws_Stashes ?w = pre @ y # post" "xs = pre @ post"
    using resolve_first_spec [OF xs] by blast
  have ids: "distinct (map st_ID (ws_Stashes ?w))" using fine by (simp add: workspace_fine_def stashes_fine_def)
  have base: "base = (if hasPending xs then ws_Base ?w else ws_Remote ?w)"
    using head_le_advance [of "?w\<lparr>ws_Stashes := xs\<rparr>" "ws_Remote ?w" base] fine b by (simp add: workspace_fine_def)
  have "stashes_fine L xs" "stashes_evolve (ws_Stashes ?w) xs"
    using fine stashes_fine_drop split stashes_evolve_sub [OF ids, of xs] by (auto simp: workspace_fine_def)
  then show ?thesis
    using fine base by (auto simp: phase_change_def s' workspace_fine_def ws_step_def)
qed

end
