(* ===== verification/BucketRun.thy ===== *)
theory BucketRun
  imports BucketSteps
begin

text \<open>
  The synchronization file under any interleaving of the phases of any number of services, each phase
  under its own faults: the step relation, its invariant, and how the workspaces evolve.
\<close>

abbreviation sync_ok :: "cid_lib \<Rightarrow> sync_disk \<Rightarrow> bool" where
  "sync_ok L d \<equiv> disk_ok sync_encode (sync_inv L) d"

abbreviation sync_loaded :: "cid_lib \<Rightarrow> sync_disk \<Rightarrow> sync_state" where
  "sync_loaded L d \<equiv> loaded sync_init (sync_reload L) d"

text \<open>The workspace a file holds under a key.\<close>

definition ws_at :: "cid_lib \<Rightarrow> sync_disk \<Rightarrow> string \<Rightarrow> Workspace" where
  "ws_at L d key =
     (case gm_get (ss_Workspaces (sync_loaded L d)) key of None \<Rightarrow> no_workspace | Some w \<Rightarrow> w)"

section \<open>Steps\<close>

text \<open>The texts a caller or a remote hands over are valid UTF-8, and CIDs are values of the library.\<close>

definition cid_value :: "cid_lib \<Rightarrow> cid \<Rightarrow> bool" where
  "cid_value L c \<longleftrightarrow> cid_Parse L (cid_String L c) = Some c"

definition observed_text :: "string + ObservedHead option \<Rightarrow> bool" where
  "observed_text observed \<longleftrightarrow>
     (case observed of Inr (Some h) \<Rightarrow> ValidString (nh_CommitID h) \<and> ValidString (nh_Root h) | _ \<Rightarrow> True)"

definition fresh_id :: "cid_lib \<Rightarrow> Service \<Rightarrow> bytes option \<Rightarrow> sync_disk \<Rightarrow> bool" where
  "fresh_id L sv random d \<longleftrightarrow>
     (case random of
        None \<Rightarrow> True
      | Some bytes \<Rightarrow> length bytes = 16 \<and> EncodeToString bytes \<notin> set (map st_ID (ws_Stashes (ws_at L d (sv_stateKey sv)))))"

inductive sync_step :: "cid_lib \<Rightarrow> sync_disk \<Rightarrow> sync_disk \<Rightarrow> bool" for L :: cid_lib where
  pull: "service_ok sv \<Longrightarrow> observed_text observed \<Longrightarrow> sync_step L d (snd (sync_Pull L F sv observed now d))"
| stage: "service_ok sv \<Longrightarrow> cid_value L candidate \<Longrightarrow> \<not> cid_Defined changeSet \<or> cid_value L changeSet \<Longrightarrow>
    json_head base = base \<Longrightarrow> ValidString message \<Longrightarrow> fresh_id L sv random d \<Longrightarrow>
    sync_step L d (snd (sync_Stage L F sv candidate base changeSet message random now d))"
| restore: "service_ok sv \<Longrightarrow> json_stash x = x \<Longrightarrow> sync_step L d (snd (sync_RestorePending L F sv x now d))"
| freeze: "service_ok sv \<Longrightarrow> \<not> cid_Defined changeSet \<or> cid_value L changeSet \<Longrightarrow> ValidString message \<Longrightarrow>
    sync_step L d (snd (sync_freeze L sv candidate changeSet message env d))"
| finish: "service_ok sv \<Longrightarrow> result_text r \<Longrightarrow> sync_step L d (snd (sync_finish L sv ident r env d))"
| resolve: "service_ok sv \<Longrightarrow> sync_step L d (snd (sync_ResolveBranched L F sv ident root now d))"


abbreviation sync_steps :: "cid_lib \<Rightarrow> sync_disk \<Rightarrow> sync_disk \<Rightarrow> bool" where
  "sync_steps L \<equiv> (sync_step L)\<^sup>*\<^sup>*"

section \<open>What a step does\<close>

text \<open>A step leaves a sound file whose state changed as one phase of one service.\<close>

definition phase_disk :: "cid_lib \<Rightarrow> Service \<Rightarrow> sync_disk \<Rightarrow> sync_disk \<Rightarrow> bool" where
  "phase_disk L sv d d' \<longleftrightarrow> sync_ok L d' \<and> phase_change L sv (sync_loaded L d) (sync_loaded L d')"

lemma phase_disk_refl: "sync_ok L d \<Longrightarrow> phase_disk L sv d d"
  by (simp add: phase_disk_def phase_change_def)

lemma loaded_encode: "sync_inv L s \<Longrightarrow> sync_loaded L (Some (Decoded (sync_encode s))) = s"
  by (simp add: loaded_def sync_reload_encode)

lemma writing_phase:
  assumes ok: "sync_ok L d" and sv: "service_ok sv"
    and f: "\<And>r s'. f (sync_loaded L d) = Inr (r, s') \<Longrightarrow> phase_change L sv (sync_loaded L d) s'"
  shows "phase_disk L sv d (snd (sync_withState L F (writing f) d))"
proof -
  let ?s = "sync_loaded L d"
  have inv: "sync_inv L ?s" by (rule bucket_file.loaded_invar [OF ok])
  obtain res d' where ws: "sync_withState L F (writing f) d = (res, d')" by (cases "sync_withState L F (writing f) d")
  have "d' = d \<or> (\<exists>s'. snd (writing f ?s) = Some s' \<and> d' = Some (Decoded (sync_encode s')))"
    using bucket_file.with_state_disk [OF ok ws [unfolded sync_withState_def]] .
  then consider "d' = d" | r s' where "f ?s = Inr (r, s')" "d' = Some (Decoded (sync_encode s'))"
    by (auto simp: writing_def split: sum.splits)
  then show ?thesis
  proof cases
    case 1
    then show ?thesis using ws phase_disk_refl [OF ok] by simp
  next
    case (2 r s')
    have "phase_change L sv ?s s'" by (rule f [OF 2(1)])
    moreover have "sync_inv L s'" by (rule phase_change_inv [OF inv sv calculation])
    ultimately show ?thesis
      using ws 2(2) loaded_encode by (auto simp: phase_disk_def disk_ok_def)
  qed
qed

lemma cid_text:
  assumes "cid_lib_ok L" and "cid_value L c"
  shows "cid_Parse L (cid_String L c) \<noteq> None" and "ValidString (cid_String L c)"
  using assms ValidString_graphic by (auto simp: cid_lib_ok_def cid_value_def)

lemma optional_text:
  assumes "cid_lib_ok L" and "\<not> cid_Defined c \<or> cid_value L c"
  shows "ValidString (if cid_Defined c then cid_String L c else [])"
  using assms cid_text by auto

lemma checkObserved_ok:
  assumes "checkObserved L sv observed = Inr h" and "observed_text observed"
  shows "head_ok L h"
proof -
  from assms(1) obtain v where v: "observed = Inr (Some v)" "headFromRef L v = Inr h"
    by (auto simp: checkObserved_def result_simps split: sum.splits option.splits)
  then show ?thesis using head_ok_ref assms(2) by (simp add: observed_text_def)
qed

lemma workspace_stashes: "ws_Stashes (workspace sv (sync_loaded L d)) = ws_Stashes (ws_at L d (sv_stateKey sv))"
  by (simp add: workspace_def ws_at_def)

lemma pull_disk:
  assumes ok: "sync_ok L d" and sv: "service_ok sv" and obs: "observed_text observed"
  shows "phase_disk L sv d (snd (sync_Pull L F sv observed now d))"
proof (cases "checkObserved L sv observed")
  case (Inl e)
  then show ?thesis using phase_disk_refl [OF ok] by (simp add: sync_Pull_def)
next
  case (Inr h)
  have "phase_disk L sv d (snd (sync_withState L F (writing (pullLocked sv h now)) d))"
    by (rule writing_phase [OF ok sv])
      (rule pull_change [OF bucket_file.loaded_invar [OF ok] checkObserved_ok [OF Inr obs]])
  then show ?thesis using Inr by (simp add: sync_Pull_def)
qed

lemma stage_disk:
  assumes L: "cid_lib_ok L" and ok: "sync_ok L d" and sv: "service_ok sv" and "cid_value L candidate"
    and "\<not> cid_Defined changeSet \<or> cid_value L changeSet" and "json_head base = base" and "ValidString message"
    and "fresh_id L sv random d"
  shows "phase_disk L sv d (snd (sync_Stage L F sv candidate base changeSet message random now d))"
proof (cases "require (cid_Defined candidate) (SyncInvalid ''candidate root is undefined'') (validateHead L base)")
  case (Inl e)
  then show ?thesis using phase_disk_refl [OF ok] by (simp add: sync_Stage_def)
next
  case (Inr u)
  have base: "head_ok L base" using Inr assms(6) by (simp add: result_simps head_ok_def)
  have fresh: "bytes \<noteq> [] \<and> EncodeToString bytes \<notin> set (map st_ID (ws_Stashes (workspace sv (sync_loaded L d))))"
    if "random = Some bytes" for bytes
    using assms(8) that by (auto simp: fresh_id_def workspace_stashes)
  have "phase_disk L sv d (snd (sync_withState L F (writing (stageLocked sv (cid_String L candidate) base
      (if cid_Defined changeSet then cid_String L changeSet else []) message random now)) d))"
    by (rule writing_phase [OF ok sv])
      (rule stage_change [OF bucket_file.loaded_invar [OF ok] base cid_text [OF L assms(4)] optional_text [OF L assms(5)]
          assms(7) fresh])
  then show ?thesis using Inr by (simp add: sync_Stage_def)
qed

lemma restore_disk:
  assumes ok: "sync_ok L d" and sv: "service_ok sv" and "json_stash x = x"
  shows "phase_disk L sv d (snd (sync_RestorePending L F sv x now d))"
proof (cases "checkRestored L x")
  case (Inl e)
  then show ?thesis using phase_disk_refl [OF ok] by (simp add: sync_RestorePending_def)
next
  case (Inr y)
  have "phase_disk L sv d (snd (sync_withState L F (writing (restoreLocked sv y now)) d))"
    by (rule writing_phase [OF ok sv]) (rule restore_change [OF bucket_file.loaded_invar [OF ok] Inr assms(3)])
  then show ?thesis using Inr by (simp add: sync_RestorePending_def)
qed

lemma freeze_disk:
  assumes L: "cid_lib_ok L" and ok: "sync_ok L d" and sv: "service_ok sv"
    and "\<not> cid_Defined changeSet \<or> cid_value L changeSet" and "ValidString message"
  shows "phase_disk L sv d (snd (sync_freeze L sv candidate changeSet message env d))"
proof -
  obtain F now now' where env: "env = (F, now, now')" by (cases env)
  show ?thesis unfolding sync_freeze_def env prod.case
    by (rule writing_phase [OF ok sv])
      (rule freeze_change [OF bucket_file.loaded_invar [OF ok] optional_text [OF L assms(4)] assms(5)])
qed

lemma finish_disk:
  assumes ok: "sync_ok L d" and sv: "service_ok sv" and "result_text r"
  shows "phase_disk L sv d (snd (sync_finish L sv ident r env d))"
proof -
  obtain F now now' where env: "env = (F, now, now')" by (cases env)
  show ?thesis unfolding sync_finish_def env prod.case
    by (rule writing_phase [OF ok sv]) (rule finish_change [OF bucket_file.loaded_invar [OF ok] assms(3)])
qed

lemma resolve_disk:
  assumes ok: "sync_ok L d" and sv: "service_ok sv"
  shows "phase_disk L sv d (snd (sync_ResolveBranched L F sv ident root now d))"
proof -
  have "phase_disk L sv d (snd (sync_withState L F (writing (resolveLocked sv i r now)) d))" for i r
    by (rule writing_phase [OF ok sv]) (rule resolve_change [OF bucket_file.loaded_invar [OF ok]])
  then show ?thesis using phase_disk_refl [OF ok] by (auto simp: sync_ResolveBranched_def Let_def)
qed

lemma sync_step_phase:
  assumes L: "cid_lib_ok L" and "sync_step L d d'" and ok: "sync_ok L d"
  shows "\<exists>sv. service_ok sv \<and> phase_disk L sv d d'"
  using assms(2)
  by cases (use pull_disk stage_disk [OF L] restore_disk freeze_disk [OF L] finish_disk resolve_disk ok in metis)+

text \<open>A phase leaves the workspaces of other keys alone.\<close>

lemma phase_disk_frame:
  "phase_disk L sv d d' \<Longrightarrow> key \<noteq> sv_stateKey sv \<Longrightarrow> ws_at L d' key = ws_at L d key"
  by (auto simp: phase_disk_def phase_change_def ws_at_def put_workspace_def)

lemma ws_step_names:
  "ws_step (w\<lparr>ws_BucketID := b, ws_Branch := c\<rparr>) w' = ws_step w w'"
  by (simp add: ws_step_def)

lemma ws_at_fine: "sync_ok L d \<Longrightarrow> workspace_fine L (ws_at L d key)"
  using workspace_fine_get [OF bucket_file.loaded_invar, of L d "\<lparr>sv_bucketID = [], sv_branch = [], sv_stateKey = key\<rparr>"]
  by (simp add: workspace_def workspace_fine_rename ws_at_def)

lemma phase_disk_ws:
  assumes "sync_ok L d" and "phase_disk L sv d d'"
  shows "ws_step (ws_at L d key) (ws_at L d' key)"
proof -
  have ids: "distinct (map st_ID (ws_Stashes (ws_at L d key)))"
    using ws_at_fine [OF assms(1), of key] by (simp add: workspace_fine_def stashes_fine_def)
  show ?thesis
  proof (cases "ws_at L d' key = ws_at L d key")
    case True
    then show ?thesis using ws_step_refl [OF ids] by simp
  next
    case False
    then obtain w' where w': "sync_loaded L d' = put_workspace sv (sync_loaded L d) w'"
      and step: "ws_step (workspace sv (sync_loaded L d)) w'"
      using assms(2) by (auto simp: phase_disk_def phase_change_def ws_at_def)
    then have "key = sv_stateKey sv" using False by (auto simp: ws_at_def put_workspace_def split: if_splits)
    then show ?thesis
      using step w' by (simp add: ws_at_def put_workspace_def workspace_def ws_step_names)
  qed
qed

lemma sync_step_ws:
  assumes "cid_lib_ok L" and "sync_step L d d'" and "sync_ok L d"
  shows "sync_ok L d'" and "ws_step (ws_at L d key) (ws_at L d' key)"
  using sync_step_phase [OF assms] phase_disk_ws [OF assms(3)] by (auto simp: phase_disk_def)

lemma sync_steps_ok:
  assumes "cid_lib_ok L" and "sync_steps L d d'" and "sync_ok L d"
  shows "sync_ok L d'"
  using assms(2,3) by induction (use sync_step_ws(1) [OF assms(1)] in blast)+

end
