(* ===== verification/BucketProps.thy ===== *)
theory BucketProps
  imports BucketRun
begin

text \<open>
  The properties of bucket synchronization, with concrete instances evaluated on \<open>demo_cid\<close>.
\<close>

section \<open>Reading the file\<close>

lemma reading_ok:
  assumes "sync_ok L d"
  shows "sync_withState L no_faults (reading f) d = (f (sync_loaded L d), d)"
  using bucket_file.with_state_no_faults [OF assms, of "reading f" "f (sync_loaded L d)" None]
  by (simp add: sync_withState_def reading_def)

lemma workspace_at: "workspace sv (sync_loaded L d) =
    (ws_at L d (sv_stateKey sv))\<lparr>ws_BucketID := sv_bucketID sv, ws_Branch := sv_branch sv\<rparr>"
  by (simp add: workspace_def ws_at_def)

text \<open>A successful writing phase saw the stored state and is what the next phase loads.\<close>

lemma writing_success:
  assumes "sync_ok L d" and "service_ok sv"
    and "\<And>r s'. f (sync_loaded L d) = Inr (r, s') \<Longrightarrow> phase_change L sv (sync_loaded L d) s'"
    and "sync_withState L F (writing f) d = (Inr r, d')"
  shows "f (sync_loaded L d) = Inr (r, sync_loaded L d')"
proof -
  have inv: "sync_inv L s'" if "snd (writing f (sync_loaded L d)) = Some s'" for s'
    using that phase_change_inv [OF bucket_file.loaded_invar [OF assms(1)] assms(2)] assms(3)
    by (auto simp: writing_def split: sum.splits)
  show ?thesis
    using bucket_file.with_state_success [OF assms(1) assms(4) [unfolded sync_withState_def] inv]
    by (auto simp: writing_def split: sum.splits)
qed

section \<open>Reachable files\<close>

text \<open>
  C13: whatever services do to the synchronization file, in any interleaving of their phases and with any
  step of any write failing, as long as the texts of the calls and of the remote answers are valid UTF-8 and the random
  identifier of a new stash is not in use yet, the file can be read again, stash identities and pending candidates stay
  unique in each workspace, and a base never runs ahead of the observed remote head.
\<close>

theorem bucket_always_readable:
  assumes "cid_lib_ok L" and "sync_steps L None d"
  shows "\<exists>w. sync_Status L no_faults sv d = (Inr w, d) \<and> distinct (map st_ID (ws_Stashes w)) \<and>
    distinct (pending_roots (ws_Stashes w)) \<and> head_le (ws_Base w) (ws_Remote w)"
proof -
  have "sync_ok L None" by (simp add: disk_ok_def)
  with assms have ok: "sync_ok L d" by (rule sync_steps_ok)
  have "workspace_fine L (workspace sv (sync_loaded L d))"
    by (rule workspace_fine_get [OF bucket_file.loaded_invar [OF ok]])
  then show ?thesis
    using reading_ok [OF ok, of "\<lambda>s. Inr (workspace sv s)"] by (simp add: sync_Status_def workspace_fine_def stashes_fine_def)
qed

definition demo_service :: Service where
  "demo_service = \<lparr>sv_bucketID = ''data'', sv_branch = ''dev'', sv_stateKey = workspaceKey ''data'' ''dev''\<rparr>"

definition demo_base_head :: ObservedHead where
  "demo_base_head = demo_head\<lparr>nh_CommitID := ''c1'', nh_Root := ''bone'', nh_Revision := 4\<rparr>"

definition demo_base :: Head where
  "demo_base = \<lparr>hd_CommitID = ''c1'', hd_Root = ''bone'', hd_Revision = 4\<rparr>"

definition demo_random :: bytes where
  "demo_random = ''0123456789abcdef''"

text \<open>A file with the candidate \<open>btwo\<close> staged against revision 4.\<close>

definition demo_pulled :: sync_disk where
  "demo_pulled = snd (sync_Pull demo_cid no_faults demo_service (Inr (Some demo_base_head)) 3 None)"

definition demo_staged :: sync_disk where
  "demo_staged =
     snd (sync_Stage demo_cid no_faults demo_service ''btwo'' demo_base [] ''hello'' (Some demo_random) 5 demo_pulled)"

text \<open>The stored records, written out.\<close>

definition demo_stash :: Stash where
  "demo_stash =
     \<lparr>st_ID = ''MDEyMzQ1Njc4OWFiY2RlZg'', st_PushID = ''push_MDEyMzQ1Njc4OWFiY2RlZg'', st_CandidateRoot = ''btwo'',
      st_Base = demo_base, st_ChangeSetCID = [], st_Message = ''hello'', st_RequestFrozen = False,
      st_Status = ''pending'', st_Branch = [], st_Conflicts = [], st_CreatedAt = 5, st_UpdatedAt = 5\<rparr>"

definition demo_workspace :: Workspace where
  "demo_workspace =
     \<lparr>ws_BucketID = ''data'', ws_Branch = ''dev'', ws_Initialized = True, ws_Base = demo_base,
      ws_Remote = demo_base, ws_Stashes = [demo_stash], ws_UpdatedAt = 5\<rparr>"

lemma demo_staged_code [code]:
  "demo_staged = Some (Decoded \<lparr>sf_Version = 3, sf_Workspaces = Some [(''data@ZGV2'', demo_workspace, [Some False])]\<rparr>)"
  by code_simp

lemma demo_service_code [code]:
  "demo_service = \<lparr>sv_bucketID = ''data'', sv_branch = ''dev'', sv_stateKey = ''data@ZGV2''\<rparr>"
  by code_simp

lemma demo_service_ok: "service_ok demo_service"
proof -
  have "NormalizeSelector ''dev'' = Inr ''dev''" by code_simp
  then show ?thesis by (simp add: service_ok_def demo_service_def text_eval)
qed

lemma demo_staged_steps: "sync_steps demo_cid None demo_staged"
proof -
  have "sync_step demo_cid None demo_pulled"
    unfolding demo_pulled_def by (rule sync_step.pull [OF demo_service_ok]) code_simp
  moreover have "sync_step demo_cid demo_pulled demo_staged"
    unfolding demo_staged_def by (rule sync_step.stage [OF demo_service_ok]) code_simp+
  ultimately show ?thesis by simp
qed

theorem bucket_always_readable_witness:
  "\<exists>w. sync_Status demo_cid no_faults demo_service demo_staged = (Inr w, demo_staged) \<and>
     distinct (map st_ID (ws_Stashes w)) \<and> head_le (ws_Base w) (ws_Remote w)"
  using bucket_always_readable [OF demo_cid_ok demo_staged_steps, of demo_service] by blast

section \<open>Heads\<close>

text \<open>
  observed heads and bases only move forward.  Along any interleaving of phases the remote head and
  the base of a workspace never return to an older revision, nor to another commit of the same revision.
\<close>

theorem bucket_heads_monotone:
  assumes "cid_lib_ok L" and "sync_ok L d" and "sync_steps L d d'"
  shows "head_le (ws_Remote (ws_at L d key)) (ws_Remote (ws_at L d' key)) \<and>
    head_le (ws_Base (ws_at L d key)) (ws_Base (ws_at L d' key))"
proof -
  from assms(3) have "sync_ok L d' \<and> head_le (ws_Remote (ws_at L d key)) (ws_Remote (ws_at L d' key)) \<and>
      head_le (ws_Base (ws_at L d key)) (ws_Base (ws_at L d' key))"
  proof induction
    case base
    then show ?case using assms(2) by simp
  next
    case (step y z)
    then show ?case
      using sync_step_ws(1) [OF assms(1), of y z] sync_step_ws(2) [OF assms(1), of y z key] head_le_trans by (auto simp: ws_step_def)
  qed
  then show ?thesis by simp
qed

theorem bucket_heads_monotone_witness:
  "head_le (ws_Remote (ws_at demo_cid None (workspaceKey ''data'' ''dev'')))
     (ws_Remote (ws_at demo_cid demo_staged (workspaceKey ''data'' ''dev'')))"
proof -
  have "sync_ok demo_cid None" by (simp add: disk_ok_def)
  from bucket_heads_monotone [OF demo_cid_ok this demo_staged_steps] show ?thesis by simp
qed

text \<open>
  the base of a workspace does not move under pending work.  As long as a pending or conflicted stash
  is there after every step, no pull, push or resolution changes the base that later candidates are
  staged against.
\<close>

theorem bucket_base_fixed_while_pending:
  assumes "cid_lib_ok L" and "sync_ok L d"
    and "(\<lambda>x y. sync_step L x y \<and> hasPending (ws_Stashes (ws_at L y key)))\<^sup>*\<^sup>* d d'"
  shows "ws_Base (ws_at L d' key) = ws_Base (ws_at L d key)"
proof -
  from assms(3) have "sync_ok L d' \<and> ws_Base (ws_at L d' key) = ws_Base (ws_at L d key)"
  proof induction
    case base
    then show ?case using assms(2) by simp
  next
    case (step y z)
    then show ?case using sync_step_ws(1) [OF assms(1), of y z] sync_step_ws(2) [OF assms(1), of y z key] by (auto simp: ws_step_def)
  qed
  then show ?thesis by simp
qed

text \<open>A later pull that observes revision 6 while the candidate is staged.\<close>

definition demo_ahead :: sync_disk where
  "demo_ahead = snd (sync_Pull demo_cid no_faults demo_service (Inr (Some demo_head)) 6 demo_staged)"

theorem bucket_base_fixed_while_pending_witness:
  "ws_Base (ws_at demo_cid demo_ahead (workspaceKey ''data'' ''dev'')) = demo_base \<and>
   hd_Revision (ws_Remote (ws_at demo_cid demo_ahead (workspaceKey ''data'' ''dev''))) = 6"
proof -
  let ?key = "workspaceKey ''data'' ''dev''"
  have ok: "sync_ok demo_cid demo_staged"
    by (rule sync_steps_ok [OF demo_cid_ok demo_staged_steps]) (simp add: disk_ok_def)
  have "sync_step demo_cid demo_staged demo_ahead"
    unfolding demo_ahead_def by (rule sync_step.pull [OF demo_service_ok]) code_simp
  moreover have facts: "hasPending (ws_Stashes (ws_at demo_cid demo_ahead ?key))"
    "ws_Base (ws_at demo_cid demo_staged ?key) = demo_base"
    "hd_Revision (ws_Remote (ws_at demo_cid demo_ahead ?key)) = 6" by code_simp+
  ultimately have "(\<lambda>x y. sync_step demo_cid x y \<and> hasPending (ws_Stashes (ws_at demo_cid y ?key)))\<^sup>*\<^sup>* demo_staged demo_ahead"
    by (intro r_into_rtranclp) simp
  from bucket_base_fixed_while_pending [OF demo_cid_ok ok this] facts show ?thesis by simp
qed

end
