(* ===== verification/HistoryProps.thy ===== *)
theory HistoryProps
  imports HistoryInv BucketProps
begin

text \<open>
  The properties of the backup history, with concrete instances.
\<close>

section \<open>Concrete data\<close>

definition demo_outcome :: PushOutcome where
  "demo_outcome = \<lparr>po_Result = demo_branched, po_Workspace = no_workspace\<rparr>"

definition demo_result :: Result where
  "demo_result = \<lparr>br_PlanID = ''plan'', br_PlanName = ''docs'', br_Branch = ''dev'', br_Source = ''plan'',
     br_Profile = ProfileID, br_KeyEpoch = 1, br_EncryptedBytes = 9, br_SourceFingerprint = ''f'',
     br_BindingFingerprints = [(''b1'', ''f1'')], br_ManifestFingerprint = ''m'', br_ChangedBindings = [''docs''],
     br_Skipped = False, br_Base = demo_base, br_CandidateRoot = ''btwo'', br_Push = demo_outcome,
     br_CompletedAt = 7, br_RetriedPending = False, br_ReconciledPending = False\<rparr>"

definition demo_pending :: PendingBackup where
  "demo_pending = \<lparr>pb_BucketID = ''data'', pb_PlanID = ''plan'', pb_Message = ''nightly'', pb_StashID = [],
     pb_PushID = [], pb_CandidateBase = [], pb_CandidateRecorded = True, pb_Result = demo_result, pb_CreatedAt = 5\<rparr>"

definition demo_checkout :: ConflictCheckout where
  "demo_checkout = \<lparr>cc_PlanID = ''plan'', cc_StashID = ''s1'', cc_Branch = ''conflicts/data/1'', cc_BaseRoot = ''bone'',
     cc_LocalRoot = ''btwo'', cc_RemoteRoot = ''bthree'', cc_Path = ''/c'',
     cc_Bindings = [\<lparr>bc_BindingID = ''b1'', bc_BindingName = ''docs'', bc_Paths = [''a'']\<rparr>], cc_CreatedAt = 8\<rparr>"

definition demo_journaled :: history_disk where
  "demo_journaled = snd (history_SetPending no_faults demo_pending None)"

section \<open>Reopening\<close>

lemma history_read:
  assumes "history_ok d"
  shows "history_withState no_faults (reading f) d = (f (history_loaded d), d)"
  using history_store.with_state_no_faults [OF assms, of "reading f" "f (history_loaded d)" None]
  by (simp add: history_withState_def reading_def)

lemma Pending_read: "history_ok d \<Longrightarrow> history_Pending no_faults d = (Inr (hf_Pending (history_loaded d)), d)"
  by (simp add: history_Pending_def history_read)


text \<open>
  the backup history survives crashes.  Whatever calls are made, each under any faults, the file can be
  loaded again, as long as the texts of the calls are valid UTF-8 and callers clear a conflict checkout before they end its pending backup; the loaded
  journal then names both or neither of its stash identities, and a conflict checkout belongs to it.
\<close>

theorem history_always_reopens:
  assumes "history_step\<^sup>*\<^sup>* None d" and "path \<noteq> []"
  shows "NewHistory no_faults path d = (Inr (), d) \<and>
    (\<exists>pending conflict. history_Pending no_faults d = (Inr pending, d) \<and> history_Conflict no_faults d = (Inr conflict, d) \<and>
       pending_identity_ok pending \<and> conflict_matches pending conflict)"
proof -
  have "history_ok None" by (simp add: disk_ok_def)
  with assms(1) have ok: "history_ok d" by (rule history_steps_ok)
  have "history_Snapshot no_faults d = (Inr (hf_Plans (history_loaded d)), d)"
    "history_Pending no_faults d = (Inr (hf_Pending (history_loaded d)), d)"
    "history_Conflict no_faults d = (Inr (hf_Conflict (history_loaded d)), d)"
    using ok by (simp_all add: history_Snapshot_def history_Pending_def history_Conflict_def history_read)
  then show ?thesis
    using assms(2) history_store.loaded_invar [OF ok] by (simp add: NewHistory_def history_inv_def)
qed

lemma demo_pending_ok: "history_call_ok (CallSetPending demo_pending)"
  by code_simp

lemma demo_journaled_step: "history_step None demo_journaled"
  unfolding history_step_def demo_journaled_def using demo_pending_ok
  by (intro exI [of _ no_faults] exI [of _ "CallSetPending demo_pending"]) simp

theorem history_always_reopens_witness:
  "fst (NewHistory no_faults ''h'' demo_journaled) = Inr ()"
  using history_always_reopens [OF r_into_rtranclp [of history_step, OF demo_journaled_step], of "''h''"] by simp

section \<open>The journal of a publication\<close>

definition journal_keeps :: "PendingBackup \<Rightarrow> PendingBackup \<Rightarrow> bool" where
  "journal_keeps p p' \<longleftrightarrow>
     pb_BucketID p' = pb_BucketID p \<and> pb_PlanID p' = pb_PlanID p \<and> pb_Message p' = pb_Message p \<and>
     pb_CandidateBase p' = pb_CandidateBase p \<and> pb_CandidateRecorded p' = pb_CandidateRecorded p \<and>
     pb_CreatedAt p' = pb_CreatedAt p \<and> br_CandidateRoot (pb_Result p') = br_CandidateRoot (pb_Result p) \<and>
     (pb_StashID p \<noteq> [] \<longrightarrow> pb_StashID p' = pb_StashID p \<and> pb_PushID p' = pb_PushID p)"

text \<open>A call that does not end the pending backup of the candidate \<open>root\<close>.\<close>

fun spares :: "string \<Rightarrow> history_call \<Rightarrow> bool" where
  "spares root (CallClearPending candidate) \<longleftrightarrow> TrimSpace candidate \<noteq> root"
| "spares root (CallCompletePending candidate planID r) \<longleftrightarrow> TrimSpace candidate \<noteq> root"
| "spares root c \<longleftrightarrow> True"

definition sparing_step :: "string \<Rightarrow> history_disk \<Rightarrow> history_disk \<Rightarrow> bool" where
  "sparing_step root d d' \<longleftrightarrow> (\<exists>F c. history_call_ok c \<and> spares root c \<and> d' = snd (history_call_do F c d))"

lemma journal_keeps_trans: "journal_keeps p q \<Longrightarrow> journal_keeps q r \<Longrightarrow> journal_keeps p r"
  by (auto simp: journal_keeps_def)

lemma journal_keeps_refl [simp]: "journal_keeps p p"
  by (simp add: journal_keeps_def)

definition keeps_pending :: "PendingBackup \<Rightarrow> historyFile \<Rightarrow> bool" where
  "keeps_pending p h \<longleftrightarrow> (\<exists>p'. hf_Pending h = Some p' \<and> journal_keeps p p')"

lemma put_plan_pending [simp]: "hf_Pending (put_plan h name p) = hf_Pending h"
  by (simp add: put_plan_def)

lemma call_keeps_pending:
  assumes "hf_Pending h = Some p" and "spares (br_CandidateRoot (pb_Result p)) c" and "call_update c h = Inr h'"
  shows "keeps_pending p h'" and "\<not> ends_pending c"
proof -
  have "keeps_pending p h' \<and> \<not> ends_pending c"
    using assms
    by (cases c) (auto simp: checkPending_def setPending_def clearPending_def completePending_def markStaged_def
        markConflict_def setConflict_def clearConflict_def history_update_def keeps_pending_def journal_keeps_def Let_def
        result_simps split: option.splits)
  then show "keeps_pending p h'" and "\<not> ends_pending c" by simp_all
qed

lemma sparing_step_keeps:
  assumes ok: "history_ok d" and p: "hf_Pending (history_loaded d) = Some p"
    and "sparing_step (br_CandidateRoot (pb_Result p)) d d'"
  shows "history_ok d' \<and> keeps_pending p (history_loaded d')"
proof -
  obtain F c where c: "history_call_ok c" "spares (br_CandidateRoot (pb_Result p)) c"
    and d': "d' = snd (history_call_do F c d)" using assms(3) by (auto simp: sparing_step_def)
  show ?thesis
    using history_call_outcome [OF ok c(1), of F] call_keeps_pending [OF p c(2)] p unfolding d'
    by (auto simp: keeps_pending_def)
qed

text \<open>
  C32: a journaled backup is not lost.  Once the candidate of a backup is journaled, no further call under any
  faults removes or replaces it except one that ends exactly that candidate; its plan, message and base stay
  as they are, and a stash identity, once frozen, never changes.  The texts of the calls are valid UTF-8 (a text that
  is not may leave an unreadable file), and a backup given to \<open>SetPending\<close> names both or neither of its
  stash identities.
\<close>

theorem history_pending_kept:
  assumes "history_ok d" and "history_Pending no_faults d = (Inr (Some p), d0)"
    and "(sparing_step (br_CandidateRoot (pb_Result p)))\<^sup>*\<^sup>* d d'"
  shows "\<exists>p'. history_Pending no_faults d' = (Inr (Some p'), d') \<and> journal_keeps p p'"
proof -
  have p: "hf_Pending (history_loaded d) = Some p" using assms(2) unfolding Pending_read [OF assms(1)] by blast
  from assms(3) have "history_ok d' \<and> keeps_pending p (history_loaded d')"
  proof induction
    case base
    then show ?case using assms(1) p by (simp add: keeps_pending_def)
  next
    case (step y z)
    then obtain q where q: "hf_Pending (history_loaded y) = Some q" "journal_keeps p q"
      by (auto simp: keeps_pending_def)
    have "sparing_step (br_CandidateRoot (pb_Result q)) y z"
      using step.hyps(2) q(2) by (simp add: journal_keeps_def)
    then show ?case
      using sparing_step_keeps [OF _ q(1)] step.IH q(2) by (auto simp: keeps_pending_def intro: journal_keeps_trans)
  qed
  then show ?thesis using Pending_read by (auto simp: keeps_pending_def)
qed

definition demo_staged_stash :: Stash where
  "demo_staged_stash = demo_stash\<lparr>st_Message := ''nightly''\<rparr>"

theorem history_pending_kept_witness:
  "\<exists>p. history_Pending no_faults (snd (history_ClearPending no_faults ''bone''
       (snd (history_MarkPendingStaged (\<lambda>st. st = SyncParent) ''btwo'' demo_staged_stash demo_journaled)))) =
       (Inr (Some p), snd (history_ClearPending no_faults ''bone''
       (snd (history_MarkPendingStaged (\<lambda>st. st = SyncParent) ''btwo'' demo_staged_stash demo_journaled)))) \<and>
     pb_Message p = ''nightly''"
proof -
  let ?s = "\<lambda>st. st = SyncParent"
  let ?d1 = "snd (history_MarkPendingStaged ?s ''btwo'' demo_staged_stash demo_journaled)"
  let ?d2 = "snd (history_ClearPending no_faults ''bone'' ?d1)"
  have "history_ok None" by (simp add: disk_ok_def)
  then have ok: "history_ok demo_journaled" using demo_journaled_step by (rule history_step_ok)
  have read: "history_Pending no_faults demo_journaled = (Inr (Some demo_pending), demo_journaled)" by code_simp
  have calls: "history_call_ok (CallMarkStaged ''btwo'' demo_staged_stash)"
    "spares (br_CandidateRoot (pb_Result demo_pending)) (CallClearPending ''bone'')"
    by code_simp+
  have "sparing_step (br_CandidateRoot (pb_Result demo_pending)) demo_journaled ?d1"
    unfolding sparing_step_def using calls
    by (intro exI [of _ ?s] exI [of _ "CallMarkStaged ''btwo'' demo_staged_stash"]) simp
  moreover have "sparing_step (br_CandidateRoot (pb_Result demo_pending)) ?d1 ?d2"
    unfolding sparing_step_def using calls
    by (intro exI [of _ no_faults] exI [of _ "CallClearPending ''bone''"]) simp
  ultimately have "(sparing_step (br_CandidateRoot (pb_Result demo_pending)))\<^sup>*\<^sup>* demo_journaled ?d2"
    by (meson converse_rtranclp_into_rtranclp r_into_rtranclp)
  from history_pending_kept [OF ok read this] show ?thesis
    by (auto simp: journal_keeps_def demo_pending_def)
qed

section \<open>Ending a backup under its conflict checkout\<close>

lemma refused_checked_mutate:
  "unreadable history_load d \<Longrightarrow> refused d (checked_mutate check F f d)"
  by (cases check)
    (simp_all add: checked_mutate_def history_mutate_def history_withState_def with_state_unreadable,
      simp add: refused_def)

lemma history_unreadable:
  assumes "unreadable history_load d"
  shows "refused d (history_call_do F c d)"
  by (cases c) (simp_all add: history_SetPending_def history_ClearPending_def history_CompletePending_def
      history_MarkPendingStaged_def history_MarkPendingConflict_def history_SetConflictCheckout_def
      history_ClearConflictCheckout_def history_RecordResult_def history_RecordPlanAttempt_def
      history_RecordPlanFailure_def Let_def refused_checked_mutate [OF assms])

lemma history_unreadable_reads:
  assumes "unreadable history_load d"
  shows "refused d (history_Snapshot F d)" and "refused d (history_Pending F d)" and "refused d (history_Conflict F d)"
    and "refused d (NewHistory F path d)"
proof -
  have locked: "refused d (history_withState F op d)" for op :: "historyFile \<Rightarrow> (history_error + 'r) \<times> _"
    by (simp add: history_withState_def with_state_unreadable [OF assms])
  show "refused d (history_Pending F d)" "refused d (history_Conflict F d)"
    by (simp_all add: history_Pending_def history_Conflict_def locked)
  show snapshot: "refused d (history_Snapshot F d)" by (simp add: history_Snapshot_def locked)
  then show "refused d (NewHistory F path d)"
    by (auto simp: refused_iff NewHistory_def)
qed

text \<open>
  C40: ending a pending backup under its conflict checkout loses the history.  Take any history file that is
  in order and records a conflict checkout.  Whenever \<open>ClearPending\<close> or \<open>CompletePending\<close>
  succeeds on it, the journal is dropped and the checkout kept, and from then on every method, \<open>NewHistory\<close> and
  \<open>ClearConflictCheckout\<close> included, fails and leaves the file as it is.
\<close>

theorem history_clear_under_conflict:
  assumes "history_ok d" and "hf_Conflict (history_loaded d) = Some checkout" and "ends_pending call"
    and "history_call_do F call d = (Inr (), d')"
  shows "refused d' (history_call_do F' c d') \<and> refused d' (NewHistory F' path d') \<and>
    refused d' (history_Snapshot F' d') \<and> refused d' (history_Pending F' d') \<and> refused d' (history_Conflict F' d')"
proof -
  obtain h' where h': "call_update call (history_loaded d) = Inr h'" "d' = Some (Decoded (history_encode h'))"
    using history_call_success [OF assms(1,4)] by blast
  have "conflict_matches (hf_Pending (history_loaded d)) (hf_Conflict (history_loaded d))"
    using history_store.loaded_invar [OF assms(1)] by (simp add: history_inv_def)
  then have "hf_Pending h' = None \<and> hf_Conflict h' = Some checkout"
    using h'(1) assms(2,3)
    by (cases call) (auto simp: clearPending_def completePending_def put_plan_def conflict_matches_def result_simps
        split: option.splits)
  then have "unreadable history_load d'"
    by (simp add: h'(2) unreadable_def history_load_def history_encode_def conflict_matches_def require_def)
  then show ?thesis by (simp add: history_unreadable history_unreadable_reads)
qed

definition demo_conflicted :: history_disk where
  "demo_conflicted =
     snd (history_SetConflictCheckout no_faults demo_checkout
       (snd (history_MarkPendingStaged no_faults ''btwo'' (demo_staged_stash\<lparr>st_ID := ''s1'', st_PushID := ''push_s1''\<rparr>)
         demo_journaled)))"

theorem history_clear_under_conflict_witness:
  "\<exists>d'. history_call_do no_faults (CallClearPending ''btwo'') demo_conflicted = (Inr (), d') \<and>
     fst (history_CompletePending no_faults ''btwo'' ''plan'' demo_result demo_conflicted) = Inr () \<and>
     refused d' (history_ClearConflictCheckout no_faults ''s1'' d')"
proof -
  let ?one = "history_call_do no_faults (CallClearPending ''btwo'') demo_conflicted"
  have run: "fst ?one = Inr ()" "fst (history_CompletePending no_faults ''btwo'' ''plan'' demo_result demo_conflicted) = Inr ()"
    "hf_Conflict (history_loaded demo_conflicted) = Some demo_checkout"
    "history_call_ok (CallMarkStaged ''btwo'' (demo_staged_stash\<lparr>st_ID := ''s1'', st_PushID := ''push_s1''\<rparr>))"
    "history_call_ok (CallSetConflict demo_checkout)"
    by code_simp+
  have one: "?one = (Inr (), snd ?one)" using run(1) by (metis prod.collapse)
  have step: "history_step d (snd (history_call_do no_faults c d))" if "history_call_ok c" "\<not> ends_pending c" for c d
    using that by (auto simp: history_step_def)
  have "history_step demo_journaled (snd (history_MarkPendingStaged no_faults ''btwo''
      (demo_staged_stash\<lparr>st_ID := ''s1'', st_PushID := ''push_s1''\<rparr>) demo_journaled))"
    using step [OF run(4)] by simp
  moreover have "history_step \<dots> demo_conflicted" unfolding demo_conflicted_def using step [OF run(5)] by simp
  ultimately have "history_step\<^sup>*\<^sup>* None demo_conflicted"
    using demo_journaled_step by (meson converse_rtranclp_into_rtranclp r_into_rtranclp)
  then have "history_ok demo_conflicted" by (rule history_steps_ok) (simp add: disk_ok_def)
  from history_clear_under_conflict [OF this run(3) _ one, of no_faults "CallClearConflict ''s1''"] run(2) one
  show ?thesis by auto
qed

end
