(* ===== verification/BucketPush.thy ===== *)
theory BucketPush
  imports BucketProps
begin

text \<open>
  Push: what it sends, what it leaves behind when it fails, and what it settles when it succeeds.
\<close>

section \<open>The phases of a push\<close>

lemma writing_cases:
  assumes "sync_ok L d" and "service_ok sv"
    and "\<And>r s'. f (sync_loaded L d) = Inr (r, s') \<Longrightarrow> phase_change L sv (sync_loaded L d) s'"
    and "sync_withState L F (writing f) d = (res, d')"
  shows "d' = d \<and> (\<forall>r. res \<noteq> Inr r) \<or> (\<exists>r. f (sync_loaded L d) = Inr (r, sync_loaded L d'))"
proof -
  have inv: "sync_inv L s'" if "f (sync_loaded L d) = Inr (r, s')" for r s'
    by (rule phase_change_inv [OF bucket_file.loaded_invar [OF assms(1)] assms(2) assms(3) [OF that]])
  have "d' = d \<or> (\<exists>s'. snd (writing f (sync_loaded L d)) = Some s' \<and> d' = Some (Decoded (sync_encode s')))"
    using bucket_file.with_state_disk [OF assms(1) assms(4) [unfolded sync_withState_def]] .
  then consider "d' = d" | r s' where "f (sync_loaded L d) = Inr (r, s')" "d' = Some (Decoded (sync_encode s'))"
    by (auto simp: writing_def split: sum.splits)
  then show ?thesis
  proof cases
    case 1
    show ?thesis
    proof (cases res)
      case (Inl e)
      then show ?thesis using 1 by simp
    next
      case (Inr r)
      then have "f (sync_loaded L d) = Inr (r, sync_loaded L d')"
        using writing_success [where f = f and F = F, OF assms(1,2)] assms(3,4) by blast
      then show ?thesis by blast
    qed
  next
    case (2 r s')
    then show ?thesis using loaded_encode [OF inv [OF 2(1)]] by simp
  qed
qed

definition push_text :: "cid_lib \<Rightarrow> cid \<Rightarrow> string \<Rightarrow> push_env \<Rightarrow> bool" where
  "push_text L changeSet message env \<longleftrightarrow>
     (\<not> cid_Defined changeSet \<or> cid_value L changeSet) \<and> ValidString message \<and> observed_text (pe_observe env) \<and>
     (\<forall>request r. pe_apply env request = Inr (Some r) \<longrightarrow> result_text r)"

lemma ws_at_put: "ws_at L d (sv_stateKey sv) = w" if "sync_loaded L d = put_workspace sv s w"
  using that by (simp add: ws_at_def put_workspace_def)

text \<open>The freezing phase replaces the pending stash of the candidate by its frozen version, or fails.\<close>

lemma freeze_phase:
  assumes L: "cid_lib_ok L" and ok: "sync_ok L d" and sv: "service_ok sv"
    and change: "\<not> cid_Defined changeSet \<or> cid_value L changeSet" and msg: "ValidString message"
    and run: "sync_freeze L sv candidate changeSet message env d = (res, d1)"
  shows "sync_ok L d1 \<and>
    (ws_Stashes (ws_at L d1 (sv_stateKey sv)) = ws_Stashes (ws_at L d (sv_stateKey sv)) \<and> (\<forall>x. res \<noteq> Inr x) \<or>
     (\<exists>pre y post x t. ws_Stashes (ws_at L d (sv_stateKey sv)) = pre @ y # post \<and>
        is_pending (cid_String L candidate) y \<and>
        freezeStash (if cid_Defined changeSet then cid_String L changeSet else []) (TrimSpace message) t y = Inr x \<and>
        ws_Stashes (ws_at L d1 (sv_stateKey sv)) = pre @ x # post \<and> (\<forall>x'. res = Inr x' \<longrightarrow> x' = x)))"
proof -
  obtain F now now' where env: "env = (F, now, now')" by (cases env)
  let ?cs = "if cid_Defined changeSet then cid_String L changeSet else []"
  let ?f = "freezeLocked sv (cid_String L candidate) ?cs message now now'"
  have ws: "sync_withState L F (writing ?f) d = (res, d1)" using run by (simp add: sync_freeze_def env)
  have pc: "phase_change L sv (sync_loaded L d) s'" if "?f (sync_loaded L d) = Inr (r, s')" for r s'
    by (rule freeze_change [OF bucket_file.loaded_invar [OF ok] optional_text [OF L change] msg that])
  have ok1: "sync_ok L d1" using writing_phase [where f = ?f and F = F, OF ok sv] pc ws by (metis phase_disk_def snd_conv)
  consider (unchanged) "d1 = d" "\<forall>r. res \<noteq> Inr r" | (written) r where "?f (sync_loaded L d) = Inr (r, sync_loaded L d1)"
    using writing_cases [where f = ?f and F = F, OF ok sv _ ws] pc by blast
  then show ?thesis
  proof cases
    case unchanged
    then show ?thesis using ok1 by blast
  next
    case (written r)
    then obtain xs where ff: "freeze_first (cid_String L candidate) ?cs (TrimSpace message) now
        (ws_Stashes (ws_at L d (sv_stateKey sv))) = Inr (r, xs)"
      and put: "put_workspace sv (sync_loaded L d)
        ((workspace sv (sync_loaded L d))\<lparr>ws_Stashes := xs, ws_UpdatedAt := now'\<rparr>) = sync_loaded L d1"
      by (auto simp: freezeLocked_def Let_def result_simps workspace_stashes)
    have xs: "ws_Stashes (ws_at L d1 (sv_stateKey sv)) = xs" by (simp add: ws_at_put [OF put [symmetric]])
    have res: "x' = r" if "res = Inr x'" for x'
      using writing_success [where f = ?f and F = F, OF ok sv] pc ws written that by fastforce
    from ff show ?thesis
    proof (rule freeze_first_spec)
      fix pre y post
      assume "ws_Stashes (ws_at L d (sv_stateKey sv)) = pre @ y # post" "is_pending (cid_String L candidate) y"
        "freezeStash ?cs (TrimSpace message) now y = Inr r" "xs = pre @ r # post"
      then show ?thesis using ok1 xs res by blast
    qed
  qed
qed

text \<open>The pull keeps the stashes, and a successful one leaves an initialized workspace.\<close>

lemma pull_phase:
  assumes ok: "sync_ok L d" and sv: "service_ok sv" and obs: "observed_text observed"
    and run: "sync_Pull L F sv observed now d = (res, d1)"
  shows "sync_ok L d1 \<and> ws_Stashes (ws_at L d1 (sv_stateKey sv)) = ws_Stashes (ws_at L d (sv_stateKey sv)) \<and>
    (\<forall>w. res = Inr w \<longrightarrow> ws_Initialized (ws_at L d1 (sv_stateKey sv)))"
proof (cases "checkObserved L sv observed")
  case (Inl e)
  then show ?thesis using run ok by (auto simp: sync_Pull_def)
next
  case (Inr h)
  let ?f = "pullLocked sv h now"
  have ws: "sync_withState L F (writing ?f) d = (res, d1)" using run Inr by (simp add: sync_Pull_def)
  have pc: "phase_change L sv (sync_loaded L d) s'" if "?f (sync_loaded L d) = Inr (r, s')" for r s'
    by (rule pull_change [OF bucket_file.loaded_invar [OF ok] checkObserved_ok [OF Inr obs] that])
  have ok1: "sync_ok L d1" using writing_phase [where f = ?f and F = F, OF ok sv] pc ws by (metis phase_disk_def snd_conv)
  consider (unchanged) "d1 = d" "\<forall>r. res \<noteq> Inr r" | (written) r where "?f (sync_loaded L d) = Inr (r, sync_loaded L d1)"
    using writing_cases [where f = ?f and F = F, OF ok sv _ ws] pc by blast
  then show ?thesis
  proof cases
    case unchanged
    then show ?thesis using ok1 by simp
  next
    case (written r)
    then obtain remote base where put: "put_workspace sv (sync_loaded L d) ((workspace sv (sync_loaded L d))
        \<lparr>ws_Initialized := True, ws_Remote := remote, ws_Base := base, ws_UpdatedAt := now\<rparr>) = sync_loaded L d1"
      by (auto simp: pullLocked_def Let_def result_simps)
    show ?thesis using ok1 workspace_stashes by (simp add: ws_at_put [OF put [symmetric]])
  qed
qed

text \<open>A failed last phase that did not fail after the rename left the file as it was.\<close>

lemma finish_failed:
  assumes ok: "sync_ok L d" and "sync_finish L sv ident r env d = (Inl e, d1)" and "\<not> fst env SecureTarget"
  shows "d1 = d"
proof -
  obtain F now now' where env: "env = (F, now, now')" by (cases env)
  let ?f = "finishLocked L sv ident r now now'"
  have keep: "snd (run_steps syncSteps F new d) = d" if "fst (run_steps syncSteps F new d) = Some st" for new st
    using that assms(3) env by (auto simp: syncSteps_def split: if_splits)
  have "sync_withState L F (writing ?f) d = (Inl e, d1)" using assms(2) by (simp add: sync_finish_def env)
  then show ?thesis
    using keep unfolding sync_withState_def with_state_def
    by (auto simp: writing_def split: if_splits sum.splits prod.splits option.splits) (metis fst_conv snd_conv)+
qed

section \<open>Retries\<close>

lemma pending_unique:
  assumes "stashes_fine L xs" and "y \<in> set xs" and "z \<in> set xs" and "is_pending root y" and "is_pending root z"
  shows "y = z"
proof -
  have "inj_on st_CandidateRoot (set (filter (\<lambda>x. st_Status x = ''pending'') xs))"
    using assms(1) by (simp add: stashes_fine_def pending_roots_def distinct_map)
  then show ?thesis using assms(2-5) by (auto simp: inj_on_def is_pending_def)
qed

lemma ws_stashes_fine: "sync_ok L d \<Longrightarrow> stashes_fine L (ws_Stashes (ws_at L d key))"
  using ws_at_fine by (simp add: workspace_fine_def)

text \<open>The request a push sends is the one of the stash it froze.\<close>

lemma push_sent:
  assumes "sync_Push L sv env candidate changeSet message d = ((res, sent), d')" and "request \<in> set sent"
  obtains x d1 where "sync_freeze L sv candidate changeSet message (pe_freeze env) d = (Inr x, d1)"
    and "NormalizeApplyRequest L (sv_branch sv) (push_request sv x) = Inr request" and "sent = [request]"
  using assms
  by (auto simp: sync_Push_def split: if_splits prod.splits sum.splits option.splits)

lemma frozen_request:
  assumes "stash_evolves x y" and "st_RequestFrozen x"
  shows "push_request sv y = push_request sv x"
  using assms by (simp add: stash_evolves_def push_request_def)

text \<open>The steps after which the workspace still holds the stash.\<close>

definition keeps_stash :: "cid_lib \<Rightarrow> string \<Rightarrow> string \<Rightarrow> sync_disk \<Rightarrow> sync_disk \<Rightarrow> bool" where
  "keeps_stash L key ident d d' \<longleftrightarrow> sync_step L d d' \<and> ident \<in> set (map st_ID (ws_Stashes (ws_at L d' key)))"

lemma stash_evolves_trans: "stash_evolves x y \<Longrightarrow> stash_evolves y z \<Longrightarrow> stash_evolves x z"
  by (auto simp: stash_evolves_def)

lemma keeps_stash_evolves:
  assumes "cid_lib_ok L" and "sync_ok L d" and "x \<in> set (ws_Stashes (ws_at L d key))"
    and "(keeps_stash L key (st_ID x))\<^sup>*\<^sup>* d d'"
  shows "sync_ok L d' \<and> (\<exists>y \<in> set (ws_Stashes (ws_at L d' key)). st_ID y = st_ID x \<and> stash_evolves x y)"
  using assms(4)
proof induction
  case base
  then show ?case using assms(2,3) by auto
next
  case (step a b)
  then obtain y where y: "y \<in> set (ws_Stashes (ws_at L a key))" "st_ID y = st_ID x" "stash_evolves x y"
    and ok: "sync_ok L a" by blast
  have st: "sync_step L a b" using step(2) by (simp add: keeps_stash_def)
  obtain z where z: "z \<in> set (ws_Stashes (ws_at L b key))" "st_ID z = st_ID x"
    using step(2) by (auto simp: keeps_stash_def)
  have "stash_evolves y z"
    using sync_step_ws(2) [OF assms(1) st ok, of key] y z by (auto simp: ws_step_def stashes_evolve_def)
  then show ?case
    using sync_step_ws(1) [OF assms(1) st ok] y(3) z stash_evolves_trans by blast
qed

text \<open>
  C9: a retried push repeats its request.  Once the request of a pending stash is frozen, every later push
  of the same candidate, after any interleaving of other phases that keep the stash pending and under any
  faults, sends the remote exactly the same request under the same operation ID, whatever change set or
  message the retry was called with.  The texts of the calls and of the remote answers are valid UTF-8.
\<close>

theorem bucket_retry_same_request:
  assumes "cid_lib_ok L" and "sync_ok L d" and "service_ok sv"
    and "x \<in> set (ws_Stashes (ws_at L d (sv_stateKey sv)))" and "st_RequestFrozen x"
    and "(keeps_stash L (sv_stateKey sv) (st_ID x))\<^sup>*\<^sup>* d d'"
    and "y \<in> set (ws_Stashes (ws_at L d' (sv_stateKey sv)))" and "st_ID y = st_ID x"
    and "is_pending (cid_String L candidate) y" and "push_text L changeSet message env"
    and "sync_Push L sv env candidate changeSet message d' = ((res, sent), d'')" and "request \<in> set sent"
  shows "NormalizeApplyRequest L (sv_branch sv) (push_request sv x) = Inr request"
proof -
  let ?key = "sv_stateKey sv"
  have ok': "sync_ok L d'" using keeps_stash_evolves [OF assms(1,2,4,6)] by blast
  note fine = ws_stashes_fine [OF ok', of ?key]
  obtain y' where y': "y' \<in> set (ws_Stashes (ws_at L d' ?key))" "st_ID y' = st_ID x" "stash_evolves x y'"
    using keeps_stash_evolves [OF assms(1,2,4,6)] by blast
  have "inj_on st_ID (set (ws_Stashes (ws_at L d' ?key)))"
    using fine by (simp add: stashes_fine_def distinct_map)
  then have "y' = y" by (rule inj_onD) (use y' assms(7,8) in simp_all)
  then have xy: "stash_evolves x y" using y'(3) by simp
  from assms(11,12) obtain z d1 where fr: "sync_freeze L sv candidate changeSet message (pe_freeze env) d' = (Inr z, d1)"
    and req: "NormalizeApplyRequest L (sv_branch sv) (push_request sv z) = Inr request"
    by (rule push_sent)
  have utf: "\<not> cid_Defined changeSet \<or> cid_value L changeSet" "ValidString message"
    using assms(10) by (simp_all add: push_text_def)
  from freeze_phase [OF assms(1) ok' assms(3) utf fr] obtain pre u post t
    where u: "ws_Stashes (ws_at L d' ?key) = pre @ u # post" "is_pending (cid_String L candidate) u"
      and fz: "freezeStash (if cid_Defined changeSet then cid_String L changeSet else []) (TrimSpace message) t u = Inr z"
    by auto
  have "u = y" by (rule pending_unique [OF fine _ assms(7) u(2) assms(9)]) (simp add: u(1))
  then have "stash_evolves x z" using xy freezeStash_evolves(2) [OF fz] stash_evolves_trans by blast
  from frozen_request [OF this assms(5), of sv] req show ?thesis by simp
qed

definition offline_env :: push_env where
  "offline_env = \<lparr>pe_freeze = (no_faults, 7, 7), pe_pull = (no_faults, 8), pe_finish = (no_faults, 9, 9),
     pe_observe = Inr (Some demo_head), pe_apply = (\<lambda>_. Inl ''offline'')\<rparr>"

text \<open>The file after a first push that could not reach the remote.\<close>

definition demo_frozen :: sync_disk where
  "demo_frozen = snd (sync_Push demo_cid demo_service offline_env ''btwo'' [] [] demo_staged)"

lemma demo_frozen_code [code]:
  "demo_frozen = Some (Decoded \<lparr>sf_Version = 3, sf_Workspaces = Some [(''data@ZGV2'',
     demo_workspace\<lparr>ws_Remote := \<lparr>hd_CommitID = ''c3'', hd_Root = ''bthree'', hd_Revision = 6\<rparr>,
       ws_Stashes := [demo_stash\<lparr>st_RequestFrozen := True, st_UpdatedAt := 7\<rparr>], ws_UpdatedAt := 8\<rparr>, [Some True])]\<rparr>)"
  by code_simp

lemma offline_text: "push_text demo_cid [] [] offline_env"
  by (simp add: push_text_def offline_env_def cid_Defined_def observed_text_def demo_head_def text_eval)

lemma demo_staged_ok: "sync_ok demo_cid demo_staged"
  by (rule sync_steps_ok [OF demo_cid_ok demo_staged_steps]) (simp add: disk_ok_def)

section \<open>Failed pushes\<close>

lemma freeze_keeps:
  assumes L: "cid_lib_ok L" and ok: "sync_ok L d" and sv: "service_ok sv" and utf: "push_text L changeSet message env"
    and run: "sync_freeze L sv candidate changeSet message (pe_freeze env) d = (res, d1)"
    and y: "y \<in> set (ws_Stashes (ws_at L d (sv_stateKey sv)))" "is_pending root y"
  shows "sync_ok L d1 \<and> (\<exists>z \<in> set (ws_Stashes (ws_at L d1 (sv_stateKey sv))).
    st_ID z = st_ID y \<and> is_pending root z \<and> stash_evolves y z)"
proof -
  have u: "\<not> cid_Defined changeSet \<or> cid_value L changeSet" "ValidString message"
    using utf by (simp_all add: push_text_def)
  note phase = freeze_phase [OF L ok sv u run]
  then consider "ws_Stashes (ws_at L d1 (sv_stateKey sv)) = ws_Stashes (ws_at L d (sv_stateKey sv))"
    | pre v post x cs m t where "ws_Stashes (ws_at L d (sv_stateKey sv)) = pre @ v # post" "freezeStash cs m t v = Inr x"
      "ws_Stashes (ws_at L d1 (sv_stateKey sv)) = pre @ x # post" by blast
  then show ?thesis
  proof cases
    case 1
    then show ?thesis using phase y by auto
  next
    case (2 pre v post x cs m t)
    note e = freezeStash_evolves [OF 2(2)]
    have "is_pending root x" if "v = y" using y(2) e(3,4) that by (simp add: is_pending_def)
    then show ?thesis using phase y 2 e(1,2) by (cases "v = y") auto
  qed
qed

text \<open>The files a push passes through up to the remote call.\<close>

lemma push_failed_cases:
  assumes "sync_Push L sv env candidate changeSet message d = ((Inl e, sent), d')"
  obtains (undefined) "d' = d"
    | (freezing) res where "sync_freeze L sv candidate changeSet message (pe_freeze env) d = (res, d')"
    | (pulled) res1 d1 res2 where "sync_freeze L sv candidate changeSet message (pe_freeze env) d = (res1, d1)"
        "sync_Pull L (fst (pe_pull env)) sv (pe_observe env) (snd (pe_pull env)) d1 = (res2, d')"
    | (settling) res1 d1 res2 d2 ident r where "sync_freeze L sv candidate changeSet message (pe_freeze env) d = (res1, d1)"
        "sync_Pull L (fst (pe_pull env)) sv (pe_observe env) (snd (pe_pull env)) d1 = (res2, d2)"
        "sync_finish L sv ident r (pe_finish env) d2 = (Inl e, d')"
  using assms
  by (auto simp: sync_Push_def split: if_splits prod.splits sum.splits option.splits)

text \<open>
  C3: a failed push loses nothing.  When a push returns an error, whichever phase or remote call failed and
  under any faults except a failure to protect the file after its last rename, the stash is still pending
  in the file with its identity, push ID, candidate and base.  The message and the texts of the remote answers are
  valid UTF-8.
\<close>

theorem bucket_push_failure_keeps_stash:
  assumes "cid_lib_ok L" and "sync_ok L d" and "service_ok sv" and "push_text L changeSet message env"
    and "y \<in> set (ws_Stashes (ws_at L d (sv_stateKey sv)))" and "is_pending (cid_String L candidate) y"
    and "sync_Push L sv env candidate changeSet message d = ((Inl e, sent), d')"
    and "\<not> fst (pe_finish env) SecureTarget"
  shows "\<exists>z \<in> set (ws_Stashes (ws_at L d' (sv_stateKey sv))).
    st_ID z = st_ID y \<and> is_pending (cid_String L candidate) z \<and> stash_evolves y z"
proof -
  have obs: "observed_text (pe_observe env)" using assms(4) by (simp add: push_text_def)
  note keep = freeze_keeps [OF assms(1-4) _ assms(5,6)]
  from assms(7) show ?thesis
  proof (cases rule: push_failed_cases)
    case undefined
    then show ?thesis using assms(5,6) by auto
  next
    case (freezing res)
    then show ?thesis using keep by blast
  next
    case (pulled res1 d1 res2)
    then show ?thesis using keep pull_phase [OF _ assms(3) obs pulled(2)] by fastforce
  next
    case (settling res1 d1 res2 d2 ident r)
    have "sync_ok L d1" using keep settling(1) by blast
    note p = pull_phase [OF this assms(3) obs settling(2)]
    have "d' = d2" by (rule finish_failed [OF _ settling(3) assms(8)]) (use p in blast)
    then show ?thesis using keep [OF settling(1)] p by simp
  qed
qed

theorem bucket_push_failure_keeps_stash_witness:
  "\<exists>z \<in> set (ws_Stashes (ws_at demo_cid demo_frozen (workspaceKey ''data'' ''dev''))).
     st_PushID z = ''push_'' @ EncodeToString demo_random \<and> is_pending ''btwo'' z"
proof -
  let ?push = "sync_Push demo_cid demo_service offline_env ''btwo'' [] [] demo_staged"
  let ?y = "hd (ws_Stashes (ws_at demo_cid demo_staged (sv_stateKey demo_service)))"
  have run: "fst (fst ?push) = Inl (SyncRemote ''offline'')" by code_simp
  then have one: "?push = ((Inl (SyncRemote ''offline''), snd (fst ?push)), demo_frozen)"
    by (metis demo_frozen_def prod.collapse)
  have y: "list_ex (\<lambda>x. x = ?y) (ws_Stashes (ws_at demo_cid demo_staged (sv_stateKey demo_service)))"
    "is_pending (cid_String demo_cid ''btwo'') ?y" "st_PushID ?y = ''push_'' @ EncodeToString demo_random"
    "cid_String demo_cid ''btwo'' = ''btwo''" "sv_stateKey demo_service = workspaceKey ''data'' ''dev''"
    "\<not> fst (pe_finish offline_env) SecureTarget" by code_simp+
  have mem: "?y \<in> set (ws_Stashes (ws_at demo_cid demo_staged (sv_stateKey demo_service)))"
    using y(1) by (auto simp: list_ex_iff)
  show ?thesis
    using bucket_push_failure_keeps_stash [OF demo_cid_ok demo_staged_ok demo_service_ok offline_text mem y(2) one y(6)]
      y(3-5) by (auto simp: stash_evolves_def)
qed

text \<open>A push is a sequence of steps of the file.\<close>

lemma push_steps:
  assumes "service_ok sv" and "push_text L changeSet message env"
  shows "sync_steps L d (snd (sync_Push L sv env candidate changeSet message d))"
proof -
  have u: "\<not> cid_Defined changeSet \<or> cid_value L changeSet" "ValidString message" "observed_text (pe_observe env)"
    using assms(2) by (simp_all add: push_text_def)
  obtain res1 d1 where fr: "sync_freeze L sv candidate changeSet message (pe_freeze env) d = (res1, d1)"
    by (cases "sync_freeze L sv candidate changeSet message (pe_freeze env) d")
  obtain res2 d2 where pl: "sync_Pull L (fst (pe_pull env)) sv (pe_observe env) (snd (pe_pull env)) d1 = (res2, d2)"
    by (cases "sync_Pull L (fst (pe_pull env)) sv (pe_observe env) (snd (pe_pull env)) d1")
  have s1: "sync_steps L d d1" using sync_step.freeze [OF assms(1) u(1,2), of d candidate "pe_freeze env"] fr by simp
  have s2: "sync_steps L d d2"
    using s1 sync_step.pull [OF assms(1) u(3), of L d1 "fst (pe_pull env)" "snd (pe_pull env)"] pl by simp
  have s3: "sync_steps L d (snd (sync_finish L sv ident r (pe_finish env) d2))" if "pe_apply env request = Inr (Some r)"
    for request r ident
    using s2 sync_step.finish [OF assms(1), of r L d2 ident "pe_finish env"] that assms(2) by (auto simp: push_text_def)
  show ?thesis
    using s1 s2 s3
    by (auto simp: sync_Push_def fr pl split: prod.split sum.split option.split) (metis snd_conv)+
qed

theorem bucket_retry_same_request_witness:
  "\<exists>request. NormalizeApplyRequest demo_cid ''dev''
       (push_request demo_service (hd (ws_Stashes (ws_at demo_cid demo_frozen (workspaceKey ''data'' ''dev''))))) = Inr request \<and>
     snd (fst (sync_Push demo_cid demo_service offline_env ''btwo'' [] [] demo_frozen)) = [request]"
proof -
  let ?push = "sync_Push demo_cid demo_service offline_env ''btwo'' [] [] demo_frozen"
  let ?y = "hd (ws_Stashes (ws_at demo_cid demo_frozen (sv_stateKey demo_service)))"
  have ok: "sync_ok demo_cid demo_frozen"
    unfolding demo_frozen_def by (rule sync_steps_ok [OF demo_cid_ok push_steps [OF demo_service_ok offline_text] demo_staged_ok])
  have run: "snd (fst ?push) = [hd (snd (fst ?push))]" by code_simp
  then have one: "?push = ((fst (fst ?push), [hd (snd (fst ?push))]), snd ?push)" by (metis prod.collapse)
  have y: "list_ex (\<lambda>x. x = ?y) (ws_Stashes (ws_at demo_cid demo_frozen (sv_stateKey demo_service)))"
    "is_pending (cid_String demo_cid ''btwo'') ?y" "st_RequestFrozen ?y"
    "sv_stateKey demo_service = workspaceKey ''data'' ''dev''" "sv_branch demo_service = ''dev''" by code_simp+
  have mem: "?y \<in> set (ws_Stashes (ws_at demo_cid demo_frozen (sv_stateKey demo_service)))"
    using y(1) by (auto simp: list_ex_iff)
  have "NormalizeApplyRequest demo_cid (sv_branch demo_service) (push_request demo_service ?y) = Inr (hd (snd (fst ?push)))"
    by (rule bucket_retry_same_request [OF demo_cid_ok ok demo_service_ok mem y(3) rtranclp.rtrancl_refl mem refl y(2)
          offline_text one]) simp
  then show ?thesis using run y(4,5) by simp
qed

section \<open>Successful pushes\<close>

lemma finish_phase:
  assumes ok: "sync_ok L d" and sv: "service_ok sv" and utf: "result_text r"
    and run: "sync_finish L sv ident r env d = (Inr w, d1)"
  shows "w = workspace sv (sync_loaded L d1)" and "\<exists>t. ws_Stashes w = settle ident r t (ws_Stashes (ws_at L d (sv_stateKey sv)))"
    and "nh_Revision (ap_Head r) \<le> hd_Revision (ws_Remote w)"
    and "ws_Initialized w = ws_Initialized (ws_at L d (sv_stateKey sv))"
proof -
  obtain F now now' where env: "env = (F, now, now')" by (cases env)
  let ?f = "finishLocked L sv ident r now now'"
  have ws: "sync_withState L F (writing ?f) d = (Inr w, d1)" using run by (simp add: sync_finish_def env)
  have pc: "phase_change L sv (sync_loaded L d) s'" if "?f (sync_loaded L d) = Inr (x, s')" for x s'
    by (rule finish_change [OF bucket_file.loaded_invar [OF ok] utf that])
  have f: "?f (sync_loaded L d) = Inr (w, sync_loaded L d1)"
    using writing_success [where f = ?f and F = F, OF ok sv _ ws] pc by blast
  then obtain h remote base where h: "headFromRef L (ap_Head r) = Inr h"
    and m: "monotonicHead (ws_Remote (workspace sv (sync_loaded L d))) h = Inr remote"
    and w: "w = (workspace sv (sync_loaded L d))\<lparr>ws_Stashes := settle ident r now (ws_Stashes (workspace sv (sync_loaded L d))),
        ws_Remote := remote, ws_Base := base, ws_UpdatedAt := now'\<rparr>"
    and put: "put_workspace sv (sync_loaded L d) w = sync_loaded L d1"
    by (auto simp: finishLocked_def Let_def result_simps)
  have names: "ws_BucketID w = sv_bucketID sv" "ws_Branch w = sv_branch sv" by (simp_all add: w)
  show "w = workspace sv (sync_loaded L d1)"
    using names by (cases w) (simp add: workspace_at ws_at_put [OF put [symmetric]])
  show "\<exists>t. ws_Stashes w = settle ident r t (ws_Stashes (ws_at L d (sv_stateKey sv)))"
    by (auto simp: w workspace_stashes)
  show "ws_Initialized w = ws_Initialized (ws_at L d (sv_stateKey sv))" by (simp add: w workspace_at)
  have "hd_Revision h = nh_Revision (ap_Head r)" using h by (auto simp: headFromRef_def Let_def result_simps)
  moreover have "hd_Revision h \<le> hd_Revision remote" using m by (auto simp: monotonicHead_def split: if_splits)
  ultimately show "nh_Revision (ap_Head r) \<le> hd_Revision (ws_Remote w)" by (simp add: w)
qed

lemma settle_pending:
  assumes fine: "stashes_fine L xs" and x: "x \<in> set xs" "is_pending root x" and z: "z \<in> set (settle (st_ID x) r t xs)"
  shows "\<not> is_pending root z"
proof
  assume p: "is_pending root z"
  have inj: "inj_on st_ID (set xs)" and dist: "distinct xs"
    using fine by (auto simp: stashes_fine_def distinct_map)
  show False
  proof (cases rule: settle_cases [of "st_ID x" xs r t])
    case absent
    then show ?thesis using x(1) by simp
  next
    case (marked pre u post)
    have "u = x" by (rule inj_onD [OF inj]) (use marked x(1) in simp_all)
    have "z \<noteq> mark_branched r t u" using p by (auto simp: mark_branched_def is_pending_def)
    then have "z \<in> set (pre @ post)" using z marked(4) by auto
    then have "z = x" by (intro pending_unique [OF fine _ x(1) p x(2)]) (use marked(1) in auto)
    then show ?thesis using \<open>z \<in> set (pre @ post)\<close> \<open>u = x\<close> dist marked(1) by auto
  next
    case (dropped pre u post)
    have "u = x" by (rule inj_onD [OF inj]) (use dropped x(1) in simp_all)
    have "z \<in> set (pre @ post)" using z dropped(4) by auto
    then have "z = x" by (intro pending_unique [OF fine _ x(1) p x(2)]) (use dropped(1) in auto)
    then show ?thesis using \<open>z \<in> set (pre @ post)\<close> \<open>u = x\<close> dist dropped(1) by auto
  qed
qed

lemma settle_branched:
  assumes fine: "stashes_fine L xs" and x: "x \<in> set xs" and "ap_Status r = ''branched''"
  shows "mark_branched r t x \<in> set (settle (st_ID x) r t xs)"
proof (cases rule: settle_cases [of "st_ID x" xs r t])
  case absent
  then show ?thesis using x by simp
next
  case (marked pre u post)
  have "inj_on st_ID (set xs)" using fine by (simp add: stashes_fine_def distinct_map)
  then have "u = x" by (rule inj_onD) (use marked x in simp_all)
  then show ?thesis using marked(4) by simp
next
  case (dropped pre u post)
  then show ?thesis using assms(3) by simp
qed

text \<open>A successful push by its phases, and what it returns under another outcome of the last one.\<close>

lemma push_success:
  assumes "cid_lib_ok L" and "sync_ok L d" and "service_ok sv" and "push_text L changeSet message env"
    and "sync_Push L sv env candidate changeSet message d = ((Inr out, sent), d')"
  obtains x d2 request r w where "sync_ok L d2" and "is_pending (cid_String L candidate) x"
    and "x \<in> set (ws_Stashes (ws_at L d2 (sv_stateKey sv)))" and "ws_Initialized (ws_at L d2 (sv_stateKey sv))"
    and "pe_apply env request = Inr (Some r)" and "result_text r"
    and "ValidateApplyResult L (sv_bucketID sv) request r = Inr ()" and "sent = [request]"
    and "sync_finish L sv (st_ID x) r (pe_finish env) d2 = (Inr w, d')" and "out = \<lparr>po_Result = r, po_Workspace = w\<rparr>"
    and "\<And>fin e d3. sync_finish L sv (st_ID x) r fin d2 = (Inl e, d3) \<Longrightarrow>
      sync_Push L sv (env\<lparr>pe_finish := fin\<rparr>) candidate changeSet message d = ((Inl e, [request]), d3)"
proof -
  from assms(5) obtain x d1 h d2 request r w where def: "cid_Defined candidate"
    and fr: "sync_freeze L sv candidate changeSet message (pe_freeze env) d = (Inr x, d1)"
    and pl: "sync_Pull L (fst (pe_pull env)) sv (pe_observe env) (snd (pe_pull env)) d1 = (Inr h, d2)"
    and nr: "NormalizeApplyRequest L (sv_branch sv) (push_request sv x) = Inr request"
    and ap: "pe_apply env request = Inr (Some r)" and va: "ValidateApplyResult L (sv_bucketID sv) request r = Inr ()"
    and fi: "sync_finish L sv (st_ID x) r (pe_finish env) d2 = (Inr w, d')" and sent: "sent = [request]"
    and out: "out = \<lparr>po_Result = r, po_Workspace = w\<rparr>"
    by (auto simp: sync_Push_def split: if_splits prod.splits sum.splits option.splits)
  have u: "\<not> cid_Defined changeSet \<or> cid_value L changeSet" "ValidString message" "observed_text (pe_observe env)"
    and utf: "result_text r"
    using assms(4) ap by (auto simp: push_text_def)
  from freeze_phase [OF assms(1-3) u(1,2) fr] obtain pre y post cs m t where ok1: "sync_ok L d1"
    and y: "is_pending (cid_String L candidate) y" "freezeStash cs m t y = Inr x"
    and s1: "ws_Stashes (ws_at L d1 (sv_stateKey sv)) = pre @ x # post" by auto
  note p = pull_phase [OF ok1 assms(3) u(3) pl]
  have "is_pending (cid_String L candidate) x" using freezeStash_evolves(3,4) [OF y(2)] y(1) by (simp add: is_pending_def)
  then show thesis
    using that [of d2 x request r w] p s1 ap va fi sent out utf by (simp add: sync_Push_def def fr pl nr)
qed

lemma push_not_pending:
  assumes ok: "sync_ok L d2" and x: "is_pending root x" "x \<in> set (ws_Stashes (ws_at L d2 (sv_stateKey sv)))"
    and fi: "sync_finish L sv (st_ID x) r env d2 = (Inr w, d')" and sv: "service_ok sv" and utf: "result_text r"
  shows "\<not> list_ex (is_pending root) (ws_Stashes w)"
proof -
  obtain t where "ws_Stashes w = settle (st_ID x) r t (ws_Stashes (ws_at L d2 (sv_stateKey sv)))"
    using finish_phase(2) [OF ok sv utf fi] by blast
  then show ?thesis using settle_pending [OF ws_stashes_fine [OF ok, of "sv_stateKey sv"] x(2,1)] by (auto simp: list_ex_iff)
qed

text \<open>
  C17: a successful push is settled.  It sent the remote one request, whose answer passed validation for
  exactly that request; the candidate is no longer pending, and is kept as a conflicted stash when the
  remote branched it; the stored workspace is the one returned, and its remote head is at least as new as
  the head of the result.  The message and the texts of the remote answers are valid UTF-8.
\<close>

theorem bucket_push_settles:
  assumes "cid_lib_ok L" and "sync_ok L d" and "service_ok sv" and "push_text L changeSet message env"
    and "sync_Push L sv env candidate changeSet message d = ((Inr out, sent), d')"
  shows "\<exists>request. sent = [request] \<and> pe_apply env request = Inr (Some (po_Result out)) \<and>
    ValidateApplyResult L (sv_bucketID sv) request (po_Result out) = Inr () \<and>
    sync_Status L no_faults sv d' = (Inr (po_Workspace out), d') \<and>
    \<not> list_ex (is_pending (cid_String L candidate)) (ws_Stashes (po_Workspace out)) \<and>
    (ap_Status (po_Result out) = ''branched'' \<longrightarrow>
       list_ex (\<lambda>z. st_Status z = ''branched'' \<and> st_CandidateRoot z = cid_String L candidate) (ws_Stashes (po_Workspace out))) \<and>
    nh_Revision (ap_Head (po_Result out)) \<le> hd_Revision (ws_Remote (po_Workspace out))"
proof -
  from assms obtain x d2 request r w where ok2: "sync_ok L d2" and x: "is_pending (cid_String L candidate) x"
    and mem: "x \<in> set (ws_Stashes (ws_at L d2 (sv_stateKey sv)))" and ap: "pe_apply env request = Inr (Some r)"
    and utf: "result_text r" and va: "ValidateApplyResult L (sv_bucketID sv) request r = Inr ()" and sent: "sent = [request]"
    and fi: "sync_finish L sv (st_ID x) r (pe_finish env) d2 = (Inr w, d')" and out: "out = \<lparr>po_Result = r, po_Workspace = w\<rparr>"
    by (rule push_success) (rule that)
  note f = finish_phase [OF ok2 assms(3) utf fi]
  have "list_ex (\<lambda>z. st_Status z = ''branched'' \<and> st_CandidateRoot z = cid_String L candidate) (ws_Stashes w)"
    if br: "ap_Status r = ''branched''"
  proof -
    obtain t' where "ws_Stashes w = settle (st_ID x) r t' (ws_Stashes (ws_at L d2 (sv_stateKey sv)))" using f(2) by blast
    then have "mark_branched r t' x \<in> set (ws_Stashes w)"
      using settle_branched [OF ws_stashes_fine [OF ok2, of "sv_stateKey sv"] mem br, of t'] by simp
    moreover have "st_Status (mark_branched r t' x) = ''branched''" "st_CandidateRoot (mark_branched r t' x) = cid_String L candidate"
      using x by (simp_all add: mark_branched_def is_pending_def)
    ultimately show ?thesis by (auto simp: list_ex_iff)
  qed
  moreover have "sync_ok L d'"
    using sync_steps_ok [OF assms(1) push_steps [OF assms(3,4)] assms(2), of candidate] assms(5) by simp
  then have "sync_Status L no_faults sv d' = (Inr w, d')"
    using reading_ok [of L d' "\<lambda>s. Inr (workspace sv s)"] f(1) by (simp add: sync_Status_def)
  ultimately show ?thesis using sent ap va out f(3) push_not_pending [OF ok2 x mem fi assms(3) utf] by simp
qed

definition branching_env :: push_env where
  "branching_env = offline_env\<lparr>pe_apply := (\<lambda>_. Inr (Some demo_branched))\<rparr>"

lemma branching_text: "push_text demo_cid [] [] branching_env"
proof -
  have "result_text demo_branched" by code_simp
  then show ?thesis using offline_text by (auto simp: push_text_def branching_env_def)
qed

theorem bucket_push_settles_witness:
  "\<exists>out d' sent. sync_Push demo_cid demo_service branching_env ''btwo'' [] [] demo_staged = ((Inr out, sent), d') \<and>
     sync_Status demo_cid no_faults demo_service d' = (Inr (po_Workspace out), d') \<and>
     map st_Status (ws_Stashes (po_Workspace out)) = [''branched'']"
proof -
  let ?push = "sync_Push demo_cid demo_service branching_env ''btwo'' [] [] demo_staged"
  have run: "fst (fst ?push) = Inr (projr (fst (fst ?push)))"
    "map st_Status (ws_Stashes (po_Workspace (projr (fst (fst ?push))))) = [''branched'']" by code_simp+
  have one: "?push = ((Inr (projr (fst (fst ?push))), snd (fst ?push)), snd ?push)" using run(1) by (metis prod.collapse)
  have "sync_Status demo_cid no_faults demo_service (snd ?push) = (Inr (po_Workspace (projr (fst (fst ?push)))), snd ?push)"
    using bucket_push_settles [OF demo_cid_ok demo_staged_ok demo_service_ok branching_text one] by blast
  then show ?thesis using one run(2) by (intro exI conjI)
qed

section \<open>Isolation of branches\<close>

lemma OpenRemoteBranch_ok:
  assumes "OpenRemoteBranch L F path remote bucketID branch d = (Inr sv, d')"
  shows "sv_bucketID sv = TrimSpace bucketID" and "NormalizeSelector branch = Inr (sv_branch sv)"
    and "sv_stateKey sv = workspaceKey (sv_bucketID sv) (sv_branch sv)"
  using assms
  by (auto simp: OpenRemoteBranch_def Let_def result_simps lift_dataset_def NormalizeBranch_def
      split: sum.splits prod.splits option.splits)

lemma push_frame:
  assumes "cid_lib_ok L" and "sync_ok L d" and "service_ok sv" and "push_text L changeSet message env"
    and "key \<noteq> sv_stateKey sv"
  shows "ws_at L (snd (sync_Push L sv env candidate changeSet message d)) key = ws_at L d key"
proof -
  have u: "\<not> cid_Defined changeSet \<or> cid_value L changeSet" "ValidString message" "observed_text (pe_observe env)"
    using assms(4) by (simp_all add: push_text_def)
  obtain res1 d1 where fr: "sync_freeze L sv candidate changeSet message (pe_freeze env) d = (res1, d1)"
    by (cases "sync_freeze L sv candidate changeSet message (pe_freeze env) d")
  obtain res2 d2 where pl: "sync_Pull L (fst (pe_pull env)) sv (pe_observe env) (snd (pe_pull env)) d1 = (res2, d2)"
    by (cases "sync_Pull L (fst (pe_pull env)) sv (pe_observe env) (snd (pe_pull env)) d1")
  have p1: "phase_disk L sv d d1" using freeze_disk [OF assms(1-3) u(1,2), of candidate "pe_freeze env"] fr by simp
  then have ok1: "sync_ok L d1" by (simp add: phase_disk_def)
  have p2: "phase_disk L sv d1 d2"
    using pull_disk [OF ok1 assms(3) u(3), of "fst (pe_pull env)" "snd (pe_pull env)"] pl by simp
  then have ok2: "sync_ok L d2" by (simp add: phase_disk_def)
  have f: "ws_at L d1 key = ws_at L d key" "ws_at L d2 key = ws_at L d key"
    using phase_disk_frame [OF p1 assms(5)] phase_disk_frame [OF p2 assms(5)] by simp_all
  have "ws_at L (snd (sync_finish L sv ident r (pe_finish env) d2)) key = ws_at L d key"
    if "pe_apply env request = Inr (Some r)" for request r ident
    using phase_disk_frame [OF finish_disk [OF ok2 assms(3)] assms(5)] that assms(4) f by (simp add: push_text_def)
  then show ?thesis
    using f by (auto simp: sync_Push_def fr pl split: prod.split sum.split option.split) (metis snd_conv)+
qed

text \<open>
  branches do not share state.  Two services opened on the same file use the same record only if they
  name the same bucket and the same branch, and a push of one, under any faults and remote answers, leaves
  the record of every other service as it was.
\<close>

theorem bucket_branches_isolated:
  assumes "OpenRemoteBranch L F path remote bucketID branch d = (Inr sv, d1)"
    and "OpenRemoteBranch L F' path' remote' bucketID' branch' d' = (Inr sv', d1')"
    and "sv_bucketID sv \<noteq> sv_bucketID sv' \<or> NormalizeSelector branch \<noteq> NormalizeSelector branch'"
    and "cid_lib_ok L" and "sync_ok L d2" and "ValidString bucketID" and "push_text L changeSet message env"
  shows "sv_stateKey sv' \<noteq> sv_stateKey sv \<and>
    ws_at L (snd (sync_Push L sv env candidate changeSet message d2)) (sv_stateKey sv') = ws_at L d2 (sv_stateKey sv')"
proof -
  note o = OpenRemoteBranch_ok [OF assms(1)] OpenRemoteBranch_ok [OF assms(2)]
  have keys: "sv_stateKey sv' \<noteq> sv_stateKey sv"
    using o assms(3) by (auto simp: workspaceKey_inject)
  have "service_ok sv"
    using o(1-3) NormalizeSelector_idem [OF o(2)] ValidString_TrimSpace [OF assms(6)] by (simp add: service_ok_def)
  then show ?thesis using push_frame [OF assms(4,5) _ assms(7) keys] keys by blast
qed

theorem bucket_branches_isolated_witness:
  "ws_at demo_cid demo_frozen (workspaceKey ''data'' ''main'') = ws_at demo_cid demo_staged (workspaceKey ''data'' ''main'')"
proof -
  let ?dev = "OpenRemoteBranch demo_cid no_faults ''p'' (Some \<lparr>db_DatasetID = ''data'', db_Branch = ''heads/dev''\<rparr>) ''data'' ''dev'' None"
  let ?main = "OpenRemoteBranch demo_cid no_faults ''p'' (Some \<lparr>db_DatasetID = ''data'', db_Branch = ''main''\<rparr>) ''data '' [] None"
  have run: "fst ?dev = Inr demo_service" "fst ?main = Inr (projr (fst ?main))"
    "sv_stateKey (projr (fst ?main)) = workspaceKey ''data'' ''main''"
    "sv_bucketID demo_service \<noteq> sv_bucketID (projr (fst ?main)) \<or> NormalizeSelector ''dev'' \<noteq> NormalizeSelector []"
    "ValidString ''data''"
    by code_simp+
  have one: "?dev = (Inr demo_service, snd ?dev)" "?main = (Inr (projr (fst ?main)), snd ?main)"
    using run(1,2) by (metis prod.collapse)+
  have "ws_at demo_cid (snd (sync_Push demo_cid demo_service offline_env ''btwo'' [] [] demo_staged)) (sv_stateKey (projr (fst ?main)))
      = ws_at demo_cid demo_staged (sv_stateKey (projr (fst ?main)))"
    using bucket_branches_isolated [OF one run(4) demo_cid_ok demo_staged_ok run(5) offline_text] by blast
  then show ?thesis by (simp only: run(3) demo_frozen_def)
qed

section \<open>Messages that are not valid UTF-8\<close>

lemma service_key: "service_ok sv \<Longrightarrow> json_text (sv_stateKey sv) = sv_stateKey sv"
  using workspaceKey_valid by (simp add: service_ok_def)

lemma reloaded_workspace:
  assumes "sync_reload L (sync_encode s) = Inr s'" and "\<forall>k \<in> fst ` set (ss_Workspaces s). json_text k = k"
  shows "gm_get (ss_Workspaces s') k = map_option json_workspace (gm_get (ss_Workspaces s) k)"
proof -
  have "ss_Workspaces s' = map (\<lambda>(k, w). (json_text k, json_workspace w)) (ss_Workspaces s)"
    using assms(1) by (auto simp: sync_reload_def sync_encode_def Let_def result_simps comp_def split_beta)
  also have "\<dots> = map (\<lambda>(k, w). (k, json_workspace w)) (ss_Workspaces s)"
    using assms(2) by (intro map_cong) (auto simp: split_beta)
  finally show ?thesis by (simp add: map_of_map comp_def)
qed

lemma freeze_first_refused:
  assumes "\<not> list_ex (is_pending root) pre" and "is_pending root x" and "st_RequestFrozen x"
    and "message \<noteq> []" and "message \<noteq> st_Message x"
  shows "isl (freeze_first root changeSet message now (pre @ x # post))"
  using assms(1)
proof (induction pre)
  case Nil
  then show ?case using assms(2-5) by (simp add: freezeStash_def require_def)
next
  case (Cons a pre)
  then show ?case by (auto simp: isl_def)
qed

text \<open>A freeze with another message than the stored one fails, whatever else the file holds.\<close>

lemma freeze_refused:
  assumes "\<forall>k \<in> fst ` set (ss_Workspaces s). json_text k = k"
    and "gm_get (ss_Workspaces s) (sv_stateKey sv) = Some w" and "map json_stash (ws_Stashes w) = pre @ x # post"
    and "\<not> list_ex (is_pending (cid_String L candidate)) pre" and "is_pending (cid_String L candidate) x"
    and "st_RequestFrozen x" and "TrimSpace message \<noteq> []" and "TrimSpace message \<noteq> st_Message x"
    and d: "d = Some (Decoded (sync_encode s))"
  shows "refused d (sync_freeze L sv candidate changeSet message env d)"
proof -
  obtain F now now' where env: "env = (F, now, now')" by (cases env)
  let ?f = "freezeLocked sv (cid_String L candidate) (if cid_Defined changeSet then cid_String L changeSet else []) message now now'"
  have "isl (?f s')" if "sync_reload L (sync_encode s) = Inr s'" for s'
  proof -
    have "ws_Stashes (workspace sv s') = pre @ x # post"
      using reloaded_workspace [OF that assms(1)] assms(2,3) by (simp add: workspace_def json_workspace_def)
    moreover obtain e where "freeze_first (cid_String L candidate)
        (if cid_Defined changeSet then cid_String L changeSet else []) (TrimSpace message) now (pre @ x # post) = Inl e"
      using freeze_first_refused [OF assms(4-8)] by (meson isl_def)
    ultimately show ?thesis by (simp add: freezeLocked_def Let_def require_def)
  qed
  then show ?thesis
    by (auto simp: sync_freeze_def env sync_withState_def with_state_def reload_with_def writing_def d refused_def isl_def
        split: sum.splits)
qed

lemma freezeLocked_not_remote: "freezeLocked sv root changeSet message now now' s \<noteq> Inl (SyncRemote e)"
proof -
  have "freeze_first root changeSet m now xs \<noteq> Inl (SyncRemote e)" for m xs
    by (induction xs) (auto simp: freezeStash_def require_def bindE_def split: sum.splits)
  then show ?thesis by (auto simp: freezeLocked_def Let_def require_def bindE_def split: sum.splits)
qed

lemma push_unreachable:
  assumes "sync_Push L sv env candidate changeSet message d = ((Inl (SyncRemote e), sent), d')"
    and "pe_observe env = Inl e" and "sync_ok L d"
  obtains x where "sync_freeze L sv candidate changeSet message (pe_freeze env) d = (Inr x, d')"
proof -
  have "sync_reload L f \<noteq> Inl e'" if "d = Some (Decoded f)" for f e'
    using assms(3) that by (auto simp: disk_ok_def sync_reload_encode)
  then have "fst (sync_freeze L sv candidate changeSet message (pe_freeze env) d) \<noteq> Inl (SyncRemote e)"
    using freezeLocked_not_remote
    by (auto simp: sync_freeze_def sync_withState_def with_state_def reload_with_def writing_def
        split: prod.splits if_splits sum.splits option.splits content.splits)
  then show thesis
    using assms that
    by (auto simp: sync_Push_def sync_Pull_def checkObserved_def split: if_splits prod.splits sum.splits)
qed

text \<open>
  C38: a retry with the same message can be refused for ever.  Take any workspace file in order and any pending stash
  whose request is not frozen yet, and push it, while the remote is unreachable, with a message that is not valid
  UTF-8.  The message is frozen as it is but the file stores its replacement, so every
  later push of that candidate with the same message fails before it reaches the remote and leaves the file as it
  is, whatever its change set and whatever the remote and the file system do.
\<close>

theorem bucket_retry_message_mismatch:
  assumes "sync_ok L d" and "service_ok sv"
    and "y \<in> set (ws_Stashes (ws_at L d (sv_stateKey sv)))" and "is_pending (cid_String L candidate) y"
    and "\<not> st_RequestFrozen y" and "json_text (TrimSpace message) \<noteq> TrimSpace message"
    and "pe_observe env = Inl e"
    and "sync_Push L sv env candidate changeSet message d = ((Inl (SyncRemote e), sent), d')"
  shows "\<exists>e'. sync_Push L sv env' candidate changeSet' message d' = ((Inl e', []), d')"
proof -
  let ?root = "cid_String L candidate" and ?s = "sync_loaded L d"
  obtain x where fr: "sync_freeze L sv candidate changeSet message (pe_freeze env) d = (Inr x, d')"
    by (rule push_unreachable [OF assms(8,7,1)])
  obtain F now now' where env: "pe_freeze env = (F, now, now')" by (cases "pe_freeze env")
  let ?cs = "if cid_Defined changeSet then cid_String L changeSet else []"
  let ?f = "freezeLocked sv ?root ?cs message now now'"
  have run: "sync_withState L F (writing ?f) d = (Inr x, d')" using fr by (simp add: sync_freeze_def env)
  obtain x' s' where f: "?f ?s = Inr (x', s')"
    using run bucket_file.with_state_success [OF assms(1) run [unfolded sync_withState_def]]
    by (cases "?f ?s") (auto simp: writing_def)
  have d': "d' = Some (Decoded (sync_encode s'))"
    using bucket_file.with_state_written [OF assms(1) run [unfolded sync_withState_def]] f by (simp add: writing_def)
  from f obtain xs where ff: "freeze_first ?root ?cs (TrimSpace message) now (ws_Stashes (ws_at L d (sv_stateKey sv))) = Inr (x', xs)"
    and s': "s' = put_workspace sv ?s ((workspace sv ?s)\<lparr>ws_Stashes := xs, ws_UpdatedAt := now'\<rparr>)"
    by (auto simp: freezeLocked_def Let_def result_simps workspace_stashes)
  note inv = bucket_file.loaded_invar [OF assms(1)] and fine = ws_stashes_fine [OF assms(1), of "sv_stateKey sv"]
  from ff obtain pre z post where w: "ws_Stashes (ws_at L d (sv_stateKey sv)) = pre @ z # post" "is_pending ?root z"
      "\<not> list_ex (is_pending ?root) pre" and fz: "freezeStash ?cs (TrimSpace message) now z = Inr x'" and xs: "xs = pre @ x' # post"
    by (rule freeze_first_spec)
  have "z = y" by (rule pending_unique [OF fine _ assms(3) w(2) assms(4)]) (simp add: w(1))
  have json: "json_stash u = u" if "u \<in> set (pre @ z # post)" for u
    using fine that by (auto simp: w(1) stashes_fine_def list_all_iff stash_fine_def)
  have ne: "TrimSpace message \<noteq> []" using assms(6) by auto
  have "json_text (st_CandidateRoot z) = st_CandidateRoot z" "json_text (st_Status z) = st_Status z"
    using arg_cong [OF json [of z], of st_CandidateRoot] arg_cong [OF json [of z], of st_Status]
    by (simp_all add: json_stash_def)
  then have x': "st_Message (json_stash x') = json_text (TrimSpace message)" "st_RequestFrozen (json_stash x')"
      "is_pending ?root (json_stash x')"
    using w(2) fz assms(5) \<open>z = y\<close> ne by (auto simp: freezeStash_def json_stash_def is_pending_def)
  have keys: "\<forall>k \<in> fst ` set (ss_Workspaces s'). json_text k = k"
    using inv service_key [OF assms(2)] gm_set_put [of "ss_Workspaces ?s"]
    by (fastforce simp: s' put_workspace_def sync_inv_def list_all_iff named_def)
  let ?w = "(workspace sv ?s)\<lparr>ws_Stashes := xs, ws_UpdatedAt := now'\<rparr>"
  have get: "gm_get (ss_Workspaces s') (sv_stateKey sv) = Some ?w" by (simp add: s' put_workspace_def)
  have stashes: "map json_stash (ws_Stashes ?w) = pre @ json_stash x' # post"
    using json by (simp add: xs map_idI)
  have "TrimSpace message \<noteq> st_Message (json_stash x')" using x'(1) assms(6) by metis
  then have "refused d' (sync_freeze L sv candidate changeSet' message (pe_freeze env') d')"
    by (rule freeze_refused [OF keys get stashes w(3) x'(3,2) ne _ d'])
  then show ?thesis using fr by (auto simp: refused_iff sync_Push_def)
qed

section \<open>Failures after the rename\<close>




section \<open>Concrete failures\<close>

definition unreachable_env :: push_env where
  "unreachable_env = offline_env\<lparr>pe_observe := Inl ''offline''\<rparr>"

theorem bucket_retry_message_mismatch_witness:
  "\<exists>d. sync_Push demo_cid demo_service unreachable_env ''btwo'' [] [CHR 0xFF] demo_staged = ((Inl (SyncRemote ''offline''), []), d) \<and>
     (\<exists>e. sync_Push demo_cid demo_service branching_env ''btwo'' [] [CHR 0xFF] d = ((Inl e, []), d))"
proof -
  let ?push = "sync_Push demo_cid demo_service unreachable_env ''btwo'' [] [CHR 0xFF] demo_staged"
  let ?y = "hd (ws_Stashes (ws_at demo_cid demo_staged (sv_stateKey demo_service)))"
  have run: "fst ?push = (Inl (SyncRemote ''offline''), [])"
    "list_ex (\<lambda>x. x = ?y) (ws_Stashes (ws_at demo_cid demo_staged (sv_stateKey demo_service)))"
    "is_pending (cid_String demo_cid ''btwo'') ?y" "\<not> st_RequestFrozen ?y"
    "json_text (TrimSpace [CHR 0xFF]) \<noteq> TrimSpace [CHR 0xFF]" "pe_observe unreachable_env = Inl ''offline''"
    by code_simp+
  have mem: "?y \<in> set (ws_Stashes (ws_at demo_cid demo_staged (sv_stateKey demo_service)))"
    using run(2) by (auto simp: list_ex_iff)
  have one: "?push = ((Inl (SyncRemote ''offline''), []), snd ?push)" using run(1) by (metis prod.collapse)
  from bucket_retry_message_mismatch [OF demo_staged_ok demo_service_ok mem run(3-6) one] one show ?thesis by blast
qed


end
