(* ===== verification/PlanRun.thy ===== *)
theory PlanRun
  imports PlanBackup HistoryProps BucketPush
begin

text \<open>
  A publication over crashes: the journal decides the request, so however often it is resumed, the remote
  sees one and the same request.
\<close>

declare json_text.simps(2) [simp del]

section \<open>The request of a journaled publication\<close>

definition journal_request :: "Service \<Rightarrow> PendingBackup \<Rightarrow> ApplyRequest" where
  "journal_request sv p =
     \<lparr>rq_OperationID = pb_PushID p, rq_Branch = sv_branch sv, rq_BaseCommit = hd_CommitID (br_Base (pb_Result p)),
      rq_BaseRoot = hd_Root (br_Base (pb_Result p)), rq_CandidateRoot = br_CandidateRoot (pb_Result p),
      rq_BaseRevision = hd_Revision (br_Base (pb_Result p)), rq_ChangeSetCID = [],
      rq_Message = pb_Message p, rq_MergePolicy = []\<rparr>"

lemma NormalizeApplyRequest_trim:
  "trimRequest a = trimRequest b \<Longrightarrow> NormalizeApplyRequest L sel a = NormalizeApplyRequest L sel b"
  by (simp add: NormalizeApplyRequest_def)

lemma push_sends_stash:
  assumes "cid_lib_ok L" and ok: "sync_ok L d" and "service_ok sv" and utf: "push_text L [] message env"
    and x: "x \<in> set (ws_Stashes (ws_at L d (sv_stateKey sv)))" "is_pending (cid_String L candidate) x"
    and run: "sync_Push L sv env candidate [] message d = ((res, sent), d')" and "request \<in> set sent"
    and "st_Message x = message" and "st_ChangeSetCID x = []"
  shows "NormalizeApplyRequest L (sv_branch sv) (push_request sv x) = Inr request \<and> sent = [request]"
proof -
  obtain z d1 where fr: "sync_freeze L sv candidate [] message (pe_freeze env) d = (Inr z, d1)"
    and req: "NormalizeApplyRequest L (sv_branch sv) (push_request sv z) = Inr request" and sent: "sent = [request]"
    by (rule push_sent [OF run assms(8)])
  have "\<not> cid_Defined [] \<or> cid_value L []" "ValidString message"
    using utf by (simp_all add: push_text_def cid_Defined_def)
  from freeze_phase [OF assms(1) ok assms(3) this fr] obtain pre y post t where
    y: "ws_Stashes (ws_at L d (sv_stateKey sv)) = pre @ y # post" "is_pending (cid_String L candidate) y"
    and z: "freezeStash [] (TrimSpace message) t y = Inr z"
    by (auto simp: cid_Defined_def)
  have "y = x" by (rule pending_unique [OF ws_stashes_fine [OF ok, of "sv_stateKey sv"]]) (use x y in auto)
  then have "trimRequest (push_request sv z) = trimRequest (push_request sv x)"
    using z assms(9,10) by (auto simp: freezeStash_def push_request_def trimRequest_def result_simps split: if_splits)
  then show ?thesis using NormalizeApplyRequest_trim req sent by metis
qed

section \<open>Where the pushed stash comes from\<close>

lemma Status_read:
  assumes "sync_ok L d" and "sync_Status L F sv d = (Inr w, d')"
  shows "w = workspace sv (sync_loaded L d)" and "d' = d"
proof -
  obtain s where "reload_with F SyncIO (SyncInvalid ''decode Bucket workspace'') sync_init (sync_reload L) d = Inr s"
    and "w = workspace sv s" "d' = d"
    using assms(2) by (auto simp: sync_Status_def sync_withState_def with_state_def reading_def split: if_splits sum.splits)
  then show "w = workspace sv (sync_loaded L d)" and "d' = d"
    using bucket_file.reload_cases [OF assms(1)] by auto
qed

lemma Status_disk: "snd (sync_Status L F sv d) = d"
  by (auto simp: sync_Status_def sync_withState_def with_state_def reading_def split: sum.split)

lemma pendingStash_found:
  "pendingStash p candidate xs = Inr (Some x) \<Longrightarrow> x \<in> set xs \<and> st_CandidateRoot x = candidate \<and>
     (st_Status x = ''pending'' \<or> st_Status x = ''branched'')"
  by (induction xs) (auto split: if_splits)

text \<open>A stash that a phase returned and stored.\<close>

definition stored_stash :: "cid_lib \<Rightarrow> Service \<Rightarrow> cid \<Rightarrow> Stash \<Rightarrow> sync_disk \<Rightarrow> bool" where
  "stored_stash L sv candidate x d \<longleftrightarrow>
     sync_ok L d \<and> x \<in> set (ws_Stashes (ws_at L d (sv_stateKey sv))) \<and> is_pending (cid_String L candidate) x"

lemma stored_stash_fine: "stored_stash L sv candidate x d \<Longrightarrow> json_stash x = x \<and> st_ID x \<noteq> [] \<and> st_PushID x \<noteq> []"
  using ws_stashes_fine
  by (fastforce simp: stored_stash_def stashes_fine_def list_all_iff stash_fine_def stash_ok_def result_simps)

lemma workspace_put [simp]: "ws_Stashes (workspace sv (put_workspace sv s w)) = ws_Stashes w"
  by (simp add: workspace_def put_workspace_def)

lemma stageLocked_stores:
  assumes "stageLocked sv root base changeSet message random now s = Inr (x, s')"
  shows "x \<in> set (ws_Stashes (workspace sv s')) \<and> is_pending root x"
proof (cases "find (is_pending root) (ws_Stashes (workspace sv s))")
  case (Some y)
  then have "y \<in> set (ws_Stashes (workspace sv s)) \<and> is_pending root y" by (auto simp: find_Some_iff)
  then show ?thesis using assms Some by (auto simp: stageLocked_def Let_def result_simps)
next
  case None
  then show ?thesis using assms by (auto simp: stageLocked_def Let_def result_simps is_pending_def new_stash_def)
qed

lemma stage_stores:
  assumes L: "cid_lib_ok L" and ok: "sync_ok L d" and sv: "service_ok sv" and c: "cid_value L candidate"
    and base: "json_head base = base" and msg: "ValidString message" and fresh: "fresh_id L sv random d"
    and run: "sync_Stage L F sv candidate base [] message random now d = (Inr x, d')"
  shows "stored_stash L sv candidate x d'"
proof -
  let ?f = "stageLocked sv (cid_String L candidate) base (if cid_Defined [] then cid_String L [] else []) message random now"
  have none: "\<not> cid_Defined []" by (simp add: cid_Defined_def)
  have ws: "sync_withState L F (writing ?f) d = (Inr x, d')" and h: "head_ok L base"
    using run base by (auto simp: sync_Stage_def result_simps head_ok_def split: sum.splits)
  have fresh': "bytes \<noteq> [] \<and> EncodeToString bytes \<notin> set (map st_ID (ws_Stashes (workspace sv (sync_loaded L d))))"
    if "random = Some bytes" for bytes
    using fresh that by (auto simp: fresh_id_def workspace_stashes)
  have pc: "phase_change L sv (sync_loaded L d) s'" if "?f (sync_loaded L d) = Inr (r, s')" for r s'
    by (rule stage_change [OF bucket_file.loaded_invar [OF ok] h cid_text [OF L c] optional_text [OF L] msg fresh' that])
      (use none in simp_all)
  have ok': "sync_ok L d'" using writing_phase [where f = ?f and F = F, OF ok sv] pc ws by (metis phase_disk_def snd_conv)
  have f: "?f (sync_loaded L d) = Inr (x, sync_loaded L d')"
    using writing_success [where f = ?f and F = F, OF ok sv _ ws] pc by blast
  show ?thesis using ok' stageLocked_stores [OF f] by (simp add: stored_stash_def workspace_stashes)
qed

lemma restore_scan_Some: "restore_scan x xs = Inr (Some y) \<Longrightarrow> y \<in> set xs \<and> sameFrozenStash y x"
  by (induction xs) (auto simp: result_simps split: if_splits)

lemma restoreLocked_stores:
  assumes "restoreLocked sv x now s = Inr (y, s')" and "st_Status x = ''pending''"
  shows "y \<in> set (ws_Stashes (workspace sv s')) \<and> is_pending (st_CandidateRoot x) y"
proof -
  from assms(1) obtain found where found: "restore_scan x (ws_Stashes (workspace sv s)) = Inr found"
    by (auto simp: restoreLocked_def Let_def result_simps)
  show ?thesis
  proof (cases found)
    case None
    then show ?thesis using assms found by (auto simp: restoreLocked_def Let_def result_simps is_pending_def)
  next
    case (Some z)
    then show ?thesis
      using assms found restore_scan_Some [of x _ z]
      by (auto simp: restoreLocked_def Let_def result_simps is_pending_def sameFrozenStash_def)
  qed
qed

lemma restore_stores:
  assumes ok: "sync_ok L d" and sv: "service_ok sv" and j: "json_stash x = x"
    and run: "sync_RestorePending L F sv x now d = (Inr y, d')" and root: "st_CandidateRoot x = cid_String L candidate"
  shows "stored_stash L sv candidate y d'"
proof -
  obtain x' where x': "checkRestored L x = Inr x'" and ws: "sync_withState L F (writing (restoreLocked sv x' now)) d = (Inr y, d')"
    using run by (auto simp: sync_RestorePending_def split: sum.splits)
  let ?f = "restoreLocked sv x' now"
  have pc: "phase_change L sv (sync_loaded L d) s'" if "?f (sync_loaded L d) = Inr (r, s')" for r s'
    by (rule restore_change [OF bucket_file.loaded_invar [OF ok] x' j that])
  have ok': "sync_ok L d'" using writing_phase [where f = ?f and F = F, OF ok sv] pc ws by (metis phase_disk_def snd_conv)
  have f: "?f (sync_loaded L d) = Inr (y, sync_loaded L d')"
    using writing_success [where f = ?f and F = F, OF ok sv _ ws] pc by blast
  have shape: "st_CandidateRoot x' = cid_String L candidate" "st_Status x' = ''pending''"
    using x' root by (auto simp: checkRestored_def result_simps)
  show ?thesis using ok' restoreLocked_stores [OF f] shape by (simp add: stored_stash_def workspace_stashes)
qed

section \<open>What a push returns\<close>

definition plan_env_ok :: "plan_env \<Rightarrow> bool" where
  "plan_env_ok env \<longleftrightarrow>
     observed_text (pe_observe (pv_push env)) \<and>
     (\<forall>request r. pe_apply (pv_push env) request = Inr (Some r) \<longrightarrow> result_text r \<and> json_apply_result r = r)"

lemma plan_push_text: "plan_env_ok env \<Longrightarrow> ValidString message \<Longrightarrow> push_text L [] message (pv_push env)"
  by (auto simp: plan_env_ok_def push_text_def cid_Defined_def)

lemma push_outcome_json:
  assumes L: "cid_lib_ok L" and ok: "sync_ok L d" and sv: "service_ok sv" and env: "plan_env_ok env" and "ValidString message"
    and run: "sync_Push L sv (pv_push env) candidate [] message d = ((Inr out, sent), d')"
  shows "json_push out = out"
proof -
  note utf = plan_push_text [OF env assms(5), of L]
  from run obtain x d1 res2 d2 request r w where
    fr: "sync_freeze L sv candidate [] message (pe_freeze (pv_push env)) d = (Inr x, d1)"
    and pl: "sync_Pull L (fst (pe_pull (pv_push env))) sv (pe_observe (pv_push env)) (snd (pe_pull (pv_push env))) d1 = (res2, d2)"
    and ap: "pe_apply (pv_push env) request = Inr (Some r)"
    and fi: "sync_finish L sv (st_ID x) r (pe_finish (pv_push env)) d2 = (Inr w, d')"
    and out: "out = \<lparr>po_Result = r, po_Workspace = w\<rparr>"
    by (auto simp: sync_Push_def split: if_splits prod.splits sum.splits option.splits)
  have u: "\<not> cid_Defined [] \<or> cid_value L []" "observed_text (pe_observe (pv_push env))" "result_text r" "json_apply_result r = r"
    using env ap by (auto simp: plan_env_ok_def cid_Defined_def)
  have ok1: "sync_ok L d1" using freeze_phase [OF L ok sv u(1) assms(5) fr] by blast
  have ok2: "sync_ok L d2" using pull_phase [OF ok1 sv u(2) pl] by blast
  have "sync_ok L d'" using finish_disk [OF ok2 sv u(3), of "st_ID x" "pe_finish (pv_push env)"] fi by (simp add: phase_disk_def)
  then have "workspace_fine L (workspace sv (sync_loaded L d'))"
    by (intro workspace_fine_get bucket_file.loaded_invar)
  moreover have "w = workspace sv (sync_loaded L d')" by (rule finish_phase(1) [OF ok2 sv u(3) fi])
  ultimately have "json_workspace w = w"
    using workspace_fine_json [OF _ named_service [OF sv]] by simp
  then show ?thesis using u(4) by (simp add: out json_push_def)
qed

section \<open>One attempt\<close>

definition same_publication :: "PendingBackup \<Rightarrow> PendingBackup \<Rightarrow> bool" where
  "same_publication p p' \<longleftrightarrow> journal_keeps p p' \<and> br_Base (pb_Result p') = br_Base (pb_Result p)"

lemma same_publication_refl [simp]: "same_publication p p"
  by (simp add: same_publication_def)

lemma same_publication_trans: "same_publication p q \<Longrightarrow> same_publication q r \<Longrightarrow> same_publication p r"
  by (auto simp: same_publication_def intro: journal_keeps_trans)

lemma same_request:
  "same_publication p p' \<Longrightarrow> pb_StashID p \<noteq> [] \<Longrightarrow> journal_request sv p' = journal_request sv p \<and> pb_StashID p' \<noteq> []"
  by (simp add: same_publication_def journal_keeps_def journal_request_def)

text \<open>The states between the calls of a publication, and what has been sent for it.\<close>

definition publishing :: "PendingBackup \<Rightarrow> historyFile \<Rightarrow> bool" where
  "publishing p h \<longleftrightarrow>
     hf_Conflict h = None \<and> (hf_Pending h = None \<or> (\<exists>p'. hf_Pending h = Some p' \<and> same_publication p p'))"

definition pending_now :: "PendingBackup \<Rightarrow> history_disk \<Rightarrow> bool" where
  "pending_now p jd \<longleftrightarrow> history_ok jd \<and> publishing p (history_loaded jd)"

lemma pending_now_call:
  assumes "history_ok jd" and "history_call_ok c" and "publishing p (history_loaded jd)"
    and "\<And>h'. call_update c (history_loaded jd) = Inr h' \<Longrightarrow> publishing p h'"
  shows "pending_now p (snd (history_call_do F c jd))"
  using history_call_outcome [OF assms(1,2), of F] assms(3,4) unfolding pending_now_def publishing_def by metis

definition sent_for :: "cid_lib \<Rightarrow> Service \<Rightarrow> PendingBackup \<Rightarrow> ApplyRequest list \<Rightarrow> bool" where
  "sent_for L sv p sent \<longleftrightarrow>
     pb_StashID p \<noteq> [] \<and> (\<forall>q \<in> set sent. NormalizeApplyRequest L (sv_branch sv) (journal_request sv p) = Inr q)"

lemma done_keeps:
  assumes ok: "history_ok jd" and p: "hf_Pending (history_loaded jd) = Some p" and c: "hf_Conflict (history_loaded jd) = None"
    and r: "result_fine r" "br_Base r = br_Base (pb_Result p)" and "ValidString planID"
  shows "pending_now p (snd (history_MarkPendingConflict F candidate r jd))"
    and "pending_now p (snd (history_CompletePending F candidate planID r jd))"
proof -
  have now: "publishing p (history_loaded jd)" using p c by (simp add: publishing_def)
  have "publishing p h'" if "call_update (CallMarkConflict candidate r) (history_loaded jd) = Inr h'" for h'
    using that p c r(2) by (auto simp: publishing_def markConflict_def same_publication_def journal_keeps_def result_simps)
  then have "pending_now p (snd (history_call_do F (CallMarkConflict candidate r) jd))"
    by (intro pending_now_call [OF ok _ now]) (use r in simp_all)
  then show "pending_now p (snd (history_MarkPendingConflict F candidate r jd))" by simp
  have "publishing p h'" if "call_update (CallCompletePending candidate planID r) (history_loaded jd) = Inr h'" for h'
    using that p c by (auto simp: publishing_def completePending_def put_plan_def result_simps)
  then have "pending_now p (snd (history_call_do F (CallCompletePending candidate planID r) jd))"
    by (intro pending_now_call [OF ok _ now]) (use r assms(6) in simp_all)
  then show "pending_now p (snd (history_CompletePending F candidate planID r jd))" by simp
qed

lemma pushCandidate_run:
  assumes L: "cid_lib_ok L" and sv: "service_ok sv" and env: "plan_env_ok env" and "ValidString (pl_ID pl)"
    and ok: "history_ok jd" "hf_Conflict (history_loaded jd) = None" and p: "hf_Pending (history_loaded jd) = Some p"
    and x: "stored_stash L sv candidate x sd" "pb_StashID p = st_ID x" "pb_PushID p = st_PushID x"
      "st_Base x = br_Base (pb_Result p)" "st_Message x = pb_Message p" "st_ChangeSetCID x = []"
      "br_CandidateRoot (pb_Result p) = cid_String L candidate"
    and r: "result_fine r" "br_Base r = br_Base (pb_Result p)"
    and run: "pushCandidate L sv pl env candidate (pb_Message p) r (jd, sd) = ((res, sent), (jd', sd'))"
  shows "sync_ok L sd' \<and> pending_now p jd' \<and> sent_for L sv p sent"
proof -
  have oks: "sync_ok L sd" using x(1) by (simp add: stored_stash_def)
  have "json_stash x = x" using stored_stash_fine [OF x(1)] by blast
  then have "json_text (st_Message x) = st_Message x" by (cases x) (simp add: json_stash_def)
  then have msg: "ValidString (pb_Message p)" using x(5) ValidString_json_text [of "st_Message x"] by simp
  note utf = plan_push_text [OF env msg, of L]
  obtain resp sd1 where push: "sync_Push L sv (pv_push env) candidate [] (pb_Message p) sd = ((resp, sent), sd1)"
    and sd': "sd' = sd1"
    using run by (auto simp: pushCandidate_def Let_def split: prod.splits sum.splits if_splits)
  have "sync_ok L sd'"
    using sync_steps_ok [OF L push_steps [OF sv utf] oks, of candidate] push sd' by simp
  moreover have "NormalizeApplyRequest L (sv_branch sv) (journal_request sv p) = Inr q" if "q \<in> set sent" for q
  proof -
    have "NormalizeApplyRequest L (sv_branch sv) (push_request sv x) = Inr q"
      using push_sends_stash [OF L oks sv utf _ _ push that x(5,6)] x(1) by (auto simp: stored_stash_def)
    moreover have "push_request sv x = journal_request sv p"
      using x by (simp add: push_request_def journal_request_def stored_stash_def is_pending_def)
    ultimately show ?thesis by simp
  qed
  then have "sent_for L sv p sent" using x(2) stored_stash_fine [OF x(1)] by (simp add: sent_for_def)
  moreover have "pending_now p jd'"
  proof (cases resp)
    case (Inl e)
    then show ?thesis using run push ok p by (simp add: pushCandidate_def pending_now_def publishing_def)
  next
    case (Inr out)
    let ?r = "r\<lparr>br_Push := out, br_CompletedAt := pv_now env\<rparr>"
    have "json_push out = out" using push_outcome_json [OF L oks sv env msg] push Inr by blast
    then have "result_fine ?r" using r(1) by (cases r) (simp add: result_fine_def json_result_def result_keys_ok_def)
    then have "pending_now p (snd (history_MarkPendingConflict (pv_done env) (cid_String L candidate) ?r jd))"
      "pending_now p (snd (history_CompletePending (pv_done env) (cid_String L candidate) (pl_ID pl) ?r jd))"
      using done_keeps [OF ok(1) p ok(2) _ _ assms(4), of ?r] r(2) by simp_all
    then show ?thesis
      using run push Inr by (auto simp: pushCandidate_def Let_def split: prod.splits sum.splits if_splits)
  qed
  ultimately show ?thesis by blast
qed

lemma history_call_loaded:
  assumes "history_ok jd" and "history_call_ok c" and "\<not> ends_pending c" and "history_call_do F c jd = (Inr (), jd')"
  shows "history_ok jd' \<and> call_update c (history_loaded jd) = Inr (history_loaded jd')"
proof -
  obtain h' where h': "call_update c (history_loaded jd) = Inr h'" "jd' = Some (Decoded (history_encode h'))"
    using history_call_success [OF assms(1,4)] by blast
  have "history_inv h'"
    using call_update_inv [OF history_store.loaded_invar [OF assms(1)] assms(2) _ h'(1)] assms(3) by blast
  then show ?thesis using h' by simp
qed

text \<open>An attempt either sent nothing, or froze the identity under which it sent its request.\<close>

definition attempted :: "cid_lib \<Rightarrow> Service \<Rightarrow> PendingBackup \<Rightarrow> ApplyRequest list \<Rightarrow> plan_disk \<Rightarrow> bool" where
  "attempted L sv p sent w \<longleftrightarrow>
     sync_ok L (snd w) \<and>
     (sent = [] \<and> pending_now p (fst w) \<or>
      (\<exists>p1. same_publication p p1 \<and> pending_now p1 (fst w) \<and> sent_for L sv p1 sent))"

lemma freezeAndPush_run:
  assumes L: "cid_lib_ok L" and sv: "service_ok sv" and env: "plan_env_ok env" and "ValidString (pl_ID pl)"
    and ok: "history_ok jd" "hf_Conflict (history_loaded jd) = None" and p: "hf_Pending (history_loaded jd) = Some p"
    and x: "stored_stash L sv candidate x sd" and c: "cid_value L candidate"
    and r: "result_fine r" "br_Base r = br_Base (pb_Result p)"
    and run: "freezeAndPush L sv pl env candidate (pb_Message p) r x (jd, sd) = ((res, sent), w)"
  shows "attempted L sv p sent w"
proof -
  let ?c = "CallMarkStaged (cid_String L candidate) x"
  let ?p1 = "p\<lparr>pb_StashID := st_ID x, pb_PushID := st_PushID x\<rparr>"
  have fine: "history_call_ok ?c" using stored_stash_fine [OF x] by simp
  obtain resm jd1 where mark: "history_MarkPendingStaged (pv_mark env) (cid_String L candidate) x jd = (resm, jd1)"
    by (cases "history_MarkPendingStaged (pv_mark env) (cid_String L candidate) x jd")
  have upd: "same_publication p ?p1 \<and> h' = (history_loaded jd)\<lparr>hf_Pending := Some ?p1\<rparr> \<and> st_Base x = br_Base (pb_Result p) \<and>
      st_Message x = pb_Message p \<and> st_ChangeSetCID x = [] \<and> br_CandidateRoot (pb_Result p) = TrimSpace (cid_String L candidate)"
    if "call_update ?c (history_loaded jd) = Inr h'" for h'
    using that p by (auto simp: markStaged_def result_simps same_publication_def journal_keeps_def)
  show ?thesis
  proof (cases resm)
    case (Inl e)
    then have w: "w = (jd1, sd)" "sent = []" using run mark by (simp_all add: freezeAndPush_def)
    have now: "publishing p (history_loaded jd)" using p ok by (simp add: publishing_def)
    have "publishing p h'" if "call_update ?c (history_loaded jd) = Inr h'" for h'
      using upd [OF that] ok(2) by (auto simp: publishing_def)
    then have "pending_now p (snd (history_call_do (pv_mark env) ?c jd))"
      by (rule pending_now_call [OF ok(1) fine now])
    then have "pending_now p jd1" using mark by simp
    then show ?thesis using w x by (simp add: attempted_def stored_stash_def)
  next
    case (Inr u)
    then have push: "pushCandidate L sv pl env candidate (pb_Message p) r (jd1, sd) = ((res, sent), w)"
      using run mark by (simp add: freezeAndPush_def)
    have m: "history_ok jd1 \<and> call_update ?c (history_loaded jd) = Inr (history_loaded jd1)"
      by (rule history_call_loaded [OF ok(1) fine]) (use mark Inr in simp_all)
    note u = upd [OF conjunct2 [OF m]]
    have "list_all graphic (cid_String L candidate)" using L c by (auto simp: cid_lib_ok_def cid_value_def)
    then have canon: "br_CandidateRoot (pb_Result p) = cid_String L candidate" using u by (simp add: TrimSpace_graphic)
    have "sync_ok L (snd w) \<and> pending_now ?p1 (fst w) \<and> sent_for L sv ?p1 sent"
    proof (rule pushCandidate_run [OF L sv env assms(4), of jd1 ?p1 candidate x sd r res])
      show "pushCandidate L sv pl env candidate (pb_Message ?p1) r (jd1, sd) = ((res, sent), (fst w, snd w))"
        using push by simp
    qed (use m u canon ok(2) x r in \<open>simp_all\<close>)
    then show ?thesis using u by (auto simp: attempted_def)
  qed
qed

lemma pending_fine_texts:
  assumes "pending_fine p"
  shows "ValidString (pb_Message p)" "ValidString (pb_StashID p)" "ValidString (pb_PushID p)"
    "json_head (br_Base (pb_Result p)) = br_Base (pb_Result p)" "result_fine (pb_Result p)"
proof -
  have texts: "json_text (pb_Message p) = pb_Message p" "json_text (pb_StashID p) = pb_StashID p"
    "json_text (pb_PushID p) = pb_PushID p"
    using assms by (cases p, simp add: pending_fine_def json_pending_def)+
  show "ValidString (pb_Message p)" "ValidString (pb_StashID p)" "ValidString (pb_PushID p)"
    using ValidString_json_text texts by metis+
  show r: "result_fine (pb_Result p)" using assms by (simp add: pending_fine_def)
  then show "json_head (br_Base (pb_Result p)) = br_Base (pb_Result p)"
    by (cases "pb_Result p") (simp add: result_fine_def json_result_def)
qed

lemma retryStash_run:
  assumes L: "cid_lib_ok L" and sv: "service_ok sv" and ok: "sync_ok L sd" and p: "pending_fine p"
    and c: "cid_value L candidate" and fresh: "fresh_id L sv (fst (snd (pv_stage env))) sd"
    and found: "pendingStash p (cid_String L candidate) (ws_Stashes (ws_at L sd (sv_stateKey sv))) = Inr found"
    and run: "retryStash L sv env p candidate found sd = (res, sd')"
  shows "sync_ok L sd' \<and> (\<forall>x. res = Inr x \<longrightarrow> stored_stash L sv candidate x sd')"
proof (cases found)
  case (Some x)
  then show ?thesis
    using pendingStash_found found run ok
    by (fastforce simp: retryStash_def stored_stash_def is_pending_def split: if_splits)
next
  case None
  note t = pending_fine_texts [OF p]
  have croot: "ValidString (cid_String L candidate)" using cid_text [OF L c] by blast
  show ?thesis
  proof (cases "pb_StashID p \<noteq> []")
    case True
    let ?x = "restoredStash L p candidate"
    have j: "json_stash ?x = ?x" using t croot by (simp add: json_stash_def restoredStash_def)
    obtain resr sd1 where rs: "sync_RestorePending L (fst (pv_restore env)) sv ?x (snd (pv_restore env)) sd = (resr, sd1)"
      by (cases "sync_RestorePending L (fst (pv_restore env)) sv ?x (snd (pv_restore env)) sd")
    have "sync_ok L sd1" using restore_disk [OF ok sv j, of "fst (pv_restore env)" "snd (pv_restore env)"] rs
      by (simp add: phase_disk_def)
    moreover have "stored_stash L sv candidate y sd1" if "resr = Inr y" for y
      by (rule restore_stores [OF ok sv j]) (use rs that in \<open>auto simp: restoredStash_def\<close>)
    ultimately show ?thesis
      using run None True rs by (auto simp: retryStash_def split: sum.splits if_splits)
  next
    case False
    obtain F random now where st: "pv_stage env = (F, random, now)" by (cases "pv_stage env")
    obtain ress sd1 where rs: "sync_Stage L F sv candidate (br_Base (pb_Result p)) [] (pb_Message p) random now sd = (ress, sd1)"
      by (cases "sync_Stage L F sv candidate (br_Base (pb_Result p)) [] (pb_Message p) random now sd")
    have "sync_ok L sd1"
      using stage_disk [OF L ok sv c, of "[]" "br_Base (pb_Result p)" "pb_Message p" random F now] t fresh rs st
      by (simp add: phase_disk_def cid_Defined_def)
    moreover have "stored_stash L sv candidate y sd1" if "ress = Inr y" for y
      by (rule stage_stores [OF L ok sv c t(4,1)]) (use fresh rs that st in auto)
    ultimately show ?thesis
      using run None False rs st by (auto simp: retryStash_def split: sum.splits)
  qed
qed

lemma checkRetry_candidate:
  assumes "cid_lib_ok L" and "checkRetry L pl env p = Inr candidate"
  shows "cid_value L candidate"
proof -
  have "cid_Parse L (br_CandidateRoot (pb_Result p)) = Some candidate"
    using assms(2) by (auto simp: checkRetry_def result_simps split: if_splits sum.splits)
  then show ?thesis using assms(1) by (auto simp: cid_lib_ok_def cid_value_def)
qed

lemma retryPending_run:
  assumes L: "cid_lib_ok L" and sv: "service_ok sv" and env: "plan_env_ok env" and pl: "ValidString (pl_ID pl)"
    and ok: "history_ok jd" "hf_Conflict (history_loaded jd) = None" "sync_ok L sd"
    and p: "hf_Pending (history_loaded jd) = Some p" and fresh: "fresh_id L sv (fst (snd (pv_stage env))) sd"
    and run: "retryPending L sv pl env p (jd, sd) = ((res, sent), w)"
  shows "attempted L sv p sent w"
proof -
  have fine: "pending_fine p"
    using history_store.loaded_invar [OF ok(1)] p by (simp add: history_inv_def)
  have now: "pending_now p jd" using p ok by (simp add: pending_now_def publishing_def)
  have stop: "attempted L sv p [] (jd, d)" if "sync_ok L d" for d using that now by (simp add: attempted_def)
  obtain resw sd1 where st: "sync_Status L (pv_status env) sv sd = (resw, sd1)" by (cases "sync_Status L (pv_status env) sv sd")
  have sd1: "sd1 = sd" using Status_disk [of L "pv_status env" sv sd] st by simp
  show ?thesis
  proof (cases "checkRetry L pl env p")
    case (Inl e)
    then show ?thesis using run stop ok(3) by (auto simp: retryPending_def)
  next
    case (Inr candidate)
    note c = checkRetry_candidate [OF L Inr]
    show ?thesis
    proof (cases "\<exists>w'. resw = Inr w'")
      case False
      then show ?thesis using run Inr st stop ok(3) sd1 by (auto simp: retryPending_def split: sum.splits)
    next
      case True
      then obtain w' where w': "resw = Inr w'" by blast
      have "ws_Stashes w' = ws_Stashes (ws_at L sd (sv_stateKey sv))"
        using Status_read(1) [OF ok(3)] st w' workspace_stashes by blast
      note found = retryStash_run [OF L sv ok(3) fine c fresh, folded this]
      show ?thesis
      proof (cases "pendingStash p (cid_String L candidate) (ws_Stashes w')")
        case (Inl e)
        then show ?thesis using run st w' stop ok(3) sd1 \<open>checkRetry L pl env p = Inr candidate\<close> by (auto simp: retryPending_def)
      next
        case ps: (Inr x0)
        obtain resx sd2 where rs: "retryStash L sv env p candidate x0 sd = (resx, sd2)"
          by (cases "retryStash L sv env p candidate x0 sd")
        note stored = found [OF ps rs]
        show ?thesis
        proof (cases "ws_Initialized w' \<and> (\<exists>x. resx = Inr x)")
          case False
          then show ?thesis using run Inr st w' ps rs stop stored ok(3) sd1 by (auto simp: retryPending_def split: if_splits sum.splits)
        next
          case True
          then obtain x where x: "resx = Inr x" by blast
          have "freezeAndPush L sv pl env candidate (pb_Message p) ((pb_Result p)\<lparr>br_RetriedPending := True\<rparr>) x (jd, sd2) = ((res, sent), w)"
            using run Inr st w' ps rs x sd1 True by (simp add: retryPending_def)
          moreover have "result_fine ((pb_Result p)\<lparr>br_RetriedPending := True\<rparr>)"
            using pending_fine_texts(5) [OF fine]
            by (cases "pb_Result p") (simp add: result_fine_def json_result_def result_keys_ok_def)
          ultimately show ?thesis
            using freezeAndPush_run [OF L sv env pl ok(1,2) p _ c, of x sd2 "(pb_Result p)\<lparr>br_RetriedPending := True\<rparr>" res sent w]
              stored x by simp
        qed
      qed
    qed
  qed
qed

lemma publishCandidate_run:
  assumes L: "cid_lib_ok L" and sv: "service_ok sv" and env: "plan_env_ok env"
    and pl: "ValidString (pl_ID pl)" "ValidString (pl_BucketID pl)"
    and ok: "history_ok jd" "hf_Conflict (history_loaded jd) = None" "sync_ok L sd"
    and c: "cid_value L candidate" "\<not> cid_Defined candidateBase \<or> cid_value L candidateBase"
    and msg: "ValidString message" and r: "result_fine r" and fresh: "fresh_id L sv (fst (snd (pv_stage env))) sd"
    and run: "publishCandidate L sv pl env candidate candidateBase message r (jd, sd) = ((res, sent), w)"
  shows "\<exists>p. attempted L sv p sent w"
proof -
  let ?p = "\<lparr>pb_BucketID = pl_BucketID pl, pb_PlanID = pl_ID pl, pb_Message = message, pb_StashID = [],
    pb_PushID = [], pb_CandidateBase = (if cid_Defined candidateBase then cid_String L candidateBase else []),
    pb_CandidateRecorded = True, pb_Result = r, pb_CreatedAt = pv_created env\<rparr>"
  have "ValidString (if cid_Defined candidateBase then cid_String L candidateBase else [])"
    by (rule optional_text [OF L c(2)])
  then have fine: "history_call_ok (CallSetPending ?p)"
    using pl msg r by (simp add: pending_fine_def json_pending_def pending_identity_ok_def result_fine_def)
  have base: "json_head (br_Base r) = br_Base r" using r by (cases r) (simp add: result_fine_def json_result_def)
  obtain ress jd1 where set: "history_SetPending (pv_journal env) ?p jd = (ress, jd1)"
    by (cases "history_SetPending (pv_journal env) ?p jd")
  show ?thesis
  proof (cases ress)
    case (Inl e)
    then have w: "w = (jd1, sd)" "sent = []" using run set by (simp_all add: publishCandidate_def Let_def)
    let ?q = "case hf_Pending (history_loaded jd) of None \<Rightarrow> ?p | Some q \<Rightarrow> q"
    have "publishing ?q (history_loaded jd)" using ok(2) by (simp add: publishing_def split: option.split)
    moreover have "publishing ?q h'" if "call_update (CallSetPending ?p) (history_loaded jd) = Inr h'" for h'
      using that ok(2) by (auto simp: publishing_def checkPending_def setPending_def result_simps Let_def)
    ultimately have "pending_now ?q (snd (history_call_do (pv_journal env) (CallSetPending ?p) jd))"
      by (intro pending_now_call [OF ok(1) fine])
    then show ?thesis using w set ok(3) by (auto simp: attempted_def)
  next
    case (Inr u)
    have m: "history_ok jd1 \<and> call_update (CallSetPending ?p) (history_loaded jd) = Inr (history_loaded jd1)"
      by (rule history_call_loaded [OF ok(1) fine]) (use set Inr in simp_all)
    then have l: "history_loaded jd1 = (history_loaded jd)\<lparr>hf_Pending := Some ?p\<rparr>"
      by (auto simp: checkPending_def setPending_def result_simps Let_def)
    obtain F random now where st: "pv_stage env = (F, random, now)" by (cases "pv_stage env")
    obtain resx sd1 where rs: "sync_Stage L F sv candidate (br_Base r) [] message random now sd = (resx, sd1)"
      by (cases "sync_Stage L F sv candidate (br_Base r) [] message random now sd")
    have ok1: "sync_ok L sd1"
      using stage_disk [OF L ok(3) sv c(1), of "[]" "br_Base r" message random F now] base msg fresh rs st
      by (simp add: phase_disk_def cid_Defined_def)
    show ?thesis
    proof (cases resx)
      case (Inl e)
      then have "w = (jd1, sd1)" "sent = []" using run set Inr rs st \<open>ress = Inr u\<close> by (simp_all add: publishCandidate_def Let_def)
      then show ?thesis using m l ok(2) ok1 by (auto simp: attempted_def pending_now_def publishing_def intro!: exI [of _ ?p])
    next
      case x: (Inr x)
      have "freezeAndPush L sv pl env candidate (pb_Message ?p) r x (jd1, sd1) = ((res, sent), w)"
        using run set Inr rs st x by (simp add: publishCandidate_def Let_def)
      moreover have "stored_stash L sv candidate x sd1"
        by (rule stage_stores [OF L ok(3) sv c(1) base msg]) (use fresh rs st x in auto)
      ultimately have "attempted L sv ?p sent w"
        using freezeAndPush_run [OF L sv env pl(1), of jd1 ?p candidate x sd1 r res sent w] m l ok(2) c(1) r by simp
      then show ?thesis by blast
    qed
  qed
qed

section \<open>Publications over crashes\<close>

text \<open>
  One publication: the first attempt, then any number of resumed ones, each under its own faults and with
  its own answers of the remote, interleaved with any phases of synchronization services on the bucket file
  and with the scheduler's bookkeeping.  The last argument collects every request that was sent.
\<close>

fun bookkeeping :: "history_call \<Rightarrow> bool" where
  "bookkeeping (CallRecordResult name r) = True"
| "bookkeeping (CallAttempt name t) = True"
| "bookkeeping (CallFailure name t e) = True"
| "bookkeeping c = False"

definition publish_args_ok :: "cid_lib \<Rightarrow> cid \<Rightarrow> cid \<Rightarrow> string \<Rightarrow> Result \<Rightarrow> bool" where
  "publish_args_ok L candidate candidateBase message r \<longleftrightarrow>
     cid_value L candidate \<and> (\<not> cid_Defined candidateBase \<or> cid_value L candidateBase) \<and> ValidString message \<and> result_fine r"

inductive publication :: "cid_lib \<Rightarrow> Service \<Rightarrow> plan_info \<Rightarrow> plan_disk \<Rightarrow> plan_disk \<Rightarrow> ApplyRequest list \<Rightarrow> bool"
  for L :: cid_lib and sv :: Service and pl :: plan_info and w0 :: plan_disk where
  start: "plan_env_ok env \<Longrightarrow> publish_args_ok L candidate candidateBase message r \<Longrightarrow>
    fresh_id L sv (fst (snd (pv_stage env))) (snd w0) \<Longrightarrow>
    publishCandidate L sv pl env candidate candidateBase message r w0 = ((res, sent), w) \<Longrightarrow>
    publication L sv pl w0 w sent"
| resume: "publication L sv pl w0 w sent \<Longrightarrow> plan_env_ok env \<Longrightarrow>
    fresh_id L sv (fst (snd (pv_stage env))) (snd w) \<Longrightarrow>
    resumeBackup L sv pl env w = ((res', sent'), w') \<Longrightarrow> publication L sv pl w0 w' (sent @ sent')"
| elsewhere: "publication L sv pl w0 (jd, sd) sent \<Longrightarrow> sync_step L sd sd' \<Longrightarrow> publication L sv pl w0 (jd, sd') sent"
| bookkeeping: "publication L sv pl w0 (jd, sd) sent \<Longrightarrow> history_call_ok c \<Longrightarrow> bookkeeping c \<Longrightarrow>
    publication L sv pl w0 (snd (history_call_do F c jd), sd) sent"

definition publication_inv :: "cid_lib \<Rightarrow> Service \<Rightarrow> plan_disk \<Rightarrow> ApplyRequest list \<Rightarrow> bool" where
  "publication_inv L sv w sent \<longleftrightarrow> sync_ok L (snd w) \<and> (\<exists>p. pending_now p (fst w) \<and> (sent = [] \<or> sent_for L sv p sent))"

lemma attempted_inv: "attempted L sv p sent w \<Longrightarrow> publication_inv L sv w sent"
  by (auto simp: attempted_def publication_inv_def)

lemma sent_for_same: "sent_for L sv p sent \<Longrightarrow> same_publication p p' \<Longrightarrow> sent_for L sv p' sent"
  using same_request by (auto simp: sent_for_def)

lemma Pending_answer:
  assumes "history_ok jd" and "history_Pending F jd = (Inr pending, jd')"
  shows "pending = hf_Pending (history_loaded jd) \<and> jd' = jd"
proof -
  obtain h where "reload_with F HistoryIO (HistoryInvalid ''decode backup history'') history_init history_load jd = Inr h"
    and "pending = hf_Pending h" "jd' = jd"
    using assms(2) by (auto simp: history_Pending_def history_withState_def with_state_def reading_def split: if_splits sum.splits)
  then show ?thesis using history_store.reload_cases [OF assms(1)] by auto
qed

lemma Pending_disk: "snd (history_Pending F jd) = jd"
  by (auto simp: history_Pending_def history_withState_def with_state_def reading_def split: sum.split)

lemma resume_inv:
  assumes L: "cid_lib_ok L" and sv: "service_ok sv" and pl: "ValidString (pl_ID pl)" and inv: "publication_inv L sv w sent"
    and env: "plan_env_ok env" and fresh: "fresh_id L sv (fst (snd (pv_stage env))) (snd w)"
    and run: "resumeBackup L sv pl env w = ((res', sent'), w')"
  shows "publication_inv L sv w' (sent @ sent')"
proof -
  obtain jd sd where w: "w = (jd, sd)" by (cases w)
  obtain p where ok: "sync_ok L sd" "history_ok jd" and p: "publishing p (history_loaded jd)"
    and sent: "sent = [] \<or> sent_for L sv p sent"
    using inv w by (auto simp: publication_inv_def pending_now_def)
  obtain rp jd1 where pend: "history_Pending (pv_journal env) jd = (rp, jd1)" by (cases "history_Pending (pv_journal env) jd")
  then have jd1: "jd1 = jd" using Pending_disk [of "pv_journal env" jd] by simp
  show ?thesis
  proof (cases "\<exists>p'. rp = Inr (Some p')")
    case False
    then have "w' = w \<and> sent' = []"
      using run w pend jd1 by (auto simp: resumeBackup_def split: sum.splits option.splits)
    then show ?thesis using inv by simp
  next
    case True
    then obtain p' where p': "rp = Inr (Some p')" by blast
    then have now: "hf_Pending (history_loaded jd) = Some p'" using Pending_answer [OF ok(2)] pend by fastforce
    then have same: "same_publication p p'" and none: "hf_Conflict (history_loaded jd) = None" using p by (auto simp: publishing_def)
    obtain res where "retryPending L sv pl env p' (jd, sd) = ((res, sent'), w')"
      using run w pend p' jd1 by (auto simp: resumeBackup_def split: prod.splits)
    then have "attempted L sv p' sent' w'"
      using retryPending_run [OF L sv env pl ok(2) none ok(1) now] fresh w by simp
    then obtain p1 where p1: "same_publication p' p1" "pending_now p1 (fst w')" "sync_ok L (snd w')"
      and sent': "sent' = [] \<or> sent_for L sv p1 sent'"
      unfolding attempted_def by (metis same_publication_refl)
    have "sent = [] \<or> sent_for L sv p1 sent"
      using sent sent_for_same same p1(1) by (meson same_publication_trans)
    then have "sent @ sent' = [] \<or> sent_for L sv p1 (sent @ sent')"
      using sent' by (auto simp: sent_for_def)
    then show ?thesis using p1 by (auto simp: publication_inv_def)
  qed
qed

lemma publication_keeps:
  assumes L: "cid_lib_ok L" and sv: "service_ok sv" and pl: "ValidString (pl_ID pl)" "ValidString (pl_BucketID pl)"
    and ok: "history_ok (fst w0)" "hf_Conflict (history_loaded (fst w0)) = None" "sync_ok L (snd w0)"
    and run: "publication L sv pl w0 w sent"
  shows "publication_inv L sv w sent"
  using run
proof induction
  case (start env candidate candidateBase message r res sent w)
  then have "\<exists>p. attempted L sv p sent w"
    using publishCandidate_run [OF L sv start(1) pl ok, of candidate candidateBase message r res sent w]
    by (simp add: publish_args_ok_def)
  then show ?case using attempted_inv by blast
next
  case (resume w sent env res' sent' w')
  then show ?case using resume_inv [OF L sv pl(1)] by blast
next
  case (elsewhere jd sd sent sd')
  then show ?case using sync_step_ws(1) [OF L] by (auto simp: publication_inv_def)
next
  case (bookkeeping jd sd sent c F)
  then obtain p where p: "history_ok jd" "publishing p (history_loaded jd)" "sync_ok L sd" "sent = [] \<or> sent_for L sv p sent"
    by (auto simp: publication_inv_def pending_now_def)
  have "publishing p h'" if "call_update c (history_loaded jd) = Inr h'" for h'
    using that p(2) bookkeeping(3)
    by (cases c) (auto simp: publishing_def history_update_def put_plan_def result_simps split: option.splits)
  then have "pending_now p (snd (history_call_do F c jd))" by (rule pending_now_call [OF p(1) bookkeeping(2) p(2)])
  then show ?case using p by (auto simp: publication_inv_def)
qed

text \<open>
  C6: publishing a backup is idempotent over crashes.  However often a journaled publication is interrupted
  and resumed, under any faults of either file, any answers of the remote and any interleaved activity, every
  request it sends the remote is the same one, under the same operation ID, for the same candidate and base.
  All texts of the calls and of the remote answers are valid UTF-8, and the random identifier of a new stash is not
  in use.
\<close>

theorem backup_publication_idempotent:
  assumes "cid_lib_ok L" and "service_ok sv" and "ValidString (pl_ID pl)" and "ValidString (pl_BucketID pl)"
    and "history_ok (fst w0)" and "hf_Conflict (history_loaded (fst w0)) = None" and "sync_ok L (snd w0)"
    and "publication L sv pl w0 w sent" and "a \<in> set sent" and "b \<in> set sent"
  shows "a = b"
proof -
  obtain p where "sent_for L sv p sent" using publication_keeps [OF assms(1-8)] assms(9) by (auto simp: publication_inv_def)
  then have "Inr a = (Inr b :: dataset_error + ApplyRequest)" using assms(9,10) by (metis sent_for_def)
  then show ?thesis by simp
qed

text \<open>The nightly backup of the candidate \<open>btwo\<close>: the first attempt finds the remote offline.\<close>

definition demo_plan :: plan_info where
  "demo_plan = \<lparr>pl_ID = ''plan'', pl_BucketID = ''data''\<rparr>"

definition demo_env :: plan_env where
  "demo_env = \<lparr>pv_journal = no_faults, pv_created = 5, pv_accepted = Inl ''none'', pv_hasCandidate = (\<lambda>_ _. Inr True),
     pv_status = no_faults, pv_restore = (no_faults, 6), pv_stage = (no_faults, Some demo_random, 6), pv_mark = no_faults,
     pv_push = offline_env, pv_now = 9, pv_done = no_faults\<rparr>"

definition demo_first :: plan_outcome where
  "demo_first = publishCandidate demo_cid demo_service demo_plan demo_env ''btwo'' [] ''nightly'' demo_result (None, demo_pulled)"

lemma demo_first_code [code]:
  "demo_first =
     ((Inl (PlanSync (SyncRemote ''offline'')),
       [\<lparr>rq_OperationID = ''push_MDEyMzQ1Njc4OWFiY2RlZg'', rq_Branch = ''dev'', rq_BaseCommit = ''c1'', rq_BaseRoot = ''bone'',
          rq_CandidateRoot = ''btwo'', rq_BaseRevision = 4, rq_ChangeSetCID = [], rq_Message = ''nightly'', rq_MergePolicy = []\<rparr>]),
      Some (Decoded \<lparr>hd_Version = 2, hd_Plans = Some [], hd_Pending = Some (demo_pending\<lparr>
        pb_StashID := ''MDEyMzQ1Njc4OWFiY2RlZg'', pb_PushID := ''push_MDEyMzQ1Njc4OWFiY2RlZg''\<rparr>), hd_Conflict = None\<rparr>),
      Some (Decoded \<lparr>sf_Version = 3, sf_Workspaces = Some [(''data@ZGV2'',
        demo_workspace\<lparr>ws_Remote := \<lparr>hd_CommitID = ''c3'', hd_Root = ''bthree'', hd_Revision = 6\<rparr>,
          ws_Stashes := [demo_stash\<lparr>st_Message := ''nightly'', st_RequestFrozen := True, st_CreatedAt := 6, st_UpdatedAt := 7\<rparr>],
          ws_UpdatedAt := 8\<rparr>, [Some True])]\<rparr>))"
  by code_simp

text \<open>The process that resumes it later finds the frozen journal and the frozen stash.\<close>

definition demo_frozen_pending :: PendingBackup where
  "demo_frozen_pending = demo_pending\<lparr>pb_StashID := ''MDEyMzQ1Njc4OWFiY2RlZg'', pb_PushID := ''push_MDEyMzQ1Njc4OWFiY2RlZg''\<rparr>"

definition demo_later :: plan_env where
  "demo_later = demo_env\<lparr>pv_stage := (no_faults, None, 8)\<rparr>"

lemma demo_pending_found:
  "history_Pending (pv_journal demo_later) (fst (snd demo_first)) = (Inr (Some demo_frozen_pending), fst (snd demo_first))"
  by code_simp

lemma demo_retry_sends:
  "length (snd (fst (retryPending demo_cid demo_service demo_plan demo_later demo_frozen_pending (snd demo_first)))) = 1"
  by code_simp

lemma demo_resumed:
  "snd (fst (resumeBackup demo_cid demo_service demo_plan demo_later (snd demo_first))) =
     snd (fst (retryPending demo_cid demo_service demo_plan demo_later demo_frozen_pending (snd demo_first)))"
  using demo_pending_found by (cases "snd demo_first") (simp add: resumeBackup_def split: prod.split)

lemma outcome_parts: "x = ((fst (fst x), snd (fst x)), snd x)"
  by simp

lemma singleton: "length xs = 1 \<Longrightarrow> \<exists>a. xs = [a]"
  by (auto simp: length_Suc_conv)

theorem backup_publication_idempotent_witness:
  "\<exists>a b. snd (fst demo_first) = [a] \<and>
     snd (fst (resumeBackup demo_cid demo_service demo_plan demo_later (snd demo_first))) = [b] \<and> a = b"
proof -
  let ?two = "resumeBackup demo_cid demo_service demo_plan demo_later (snd demo_first)"
  have env: "plan_env_ok demo_env" "plan_env_ok demo_later"
    by (simp add: plan_env_ok_def demo_later_def demo_env_def offline_env_def observed_text_def demo_head_def text_eval)+
  have args: "publish_args_ok demo_cid ''btwo'' [] ''nightly'' demo_result"
    "fresh_id demo_cid demo_service (fst (snd (pv_stage demo_env))) (snd (None :: history_disk, demo_pulled))"
    "fresh_id demo_cid demo_service (fst (snd (pv_stage demo_later))) (snd (snd demo_first))"
    "ValidString (pl_ID demo_plan)" "ValidString (pl_BucketID demo_plan)"
    by code_simp+
  have sent: "length (snd (fst demo_first)) = 1" "length (snd (fst ?two)) = 1"
    by code_simp (simp add: demo_resumed demo_retry_sends)
  have one: "publication demo_cid demo_service demo_plan (None, demo_pulled) (snd demo_first) (snd (fst demo_first))"
    by (rule publication.start [OF env(1) args(1,2), of _ "fst (fst demo_first)"]) (simp add: demo_first_def)
  have all: "publication demo_cid demo_service demo_plan (None, demo_pulled) (snd ?two) (snd (fst demo_first) @ snd (fst ?two))"
    by (rule publication.resume [OF one env(2) args(3) outcome_parts])
  obtain a b where ab: "snd (fst demo_first) = [a]" "snd (fst ?two) = [b]"
    using singleton [OF sent(1)] singleton [OF sent(2)] by blast
  have ok: "history_ok None" "hf_Conflict (history_loaded None) = None"
    by (simp_all add: disk_ok_def loaded_def history_init_def)
  have "sync_step demo_cid None demo_pulled"
    unfolding demo_pulled_def by (rule sync_step.pull [OF demo_service_ok]) code_simp
  then have "sync_steps demo_cid None demo_pulled" by (rule r_into_rtranclp)
  from sync_steps_ok [OF demo_cid_ok this] have "sync_ok demo_cid demo_pulled"
    by (simp add: disk_ok_def)
  then have "a = b"
    by (rule backup_publication_idempotent [OF demo_cid_ok demo_service_ok args(4,5), where ?w0.0 = "(None, demo_pulled)",
        unfolded fst_conv snd_conv, OF ok _ all, unfolded ab]) simp_all
  then show ?thesis using ab by blast
qed

end
