(* ===== verification/Cas.thy ===== *)
theory Cas
  imports CidLib
begin

text \<open>
  Content-addressed storage: the block identity of \<open>nodeapi/block.go\<close>, the receipt vocabulary of
  \<open>nodeapi/ports.go\<close>, and the owner-local stores \<open>internal/cas/memory\<close> and
  \<open>internal/cas/spool\<close> with the contract they share.
\<close>

section \<open>Blocks and their identity\<close>

text \<open>
  What the code uses of the multihash and CID libraries beside \<^typ>\<open>cid_lib\<close>: the SHA2-256 multihash of a
  body, the CIDv1 constructor and the codec of a CID.
\<close>

record block_lib =
  bl_Cid :: cid_lib
  mh_Sum256 :: "bytes \<Rightarrow> string option"
  cid_NewV1 :: "nat \<Rightarrow> string \<Rightarrow> cid"
  cid_Type :: "cid \<Rightarrow> nat"

definition cid_Raw :: nat where
  "cid_Raw = 0x55"

record Block =
  bk_Data :: bytes
  bk_Codec :: nat

record PutResult =
  pr_CID :: cid
  pr_Status :: string

datatype cas_error =
    ErrNotFound | ErrCorruptedBlock string | errReadOnlyCAS | CasFailed string

definition IsValidPutStatus :: "string \<Rightarrow> bool" where
  "IsValidPutStatus status \<longleftrightarrow>
     status \<in> {''stored'', ''already_present'', ''duplicate'', ''newly_persisted'', ''duplicate_in_request''}"

definition NormalizeCodec :: "nat \<Rightarrow> nat" where
  "NormalizeCodec codec = (if codec = 0 then cid_Raw else codec)"

definition CIDForBlock :: "block_lib \<Rightarrow> Block \<Rightarrow> cid option" where
  "CIDForBlock L b =
     map_option (cid_NewV1 L (if bk_Codec b = 0 then cid_Raw else bk_Codec b)) (mh_Sum256 L (bk_Data b))"

text \<open>
  What the libraries document: distinct identifiers have distinct texts, a CIDv1 carries its codec, hashing
  other bytes under its prefix is the same construction on those bytes, and its text parses back to it.  The laws
  are stated for every codec number; the library refuses to parse numbers of 64 bits, which no codec table has.
\<close>

definition block_lib_ok :: "block_lib \<Rightarrow> bool" where
  "block_lib_ok L \<longleftrightarrow>
     cid_lib_ok (bl_Cid L) \<and>
     (\<forall>c d. cid_Defined c \<and> cid_Defined d \<and> cid_String (bl_Cid L) c = cid_String (bl_Cid L) d \<longrightarrow> c = d) \<and>
     (\<forall>codec body h. mh_Sum256 L body = Some h \<longrightarrow>
        cid_Type L (cid_NewV1 L codec h) = codec \<and>
        cid_Parse (bl_Cid L) (cid_String (bl_Cid L) (cid_NewV1 L codec h)) = Some (cid_NewV1 L codec h) \<and>
        (\<forall>body'. cid_Sum (bl_Cid L) (cid_NewV1 L codec h) body' = map_option (cid_NewV1 L codec) (mh_Sum256 L body')))"

text \<open>The bytes that a CID written by this code identifies.\<close>

definition addresses :: "block_lib \<Rightarrow> cid \<Rightarrow> bytes \<Rightarrow> bool" where
  "addresses L c body \<longleftrightarrow> CIDForBlock L \<lparr>bk_Data = body, bk_Codec = cid_Type L c\<rparr> = Some c"

lemma CIDForBlock_codec:
  "CIDForBlock L \<lparr>bk_Data = body, bk_Codec = NormalizeCodec codec\<rparr> = CIDForBlock L \<lparr>bk_Data = body, bk_Codec = codec\<rparr>"
  by (simp add: CIDForBlock_def NormalizeCodec_def cid_Raw_def)

lemma block_facts:
  assumes "block_lib_ok L" and "CIDForBlock L b = Some c"
  shows "cid_Defined c" and "cid_Type L c = NormalizeCodec (bk_Codec b)" and "addresses L c (bk_Data b)"
    and "cid_Parse (bl_Cid L) (cid_String (bl_Cid L) c) = Some c"
    and "cid_Sum (bl_Cid L) c body = CIDForBlock L \<lparr>bk_Data = body, bk_Codec = cid_Type L c\<rparr>"
proof -
  let ?codec = "NormalizeCodec (bk_Codec b)"
  obtain h where h: "mh_Sum256 L (bk_Data b) = Some h" and c: "c = cid_NewV1 L ?codec h"
    using assms(2) by (auto simp: CIDForBlock_def NormalizeCodec_def)
  have law: "cid_Type L c = ?codec" "cid_Parse (bl_Cid L) (cid_String (bl_Cid L) c) = Some c"
    "cid_Sum (bl_Cid L) c body = map_option (cid_NewV1 L ?codec) (mh_Sum256 L body)"
    using assms(1) h by (simp_all add: block_lib_ok_def c)
  have codec: "?codec \<noteq> 0" by (simp add: NormalizeCodec_def cid_Raw_def)
  show "cid_Type L c = ?codec" and "cid_Parse (bl_Cid L) (cid_String (bl_Cid L) c) = Some c" using law by simp_all
  show "cid_Sum (bl_Cid L) c body = CIDForBlock L \<lparr>bk_Data = body, bk_Codec = cid_Type L c\<rparr>"
    using law codec by (simp add: CIDForBlock_def)
  show "addresses L c (bk_Data b)"
    using law(1) codec h by (simp add: addresses_def CIDForBlock_def c)
  show "cid_Defined c"
    using assms(1) law(2) by (auto simp: block_lib_ok_def cid_lib_ok_def)
qed

lemma addresses_Sum:
  assumes "block_lib_ok L" and "addresses L c body"
  shows "cid_Sum (bl_Cid L) c body = Some c"
  using block_facts(5) [OF assms(1) assms(2) [unfolded addresses_def], of body] assms(2) by (simp add: addresses_def)

lemma cid_text_inject:
  "block_lib_ok L \<Longrightarrow> cid_Defined c \<Longrightarrow> cid_Defined d \<Longrightarrow> cid_String (bl_Cid L) c = cid_String (bl_Cid L) d \<Longrightarrow> c = d"
  by (simp add: block_lib_ok_def)

section \<open>The in-memory store\<close>

text \<open>\<open>ctx\<close> is the value of \<open>ctx.Err()\<close> at the call.  The mutex makes every operation one step.\<close>

type_synonym memory_store = "(string, bytes) gomap"

definition memory_Get :: "block_lib \<Rightarrow> string option \<Rightarrow> cid \<Rightarrow> memory_store \<Rightarrow> cas_error + bytes" where
  "memory_Get L ctx c s =
     (case ctx of Some e \<Rightarrow> Inl (CasFailed e)
      | None \<Rightarrow>
          require (cid_Defined c) (ErrCorruptedBlock ''undefined CID'') (
          of_option ErrNotFound (gm_get s (cid_String (bl_Cid L) c))))"

definition memory_Has :: "block_lib \<Rightarrow> string option \<Rightarrow> cid \<Rightarrow> memory_store \<Rightarrow> cas_error + bool" where
  "memory_Has L ctx c s =
     (case ctx of Some e \<Rightarrow> Inl (CasFailed e)
      | None \<Rightarrow>
          require (cid_Defined c) (ErrCorruptedBlock ''undefined CID'') (
          Inr (gm_get s (cid_String (bl_Cid L) c) \<noteq> None)))"

definition memory_PutWithCodec ::
  "block_lib \<Rightarrow> string option \<Rightarrow> bytes \<Rightarrow> nat \<Rightarrow> memory_store \<Rightarrow> (cas_error + cid) \<times> memory_store" where
  "memory_PutWithCodec L ctx data codec s =
     (case ctx of Some e \<Rightarrow> (Inl (CasFailed e), s)
      | None \<Rightarrow>
          (case CIDForBlock L \<lparr>bk_Data = data, bk_Codec = codec\<rparr> of
             None \<Rightarrow> (Inl (CasFailed ''multihash''), s)
           | Some c \<Rightarrow> (Inr c, gm_put s (cid_String (bl_Cid L) c) data)))"

definition memory_Put ::
  "block_lib \<Rightarrow> string option \<Rightarrow> bytes \<Rightarrow> memory_store \<Rightarrow> (cas_error + cid) \<times> memory_store" where
  "memory_Put L ctx data = memory_PutWithCodec L ctx data cid_Raw"

section \<open>The spool\<close>

text \<open>
  The \<open>blocks\<close> directory of one publication, from file names to contents; \<open>Open\<close> only creates it.  An open
  can fail for a reason other than \<open>ErrExist\<close>, a write can stop short, the close can fail, and then the
  deferred removal of the partial file can fail as well.
\<close>

type_synonym spool_store = "(string, bytes) gomap"

record spool_faults =
  sf_Open :: bool
  sf_Write :: "nat option"
  sf_Close :: bool
  sf_Remove :: bool

definition no_spool_faults :: spool_faults where
  "no_spool_faults = \<lparr>sf_Open = False, sf_Write = None, sf_Close = False, sf_Remove = False\<rparr>"

definition maxBlockBytes :: nat where
  "maxBlockBytes = 64 * 2 ^ 20"

definition spool_PutWithCodec ::
  "block_lib \<Rightarrow> string option \<Rightarrow> spool_faults \<Rightarrow> bytes \<Rightarrow> nat \<Rightarrow> spool_store \<Rightarrow> (cas_error + cid) \<times> spool_store" where
  "spool_PutWithCodec L ctx F body codec s =
     (case ctx of Some e \<Rightarrow> (Inl (CasFailed e), s)
      | None \<Rightarrow>
          if length body > maxBlockBytes then (Inl (CasFailed ''snapshot spool block is invalid''), s)
          else
            (case CIDForBlock L \<lparr>bk_Data = body, bk_Codec = codec\<rparr> of
               None \<Rightarrow> (Inl (CasFailed ''multihash''), s)
             | Some key \<Rightarrow>
                 let target = cid_String (bl_Cid L) key;
                   abandon = (\<lambda>content. if sf_Remove F then gm_put s target content else s) in
                 if sf_Open F then (Inl (CasFailed ''open''), s)
                 else if gm_get s target \<noteq> None then (Inr key, s)
                 else
                   (case sf_Write F of
                      Some n \<Rightarrow> (Inl (CasFailed ''write''), abandon (take n body))
                    | None \<Rightarrow>
                        if sf_Close F then (Inl (CasFailed ''close''), abandon body)
                        else (Inr key, gm_put s target body))))"

definition spool_Put ::
  "block_lib \<Rightarrow> string option \<Rightarrow> spool_faults \<Rightarrow> bytes \<Rightarrow> spool_store \<Rightarrow> (cas_error + cid) \<times> spool_store" where
  "spool_Put L ctx F body = spool_PutWithCodec L ctx F body cid_Raw"

text \<open>\<open>broken\<close> is an error of \<open>os.ReadFile\<close> other than the absence of the file.\<close>

definition spool_Get :: "block_lib \<Rightarrow> string option \<Rightarrow> bool \<Rightarrow> cid \<Rightarrow> spool_store \<Rightarrow> cas_error + bytes" where
  "spool_Get L ctx broken key s =
     (case ctx of Some e \<Rightarrow> Inl (CasFailed e)
      | None \<Rightarrow>
          require (cid_Defined key) (CasFailed ''snapshot spool block identity is invalid'') (
          require (\<not> broken) (CasFailed ''read'') (
          bindE (of_option (CasFailed ''file does not exist'') (gm_get s (cid_String (bl_Cid L) key))) (\<lambda>body.
          require (length body \<le> maxBlockBytes) (CasFailed ''snapshot spool block exceeds'') (
          bindE (of_option (CasFailed ''multihash'') (CIDForBlock L \<lparr>bk_Data = body, bk_Codec = cid_Type L key\<rparr>)) (\<lambda>computed.
          require (computed = key) (CasFailed ''snapshot spool block bytes do not match CID'') (Inr body)))))))"

section \<open>The contract of a content store\<close>

text \<open>
  What the callers of an owner-local store rely on, identity by identity.  \<open>put\<close> and \<open>get\<close> take the
  circumstances of the call, and \<open>invar c\<close> says that the store is sound at \<open>c\<close>.  In tolerated circumstances a
  successful \<open>put\<close> makes the block readable and no \<open>put\<close> loses one; an untolerated \<open>put\<close> can only harm its own
  block.  \<open>get\<close> never returns other bytes than the CID identifies.
\<close>

locale content_store =
  fixes L :: block_lib
    and put :: "'f \<Rightarrow> bytes \<Rightarrow> nat \<Rightarrow> 's \<Rightarrow> (cas_error + cid) \<times> 's"
    and get :: "'g \<Rightarrow> cid \<Rightarrow> 's \<Rightarrow> cas_error + bytes"
    and tolerated :: "'f \<Rightarrow> bool" and calm :: 'g and invar :: "cid \<Rightarrow> 's \<Rightarrow> bool"
  assumes put_invar: "invar c s \<Longrightarrow> tolerated F \<or> CIDForBlock L \<lparr>bk_Data = data, bk_Codec = codec\<rparr> \<noteq> Some c \<Longrightarrow>
      invar c (snd (put F data codec s))"
    and put_stores: "invar c s \<Longrightarrow> tolerated F \<Longrightarrow> put F data codec s = (Inr c, s') \<Longrightarrow>
      \<exists>b. get calm c s' = Inr b"
    and put_names: "put F data codec s = (Inr c, s') \<Longrightarrow> CIDForBlock L \<lparr>bk_Data = data, bk_Codec = codec\<rparr> = Some c"
    and put_keeps: "invar c s \<Longrightarrow> tolerated F \<or> CIDForBlock L \<lparr>bk_Data = data, bk_Codec = codec\<rparr> \<noteq> Some c \<Longrightarrow>
      get calm c s = Inr b \<Longrightarrow> \<exists>b'. get calm c (snd (put F data codec s)) = Inr b'"
    and get_checked: "invar c s \<Longrightarrow> get G c s = Inr b \<Longrightarrow> addresses L c b"
begin

text \<open>A run of puts: the identities acknowledged so far and the store they leave.\<close>

primrec puts :: "('f \<times> Block) list \<Rightarrow> 's \<Rightarrow> cid list \<times> 's" where
  "puts [] s = ([], s)"
| "puts (x # xs) s =
     (case put (fst x) (bk_Data (snd x)) (bk_Codec (snd x)) s of
        (Inl e, s') \<Rightarrow> puts xs s'
      | (Inr c, s') \<Rightarrow> (case puts xs s' of (cs, t) \<Rightarrow> (c # cs, t)))"

abbreviation after :: "'f \<times> Block \<Rightarrow> 's \<Rightarrow> (cas_error + cid) \<times> 's" where
  "after x \<equiv> put (fst x) (bk_Data (snd x)) (bk_Codec (snd x))"

lemma puts_Cons:
  "snd (puts (x # xs) s) = snd (puts xs (snd (after x s)))"
  "fst (puts (x # xs) s) = (case fst (after x s) of Inl e \<Rightarrow> [] | Inr c \<Rightarrow> [c]) @ fst (puts xs (snd (after x s)))"
  by (simp_all split: sum.split prod.split)

text \<open>The puts of a run that are harmless for \<open>c\<close>.\<close>

abbreviation harmless :: "cid \<Rightarrow> 'f \<times> Block \<Rightarrow> bool" where
  "harmless c x \<equiv> tolerated (fst x) \<or> CIDForBlock L \<lparr>bk_Data = bk_Data (snd x), bk_Codec = bk_Codec (snd x)\<rparr> \<noteq> Some c"

lemma puts_invar: "invar c s \<Longrightarrow> list_all (harmless c) xs \<Longrightarrow> invar c (snd (puts xs s))"
  by (induction xs arbitrary: s) (simp_all add: puts_Cons put_invar del: puts.simps(2))

lemma puts_keep:
  assumes "invar c s" and "list_all (harmless c) xs" and "get calm c s = Inr b"
  shows "\<exists>b'. get calm c (snd (puts xs s)) = Inr b'"
  using assms
proof (induction xs arbitrary: s b)
  case (Cons x xs)
  have t: "harmless c x" "list_all (harmless c) xs" using Cons.prems(2) by simp_all
  obtain b' where "get calm c (snd (after x s)) = Inr b'" using put_keeps [OF Cons.prems(1) t(1) Cons.prems(3)] by blast
  from Cons.IH [OF put_invar [OF Cons.prems(1) t(1)] t(2) this] show ?case unfolding puts_Cons .
qed simp

lemma puts_readable:
  assumes "invar c s" and "list_all (harmless c) xs" and "c \<in> set (fst (puts xs s))"
  shows "\<exists>b. get calm c (snd (puts xs s)) = Inr b \<and> addresses L c b"
  using assms
proof (induction xs arbitrary: s)
  case (Cons x xs)
  let ?s = "snd (after x s)"
  have t: "harmless c x" "list_all (harmless c) xs" using Cons.prems(2) by simp_all
  note inv = put_invar [OF Cons.prems(1) t(1)]
  show ?case
  proof (cases "c \<in> set (fst (puts xs ?s))")
    case True
    then show ?thesis using Cons.IH [OF inv t(2)] unfolding puts_Cons by blast
  next
    case False
    then have "fst (after x s) = Inr c" using Cons.prems(3) unfolding puts_Cons by (auto split: sum.splits)
    then have here: "after x s = (Inr c, ?s)" by (metis prod.collapse)
    with put_names have "tolerated (fst x)" using t(1) by blast
    with put_stores [OF Cons.prems(1) _ here] obtain b where "get calm c ?s = Inr b" by blast
    from puts_keep [OF inv t(2) this] obtain b' where b': "get calm c (snd (puts xs ?s)) = Inr b'" by blast
    then show ?thesis using get_checked [OF puts_invar [OF inv t(2)] b'] unfolding puts_Cons by blast
  qed
qed simp

end

section \<open>The stores keep the contract\<close>

text \<open>What a spool file of this name may hold: nothing, or a body that the CID identifies.\<close>

definition block_at :: "block_lib \<Rightarrow> cid \<Rightarrow> spool_store \<Rightarrow> bool" where
  "block_at L c s \<longleftrightarrow>
     block_lib_ok L \<and>
     (cid_Defined c \<longrightarrow> (\<forall>body. gm_get s (cid_String (bl_Cid L) c) = Some body \<longrightarrow>
        addresses L c body \<and> length body \<le> maxBlockBytes))"

text \<open>Every body in memory is the one its key names.\<close>

definition memory_ok :: "block_lib \<Rightarrow> memory_store \<Rightarrow> bool" where
  "memory_ok L s \<longleftrightarrow>
     block_lib_ok L \<and>
     (\<forall>k body. gm_get s k = Some body \<longrightarrow> (\<exists>c. cid_Defined c \<and> k = cid_String (bl_Cid L) c \<and> addresses L c body))"

lemma memory_Put_cases:
  assumes "memory_PutWithCodec L ctx data codec s = (r, s')"
  shows "(\<exists>e. r = Inl e \<and> s' = s) \<or>
    (\<exists>c. r = Inr c \<and> ctx = None \<and> CIDForBlock L \<lparr>bk_Data = data, bk_Codec = codec\<rparr> = Some c \<and>
       s' = gm_put s (cid_String (bl_Cid L) c) data)"
  using assms by (auto simp: memory_PutWithCodec_def split: option.splits)

lemma memory_ok_put:
  assumes "memory_ok L s" and "CIDForBlock L \<lparr>bk_Data = data, bk_Codec = codec\<rparr> = Some c"
  shows "memory_ok L (gm_put s (cid_String (bl_Cid L) c) data)"
  using assms block_facts(1,3) [of L "\<lparr>bk_Data = data, bk_Codec = codec\<rparr>" c] by (auto simp: memory_ok_def)

interpretation memory: content_store L "memory_PutWithCodec L" "memory_Get L" "\<lambda>_. True" None "\<lambda>_. memory_ok L" for L
proof
  fix s ctx data codec assume "memory_ok L s"
  then show "memory_ok L (snd (memory_PutWithCodec L ctx data codec s))"
    using memory_Put_cases [of L ctx data codec s] memory_ok_put by (metis prod.collapse)
next
  fix s ctx data codec c s' assume ok: "memory_ok L s" and run: "memory_PutWithCodec L ctx data codec s = (Inr c, s')"
  then have c: "CIDForBlock L \<lparr>bk_Data = data, bk_Codec = codec\<rparr> = Some c" "s' = gm_put s (cid_String (bl_Cid L) c) data"
    using memory_Put_cases [OF run] by auto
  then show "\<exists>b. memory_Get L None c s' = Inr b"
    using ok block_facts(1) [OF _ c(1)] by (auto simp: memory_ok_def memory_Get_def)
next
  fix s ctx data codec c s' assume "memory_PutWithCodec L ctx data codec s = (Inr c, s')"
  then show "CIDForBlock L \<lparr>bk_Data = data, bk_Codec = codec\<rparr> = Some c" by (auto dest: memory_Put_cases)
next
  fix s ctx c b data codec assume "memory_Get L None c s = Inr b"
  then show "\<exists>b'. memory_Get L None c (snd (memory_PutWithCodec L ctx data codec s)) = Inr b'"
    using memory_Put_cases [of L ctx data codec s]
    by (cases "memory_PutWithCodec L ctx data codec s") (auto simp: memory_Get_def result_simps)
next
  fix s G c b assume ok: "memory_ok L s" and run: "memory_Get L G c s = Inr b"
  then have c: "cid_Defined c" "gm_get s (cid_String (bl_Cid L) c) = Some b"
    by (auto simp: memory_Get_def result_simps split: option.splits)
  with ok obtain d where d: "cid_Defined d" "cid_String (bl_Cid L) c = cid_String (bl_Cid L) d" "addresses L d b"
    by (auto simp: memory_ok_def)
  then have "c = d" using ok c(1) cid_text_inject by (auto simp: memory_ok_def)
  then show "addresses L c b" using d by simp
qed

text \<open>A put touches no file but that of its own block, whatever fails; and that one only while it is absent.\<close>

lemma spool_Put_frame:
  assumes "block_lib_ok L" and "cid_Defined c" and "CIDForBlock L \<lparr>bk_Data = body, bk_Codec = codec\<rparr> \<noteq> Some c"
  shows "gm_get (snd (spool_PutWithCodec L ctx F body codec s)) (cid_String (bl_Cid L) c) = gm_get s (cid_String (bl_Cid L) c)"
proof -
  have "cid_String (bl_Cid L) c \<noteq> cid_String (bl_Cid L) k" if "CIDForBlock L \<lparr>bk_Data = body, bk_Codec = codec\<rparr> = Some k" for k
    using cid_text_inject [OF assms(1,2)] block_facts(1) [OF assms(1) that] assms(3) that by auto
  then show ?thesis by (auto simp: spool_PutWithCodec_def Let_def split: option.split)
qed

lemma spool_Put_present:
  assumes "gm_get s (cid_String (bl_Cid L) c) \<noteq> None" and "CIDForBlock L \<lparr>bk_Data = body, bk_Codec = codec\<rparr> = Some c"
  shows "snd (spool_PutWithCodec L ctx F body codec s) = s"
  using assms by (auto simp: spool_PutWithCodec_def Let_def split: option.split)

lemma spool_Put_names:
  "spool_PutWithCodec L ctx F body codec s = (Inr c, s') \<Longrightarrow>
     CIDForBlock L \<lparr>bk_Data = body, bk_Codec = codec\<rparr> = Some c \<and> length body \<le> maxBlockBytes"
  by (auto simp: spool_PutWithCodec_def Let_def split: option.splits if_splits)

lemma spool_Put_cases:
  assumes "spool_PutWithCodec L ctx F body codec s = (r, s')" and "\<not> sf_Remove F"
  shows "(\<exists>e. r = Inl e \<and> s' = s) \<or>
    (\<exists>c. r = Inr c \<and> CIDForBlock L \<lparr>bk_Data = body, bk_Codec = codec\<rparr> = Some c \<and> length body \<le> maxBlockBytes \<and>
       (if gm_get s (cid_String (bl_Cid L) c) = None then s' = gm_put s (cid_String (bl_Cid L) c) body else s' = s))"
  using assms by (auto simp: spool_PutWithCodec_def Let_def split: option.splits if_splits)

lemma spool_put_ok:
  assumes "block_at L c s" and "\<not> sf_Remove F \<or> CIDForBlock L \<lparr>bk_Data = body, bk_Codec = codec\<rparr> \<noteq> Some c"
  shows "block_at L c (snd (spool_PutWithCodec L ctx F body codec s))"
proof (cases "cid_Defined c")
  case True
  let ?block = "\<lparr>bk_Data = body, bk_Codec = codec\<rparr>" and ?run = "spool_PutWithCodec L ctx F body codec s"
  have L: "block_lib_ok L" using assms(1) by (simp add: block_at_def)
  show ?thesis
  proof (cases "CIDForBlock L ?block = Some c")
    case False
    then show ?thesis using spool_Put_frame [OF L True False] assms(1) by (simp add: block_at_def)
  next
    case own: True
    then have "\<not> sf_Remove F" using assms(2) by blast
    from spool_Put_cases [OF prod.collapse [symmetric, of ?run] this] show ?thesis
      using assms(1) own block_facts(3) [OF L own] by (auto simp: block_at_def split: if_splits)
  qed
qed (use assms(1) in \<open>simp add: block_at_def\<close>)

lemma spool_Get_stored:
  assumes "block_at L c s" and "cid_Defined c"
  shows "(\<exists>b. spool_Get L None False c s = Inr b) \<longleftrightarrow> gm_get s (cid_String (bl_Cid L) c) \<noteq> None"
  using assms by (auto simp: block_at_def spool_Get_def addresses_def result_simps)

lemma spool_Get_checked:
  "spool_Get L ctx broken c s = Inr b \<Longrightarrow> cid_Defined c \<and> gm_get s (cid_String (bl_Cid L) c) = Some b \<and> addresses L c b"
  by (auto simp: spool_Get_def addresses_def result_simps split: option.splits)

text \<open>The circumstances of a spool call: the context and the faults of the file operations.\<close>

definition spool_put :: "block_lib \<Rightarrow> string option \<times> spool_faults \<Rightarrow> bytes \<Rightarrow> nat \<Rightarrow> spool_store \<Rightarrow> (cas_error + cid) \<times> spool_store" where
  "spool_put L x = spool_PutWithCodec L (fst x) (snd x)"

definition spool_get :: "block_lib \<Rightarrow> string option \<times> bool \<Rightarrow> cid \<Rightarrow> spool_store \<Rightarrow> cas_error + bytes" where
  "spool_get L x = spool_Get L (fst x) (snd x)"

interpretation spool: content_store L "spool_put L" "spool_get L" "\<lambda>x. \<not> sf_Remove (snd x)" "(None, False)" "block_at L" for L
proof
  fix c s and x :: "string option \<times> spool_faults" and data codec
  assume "block_at L c s" and "\<not> sf_Remove (snd x) \<or> CIDForBlock L \<lparr>bk_Data = data, bk_Codec = codec\<rparr> \<noteq> Some c"
  then show "block_at L c (snd (spool_put L x data codec s))" unfolding spool_put_def by (rule spool_put_ok)
next
  fix c s and x :: "string option \<times> spool_faults" and data codec s'
  assume ok: "block_at L c s" and x: "\<not> sf_Remove (snd x)" and run: "spool_put L x data codec s = (Inr c, s')"
  note put = run [unfolded spool_put_def]
  have "block_at L c s'" using spool_put_ok [OF ok disjI1 [OF x], where body = data and codec = codec and ctx = "fst x"] put by simp
  moreover have "cid_Defined c" using block_facts(1) spool_Put_names [OF put] ok by (auto simp: block_at_def)
  moreover have "gm_get s' (cid_String (bl_Cid L) c) \<noteq> None" using spool_Put_cases [OF put x] by (auto split: if_splits)
  ultimately show "\<exists>b. spool_get L (None, False) c s' = Inr b" using spool_Get_stored by (simp add: spool_get_def)
next
  fix s and x :: "string option \<times> spool_faults" and data codec c s'
  assume "spool_put L x data codec s = (Inr c, s')"
  then show "CIDForBlock L \<lparr>bk_Data = data, bk_Codec = codec\<rparr> = Some c" using spool_Put_names by (simp add: spool_put_def)
next
  fix c s and x :: "string option \<times> spool_faults" and data codec b
  let ?run = "spool_PutWithCodec L (fst x) (snd x) data codec s"
  assume ok: "block_at L c s" and x: "\<not> sf_Remove (snd x) \<or> CIDForBlock L \<lparr>bk_Data = data, bk_Codec = codec\<rparr> \<noteq> Some c"
    and found: "spool_get L (None, False) c s = Inr b"
  have c: "cid_Defined c" "gm_get s (cid_String (bl_Cid L) c) \<noteq> None"
    using spool_Get_checked [of L None False c s b] found by (simp_all add: spool_get_def)
  then have "gm_get (snd ?run) (cid_String (bl_Cid L) c) \<noteq> None"
    using ok spool_Put_present [OF c(2)] spool_Put_frame [OF _ c(1)]
    by (cases "CIDForBlock L \<lparr>bk_Data = data, bk_Codec = codec\<rparr> = Some c") (auto simp: block_at_def)
  then show "\<exists>b'. spool_get L (None, False) c (snd (spool_put L x data codec s)) = Inr b'"
    using spool_Get_stored [OF spool_put_ok [OF ok x, where ctx = "fst x"] c(1)] by (simp add: spool_get_def spool_put_def)
next
  fix c s and G :: "string option \<times> bool" and b assume "spool_get L G c s = Inr b"
  then show "addresses L c b" using spool_Get_checked by (simp add: spool_get_def)
qed

end
