(* ===== verification/CasReader.thy ===== *)
theory CasReader
  imports Cas
begin

text \<open>
  The verifying wrapper of \<open>internal/cas/verifying.go\<close> and the batch helper of \<open>internal/cas/cas.go\<close>.  The
  wrapped reader is untrusted: a record of functions over a state of its own, one for each interface the Go
  value implements.
\<close>

record 's reader =
  rd_Get :: "cid \<Rightarrow> 's \<Rightarrow> (cas_error + bytes) \<times> 's"
  rd_Has :: "cid \<Rightarrow> 's \<Rightarrow> (cas_error + bool) \<times> 's"
  rd_HasBatch :: "(cid list \<Rightarrow> 's \<Rightarrow> (cas_error + bool list) \<times> 's) option"
  rd_Put :: "(bytes \<Rightarrow> 's \<Rightarrow> (cas_error + cid) \<times> 's) option"
  rd_PutWithCodec :: "(bytes \<Rightarrow> nat \<Rightarrow> 's \<Rightarrow> (cas_error + cid) \<times> 's) option"
  rd_PutBatch :: "(Block list \<Rightarrow> 's \<Rightarrow> (cas_error + PutResult list) \<times> 's) option"

text \<open>Calls in sequence: the second runs in the state the first leaves, if the first succeeds.\<close>

definition andThen :: "('e + 'a) \<times> 's \<Rightarrow> ('a \<Rightarrow> 's \<Rightarrow> ('e + 'b) \<times> 's) \<Rightarrow> ('e + 'b) \<times> 's" where
  "andThen x f = (case x of (Inl e, s) \<Rightarrow> (Inl e, s) | (Inr v, s) \<Rightarrow> f v s)"

lemma andThen_simps [simp]: "andThen (Inl e, s) f = (Inl e, s)" "andThen (Inr v, s) f = f v s"
  by (simp_all add: andThen_def)

lemma andThen_Inr: "fst (andThen x f) = Inr w \<longleftrightarrow> (\<exists>v. fst x = Inr v \<and> fst (f v (snd x)) = Inr w)"
  by (cases x) (auto simp: andThen_def split: sum.split)

section \<open>The wrapper\<close>

definition cidForData :: "block_lib \<Rightarrow> cid \<Rightarrow> bytes \<Rightarrow> cid option" where
  "cidForData L want data = cid_Sum (bl_Cid L) want data"

definition verifying_Get :: "block_lib \<Rightarrow> 's reader \<Rightarrow> cid \<Rightarrow> 's \<Rightarrow> (cas_error + bytes) \<times> 's" where
  "verifying_Get L v c s =
     (if \<not> cid_Defined c then (Inl (ErrCorruptedBlock ''undefined CID''), s)
      else andThen (rd_Get v c s) (\<lambda>data s'.
        (bindE (of_option (ErrCorruptedBlock ''multihash'') (cidForData L c data)) (\<lambda>got.
         require (got = c) (ErrCorruptedBlock ''got other bytes'') (Inr data)), s')))"

definition verifying_Has :: "'s reader \<Rightarrow> cid \<Rightarrow> 's \<Rightarrow> (cas_error + bool) \<times> 's" where
  "verifying_Has v c s =
     (if \<not> cid_Defined c then (Inl (ErrCorruptedBlock ''undefined CID''), s) else rd_Has v c s)"

fun has_each :: "'s reader \<Rightarrow> cid list \<Rightarrow> 's \<Rightarrow> (cas_error + bool list) \<times> 's" where
  "has_each v [] s = (Inr [], s)"
| "has_each v (c # cs) s =
     andThen (verifying_Has v c s) (\<lambda>b s'. andThen (has_each v cs s') (\<lambda>bs s''. (Inr (b # bs), s'')))"

definition verifying_HasBatch :: "'s reader \<Rightarrow> cid list \<Rightarrow> 's \<Rightarrow> (cas_error + bool list) \<times> 's" where
  "verifying_HasBatch v cs s =
     (if cs = [] then (Inr [], s)
      else if \<not> list_all cid_Defined cs then (Inl (ErrCorruptedBlock ''batch CID is undefined''), s)
      else
        (case rd_HasBatch v of
           Some hasBatch \<Rightarrow> andThen (hasBatch cs s) (\<lambda>bs s'.
             (require (length bs = length cs) (ErrCorruptedBlock ''reader returned other has results'') (Inr bs), s'))
         | None \<Rightarrow> has_each v cs s))"

definition verifyPutResult :: "block_lib \<Rightarrow> cid \<Rightarrow> bytes \<Rightarrow> nat \<Rightarrow> cas_error + cid" where
  "verifyPutResult L got data requestedCodec =
     require (cid_Defined got) (ErrCorruptedBlock ''writer returned undefined CID'') (
     bindE (of_option (ErrCorruptedBlock ''multihash'') (CIDForBlock L \<lparr>bk_Data = data, bk_Codec = requestedCodec\<rparr>)) (\<lambda>want.
     require (want = got) (ErrCorruptedBlock ''writer returned another CID'') (Inr got)))"

definition verifying_Put :: "block_lib \<Rightarrow> 's reader \<Rightarrow> bytes \<Rightarrow> 's \<Rightarrow> (cas_error + cid) \<times> 's" where
  "verifying_Put L v data s =
     (case rd_Put v of
        None \<Rightarrow> (Inl errReadOnlyCAS, s)
      | Some put \<Rightarrow> andThen (put data s) (\<lambda>got s'. (verifyPutResult L got data cid_Raw, s')))"

definition verifying_PutWithCodec :: "block_lib \<Rightarrow> 's reader \<Rightarrow> bytes \<Rightarrow> nat \<Rightarrow> 's \<Rightarrow> (cas_error + cid) \<times> 's" where
  "verifying_PutWithCodec L v data codec s =
     (case rd_PutWithCodec v of
        Some put \<Rightarrow> andThen (put data codec s) (\<lambda>got s'. (verifyPutResult L got data codec, s'))
      | None \<Rightarrow> if NormalizeCodec codec = cid_Raw then verifying_Put L v data s else (Inl errReadOnlyCAS, s))"

fun verify_results :: "block_lib \<Rightarrow> Block list \<Rightarrow> PutResult list \<Rightarrow> cas_error + unit" where
  "verify_results L (b # bs) (r # rs) =
     bindE (verifyPutResult L (pr_CID r) (bk_Data b) (bk_Codec b)) (\<lambda>_.
     require (IsValidPutStatus (pr_Status r)) (ErrCorruptedBlock ''batch result has unsupported status'') (
     verify_results L bs rs))"
| "verify_results L bs rs = Inr ()"

definition verifyBatchResults :: "block_lib \<Rightarrow> Block list \<Rightarrow> PutResult list \<Rightarrow> cas_error + unit" where
  "verifyBatchResults L blocks results =
     require (length results = length blocks) (ErrCorruptedBlock ''writer returned other results'') (
     verify_results L blocks results)"

fun put_each :: "(bytes \<Rightarrow> nat \<Rightarrow> 's \<Rightarrow> (cas_error + cid) \<times> 's) \<Rightarrow> Block list \<Rightarrow> 's \<Rightarrow> (cas_error + PutResult list) \<times> 's" where
  "put_each put [] s = (Inr [], s)"
| "put_each put (b # bs) s =
     andThen (put (bk_Data b) (NormalizeCodec (bk_Codec b)) s) (\<lambda>got s'.
     andThen (put_each put bs s') (\<lambda>rs s''. (Inr (\<lparr>pr_CID = got, pr_Status = ''stored''\<rparr> # rs), s'')))"

definition verifying_PutBatch :: "block_lib \<Rightarrow> 's reader \<Rightarrow> Block list \<Rightarrow> 's \<Rightarrow> (cas_error + PutResult list) \<times> 's" where
  "verifying_PutBatch L v blocks s =
     (if blocks = [] then (Inr [], s)
      else
        (case rd_PutBatch v of
           Some putBatch \<Rightarrow> andThen (putBatch blocks s) (\<lambda>rs s'. (bindE (verifyBatchResults L blocks rs) (\<lambda>_. Inr rs), s'))
         | None \<Rightarrow>
             if rd_Put v = None then (Inl errReadOnlyCAS, s)
             else put_each (verifying_PutWithCodec L v) blocks s))"

text \<open>The wrapper implements every interface itself.\<close>

definition NewVerifyingReader :: "block_lib \<Rightarrow> 's reader \<Rightarrow> 's reader" where
  "NewVerifyingReader L v =
     \<lparr>rd_Get = verifying_Get L v, rd_Has = verifying_Has v, rd_HasBatch = Some (verifying_HasBatch v),
      rd_Put = Some (verifying_Put L v), rd_PutWithCodec = Some (verifying_PutWithCodec L v),
      rd_PutBatch = Some (verifying_PutBatch L v)\<rparr>"

section \<open>Writing several blocks\<close>

text \<open>
  \<open>PutBlocks\<close> on a writer with its \<open>Put\<close> and, where it implements them, \<open>PutWithCodec\<close> and \<open>PutBatch\<close>.
\<close>

definition put_typed ::
  "(bytes \<Rightarrow> 's \<Rightarrow> (cas_error + cid) \<times> 's) \<Rightarrow> (bytes \<Rightarrow> nat \<Rightarrow> 's \<Rightarrow> (cas_error + cid) \<times> 's) option \<Rightarrow>
     bytes \<Rightarrow> nat \<Rightarrow> 's \<Rightarrow> (cas_error + cid) \<times> 's" where
  "put_typed put typed data codec s =
     (if codec = cid_Raw then put data s
      else case typed of
        None \<Rightarrow> (Inl (CasFailed ''writer does not implement cas.TypedWriter''), s)
      | Some putWithCodec \<Rightarrow> putWithCodec data codec s)"

definition PutBlocks ::
  "(bytes \<Rightarrow> 's \<Rightarrow> (cas_error + cid) \<times> 's) \<Rightarrow> (bytes \<Rightarrow> nat \<Rightarrow> 's \<Rightarrow> (cas_error + cid) \<times> 's) option \<Rightarrow>
     (Block list \<Rightarrow> 's \<Rightarrow> (cas_error + PutResult list) \<times> 's) option \<Rightarrow> Block list \<Rightarrow> 's \<Rightarrow> (cas_error + PutResult list) \<times> 's" where
  "PutBlocks put typed batch blocks s =
     (if blocks = [] then (Inr [], s)
      else case batch of
        Some putBatch \<Rightarrow> andThen (putBatch blocks s) (\<lambda>rs s'.
          (require (length rs = length blocks) (CasFailed ''batch writer returned other results'') (Inr rs), s'))
      | None \<Rightarrow> put_each (put_typed put typed) blocks s)"

section \<open>What the wrapper lets through\<close>

lemma verifyPutResult_Inr:
  "verifyPutResult L got data codec = Inr c \<longleftrightarrow>
     c = got \<and> cid_Defined got \<and> CIDForBlock L \<lparr>bk_Data = data, bk_Codec = codec\<rparr> = Some got"
  by (auto simp: verifyPutResult_def result_simps)

abbreviation receipt_for :: "block_lib \<Rightarrow> Block \<Rightarrow> PutResult \<Rightarrow> bool" where
  "receipt_for L b r \<equiv> CIDForBlock L b = Some (pr_CID r) \<and> cid_Defined (pr_CID r) \<and> IsValidPutStatus (pr_Status r)"

lemma block_parts [simp]: "\<lparr>bk_Data = bk_Data b, bk_Codec = bk_Codec b\<rparr> = b"
  by (cases b) simp

lemma verify_results_Inr:
  "verify_results L bs rs = Inr () \<Longrightarrow> length rs = length bs \<Longrightarrow> list_all2 (receipt_for L) bs rs"
  by (induction L bs rs rule: verify_results.induct) (auto simp: verifyPutResult_Inr result_simps)

lemma verifying_put_sound:
  assumes "fst (verifying_PutWithCodec L v data codec s) = Inr c"
  shows "cid_Defined c \<and> CIDForBlock L \<lparr>bk_Data = data, bk_Codec = codec\<rparr> = Some c"
proof (cases "rd_PutWithCodec v")
  case None
  with assms have "NormalizeCodec codec = cid_Raw" and "fst (verifying_Put L v data s) = Inr c"
    by (auto simp: verifying_PutWithCodec_def split: if_splits)
  then show ?thesis
    using CIDForBlock_codec [of L data codec]
    by (auto simp: verifying_Put_def andThen_Inr verifyPutResult_Inr split: option.splits)
next
  case (Some put)
  then show ?thesis
    using assms by (auto simp: verifying_PutWithCodec_def andThen_Inr verifyPutResult_Inr)
qed

lemma put_each_sound:
  assumes "\<And>data codec s c. fst (put data codec s) = Inr c \<Longrightarrow> cid_Defined c \<and> CIDForBlock L \<lparr>bk_Data = data, bk_Codec = codec\<rparr> = Some c"
  shows "fst (put_each put bs s) = Inr rs \<Longrightarrow> list_all2 (receipt_for L) bs rs"
proof (induction bs arbitrary: s rs)
  case (Cons b bs)
  then show ?case
    using assms [of "bk_Data b" "NormalizeCodec (bk_Codec b)"] CIDForBlock_codec [of L "bk_Data b" "bk_Codec b"]
    by (auto simp: andThen_Inr IsValidPutStatus_def)
qed simp

lemma verifying_batch_sound:
  "fst (verifying_PutBatch L v bs s) = Inr rs \<Longrightarrow> list_all2 (receipt_for L) bs rs"
  using put_each_sound [of "verifying_PutWithCodec L v" L bs s rs, OF verifying_put_sound]
  by (auto simp: verifying_PutBatch_def verifyBatchResults_def andThen_Inr result_simps
      split: option.splits if_splits dest!: verify_results_Inr)

lemma has_each_length: "fst (has_each v cs s) = Inr bs \<Longrightarrow> length bs = length cs"
  by (induction cs arbitrary: s bs) (auto simp: andThen_Inr)

end
