(* ===== verification/WritePlan.thy ===== *)
theory WritePlan
  imports CasReader
begin

text \<open>
  Write plans (\<open>writeplan/plan.go\<close>, \<open>writeplan/blocks.go\<close>): the validation of a prepared plan and its
  persistence on an untrusted remote.  Every call that leaves the process, and every read of owner-local
  bytes, is an event; the remote, the local readers and the context are functions of the events so far, so
  they may answer differently each time.
\<close>

section \<open>Candidates and plans\<close>

text \<open>
  \<open>protocol.AuthenticationCandidate\<close> with the fields this code reads: the root, the previous root and the
  targets of its state.  \<open>ac_Rest\<close> is the content that is only passed on.
\<close>

record AuthenticationCandidate =
  ac_Root :: string
  ac_Previous :: string
  ac_PayloadCID :: cid
  ac_Targets :: "cid list"
  ac_Rest :: string

record AuthenticationBatch =
  ab_Profile :: string
  ab_TransactionID :: string
  ab_Base :: string
  ab_Root :: string
  ab_Candidates :: "AuthenticationCandidate list"

text \<open>
  The protocol library: whether a CID is a MALT root, the validation of candidates and batches, the JSON
  round trip the code copies them with, and the batch profile constant.
\<close>

record protocol_lib =
  mc_ParseRoot :: "cid \<Rightarrow> bool"
  ac_Validate :: "AuthenticationCandidate \<Rightarrow> bool"
  ac_Copy :: "AuthenticationCandidate \<Rightarrow> AuthenticationCandidate option"
  ab_Validate :: "AuthenticationBatch \<Rightarrow> bool"
  ab_Copy :: "AuthenticationBatch \<Rightarrow> AuthenticationBatch option"
  AuthenticationBatchProfile :: string

datatype event =
    EvRead cid "string + bytes"
  | EvPut bytes nat "string + cid"
  | EvPutBatch "Block list" "string + PutResult list"
  | EvCandidate AuthenticationCandidate "string + cid"
  | EvTransaction AuthenticationBatch

type_synonym trace = "event list"

record PlanBlock =
  wb_CID :: cid
  wb_Read :: "(trace \<Rightarrow> string + bytes) option"

record Plan =
  wp_Base :: cid
  wp_Root :: cid
  wp_TransactionID :: string
  wp_Candidates :: "AuthenticationCandidate list"
  wp_Blocks :: "PlanBlock list"

record BlockWriter =
  bw_PutWithCodec :: "trace \<Rightarrow> bytes \<Rightarrow> nat \<Rightarrow> string + cid"
  bw_PutBatch :: "(trace \<Rightarrow> Block list \<Rightarrow> string + PutResult list) option"

type_synonym CandidateWriter = "trace \<Rightarrow> AuthenticationCandidate \<Rightarrow> string + cid"

datatype wp_error =
    WpInvalid string | WpLocal string | WpRemote string | WpSubstituted cid

section \<open>Validation\<close>

definition candidateTargets :: "AuthenticationCandidate \<Rightarrow> cid list" where
  "candidateTargets c = (if cid_Defined (ac_PayloadCID c) then [ac_PayloadCID c] else []) @ ac_Targets c"

text \<open>The texts \<open>validate\<close> and \<open>visit\<close> follow from a candidate: its previous root and its targets.\<close>

definition dependencies :: "block_lib \<Rightarrow> AuthenticationCandidate \<Rightarrow> string list" where
  "dependencies L c = ac_Previous c # map (cid_String (bl_Cid L)) (candidateTargets c)"

fun register :: "protocol_lib \<Rightarrow> nat \<Rightarrow> (string, nat) gomap \<Rightarrow> AuthenticationCandidate list \<Rightarrow> wp_error + (string, nat) gomap" where
  "register P i seen [] = Inr seen"
| "register P i seen (c # cs) =
     require (ac_Validate P c) (WpInvalid ''candidate'') (
     require (gm_get seen (ac_Root c) = None) (WpInvalid ''duplicate planned candidate'') (
     register P (i + 1) (gm_put seen (ac_Root c) i) cs))"

definition before_position :: "(string, nat) gomap \<Rightarrow> nat \<Rightarrow> string \<Rightarrow> bool" where
  "before_position seen i root = (case gm_get seen root of None \<Rightarrow> True | Some position \<Rightarrow> position < i)"

fun check_order :: "block_lib \<Rightarrow> (string, nat) gomap \<Rightarrow> nat \<Rightarrow> AuthenticationCandidate list \<Rightarrow> wp_error + unit" where
  "check_order L seen i [] = Inr ()"
| "check_order L seen i (c # cs) =
     require (list_all (before_position seen i) (dependencies L c)) (WpInvalid ''write plan dependency is not child-before-parent'') (
     check_order L seen (i + 1) cs)"

definition plan_validate :: "block_lib \<Rightarrow> protocol_lib \<Rightarrow> Plan \<Rightarrow> wp_error + unit" where
  "plan_validate L P p =
     require (mc_ParseRoot P (wp_Root p)) (WpInvalid ''root'') (
     require (cid_Defined (wp_Base p) \<longrightarrow> mc_ParseRoot P (wp_Base p)) (WpInvalid ''base'') (
     bindE (register P 0 [] (wp_Candidates p)) (\<lambda>seen.
     bindE (check_order L seen 0 (wp_Candidates p)) (\<lambda>_.
     require (wp_Candidates p \<noteq> [] \<longrightarrow> ac_Root (last (wp_Candidates p)) = cid_String (bl_Cid L) (wp_Root p))
       (WpInvalid ''write plan final candidate differs from Root'') (
     require (list_all (\<lambda>b. cid_Defined (wb_CID b) \<and> wb_Read b \<noteq> None) (wp_Blocks p))
       (WpInvalid ''write plan has an unavailable block'') (Inr ()))))))"

section \<open>Blocks\<close>

definition maxBatchBlocks :: nat where
  "maxBatchBlocks = 4096"

definition maxBatchBytes :: nat where
  "maxBatchBytes = 8 * 2 ^ 20"

text \<open>A block whose \<open>Read\<close> is nil does not get past validation; calling it would panic.\<close>

definition readBlock :: "block_lib \<Rightarrow> (trace \<Rightarrow> string option) \<Rightarrow> PlanBlock \<Rightarrow> trace \<Rightarrow> (wp_error + bytes) \<times> trace" where
  "readBlock L ctx b tr =
     (case ctx tr of Some e \<Rightarrow> (Inl (WpLocal e), tr)
      | None \<Rightarrow>
          (case wb_Read b of
             None \<Rightarrow> (Inl (WpLocal ''nil Read''), tr)
           | Some read \<Rightarrow>
               (bindE (map_sum WpLocal id (read tr)) (\<lambda>body.
                require (cid_Sum (bl_Cid L) (wb_CID b) body = Some (wb_CID b))
                  (WpLocal ''local write-plan bytes differ from CID'') (Inr body)), tr @ [EvRead (wb_CID b) (read tr)])))"

fun check_blocks :: "block_lib \<Rightarrow> (trace \<Rightarrow> string option) \<Rightarrow> PlanBlock list \<Rightarrow> trace \<Rightarrow> (wp_error + unit) \<times> trace" where
  "check_blocks L ctx [] tr = (Inr (), tr)"
| "check_blocks L ctx (b # bs) tr = andThen (readBlock L ctx b tr) (\<lambda>_. check_blocks L ctx bs)"

fun check_results :: "cid list \<Rightarrow> PutResult list \<Rightarrow> wp_error + unit" where
  "check_results (c # cs) (r # rs) =
     require (pr_CID r = c) (WpSubstituted c) (
     require (IsValidPutStatus (pr_Status r)) (WpRemote ''unsupported write status'') (
     check_results cs rs))"
| "check_results cs rs = Inr ()"

definition flush ::
  "(trace \<Rightarrow> Block list \<Rightarrow> string + PutResult list) option \<Rightarrow> Block list \<Rightarrow> cid list \<Rightarrow> trace \<Rightarrow> (wp_error + unit) \<times> trace" where
  "flush batch pending expected tr =
     (if pending = [] then (Inr (), tr)
      else case batch of
        None \<Rightarrow> (Inl (WpLocal ''nil batch writer''), tr)
      | Some putBatch \<Rightarrow>
          (bindE (map_sum WpRemote id (putBatch tr pending)) (\<lambda>results.
           require (length results = length expected) (WpRemote ''remote CAS returned other results'') (
           check_results expected results)), tr @ [EvPutBatch pending (putBatch tr pending)]))"

definition put_single :: "BlockWriter \<Rightarrow> cid \<Rightarrow> bytes \<Rightarrow> nat \<Rightarrow> trace \<Rightarrow> (wp_error + unit) \<times> trace" where
  "put_single w c body codec tr =
     (bindE (map_sum WpRemote id (bw_PutWithCodec w tr body codec)) (\<lambda>got.
      require (got = c) (WpSubstituted c) (Inr ())), tr @ [EvPut body codec (bw_PutWithCodec w tr body codec)])"

text \<open>
  The second pass: blocks are collected into a batch until it is full; a writer without batches and a block
  larger than a batch take the single-block path, after the collected blocks are flushed.
\<close>

fun send_blocks ::
  "block_lib \<Rightarrow> (trace \<Rightarrow> string option) \<Rightarrow> BlockWriter \<Rightarrow> PlanBlock list \<Rightarrow> Block list \<Rightarrow> cid list \<Rightarrow> nat \<Rightarrow> trace \<Rightarrow> (wp_error + unit) \<times> trace" where
  "send_blocks L ctx w [] pending expected bytes tr = flush (bw_PutBatch w) pending expected tr"
| "send_blocks L ctx w (b # bs) pending expected bytes tr =
     andThen (readBlock L ctx b tr) (\<lambda>body tr.
       let codec = cid_Type L (wb_CID b); block = \<lparr>bk_Data = body, bk_Codec = codec\<rparr> in
       if bw_PutBatch w = None \<or> length body > maxBatchBytes then
         andThen (flush (bw_PutBatch w) pending expected tr) (\<lambda>_ tr.
         andThen (put_single w (wb_CID b) body codec tr) (\<lambda>_ tr.
         send_blocks L ctx w bs [] [] 0 tr))
       else if length pending = maxBatchBlocks \<or> int (length body) > int maxBatchBytes - int bytes then
         andThen (flush (bw_PutBatch w) pending expected tr) (\<lambda>_ tr.
         send_blocks L ctx w bs [block] [wb_CID b] (length body) tr)
       else send_blocks L ctx w bs (pending @ [block]) (expected @ [wb_CID b]) (bytes + length body) tr)"

definition persistBlocks ::
  "block_lib \<Rightarrow> (trace \<Rightarrow> string option) \<Rightarrow> PlanBlock list \<Rightarrow> BlockWriter option \<Rightarrow> trace \<Rightarrow> (wp_error + unit) \<times> trace" where
  "persistBlocks L ctx blocks writer tr =
     (case writer of
        None \<Rightarrow>
          if blocks \<noteq> [] then (Inl (WpInvalid ''write plan requires a block writer''), tr) else (Inr (), tr)
      | Some w \<Rightarrow>
          andThen (check_blocks L ctx blocks tr) (\<lambda>_. send_blocks L ctx w blocks [] [] 0))"

section \<open>Candidates\<close>

definition cloneCandidate :: "protocol_lib \<Rightarrow> AuthenticationCandidate \<Rightarrow> wp_error + AuthenticationCandidate" where
  "cloneCandidate P c = of_option (WpInvalid ''candidate encoding'') (ac_Copy P c)"

fun install_candidates ::
  "block_lib \<Rightarrow> protocol_lib \<Rightarrow> CandidateWriter \<Rightarrow> AuthenticationCandidate list \<Rightarrow> trace \<Rightarrow> (wp_error + unit) \<times> trace" where
  "install_candidates L P remote [] tr = (Inr (), tr)"
| "install_candidates L P remote (c # cs) tr =
     (case cloneCandidate P c of
        Inl e \<Rightarrow> (Inl e, tr)
      | Inr outbound \<Rightarrow>
          andThen (bindE (map_sum WpRemote id (remote tr outbound)) (\<lambda>got.
              require (cid_String (bl_Cid L) got = ac_Root c) (WpSubstituted got) (Inr ())), tr @ [EvCandidate outbound (remote tr outbound)])
            (\<lambda>_. install_candidates L P remote cs))"

definition Persist ::
  "block_lib \<Rightarrow> protocol_lib \<Rightarrow> (trace \<Rightarrow> string option) \<Rightarrow> Plan \<Rightarrow> BlockWriter option \<Rightarrow> CandidateWriter option \<Rightarrow> (wp_error + unit) \<times> trace" where
  "Persist L P ctx p writer remote =
     (case plan_validate L P p of
        Inl e \<Rightarrow> (Inl e, [])
      | Inr _ \<Rightarrow>
          (case remote of
             None \<Rightarrow> (Inl (WpInvalid ''write plan requires a candidate writer''), [])
           | Some write \<Rightarrow>
               andThen (persistBlocks L ctx (wp_Blocks p) writer []) (\<lambda>_.
               install_candidates L P write (wp_Candidates p))))"

text \<open>The receipt type and its validation belong to the protocol library.\<close>

definition plan_batch :: "block_lib \<Rightarrow> protocol_lib \<Rightarrow> Plan \<Rightarrow> AuthenticationBatch" where
  "plan_batch L P p =
     \<lparr>ab_Profile = AuthenticationBatchProfile P, ab_TransactionID = wp_TransactionID p,
      ab_Base = cid_String (bl_Cid L) (wp_Base p), ab_Root = cid_String (bl_Cid L) (wp_Root p), ab_Candidates = wp_Candidates p\<rparr>"

definition PersistBatch ::
  "block_lib \<Rightarrow> protocol_lib \<Rightarrow> ('r \<Rightarrow> AuthenticationBatch \<Rightarrow> bool) \<Rightarrow> (trace \<Rightarrow> string option) \<Rightarrow> Plan \<Rightarrow> BlockWriter option \<Rightarrow>
     (trace \<Rightarrow> AuthenticationBatch \<Rightarrow> string + 'r) option \<Rightarrow> (wp_error + 'r) \<times> trace" where
  "PersistBatch L P receipt_Validate ctx p writer remote =
     (let batch = plan_batch L P p in
      case plan_validate L P p of
        Inl e \<Rightarrow> (Inl e, [])
      | Inr _ \<Rightarrow>
          if \<not> ab_Validate P batch then (Inl (WpInvalid ''batch''), [])
          else
            (case remote of
               None \<Rightarrow> (Inl (WpInvalid ''write plan requires a batch writer''), [])
             | Some write \<Rightarrow>
                 andThen (persistBlocks L ctx (wp_Blocks p) writer []) (\<lambda>_ tr.
                 case ab_Copy P batch of
                   None \<Rightarrow> (Inl (WpInvalid ''batch encoding''), tr)
                 | Some outbound \<Rightarrow>
                     (bindE (map_sum WpRemote id (write tr outbound)) (\<lambda>receipt.
                      require (receipt_Validate receipt batch) (WpRemote ''receipt'') (Inr receipt)),
                      tr @ [EvTransaction outbound]))))"

end
