(* ===== verification/WritePlanRun.thy ===== *)
theory WritePlanRun
  imports WritePlan
begin

text \<open>
  What a persisted plan leaves in the trace of events: which blocks the remote acknowledged, which candidates
  it installed, and that nothing unchecked was sent.
\<close>

section \<open>Reading a trace\<close>

fun acknowledges :: "event \<Rightarrow> cid list" where
  "acknowledges (EvPut body codec (Inr c)) = [c]"
| "acknowledges (EvPutBatch blocks (Inr results)) = map pr_CID results"
| "acknowledges e = []"

fun installs :: "block_lib \<Rightarrow> event \<Rightarrow> string list" where
  "installs L (EvCandidate c (Inr got)) = [cid_String (bl_Cid L) got]"
| "installs L e = []"

definition acknowledged :: "trace \<Rightarrow> cid list" where
  "acknowledged tr = concat (map acknowledges tr)"

definition installed :: "block_lib \<Rightarrow> trace \<Rightarrow> string list" where
  "installed L tr = concat (map (installs L) tr)"

fun is_read :: "event \<Rightarrow> bool" where
  "is_read (EvRead c a) = True"
| "is_read e = False"

text \<open>The body is the one the CID of a planned block names, under its codec.\<close>

definition names_body :: "block_lib \<Rightarrow> cid \<Rightarrow> Block \<Rightarrow> bool" where
  "names_body L c b \<longleftrightarrow> cid_Sum (bl_Cid L) c (bk_Data b) = Some c \<and> bk_Codec b = cid_Type L c"

definition total_bytes :: "Block list \<Rightarrow> nat" where
  "total_bytes bs = sum_list (map (\<lambda>b. length (bk_Data b)) bs)"

fun upload_ok :: "block_lib \<Rightarrow> cid set \<Rightarrow> event \<Rightarrow> bool" where
  "upload_ok L S (EvRead c a) = True"
| "upload_ok L S (EvPut body codec a) = (\<exists>c \<in> S. names_body L c \<lparr>bk_Data = body, bk_Codec = codec\<rparr>)"
| "upload_ok L S (EvPutBatch bs a) =
     (bs \<noteq> [] \<and> length bs \<le> maxBatchBlocks \<and> total_bytes bs \<le> maxBatchBytes \<and> (\<forall>b \<in> set bs. \<exists>c \<in> S. names_body L c b))"
| "upload_ok L S e = False"

lemma acknowledged_append [simp]: "acknowledged (xs @ ys) = acknowledged xs @ acknowledged ys"
  by (simp add: acknowledged_def)

lemma installed_append [simp]: "installed L (xs @ ys) = installed L xs @ installed L ys"
  by (simp add: installed_def)

lemma acknowledged_Nil [simp]: "acknowledged [] = []"
  by (simp add: acknowledged_def)

lemma installed_Nil [simp]: "installed L [] = []"
  by (simp add: installed_def)

lemma upload_no_installs: "list_all (upload_ok L S) tr \<Longrightarrow> installed L tr = []"
  by (induction tr) (auto simp: installed_def elim: upload_ok.elims)

lemma reads_no_acks: "list_all is_read tr \<Longrightarrow> acknowledged tr = []"
  by (induction tr) (auto simp: acknowledged_def elim: is_read.elims)

lemma reads_uploads: "list_all is_read tr \<Longrightarrow> list_all (upload_ok L S) tr"
  by (induction tr) (auto elim: is_read.elims)

lemma andThen_eq: "andThen x f = (r, t) \<longleftrightarrow> (\<exists>e. x = (Inl e, t) \<and> r = Inl e) \<or> (\<exists>v s. x = (Inr v, s) \<and> f v s = (r, t))"
  by (auto simp: andThen_def split: prod.splits sum.splits)

section \<open>Uploads\<close>

text \<open>
  A call that starts after \<open>tr\<close> adds only checked uploads, and when it succeeds the remote has
  acknowledged exactly \<open>ids\<close>, in order.
\<close>

definition uploads :: "block_lib \<Rightarrow> cid set \<Rightarrow> cid list \<Rightarrow> trace \<Rightarrow> ('e + 'a) \<times> trace \<Rightarrow> bool" where
  "uploads L S ids tr res \<longleftrightarrow>
     (\<exists>new. snd res = tr @ new \<and> list_all (upload_ok L S) new \<and> (\<not> isl (fst res) \<longrightarrow> acknowledged new = ids))"

lemma not_isl_unit: "\<not> isl x \<longleftrightarrow> x = Inr ()"
  by (cases x) auto

lemma uploads_andThen:
  assumes "uploads L S xs tr x" and "\<And>v s. x = (Inr v, s) \<Longrightarrow> uploads L S ys s (f v s)"
  shows "uploads L S (xs @ ys) tr (andThen x f)"
proof (cases "fst x")
  case (Inl e)
  then have x: "x = (Inl e, snd x)" by (cases x) simp
  show ?thesis using assms(1) by (subst x) (auto simp: uploads_def)
next
  case (Inr v)
  then have x: "x = (Inr v, snd x)" by (cases x) simp
  obtain new where new: "snd x = tr @ new" "list_all (upload_ok L S) new" "acknowledged new = xs"
    using assms(1) Inr by (auto simp: uploads_def)
  obtain more' where "snd (f v (snd x)) = snd x @ more'" "list_all (upload_ok L S) more'"
    "\<not> isl (fst (f v (snd x))) \<longrightarrow> acknowledged more' = ys"
    using assms(2) [OF x] by (auto simp: uploads_def)
  then show ?thesis
    using new by (subst x) (auto simp: uploads_def intro!: exI [of _ "new @ more'"])
qed

lemma readBlock_cases:
  assumes "readBlock L ctx b tr = (r, tr')"
  shows "(\<exists>e new. r = Inl e \<and> tr' = tr @ new \<and> list_all is_read new) \<or>
    (\<exists>body. r = Inr body \<and> tr' = tr @ [EvRead (wb_CID b) (Inr body)] \<and> cid_Sum (bl_Cid L) (wb_CID b) body = Some (wb_CID b))"
  using assms by (cases "the (wb_Read b) tr") (auto simp: readBlock_def require_def split: option.splits if_splits)

lemma readBlock_uploads: "uploads L S [] tr (readBlock L ctx b tr)"
  using readBlock_cases [OF prod.collapse [symmetric], of L ctx b tr]
  by (auto simp: uploads_def acknowledged_def reads_uploads)

lemma check_results_CIDs:
  "check_results cs rs = Inr () \<Longrightarrow> length rs = length cs \<Longrightarrow> map pr_CID rs = cs"
  by (induction cs rs rule: check_results.induct) (auto simp: result_simps)

definition pending_ok :: "block_lib \<Rightarrow> cid set \<Rightarrow> Block list \<Rightarrow> cid list \<Rightarrow> nat \<Rightarrow> bool" where
  "pending_ok L S pending expected bytes \<longleftrightarrow>
     list_all2 (\<lambda>b c. c \<in> S \<and> names_body L c b) pending expected \<and> bytes = total_bytes pending \<and>
     bytes \<le> maxBatchBytes \<and> length pending \<le> maxBatchBlocks"

lemma pending_ok_Nil [simp]: "pending_ok L S [] [] 0"
  by (simp add: pending_ok_def total_bytes_def)

lemma flush_uploads:
  assumes "pending_ok L S pending expected bytes"
  shows "uploads L S expected tr (flush batch pending expected tr)"
proof -
  have "\<exists>c \<in> S. names_body L c b" if "b \<in> set pending" for b
    using assms that by (auto simp: pending_ok_def list_all2_conv_all_nth in_set_conv_nth)
  moreover have "length expected = length pending" using assms by (auto simp: pending_ok_def dest: list_all2_lengthD)
  ultimately show ?thesis
    using assms check_results_CIDs [of expected]
    by (auto simp: uploads_def flush_def pending_ok_def acknowledged_def result_simps bindE_def map_sum_def require_def
        not_isl_unit split: option.splits sum.splits if_splits)
qed

lemma put_single_uploads:
  assumes "c \<in> S" and "names_body L c \<lparr>bk_Data = body, bk_Codec = codec\<rparr>"
  shows "uploads L S [c] tr (put_single w c body codec tr)"
  using assms by (auto simp: uploads_def put_single_def acknowledged_def bindE_def map_sum_def require_def split: sum.splits)

text \<open>What happens with one verified body, and then with the remaining blocks.\<close>

lemma send_step_uploads:
  fixes body codec
  defines "block \<equiv> \<lparr>bk_Data = body, bk_Codec = codec\<rparr>"
  assumes c: "c \<in> S" "names_body L c block" and pending: "pending_ok L S pending expected bytes"
    and rest: "\<And>pending expected bytes tr. pending_ok L S pending expected bytes \<Longrightarrow>
      uploads L S (expected @ ids) tr (rest pending expected bytes tr)"
  shows "uploads L S (expected @ c # ids) tr
    (if bw_PutBatch w = None \<or> length body > maxBatchBytes then
       andThen (flush (bw_PutBatch w) pending expected tr) (\<lambda>_ tr.
       andThen (put_single w c body codec tr) (\<lambda>_ tr. rest [] [] 0 tr))
     else if length pending = maxBatchBlocks \<or> int (length body) > int maxBatchBytes - int bytes then
       andThen (flush (bw_PutBatch w) pending expected tr) (\<lambda>_ tr. rest [block] [c] (length body) tr)
     else rest (pending @ [block]) (expected @ [c]) (bytes + length body) tr)"
proof -
  note flushed = flush_uploads [OF pending]
  have single: "uploads L S ([c] @ ids) s (andThen (put_single w c body codec s) (\<lambda>_ tr. rest [] [] 0 tr))" for s
    by (rule uploads_andThen [OF put_single_uploads]) (use c rest [of "[]" "[]" 0] in \<open>simp_all add: block_def\<close>)
  have fresh: "uploads L S ([c] @ ids) s (rest [block] [c] (length body) s)" if "length body \<le> maxBatchBytes" for s
    using c that by (intro rest) (simp add: pending_ok_def total_bytes_def maxBatchBlocks_def block_def)
  have "pending_ok L S (pending @ [block]) (expected @ [c]) (bytes + length body)"
    if "length pending \<noteq> maxBatchBlocks" "\<not> int (length body) > int maxBatchBytes - int bytes"
    using c pending that by (auto simp: pending_ok_def total_bytes_def block_def intro: list_all2_appendI)
  from rest [OF this] uploads_andThen [OF flushed single] uploads_andThen [OF flushed fresh] show ?thesis by auto
qed

lemma send_blocks_uploads:
  assumes "set (map wb_CID bs) \<subseteq> S" and "pending_ok L S pending expected bytes"
  shows "uploads L S (expected @ map wb_CID bs) tr (send_blocks L ctx w bs pending expected bytes tr)"
  using assms
proof (induction bs arbitrary: pending expected bytes tr)
  case Nil
  then show ?case by (simp add: flush_uploads)
next
  case (Cons b bs)
  have inS: "wb_CID b \<in> S" "set (map wb_CID bs) \<subseteq> S" using Cons.prems(1) by auto
  have "uploads L S ([] @ expected @ wb_CID b # map wb_CID bs) tr (send_blocks L ctx w (b # bs) pending expected bytes tr)"
    unfolding send_blocks.simps Let_def
  proof (rule uploads_andThen [OF readBlock_uploads])
    fix body t assume "readBlock L ctx b tr = (Inr body, t)"
    then have "cid_Sum (bl_Cid L) (wb_CID b) body = Some (wb_CID b)" using readBlock_cases by blast
    then have named: "names_body L (wb_CID b) \<lparr>bk_Data = body, bk_Codec = cid_Type L (wb_CID b)\<rparr>"
      by (simp add: names_body_def)
    show "uploads L S (expected @ wb_CID b # map wb_CID bs) t
        (if bw_PutBatch w = None \<or> length body > maxBatchBytes then
           andThen (flush (bw_PutBatch w) pending expected t) (\<lambda>_ tr.
           andThen (put_single w (wb_CID b) body (cid_Type L (wb_CID b)) tr) (\<lambda>_ tr. send_blocks L ctx w bs [] [] 0 tr))
         else if length pending = maxBatchBlocks \<or> int (length body) > int maxBatchBytes - int bytes then
           andThen (flush (bw_PutBatch w) pending expected t) (\<lambda>_ tr.
           send_blocks L ctx w bs [\<lparr>bk_Data = body, bk_Codec = cid_Type L (wb_CID b)\<rparr>] [wb_CID b] (length body) tr)
         else send_blocks L ctx w bs (pending @ [\<lparr>bk_Data = body, bk_Codec = cid_Type L (wb_CID b)\<rparr>]) (expected @ [wb_CID b])
           (bytes + length body) t)"
      by (rule send_step_uploads [OF inS(1) named Cons.prems(2) Cons.IH [OF inS(2)]])
  qed
  then show ?case by simp
qed

section \<open>The phases of a plan\<close>

text \<open>Each planned block was read once, and its bytes were the ones its CID names.\<close>

definition all_checked :: "block_lib \<Rightarrow> PlanBlock list \<Rightarrow> trace \<Rightarrow> bool" where
  "all_checked L bs reads \<longleftrightarrow>
     list_all2 (\<lambda>b e. \<exists>body. e = EvRead (wb_CID b) (Inr body) \<and> cid_Sum (bl_Cid L) (wb_CID b) body = Some (wb_CID b)) bs reads"

lemma check_blocks_reads:
  assumes "check_blocks L ctx bs tr = (r, tr')"
  shows "\<exists>new. tr' = tr @ new \<and> list_all is_read new \<and> (r = Inr () \<longrightarrow> all_checked L bs new)"
  using assms
proof (induction bs arbitrary: tr)
  case (Cons b bs)
  then consider (stop) e where "readBlock L ctx b tr = (Inl e, tr')" "r = Inl e"
    | (on) body s where "readBlock L ctx b tr = (Inr body, s)" "check_blocks L ctx bs s = (r, tr')"
    by (auto simp: andThen_eq)
  then show ?case
  proof cases
    case stop
    then show ?thesis using readBlock_cases [OF stop(1)] by auto
  next
    case on
    from Cons.IH [OF on(2)] readBlock_cases [OF on(1)] obtain new where
      "tr' = s @ new" "list_all is_read new" "s = tr @ [EvRead (wb_CID b) (Inr body)]" "cid_Sum (bl_Cid L) (wb_CID b) body = Some (wb_CID b)"
      "r = Inr () \<longrightarrow> all_checked L bs new"
      by blast
    then show ?thesis by (intro exI [of _ "EvRead (wb_CID b) (Inr body) # new"]) (auto simp: all_checked_def)
  qed
qed (simp add: all_checked_def)

lemma persistBlocks_run:
  assumes "persistBlocks L ctx bs writer tr = (r, tr')"
  shows "\<exists>reads new. tr' = tr @ reads @ new \<and> list_all is_read reads \<and> list_all (upload_ok L (set (map wb_CID bs))) new \<and>
    (new \<noteq> [] \<or> r = Inr () \<longrightarrow> all_checked L bs reads) \<and> (r = Inr () \<longrightarrow> acknowledged new = map wb_CID bs)"
proof (cases writer)
  case None
  then show ?thesis using assms by (auto simp: persistBlocks_def all_checked_def split: if_splits)
next
  case (Some w)
  then consider (stop) e where "check_blocks L ctx bs tr = (Inl e, tr')" "r = Inl e"
    | (on) s where "check_blocks L ctx bs tr = (Inr (), s)" "send_blocks L ctx w bs [] [] 0 s = (r, tr')"
    using assms by (auto simp: persistBlocks_def andThen_eq)
  then show ?thesis
  proof cases
    case stop
    then obtain new where "tr' = tr @ new" "list_all is_read new" using check_blocks_reads [OF stop(1)] by blast
    then show ?thesis using stop(2) by (intro exI [of _ new] exI [of _ "[]"]) simp
  next
    case on
    obtain reads where "s = tr @ reads" "list_all is_read reads" "all_checked L bs reads"
      using check_blocks_reads [OF on(1)] by blast
    moreover obtain new where "tr' = s @ new" "list_all (upload_ok L (set (map wb_CID bs))) new"
      "r = Inr () \<longrightarrow> acknowledged new = map wb_CID bs"
      using send_blocks_uploads [OF order.refl pending_ok_Nil, where bs = bs and L = L and tr = s and ctx = ctx and w = w] on(2) by (auto simp: uploads_def not_isl_unit)
    ultimately show ?thesis by (intro exI [of _ reads] exI [of _ new]) auto
  qed
qed

text \<open>
  The events of installing candidates: the one sent at any point is a copy of the next candidate, and exactly
  the candidates before it have been installed.
\<close>

definition installs_in_order :: "block_lib \<Rightarrow> protocol_lib \<Rightarrow> AuthenticationCandidate list \<Rightarrow> trace \<Rightarrow> bool" where
  "installs_in_order L P cs new \<longleftrightarrow>
     (\<forall>e \<in> set new. \<exists>out a. e = EvCandidate out a) \<and>
     (\<forall>xs out a ys. new = xs @ EvCandidate out a # ys \<longrightarrow>
        length xs < length cs \<and> ac_Copy P (cs ! length xs) = Some out \<and> installed L xs = map ac_Root (take (length xs) cs))"

lemma installs_in_order_Cons:
  assumes "installs_in_order L P cs new" and "ac_Copy P c = Some out" and "cid_String (bl_Cid L) got = ac_Root c"
  shows "installs_in_order L P (c # cs) (EvCandidate out (Inr got) # new)"
  unfolding installs_in_order_def
proof (intro conjI ballI allI impI)
  fix xs out' a ys assume split: "EvCandidate out (Inr got) # new = xs @ EvCandidate out' a # ys"
  then show "length xs < length (c # cs)" "ac_Copy P ((c # cs) ! length xs) = Some out'"
    "installed L xs = map ac_Root (take (length xs) (c # cs))"
    using assms by (cases xs; auto simp: installs_in_order_def installed_def)+
qed (use assms in \<open>auto simp: installs_in_order_def\<close>)

lemma install_candidates_run:
  assumes "install_candidates L P remote cs tr = (r, tr')"
  shows "\<exists>new. tr' = tr @ new \<and> installs_in_order L P cs new \<and> (r = Inr () \<longrightarrow> installed L new = map ac_Root cs)"
  using assms
proof (induction cs arbitrary: tr)
  case Nil
  then show ?case by (simp add: installs_in_order_def)
next
  case (Cons c cs)
  show ?case
  proof (cases "ac_Copy P c")
    case None
    then show ?thesis using Cons.prems by (auto simp: cloneCandidate_def installs_in_order_def)
  next
    case (Some out)
    let ?e = "EvCandidate out (remote tr out)"
    consider (stop) e where "r = Inl e" "tr' = tr @ [?e]"
      | (on) got where "remote tr out = Inr got" "cid_String (bl_Cid L) got = ac_Root c"
        "install_candidates L P remote cs (tr @ [?e]) = (r, tr')"
      using Cons.prems Some
      by (cases "remote tr out") (auto simp: cloneCandidate_def andThen_eq require_def split: if_splits)
    then show ?thesis
    proof cases
      case stop
      have "installs_in_order L P (c # cs) [?e]" using Some by (auto simp: installs_in_order_def Cons_eq_append_conv)
      then show ?thesis using stop by auto
    next
      case on
      from Cons.IH [OF on(3)] obtain new where "tr' = tr @ ?e # new" "installs_in_order L P cs new"
        "r = Inr () \<longrightarrow> installed L new = map ac_Root cs" by auto
      then show ?thesis
        using on installs_in_order_Cons [OF _ Some on(2)] by (intro exI [of _ "?e # new"]) (auto simp: installed_def)
    qed
  qed
qed

end
