(* ===== verification/Staging.thy ===== *)
theory Staging
  imports WritePlanRun
begin

text \<open>
  Staging a write plan (\<open>writeplan/staging.go\<close>): blocks go to a private spool, candidates to an ordered list,
  and \<open>Plan\<close> keeps the candidates that the final root needs.  The directory handle, \<open>NewStaging\<close>'s creation of
  the directory and \<open>Close\<close>'s removal of it are the life time of the spool.
\<close>

section \<open>State and operations\<close>

record Staging =
  sg_local :: spool_store
  sg_keys :: "cid list"
  sg_seen :: "(cid, bool) gomap"
  sg_candidates :: "AuthenticationCandidate list"
  sg_roots :: "(string, nat) gomap"
  sg_sourceRoots :: "(string, bool) gomap"

definition NewStaging :: Staging where
  "NewStaging = \<lparr>sg_local = [], sg_keys = [], sg_seen = [], sg_candidates = [], sg_roots = [], sg_sourceRoots = []\<rparr>"

definition staging_PutWithCodec ::
  "block_lib \<Rightarrow> string option \<Rightarrow> spool_faults \<Rightarrow> bytes \<Rightarrow> nat \<Rightarrow> Staging \<Rightarrow> (cas_error + cid) \<times> Staging" where
  "staging_PutWithCodec L ctx F body codec s =
     (case spool_PutWithCodec L ctx F body codec (sg_local s) of
        (Inl e, l) \<Rightarrow> (Inl e, s\<lparr>sg_local := l\<rparr>)
      | (Inr key, l) \<Rightarrow>
          (Inr key,
           if gm_flag (sg_seen s) key then s\<lparr>sg_local := l\<rparr>
           else s\<lparr>sg_local := l, sg_seen := gm_put (sg_seen s) key True, sg_keys := sg_keys s @ [key]\<rparr>))"

definition staging_Put ::
  "block_lib \<Rightarrow> string option \<Rightarrow> spool_faults \<Rightarrow> bytes \<Rightarrow> Staging \<Rightarrow> (cas_error + cid) \<times> Staging" where
  "staging_Put L ctx F body = staging_PutWithCodec L ctx F body cid_Raw"

text \<open>Blocks that were not staged are read through the block source, if there is one.\<close>

definition staging_Get ::
  "block_lib \<Rightarrow> string option \<Rightarrow> bool \<Rightarrow> (cid \<Rightarrow> cas_error + bytes) option \<Rightarrow> cid \<Rightarrow> Staging \<Rightarrow> cas_error + bytes" where
  "staging_Get L ctx broken blocks key s =
     (if gm_flag (sg_seen s) key then spool_Get L ctx broken key (sg_local s)
      else case blocks of None \<Rightarrow> Inl (CasFailed ''planned block is unavailable'') | Some get \<Rightarrow> get key)"

definition staging_AuthenticationCandidate ::
  "block_lib \<Rightarrow> protocol_lib \<Rightarrow> (cid \<Rightarrow> string + AuthenticationCandidate option) option \<Rightarrow> cid \<Rightarrow> Staging \<Rightarrow>
     (wp_error + AuthenticationCandidate) \<times> Staging" where
  "staging_AuthenticationCandidate L P source root s =
     (let key = cid_String (bl_Cid L) root in
      case source of
        Some lookup \<Rightarrow>
          (case lookup root of
             Inl e \<Rightarrow> (Inl (WpRemote e), s)
           | Inr None \<Rightarrow> (Inl (WpRemote ''source substituted planned before-image''), s)
           | Inr (Some c) \<Rightarrow>
               if ac_Root c \<noteq> key then (Inl (WpRemote ''source substituted planned before-image''), s)
               else (Inr c, s\<lparr>sg_sourceRoots := gm_put (sg_sourceRoots s) key True\<rparr>))
      | None \<Rightarrow>
          (case gm_get (sg_roots s) key of
             Some index \<Rightarrow> (cloneCandidate P (sg_candidates s ! index), s)
           | None \<Rightarrow> (Inl (WpInvalid ''planned candidate is unavailable''), s)))"

text \<open>\<open>cid.MustParse\<close> panics on a root that is not a CID; a valid candidate does not have one.\<close>

definition staging_MaterializeAuthentication ::
  "block_lib \<Rightarrow> protocol_lib \<Rightarrow> string option \<Rightarrow> AuthenticationCandidate \<Rightarrow> Staging \<Rightarrow> (wp_error + cid) \<times> Staging" where
  "staging_MaterializeAuthentication L P ctx c s =
     (case ctx of Some e \<Rightarrow> (Inl (WpLocal e), s)
      | None \<Rightarrow>
          if \<not> ac_Validate P c then (Inl (WpInvalid ''candidate''), s)
          else
            (case cid_Parse (bl_Cid L) (ac_Root c) of
               None \<Rightarrow> (Inl (WpInvalid ''panic: root''), s)
             | Some root \<Rightarrow>
                 if gm_get (sg_roots s) (ac_Root c) \<noteq> None then (Inr root, s)
                 else
                   (case cloneCandidate P c of
                      Inl e \<Rightarrow> (Inl e, s)
                    | Inr copy \<Rightarrow>
                        (Inr root, s\<lparr>sg_roots := gm_put (sg_roots s) (ac_Root c) (length (sg_candidates s)),
                           sg_candidates := sg_candidates s @ [copy]\<rparr>))))"

section \<open>The candidates a root needs\<close>

text \<open>
  The recursive closure \<open>visit\<close> inside \<open>Plan\<close>, over the list of keys still to be visited; the roots form a
  graph that may have cycles, so that it returns is something to prove.
\<close>

partial_function (option) visit ::
  "block_lib \<Rightarrow> Staging \<Rightarrow> string list \<Rightarrow> (string, bool) gomap \<Rightarrow> (string, bool) gomap option" where
  [code]: "visit L s keys needed =
     (case keys of
        [] \<Rightarrow> Some needed
      | key # rest \<Rightarrow>
          if gm_flag needed key \<or> gm_flag (sg_sourceRoots s) key then visit L s rest needed
          else
            (case gm_get (sg_roots s) key of
               None \<Rightarrow> visit L s rest needed
             | Some index \<Rightarrow>
                 Option.bind (visit L s (dependencies L (sg_candidates s ! index)) (gm_put needed key True)) (\<lambda>needed.
                 visit L s rest needed)))"

fun copy_needed :: "protocol_lib \<Rightarrow> (string, bool) gomap \<Rightarrow> AuthenticationCandidate list \<Rightarrow> wp_error + AuthenticationCandidate list" where
  "copy_needed P needed [] = Inr []"
| "copy_needed P needed (c # cs) =
     (if \<not> gm_flag needed (ac_Root c) then copy_needed P needed cs
      else bindE (cloneCandidate P c) (\<lambda>copy. bindE (copy_needed P needed cs) (\<lambda>copies. Inr (copy # copies))))"

text \<open>A planned block reads the spool as it is at that time: \<open>spool_at\<close> gives its state and the circumstances.\<close>

definition planned_block :: "block_lib \<Rightarrow> (trace \<Rightarrow> string option \<times> bool \<times> spool_store) \<Rightarrow> cid \<Rightarrow> PlanBlock" where
  "planned_block L spool_at key =
     \<lparr>wb_CID = key,
      wb_Read = Some (\<lambda>tr. case spool_at tr of (ctx, broken, l) \<Rightarrow>
        (case spool_Get L ctx broken key l of Inl e \<Rightarrow> Inl ''spool'' | Inr body \<Rightarrow> Inr body))\<rparr>"

definition staging_Plan ::
  "block_lib \<Rightarrow> protocol_lib \<Rightarrow> (trace \<Rightarrow> string option \<times> bool \<times> spool_store) \<Rightarrow> cid \<Rightarrow> cid \<Rightarrow> Staging \<Rightarrow> (wp_error + Plan) option" where
  "staging_Plan L P spool_at base root s =
     Option.bind (visit L s [cid_String (bl_Cid L) root] []) (\<lambda>needed. Some (
     bindE (copy_needed P needed (sg_candidates s)) (\<lambda>candidates.
     require (candidates \<noteq> [] \<longrightarrow> ac_Root (last candidates) = cid_String (bl_Cid L) root)
       (WpInvalid ''final Root is not the terminal prepared candidate'') (
     let p = \<lparr>wp_Base = base, wp_Root = root, wp_TransactionID = [], wp_Candidates = candidates,
              wp_Blocks = map (planned_block L spool_at) (sg_keys s)\<rparr> in
     bindE (plan_validate L P p) (\<lambda>_. Inr p)))))"

section \<open>The visit returns\<close>

definition new_root :: "Staging \<Rightarrow> string \<Rightarrow> bool" where
  "new_root s key \<longleftrightarrow> gm_get (sg_roots s) key \<noteq> None \<and> \<not> gm_flag (sg_sourceRoots s) key"

definition needs :: "block_lib \<Rightarrow> Staging \<Rightarrow> string \<Rightarrow> string \<Rightarrow> bool" where
  "needs L s key dep \<longleftrightarrow>
     new_root s key \<and> new_root s dep \<and> dep \<in> set (dependencies L (sg_candidates s ! the (gm_get (sg_roots s) key)))"

definition unvisited :: "Staging \<Rightarrow> (string, bool) gomap \<Rightarrow> string set" where
  "unvisited s needed = {key \<in> fst ` set (sg_roots s). \<not> gm_flag needed key}"

text \<open>What a visit of some keys adds to the needed roots.\<close>

definition visited :: "block_lib \<Rightarrow> Staging \<Rightarrow> string list \<Rightarrow> (string, bool) gomap \<Rightarrow> (string, bool) gomap \<Rightarrow> bool" where
  "visited L s keys needed needed' \<longleftrightarrow>
     (\<forall>k. gm_flag needed k \<longrightarrow> gm_flag needed' k) \<and>
     (\<forall>k \<in> set keys. new_root s k \<longrightarrow> gm_flag needed' k) \<and>
     (\<forall>k. gm_flag needed' k \<and> \<not> gm_flag needed k \<longrightarrow>
        (\<exists>key \<in> set keys. new_root s key \<and> (needs L s)\<^sup>*\<^sup>* key k) \<and> (\<forall>d. needs L s k d \<longrightarrow> gm_flag needed' d))"

lemma visited_mono: "visited L s keys needed needed' \<Longrightarrow> gm_flag needed k \<Longrightarrow> gm_flag needed' k"
  by (simp add: visited_def)

lemma visited_covers: "visited L s keys needed needed' \<Longrightarrow> k \<in> set keys \<Longrightarrow> new_root s k \<Longrightarrow> gm_flag needed' k"
  by (simp add: visited_def)

lemma visited_from:
  "visited L s keys needed needed' \<Longrightarrow> gm_flag needed' k \<Longrightarrow> \<not> gm_flag needed k \<Longrightarrow>
     \<exists>key \<in> set keys. new_root s key \<and> (needs L s)\<^sup>*\<^sup>* key k"
  by (simp add: visited_def)

lemma visited_closed:
  "visited L s keys needed needed' \<Longrightarrow> gm_flag needed' k \<Longrightarrow> \<not> gm_flag needed k \<Longrightarrow> needs L s k d \<Longrightarrow> gm_flag needed' d"
  unfolding visited_def by blast

lemma visited_Nil: "visited L s [] needed needed"
  by (simp add: visited_def)

lemma visited_skip:
  "visited L s rest needed needed' \<Longrightarrow> gm_flag needed key \<or> \<not> new_root s key \<Longrightarrow> visited L s (key # rest) needed needed'"
  unfolding visited_def by auto

lemma visited_enter:
  assumes key: "gm_get (sg_roots s) key = Some index" "\<not> gm_flag (sg_sourceRoots s) key" "\<not> gm_flag needed key"
    and inner: "visited L s (dependencies L (sg_candidates s ! index)) (gm_put needed key True) mid"
    and outer: "visited L s rest mid needed'"
  shows "visited L s (key # rest) needed needed'"
proof -
  have new: "new_root s key" using key by (simp add: new_root_def)
  have dep: "needs L s key d \<longleftrightarrow> new_root s d \<and> d \<in> set (dependencies L (sg_candidates s ! index))" for d
    using new key(1) by (simp add: needs_def)
  have flagged: "gm_flag mid key" by (rule visited_mono [OF inner]) simp
  have mid: "(needs L s)\<^sup>*\<^sup>* key k \<and> (\<forall>d. needs L s k d \<longrightarrow> gm_flag mid d)" if k: "gm_flag mid k" "\<not> gm_flag needed k" for k
  proof (cases "k = key")
    case True
    then show ?thesis using dep visited_covers [OF inner] by simp
  next
    case False
    then have fresh: "\<not> gm_flag (gm_put needed key True) k" using k by simp
    obtain d where "needs L s key d" "(needs L s)\<^sup>*\<^sup>* d k" using visited_from [OF inner k(1) fresh] dep by blast
    then show ?thesis
      using visited_closed [OF inner k(1) fresh] by (meson converse_rtranclp_into_rtranclp)
  qed
  have kept: "gm_flag needed' k" if "gm_flag needed k" for k
    using that by (intro visited_mono [OF outer] visited_mono [OF inner]) simp
  have covers: "gm_flag needed' k" if "k \<in> set (key # rest)" "new_root s k" for k
    using that flagged visited_mono [OF outer] visited_covers [OF outer] by auto
  have found: "(\<exists>key' \<in> set (key # rest). new_root s key' \<and> (needs L s)\<^sup>*\<^sup>* key' k) \<and> (\<forall>d. needs L s k d \<longrightarrow> gm_flag needed' d)"
    if k: "gm_flag needed' k" "\<not> gm_flag needed k" for k
  proof (cases "gm_flag mid k")
    case True
    then show ?thesis using mid [OF True k(2)] new visited_mono [OF outer] by auto
  next
    case False
    then show ?thesis using visited_from [OF outer k(1) False] visited_closed [OF outer k(1) False] by auto
  qed
  show ?thesis unfolding visited_def using kept covers found by blast
qed

lemma visit_skip: "gm_flag needed key \<or> \<not> new_root s key \<Longrightarrow> visit L s (key # rest) needed = visit L s rest needed"
  by (subst visit.simps) (auto simp: new_root_def split: option.split)

lemma visit_enter:
  "gm_get (sg_roots s) key = Some index \<Longrightarrow> \<not> gm_flag (sg_sourceRoots s) key \<Longrightarrow> \<not> gm_flag needed key \<Longrightarrow>
     visit L s (key # rest) needed =
       Option.bind (visit L s (dependencies L (sg_candidates s ! index)) (gm_put needed key True)) (visit L s rest)"
  by (subst visit.simps) simp

lemma unvisited_put:
  assumes "gm_get (sg_roots s) key = Some index" and "\<not> gm_flag needed key"
  shows "card (unvisited s (gm_put needed key True)) < card (unvisited s needed)"
proof (rule psubset_card_mono)
  show "finite (unvisited s needed)" by (simp add: unvisited_def)
  show "unvisited s (gm_put needed key True) \<subset> unvisited s needed"
    using assms(2) map_of_SomeD [OF assms(1)] by (force simp: unvisited_def)
qed

lemma unvisited_mono: "visited L s keys needed needed' \<Longrightarrow> card (unvisited s needed') \<le> card (unvisited s needed)"
  using visited_mono by (intro card_mono) (force simp: unvisited_def)+

lemma visit_returns: "\<exists>needed'. visit L s keys needed = Some needed' \<and> visited L s keys needed needed'"
proof (induction "(card (unvisited s needed), length keys)" arbitrary: keys needed
    rule: wf_induct_rule [OF wf_lex_prod [OF wf_less_than wf_less_than]])
  case (1 keys needed)
  show ?case
  proof (cases keys)
    case Nil
    then show ?thesis by (simp add: visit.simps visited_Nil)
  next
    case (Cons key rest)
    show ?thesis
    proof (cases "gm_flag needed key \<or> \<not> new_root s key")
      case True
      have "\<exists>needed'. visit L s rest needed = Some needed' \<and> visited L s rest needed needed'" by (rule 1) (simp_all add: Cons)
      then show ?thesis using visited_skip [OF _ True] visit_skip [OF True] by (auto simp only: Cons)
    next
      case False
      then obtain index where key: "gm_get (sg_roots s) key = Some index" "\<not> gm_flag (sg_sourceRoots s) key" "\<not> gm_flag needed key"
        by (auto simp: new_root_def)
      let ?deps = "dependencies L (sg_candidates s ! index)" and ?n = "gm_put needed key True"
      note less = unvisited_put [OF key(1,3)]
      have "\<exists>mid. visit L s ?deps ?n = Some mid \<and> visited L s ?deps ?n mid" by (rule 1) (simp_all add: less)
      then obtain mid where mid: "visit L s ?deps ?n = Some mid" "visited L s ?deps ?n mid" by blast
      have "card (unvisited s mid) < card (unvisited s needed)" using unvisited_mono [OF mid(2)] less by simp
      then have "\<exists>needed'. visit L s rest mid = Some needed' \<and> visited L s rest mid needed'" by (intro 1) simp_all
      then show ?thesis using visited_enter [OF key mid(2)] visit_enter [OF key] mid(1) by (auto simp add: Cons)
    qed
  qed
qed

text \<open>From nothing, the visit flags exactly the new roots that the key needs, directly or through others.\<close>

lemma visit_reachable:
  assumes "visit L s [key] [] = Some needed"
  shows "gm_flag needed k \<longleftrightarrow> new_root s key \<and> (needs L s)\<^sup>*\<^sup>* key k"
proof
  have v: "visited L s [key] [] needed" using visit_returns [of L s "[key]" "[]"] assms by auto
  have none: "\<not> gm_flag [] x" for x :: string by (simp add: gm_flag_def)
  show "new_root s key \<and> (needs L s)\<^sup>*\<^sup>* key k" if "gm_flag needed k"
    using visited_from [OF v that none] by simp
  show "gm_flag needed k" if "new_root s key \<and> (needs L s)\<^sup>*\<^sup>* key k"
  proof -
    from that have "(needs L s)\<^sup>*\<^sup>* key k" ..
    then show ?thesis
    proof induction
      case base
      then show ?case using visited_covers [OF v] that by simp
    next
      case (step y z)
      then show ?case using visited_closed [OF v _ none] by blast
    qed
  qed
qed

end
