(* ===== verification/CasProps.thy ===== *)
theory CasProps
  imports CasReader
begin

text \<open>
  Correctness of the content-addressed layer: what the verifying wrapper exposes of an untrusted store, that
  it changes nothing over an honest one, and that acknowledged spool blocks can be read back.
\<close>

section \<open>A concrete library\<close>

text \<open>
  The codec is written in unary after the leading \<open>b\<close>, then a dash and the body; only printable bodies hash.
\<close>

definition demo_codec :: "cid \<Rightarrow> nat" where
  "demo_codec c = length (takeWhile (\<lambda>x. x = CHR ''x'') (tl c))"

definition demo_NewV1 :: "nat \<Rightarrow> string \<Rightarrow> cid" where
  "demo_NewV1 codec h = ''b'' @ replicate codec (CHR ''x'') @ ''-'' @ h"

definition demo_Sum256 :: "bytes \<Rightarrow> string option" where
  "demo_Sum256 body = (if list_all graphic body then Some body else None)"

definition demo_blocks :: block_lib where
  "demo_blocks =
     \<lparr>bl_Cid = demo_cid\<lparr>cid_Sum := (\<lambda>c body. map_option (demo_NewV1 (demo_codec c)) (demo_Sum256 body))\<rparr>,
      mh_Sum256 = demo_Sum256, cid_NewV1 = demo_NewV1, cid_Type = demo_codec\<rparr>"

lemma demo_codec_NewV1: "demo_codec (demo_NewV1 codec h) = codec"
proof -
  have "takeWhile (\<lambda>x. x = CHR ''x'') (replicate codec (CHR ''x'') @ CHR ''-'' # h) = replicate codec (CHR ''x'')"
    by (induction codec) simp_all
  then show ?thesis by (simp add: demo_codec_def demo_NewV1_def)
qed

lemma demo_blocks_ok: "block_lib_ok demo_blocks"
proof -
  have "cid_lib_ok (bl_Cid demo_blocks)"
    using demo_cid_ok by (simp add: cid_lib_ok_def demo_blocks_def)
  moreover have "demo_NewV1 codec h \<noteq> [] \<and> hd (demo_NewV1 codec h) = CHR ''b'' \<and> list_all graphic (demo_NewV1 codec h)"
    if "list_all graphic h" for codec h
    using that by (auto simp: demo_NewV1_def graphic_code list_all_iff)
  ultimately show ?thesis
    by (auto simp: block_lib_ok_def demo_blocks_def demo_Sum256_def demo_cid_def demo_codec_NewV1
        split: if_splits)
qed

section \<open>The wrapper over an untrusted store\<close>

text \<open>
  C18: an untrusted store cannot pass off other content.  Whatever the wrapped store answers, the bytes of
  a successful \<open>Get\<close> hash to the requested CID, the CID of a successful \<open>Put\<close> or \<open>PutWithCodec\<close> is the
  canonical one of the given bytes and codec, a successful \<open>PutBatch\<close> has exactly one such receipt with a known
  status for each block, in order, and a successful \<open>HasBatch\<close> answers every CID.
\<close>

theorem verifying_reader_sound:
  fixes L :: block_lib and v :: "'s reader" and s :: 's
  shows "(\<forall>c data. fst (verifying_Get L v c s) = Inr data \<longrightarrow> cid_Defined c \<and> cid_Sum (bl_Cid L) c data = Some c) \<and>
    (\<forall>data c. fst (verifying_Put L v data s) = Inr c \<longrightarrow>
       cid_Defined c \<and> CIDForBlock L \<lparr>bk_Data = data, bk_Codec = cid_Raw\<rparr> = Some c) \<and>
    (\<forall>data codec c. fst (verifying_PutWithCodec L v data codec s) = Inr c \<longrightarrow>
       cid_Defined c \<and> CIDForBlock L \<lparr>bk_Data = data, bk_Codec = codec\<rparr> = Some c) \<and>
    (\<forall>blocks results. fst (verifying_PutBatch L v blocks s) = Inr results \<longrightarrow>
       list_all2 (\<lambda>b r. CIDForBlock L b = Some (pr_CID r) \<and> cid_Defined (pr_CID r) \<and> IsValidPutStatus (pr_Status r)) blocks results) \<and>
    (\<forall>cs answers. fst (verifying_HasBatch v cs s) = Inr answers \<longrightarrow> length answers = length cs \<and> list_all cid_Defined cs)"
proof (intro conjI allI impI)
  fix cs answers assume run: "fst (verifying_HasBatch v cs s) = Inr answers"
  then show "length answers = length cs" "list_all cid_Defined cs"
    using has_each_length [of v cs s answers]
    by (auto simp: verifying_HasBatch_def andThen_Inr result_simps split: if_splits option.splits)
qed (auto simp: verifying_Get_def verifying_Put_def cidForData_def andThen_Inr verifyPutResult_Inr result_simps
    verifying_put_sound verifying_batch_sound split: if_splits option.splits)

text \<open>A store that serves one block under every CID: the right one passes, another one does not.\<close>

definition one_block :: "unit reader" where
  "one_block =
     \<lparr>rd_Get = (\<lambda>_ s. (Inr ''hello'', s)), rd_Has = (\<lambda>_ s. (Inr True, s)), rd_HasBatch = None, rd_Put = None,
      rd_PutWithCodec = Some (\<lambda>_ _ s. (Inr (demo_NewV1 2 ''hello''), s)), rd_PutBatch = None\<rparr>"

theorem verifying_reader_sound_witness:
  "fst (verifying_Get demo_blocks one_block (demo_NewV1 2 ''hello'') ()) = Inr ''hello'' \<and>
   cid_Sum (bl_Cid demo_blocks) (demo_NewV1 2 ''hello'') ''hello'' = Some (demo_NewV1 2 ''hello'') \<and>
   fst (verifying_Get demo_blocks one_block (demo_NewV1 2 ''other'') ()) = Inl (ErrCorruptedBlock ''got other bytes'')"
proof -
  have run: "fst (verifying_Get demo_blocks one_block (demo_NewV1 2 ''hello'') ()) = Inr ''hello''"
    "fst (verifying_Get demo_blocks one_block (demo_NewV1 2 ''other'') ()) = Inl (ErrCorruptedBlock ''got other bytes'')"
    by code_simp+
  then show ?thesis using verifying_reader_sound [of demo_blocks one_block "()"] by blast
qed

section \<open>The wrapper over an honest store\<close>

definition memory_reader :: "block_lib \<Rightarrow> string option \<Rightarrow> memory_store reader" where
  "memory_reader L ctx =
     \<lparr>rd_Get = (\<lambda>c s. (memory_Get L ctx c s, s)), rd_Has = (\<lambda>c s. (memory_Has L ctx c s, s)), rd_HasBatch = None,
      rd_Put = Some (memory_Put L ctx), rd_PutWithCodec = Some (memory_PutWithCodec L ctx), rd_PutBatch = None\<rparr>"

lemma verifying_memory_put:
  assumes "block_lib_ok L"
  shows "verifying_PutWithCodec L (memory_reader L ctx) = memory_PutWithCodec L ctx"
proof (intro ext)
  fix data codec s
  show "verifying_PutWithCodec L (memory_reader L ctx) data codec s = memory_PutWithCodec L ctx data codec s"
    using block_facts(1) [OF assms, of "\<lparr>bk_Data = data, bk_Codec = codec\<rparr>"]
    by (auto simp: verifying_PutWithCodec_def memory_reader_def memory_PutWithCodec_def verifyPutResult_def split: option.split)
qed

lemma memory_reader_writes:
  "rd_PutBatch (memory_reader L ctx) = None" "rd_Put (memory_reader L ctx) = Some (memory_Put L ctx)"
  by (simp_all add: memory_reader_def)

lemma memory_put_typed: "put_typed (memory_Put L ctx) (Some (memory_PutWithCodec L ctx)) = memory_PutWithCodec L ctx"
  by (intro ext) (simp add: put_typed_def memory_Put_def)

text \<open>
  C26: verification is transparent over an honest store.  Over the in-memory store the wrapper returns exactly
  what the store returns and leaves it in the same state, for reads, existence checks and writes, and its
  \<open>PutBatch\<close> is the block-by-block \<open>PutBlocks\<close>.  A read of an undefined CID is refused before the store sees it.
\<close>

theorem verifying_memory_transparent:
  assumes "memory_ok L s" and "cid_Defined c \<or> ctx = None"
  shows "verifying_Get L (memory_reader L ctx) c s = (memory_Get L ctx c s, s) \<and>
    verifying_Has (memory_reader L ctx) c s = (memory_Has L ctx c s, s) \<and>
    verifying_PutWithCodec L (memory_reader L ctx) data codec s = memory_PutWithCodec L ctx data codec s \<and>
    verifying_PutBatch L (memory_reader L ctx) blocks s =
      PutBlocks (memory_Put L ctx) (Some (memory_PutWithCodec L ctx)) None blocks s"
proof -
  have L: "block_lib_ok L" using assms(1) by (simp add: memory_ok_def)
  have "verifying_Get L (memory_reader L ctx) c s = (memory_Get L ctx c s, s)"
  proof (cases "memory_Get L ctx c s")
    case (Inl e)
    then show ?thesis using assms(2) by (auto simp: verifying_Get_def memory_reader_def memory_Get_def)
  next
    case (Inr data)
    then have "addresses L c data" by (rule memory.get_checked [OF assms(1)])
    then have "cid_Sum (bl_Cid L) c data = Some c" by (rule addresses_Sum [OF L])
    then show ?thesis
      using Inr by (auto simp: verifying_Get_def memory_reader_def cidForData_def memory_Get_def result_simps split: option.splits)
  qed
  moreover have "verifying_Has (memory_reader L ctx) c s = (memory_Has L ctx c s, s)"
    using assms(2) by (auto simp: verifying_Has_def memory_reader_def memory_Has_def)
  moreover have "verifying_PutBatch L (memory_reader L ctx) blocks s =
      PutBlocks (memory_Put L ctx) (Some (memory_PutWithCodec L ctx)) None blocks s"
    by (simp add: verifying_PutBatch_def PutBlocks_def verifying_memory_put [OF L] memory_put_typed memory_reader_writes)
  ultimately show ?thesis by (simp add: verifying_memory_put [OF L])
qed

definition demo_memory :: memory_store where
  "demo_memory = snd (memory_PutWithCodec demo_blocks None ''hello'' 2 [])"

theorem verifying_memory_transparent_witness:
  "verifying_Get demo_blocks (memory_reader demo_blocks None) (demo_NewV1 2 ''hello'') demo_memory = (Inr ''hello'', demo_memory)"
proof -
  have "memory_ok demo_blocks demo_memory"
    unfolding demo_memory_def by (rule memory.put_invar) (simp_all add: memory_ok_def demo_blocks_ok)
  from verifying_memory_transparent [OF this, of "demo_NewV1 2 ''hello''" None]
  have "verifying_Get demo_blocks (memory_reader demo_blocks None) (demo_NewV1 2 ''hello'') demo_memory =
      (memory_Get demo_blocks None (demo_NewV1 2 ''hello'') demo_memory, demo_memory)" by simp
  moreover have "memory_Get demo_blocks None (demo_NewV1 2 ''hello'') demo_memory = Inr ''hello''" by code_simp
  ultimately show ?thesis by simp
qed

section \<open>The spool\<close>

text \<open>A run of spool writes, each under circumstances of its own: the acknowledged CIDs and the directory left.\<close>

primrec spool_run :: "block_lib \<Rightarrow> ((string option \<times> spool_faults) \<times> Block) list \<Rightarrow> spool_store \<Rightarrow> cid list \<times> spool_store" where
  "spool_run L [] s = ([], s)"
| "spool_run L (x # xs) s =
     (case spool_PutWithCodec L (fst (fst x)) (snd (fst x)) (bk_Data (snd x)) (bk_Codec (snd x)) s of
        (Inl e, s') \<Rightarrow> spool_run L xs s'
      | (Inr c, s') \<Rightarrow> (case spool_run L xs s' of (cs, t) \<Rightarrow> (c # cs, t)))"

lemma spool_run_puts: "spool_run L xs s = spool.puts L xs s"
  by (induction xs arbitrary: s) (auto simp: spool_put_def split: prod.split sum.split)

text \<open>
  C25: an acknowledged block can be read back.  Take any sequence of spool writes under any faults: cancelled
  contexts, failing opens, short writes, failing closes and failing removals.  An acknowledged CID reads back as
  bytes it identifies, provided no write of that very block failed to remove its abandoned partial file; what
  happens to other blocks does not matter.
\<close>

theorem spool_blocks_readable:
  assumes "block_lib_ok L" and "c \<in> set (fst (spool_run L xs []))"
    and "\<And>x. x \<in> set xs \<Longrightarrow> CIDForBlock L (snd x) = Some c \<Longrightarrow> \<not> sf_Remove (snd (fst x))"
  shows "\<exists>body. spool_Get L None False c (snd (spool_run L xs [])) = Inr body \<and>
    CIDForBlock L \<lparr>bk_Data = body, bk_Codec = cid_Type L c\<rparr> = Some c"
proof -
  have "block_at L c []" using assms(1) by (simp add: block_at_def)
  moreover have "\<forall>x \<in> set xs. \<not> sf_Remove (snd (fst x)) \<or> CIDForBlock L (snd x) \<noteq> Some c" using assms(3) by blast
  ultimately show ?thesis
    using spool.puts_readable [of L c "[]" xs] assms(2) by (simp add: spool_run_puts spool_get_def addresses_def list_all_iff)
qed

text \<open>
  A short write that is cleaned up, one of another block that is not, a retry that succeeds, and a write of the
  same block again.
\<close>

definition demo_writes :: "((string option \<times> spool_faults) \<times> Block) list" where
  "demo_writes =
     [((None, no_spool_faults\<lparr>sf_Write := Some 2\<rparr>), \<lparr>bk_Data = ''hello'', bk_Codec = 2\<rparr>),
      ((None, no_spool_faults\<lparr>sf_Write := Some 2, sf_Remove := True\<rparr>), \<lparr>bk_Data = ''other'', bk_Codec = 2\<rparr>),
      ((None, no_spool_faults), \<lparr>bk_Data = ''hello'', bk_Codec = 2\<rparr>),
      ((None, no_spool_faults), \<lparr>bk_Data = ''hello'', bk_Codec = 2\<rparr>)]"

theorem spool_blocks_readable_witness:
  "fst (spool_run demo_blocks demo_writes []) = [demo_NewV1 2 ''hello'', demo_NewV1 2 ''hello''] \<and>
   (\<exists>body. spool_Get demo_blocks None False (demo_NewV1 2 ''hello'') (snd (spool_run demo_blocks demo_writes [])) = Inr body)"
proof -
  have run: "fst (spool_run demo_blocks demo_writes []) = [demo_NewV1 2 ''hello'', demo_NewV1 2 ''hello'']" by code_simp
  have "CIDForBlock demo_blocks \<lparr>bk_Data = ''other'', bk_Codec = 2\<rparr> \<noteq> Some (demo_NewV1 2 ''hello'')" by code_simp
  then have "\<not> sf_Remove (snd (fst x))"
    if "x \<in> set demo_writes" "CIDForBlock demo_blocks (snd x) = Some (demo_NewV1 2 ''hello'')" for x
    using that by (auto simp: demo_writes_def no_spool_faults_def)
  then show ?thesis
    using run spool_blocks_readable [OF demo_blocks_ok, of "demo_NewV1 2 ''hello''" demo_writes] by auto
qed

text \<open>A file that is there stays as it is, whatever is written afterwards.\<close>

lemma spool_run_present:
  assumes "block_lib_ok L" and "cid_Defined c" and "gm_get s (cid_String (bl_Cid L) c) = Some body"
  shows "gm_get (snd (spool_run L xs s)) (cid_String (bl_Cid L) c) = Some body"
  using assms(3)
proof (induction xs arbitrary: s)
  case (Cons x xs)
  let ?put = "spool_PutWithCodec L (fst (fst x)) (snd (fst x)) (bk_Data (snd x)) (bk_Codec (snd x)) s"
  have "gm_get (snd ?put) (cid_String (bl_Cid L) c) = Some body"
    using Cons.prems spool_Put_present [of s L c] spool_Put_frame [OF assms(1,2)]
    by (cases "CIDForBlock L \<lparr>bk_Data = bk_Data (snd x), bk_Codec = bk_Codec (snd x)\<rparr> = Some c") auto
  from Cons.IH [OF this] show ?case by (auto split: prod.split sum.split)
qed simp

text \<open>
  a partial file that could not be removed is acknowledged for ever.  If the write of a block stops short
  and the removal of the partial file fails too, the write reports an error, but every later write of that
  block, in whatever sequence of writes, takes the leftover for the block and acknowledges its CID, while
  reading the CID never succeeds.
\<close>

theorem spool_partial_acknowledged:
  assumes "block_lib_ok L" and "CIDForBlock L \<lparr>bk_Data = body, bk_Codec = codec\<rparr> = Some c"
    and "length body \<le> maxBlockBytes" and "gm_get s (cid_String (bl_Cid L) c) = None"
    and "\<not> sf_Open F" and "sf_Write F = Some n" and "sf_Remove F"
    and "CIDForBlock L \<lparr>bk_Data = take n body, bk_Codec = codec\<rparr> \<noteq> Some c"
  shows "\<exists>s'. spool_PutWithCodec L None F body codec s = (Inl (CasFailed ''write''), s') \<and>
    (\<forall>xs F'. \<not> sf_Open F' \<longrightarrow> fst (spool_PutWithCodec L None F' body codec (snd (spool_run L xs s'))) = Inr c) \<and>
    (\<forall>xs ctx broken. isl (spool_Get L ctx broken c (snd (spool_run L xs s'))))"
proof -
  let ?s = "gm_put s (cid_String (bl_Cid L) c) (take n body)"
  note c = block_facts [OF assms(1,2)]
  have left: "gm_get (snd (spool_run L xs ?s)) (cid_String (bl_Cid L) c) = Some (take n body)" for xs
    by (rule spool_run_present [OF assms(1) c(1)]) simp
  have "isl (spool_Get L ctx broken c (snd (spool_run L xs ?s)))" for xs ctx broken
  proof (rule ccontr)
    assume "\<not> isl (spool_Get L ctx broken c (snd (spool_run L xs ?s)))"
    then obtain b where "spool_Get L ctx broken c (snd (spool_run L xs ?s)) = Inr b" by (cases "spool_Get L ctx broken c (snd (spool_run L xs ?s))") auto
    from spool_Get_checked [OF this] left have "addresses L c (take n body)" by simp
    then show False using assms(8) c(2) CIDForBlock_codec [of L "take n body" codec] by (simp add: addresses_def)
  qed
  then show ?thesis
    using assms(2-7) left by (auto simp: spool_PutWithCodec_def Let_def)
qed

theorem spool_partial_acknowledged_witness:
  "\<exists>s'. spool_PutWithCodec demo_blocks None (no_spool_faults\<lparr>sf_Write := Some 2, sf_Remove := True\<rparr>) ''hello'' 2 [] =
       (Inl (CasFailed ''write''), s') \<and>
     fst (spool_PutWithCodec demo_blocks None no_spool_faults ''hello'' 2 s') = Inr (demo_NewV1 2 ''hello'') \<and>
     isl (spool_Get demo_blocks None False (demo_NewV1 2 ''hello'') s')"
proof -
  let ?F = "no_spool_faults\<lparr>sf_Write := Some 2, sf_Remove := True\<rparr>"
  have run: "CIDForBlock demo_blocks \<lparr>bk_Data = ''hello'', bk_Codec = 2\<rparr> = Some (demo_NewV1 2 ''hello'')"
    "length ''hello'' \<le> maxBlockBytes" "gm_get [] (cid_String (bl_Cid demo_blocks) (demo_NewV1 2 ''hello'')) = None"
    "\<not> sf_Open ?F" "sf_Write ?F = Some 2" "sf_Remove ?F"
    "CIDForBlock demo_blocks \<lparr>bk_Data = take 2 ''hello'', bk_Codec = 2\<rparr> \<noteq> Some (demo_NewV1 2 ''hello'')"
    by code_simp+
  have "\<not> sf_Open no_spool_faults" by (simp add: no_spool_faults_def)
  then show ?thesis using spool_partial_acknowledged [OF demo_blocks_ok run] by (metis snd_conv spool_run.simps(1))
qed

end
