(* ===== verification/WritePlanProps.thy ===== *)
theory WritePlanProps
  imports WritePlanRun CasProps
begin

text \<open>Correctness of persisting a write plan on an untrusted remote.\<close>

section \<open>What validation establishes\<close>

lemma register_Inr:
  assumes "register P i seen cs = Inr m"
  shows "(\<forall>j < length cs. gm_get m (ac_Root (cs ! j)) = Some (i + j)) \<and> (\<forall>r k. gm_get seen r = Some k \<longrightarrow> gm_get m r = Some k)"
  using assms
proof (induction cs arbitrary: i seen)
  case (Cons c cs)
  then have fresh: "gm_get seen (ac_Root c) = None" and run: "register P (i + 1) (gm_put seen (ac_Root c) i) cs = Inr m"
    by (simp_all add: result_simps)
  note IH = Cons.IH [OF run]
  have "gm_get m (ac_Root ((c # cs) ! j)) = Some (i + j)" if "j < length (c # cs)" for j
    using IH that by (cases j) auto
  moreover have "gm_get m r = Some k" if "gm_get seen r = Some k" for r k
    using IH fresh that by (cases "r = ac_Root c") auto
  ultimately show ?case by blast
qed simp

lemma check_order_Inr:
  "check_order L seen i cs = Inr () \<Longrightarrow> j < length cs \<Longrightarrow> d \<in> set (dependencies L (cs ! j)) \<Longrightarrow> before_position seen (i + j) d"
proof (induction cs arbitrary: i j)
  case (Cons c cs)
  then show ?case by (cases j) (fastforce simp: result_simps list_all_iff)+
qed simp

lemma plan_validate_Inr:
  assumes "plan_validate L P p = Inr ()"
  shows "\<exists>seen. register P 0 [] (wp_Candidates p) = Inr seen \<and> check_order L seen 0 (wp_Candidates p) = Inr ()"
    and "wp_Candidates p \<noteq> [] \<Longrightarrow> ac_Root (last (wp_Candidates p)) = cid_String (bl_Cid L) (wp_Root p)"
  using assms by (auto simp: plan_validate_def result_simps)

lemma plan_children_first:
  assumes "plan_validate L P p = Inr ()" and "i < length (wp_Candidates p)" and "j < length (wp_Candidates p)"
    and "ac_Root (wp_Candidates p ! j) \<in> set (dependencies L (wp_Candidates p ! i))"
  shows "j < i"
proof -
  obtain seen where seen: "register P 0 [] (wp_Candidates p) = Inr seen" "check_order L seen 0 (wp_Candidates p) = Inr ()"
    using plan_validate_Inr(1) [OF assms(1)] by blast
  have "gm_get seen (ac_Root (wp_Candidates p ! j)) = Some j" using register_Inr [OF seen(1)] assms(3) by simp
  then show ?thesis using check_order_Inr [OF seen(2) assms(2,4)] by (simp add: before_position_def)
qed

section \<open>Persisting\<close>

lemma Persist_cases:
  assumes "Persist L P ctx p writer remote = (r, tr)"
  shows "isl r \<and> tr = [] \<or> (\<exists>e. r = Inl e \<and> persistBlocks L ctx (wp_Blocks p) writer [] = (Inl e, tr)) \<or>
    (\<exists>send s. plan_validate L P p = Inr () \<and> persistBlocks L ctx (wp_Blocks p) writer [] = (Inr (), s) \<and>
       install_candidates L P send (wp_Candidates p) s = (r, tr))"
proof (cases "plan_validate L P p")
  case (Inl e)
  then show ?thesis using assms by (simp add: Persist_def) (metis sum.disc(1))
next
  case (Inr u)
  then show ?thesis using assms by (cases remote) (auto simp: Persist_def andThen_eq)
qed

text \<open>The trace of a persisted plan: the local first pass, the uploads, the candidates.\<close>

lemma Persist_run:
  assumes "Persist L P ctx p writer remote = (r, tr)"
  shows "\<exists>reads new cands. tr = reads @ new @ cands \<and> list_all is_read reads \<and>
    list_all (upload_ok L (set (map wb_CID (wp_Blocks p)))) new \<and> (new @ cands \<noteq> [] \<or> r = Inr () \<longrightarrow> all_checked L (wp_Blocks p) reads) \<and>
    installs_in_order L P (wp_Candidates p) cands \<and>
    (cands \<noteq> [] \<or> r = Inr () \<longrightarrow> plan_validate L P p = Inr () \<and> acknowledged new = map wb_CID (wp_Blocks p)) \<and>
    (r = Inr () \<longrightarrow> installed L cands = map ac_Root (wp_Candidates p))"
proof -
  have none: "installs_in_order L P (wp_Candidates p) []" by (simp add: installs_in_order_def)
  consider (early) "isl r" "tr = []"
    | (blocks) e where "r = Inl e" "persistBlocks L ctx (wp_Blocks p) writer [] = (Inl e, tr)"
    | (cands) send s where "plan_validate L P p = Inr ()" "persistBlocks L ctx (wp_Blocks p) writer [] = (Inr (), s)"
      "install_candidates L P send (wp_Candidates p) s = (r, tr)"
    using Persist_cases [OF assms] by blast
  then show ?thesis
  proof cases
    case early
    then show ?thesis using none by (intro exI [of _ "[]"]) auto
  next
    case blocks
    obtain reads new where "tr = reads @ new" "list_all is_read reads" "list_all (upload_ok L (set (map wb_CID (wp_Blocks p)))) new"
      "new \<noteq> [] \<longrightarrow> all_checked L (wp_Blocks p) reads"
      using persistBlocks_run [OF blocks(2)] by auto
    then show ?thesis using none blocks(1) by (intro exI [of _ reads] exI [of _ new] exI [of _ "[]"]) simp
  next
    case cands
    obtain reads new where "s = reads @ new" "list_all is_read reads" "list_all (upload_ok L (set (map wb_CID (wp_Blocks p)))) new"
      "all_checked L (wp_Blocks p) reads" "acknowledged new = map wb_CID (wp_Blocks p)"
      using persistBlocks_run [OF cands(2)] by auto
    moreover obtain cs where "tr = s @ cs" "installs_in_order L P (wp_Candidates p) cs"
      "r = Inr () \<longrightarrow> installed L cs = map ac_Root (wp_Candidates p)"
      using install_candidates_run [OF cands(3)] by blast
    ultimately show ?thesis using cands(1) by (intro exI [of _ reads] exI [of _ new] exI [of _ cs]) simp
  qed
qed

lemma installs_no_acks: "installs_in_order L P cs new \<Longrightarrow> acknowledged new = []"
proof -
  assume "installs_in_order L P cs new"
  then have "\<forall>e \<in> set new. \<exists>out a. e = EvCandidate out a" by (simp add: installs_in_order_def)
  then show ?thesis by (induction new) (auto simp: acknowledged_def)
qed

lemma reads_no_installs: "list_all is_read tr \<Longrightarrow> installed L tr = []"
  using upload_no_installs reads_uploads by blast

text \<open>An event that does not occur in a first phase lies after it.\<close>

lemma split_after:
  assumes "e \<notin> set xs" and "xs @ ys = before @ e # after"
  shows "\<exists>zs. before = xs @ zs \<and> ys = zs @ e # after"
  using assms
proof (induction xs arbitrary: before)
  case (Cons x xs)
  then obtain b where b: "before = x # b" by (cases before) auto
  then show ?case using Cons.IH [of b] Cons.prems by auto
qed simp

lemma candidate_phase:
  assumes "list_all (upload_ok L S) pre" and "pre @ cands = before @ EvCandidate out a # after"
  shows "\<exists>xs. before = pre @ xs \<and> cands = xs @ EvCandidate out a # after"
proof -
  have "EvCandidate out a \<notin> set pre" using assms(1) by (auto simp: list_all_iff)
  from split_after [OF this assms(2)] show ?thesis by blast
qed

text \<open>
  C7: no candidate is installed before what it refers to.  Whatever the remote answers, when \<open>Persist\<close>
  sends a candidate it is a copy of one of the plan, the remote has already acknowledged every block of the plan
  with exactly its CID, and every candidate of the plan that this one names as its previous root, payload or
  entry target has already been installed under exactly its root.
\<close>

theorem write_plan_children_first:
  assumes "Persist L P ctx p writer remote = (r, before @ EvCandidate out answer # after)"
  shows "\<exists>c \<in> set (wp_Candidates p). ac_Copy P c = Some out \<and> acknowledged before = map wb_CID (wp_Blocks p) \<and>
    (\<forall>d \<in> set (wp_Candidates p). ac_Root d \<in> set (dependencies L c) \<longrightarrow> ac_Root d \<in> set (installed L before))"
proof -
  let ?cs = "wp_Candidates p"
  obtain reads new cands where run: "before @ EvCandidate out answer # after = (reads @ new) @ cands" "list_all is_read reads"
    "list_all (upload_ok L (set (map wb_CID (wp_Blocks p)))) new" "installs_in_order L P ?cs cands"
    "cands \<noteq> [] \<longrightarrow> plan_validate L P p = Inr () \<and> acknowledged new = map wb_CID (wp_Blocks p)"
    using Persist_run [OF assms] by auto
  have pre: "list_all (upload_ok L (set (map wb_CID (wp_Blocks p)))) (reads @ new)" using run(2,3) reads_uploads by simp
  obtain xs where xs: "before = (reads @ new) @ xs" "cands = xs @ EvCandidate out answer # after"
    using candidate_phase [OF pre run(1) [symmetric]] by blast
  have valid: "plan_validate L P p = Inr ()" and acks: "acknowledged new = map wb_CID (wp_Blocks p)" using run(5) xs(2) by simp_all
  have i: "length xs < length ?cs" "ac_Copy P (?cs ! length xs) = Some out" "installed L xs = map ac_Root (take (length xs) ?cs)"
    using run(4) xs(2) by (auto simp: installs_in_order_def)
  have "acknowledged xs = []"
    using run(4) xs(2) installs_no_acks [OF run(4)] by simp
  then have "acknowledged before = map wb_CID (wp_Blocks p)" using xs(1) acks reads_no_acks [OF run(2)] by simp
  moreover have "ac_Root d \<in> set (installed L before)"
    if d: "d \<in> set ?cs" "ac_Root d \<in> set (dependencies L (?cs ! length xs))" for d
  proof -
    obtain j where j: "j < length ?cs" "?cs ! j = d" using d(1) by (auto simp: in_set_conv_nth)
    then have "j < length xs" using plan_children_first [OF valid i(1), of j] d(2) by simp
    then have "d \<in> set (take (length xs) ?cs)" using j by (auto simp: in_set_conv_nth intro!: exI [of _ j])
    then show ?thesis using xs(1) i(3) by simp
  qed
  ultimately show ?thesis using i by (intro bexI [of _ "?cs ! length xs"]) auto
qed

text \<open>
  C21: only checked and bounded uploads leave the process.  Before the first remote call every block of the plan
  has been read once and its bytes matched its CID.  Every body sent later, alone or in a batch, was hashed again
  and is the one a planned CID names, under its codec; a batch is not empty and has at most 4096 blocks
  and 8 MiB.
\<close>

theorem write_plan_uploads_checked:
  assumes "Persist L P ctx p writer remote = (r, before @ e # after)" and "\<not> is_read e"
  shows "(\<exists>reads rest. before = reads @ rest \<and> all_checked L (wp_Blocks p) reads) \<and>
    (upload_ok L (set (map wb_CID (wp_Blocks p))) e \<or> (\<exists>out answer. e = EvCandidate out answer))"
proof -
  obtain reads new cands where run: "before @ e # after = reads @ (new @ cands)" "list_all is_read reads"
    "list_all (upload_ok L (set (map wb_CID (wp_Blocks p)))) new" "installs_in_order L P (wp_Candidates p) cands"
    "new @ cands \<noteq> [] \<longrightarrow> all_checked L (wp_Blocks p) reads"
    using Persist_run [OF assms(1)] by auto
  have "e \<notin> set reads" using assms(2) run(2) by (auto simp: list_all_iff)
  from split_after [OF this run(1) [symmetric]] obtain xs where xs: "before = reads @ xs" "new @ cands = xs @ e # after" by blast
  then have "e \<in> set new \<or> e \<in> set cands" by (metis Un_iff in_set_conv_decomp set_append)
  then show ?thesis
    using run(3-5) xs by (auto simp: list_all_iff installs_in_order_def)
qed

text \<open>
  C24: a persisted plan is complete.  When \<open>Persist\<close> succeeds, the remote has acknowledged the CIDs of the blocks
  of the plan, each once and in order, then the roots of its candidates, each once and in order, the last
  one being the root of the plan.
\<close>

theorem write_plan_complete:
  assumes "Persist L P ctx p writer remote = (Inr (), tr)"
  shows "acknowledged tr = map wb_CID (wp_Blocks p) \<and> installed L tr = map ac_Root (wp_Candidates p) \<and>
    (wp_Candidates p \<noteq> [] \<longrightarrow> last (installed L tr) = cid_String (bl_Cid L) (wp_Root p))"
proof -
  obtain reads new cands where run: "tr = reads @ new @ cands" "list_all is_read reads"
    "list_all (upload_ok L (set (map wb_CID (wp_Blocks p)))) new" "installs_in_order L P (wp_Candidates p) cands"
    "plan_validate L P p = Inr ()" "acknowledged new = map wb_CID (wp_Blocks p)" "installed L cands = map ac_Root (wp_Candidates p)"
    using Persist_run [OF assms] by auto
  have "acknowledged tr = map wb_CID (wp_Blocks p)" "installed L tr = map ac_Root (wp_Candidates p)"
    using run reads_no_acks [OF run(2)] installs_no_acks [OF run(4)] reads_no_installs [OF run(2)] upload_no_installs [OF run(3)]
    by simp_all
  then show ?thesis using plan_validate_Inr(2) [OF run(5)] by (simp add: last_map)
qed

text \<open>
  C27: a transaction is the last thing sent, and its receipt is checked against what was meant.  \<open>PersistBatch\<close>
  sends at most one transaction, after every block is acknowledged, as a copy of the batch of the plan,
  and returns a receipt only when it is valid for the plan's own batch.
\<close>

theorem write_plan_transaction:
  fixes receipt_Validate :: "'r \<Rightarrow> AuthenticationBatch \<Rightarrow> bool"
  assumes "PersistBatch L P receipt_Validate ctx p writer remote = (r, tr)"
  shows "(\<forall>before out after. tr = before @ EvTransaction out # after \<longrightarrow>
      after = [] \<and> ab_Copy P (plan_batch L P p) = Some out \<and> acknowledged before = map wb_CID (wp_Blocks p)) \<and>
    (\<forall>receipt. r = Inr receipt \<longrightarrow> receipt_Validate receipt (plan_batch L P p) \<and> (\<exists>before out. tr = before @ [EvTransaction out]))"
proof -
  let ?S = "set (map wb_CID (wp_Blocks p))"
  have quiet: "list_all (upload_ok L ?S) t" if "persistBlocks L ctx (wp_Blocks p) writer [] = (x, t)" for x t
    using persistBlocks_run [OF that] reads_uploads by auto
  have absent: "EvTransaction out \<notin> set t" if "list_all (upload_ok L ?S) t" for out t
    using that by (auto simp: list_all_iff)
  consider (early) "isl r" "list_all (upload_ok L ?S) tr"
    | (sent) out t where "persistBlocks L ctx (wp_Blocks p) writer [] = (Inr (), t)" "ab_Copy P (plan_batch L P p) = Some out"
      "tr = t @ [EvTransaction out]" "\<forall>receipt. r = Inr receipt \<longrightarrow> receipt_Validate receipt (plan_batch L P p)"
    using assms quiet
    by (cases "plan_validate L P p")
      (auto simp: PersistBatch_def Let_def andThen_eq result_simps split: option.splits if_splits)
  then show ?thesis
  proof cases
    case early
    then show ?thesis using absent [OF early(2)] by auto
  next
    case sent
    have acks: "acknowledged t = map wb_CID (wp_Blocks p)"
      using persistBlocks_run [OF sent(1)] reads_no_acks by auto
    have "after = [] \<and> before = t \<and> out' = out" if "tr = before @ EvTransaction out' # after" for before out' after
      using split_after [OF absent [OF quiet [OF sent(1)]], of "[EvTransaction out]" before out' after] that sent(3)
      by (auto simp: Cons_eq_append_conv)
    then show ?thesis using sent acks by blast
  qed
qed

section \<open>A concrete plan\<close>

text \<open>A parent candidate over a child, two blocks, and a remote that answers as it should.\<close>

definition demo_protocol :: protocol_lib where
  "demo_protocol =
     \<lparr>mc_ParseRoot = (\<lambda>c. cid_Parse demo_cid c \<noteq> None), ac_Validate = (\<lambda>c. cid_Parse demo_cid (ac_Root c) \<noteq> None),
      ac_Copy = Some, ab_Validate = (\<lambda>_. True), ab_Copy = Some, AuthenticationBatchProfile = ''batch''\<rparr>"

definition demo_child :: AuthenticationCandidate where
  "demo_child = \<lparr>ac_Root = ''bchild'', ac_Previous = [], ac_PayloadCID = demo_NewV1 2 ''one'', ac_Targets = [], ac_Rest = []\<rparr>"

definition demo_parent :: AuthenticationCandidate where
  "demo_parent = \<lparr>ac_Root = ''broot'', ac_Previous = [], ac_PayloadCID = [], ac_Targets = [''bchild''], ac_Rest = []\<rparr>"

definition demo_block :: "string \<Rightarrow> PlanBlock" where
  "demo_block body = \<lparr>wb_CID = demo_NewV1 2 body, wb_Read = Some (\<lambda>_. Inr body)\<rparr>"

definition demo_write_plan :: Plan where
  "demo_write_plan =
     \<lparr>wp_Base = [], wp_Root = ''broot'', wp_TransactionID = ''t1'', wp_Candidates = [demo_child, demo_parent],
      wp_Blocks = [demo_block ''one'', demo_block ''two'']\<rparr>"

definition demo_writer :: BlockWriter where
  "demo_writer =
     \<lparr>bw_PutWithCodec = (\<lambda>_ body codec. of_option ''hash'' (CIDForBlock demo_blocks \<lparr>bk_Data = body, bk_Codec = codec\<rparr>)),
      bw_PutBatch = Some (\<lambda>_ bs. Inr (map (\<lambda>b. \<lparr>pr_CID = the (CIDForBlock demo_blocks b), pr_Status = ''stored''\<rparr>) bs))\<rparr>"

definition demo_persisted :: "(wp_error + unit) \<times> trace" where
  "demo_persisted =
     Persist demo_blocks demo_protocol (\<lambda>_. None) demo_write_plan (Some demo_writer) (Some (\<lambda>_ c. Inr (ac_Root c)))"

lemma demo_persisted_code [code]:
  "demo_persisted =
     (Inr (),
      [EvRead (demo_NewV1 2 ''one'') (Inr ''one''), EvRead (demo_NewV1 2 ''two'') (Inr ''two''),
       EvRead (demo_NewV1 2 ''one'') (Inr ''one''), EvRead (demo_NewV1 2 ''two'') (Inr ''two''),
       EvPutBatch [\<lparr>bk_Data = ''one'', bk_Codec = 2\<rparr>, \<lparr>bk_Data = ''two'', bk_Codec = 2\<rparr>]
         (Inr [\<lparr>pr_CID = demo_NewV1 2 ''one'', pr_Status = ''stored''\<rparr>, \<lparr>pr_CID = demo_NewV1 2 ''two'', pr_Status = ''stored''\<rparr>]),
       EvCandidate demo_child (Inr ''bchild''), EvCandidate demo_parent (Inr ''broot'')])"
  by code_simp

lemma demo_persisted_split:
  "Persist demo_blocks demo_protocol (\<lambda>_. None) demo_write_plan (Some demo_writer) (Some (\<lambda>_ c. Inr (ac_Root c))) =
     (Inr (), take n (snd demo_persisted) @ drop n (snd demo_persisted))"
  by (simp add: demo_persisted_code flip: demo_persisted_def)

theorem write_plan_children_first_witness:
  "drop 6 (snd demo_persisted) = [EvCandidate demo_parent (Inr ''broot'')] \<and> ac_Root demo_child \<in> set (dependencies demo_blocks demo_parent) \<and>
   ac_Root demo_child \<in> set (installed demo_blocks (take 6 (snd demo_persisted)))"
proof -
  have last: "drop 6 (snd demo_persisted) = [EvCandidate demo_parent (Inr ''broot'')]"
    and dep: "ac_Root demo_child \<in> set (dependencies demo_blocks demo_parent)" by code_simp+
  from write_plan_children_first [OF demo_persisted_split [of 6, unfolded last]] obtain c where
    "ac_Copy demo_protocol c = Some demo_parent"
    "\<forall>d \<in> set (wp_Candidates demo_write_plan). ac_Root d \<in> set (dependencies demo_blocks c) \<longrightarrow>
       ac_Root d \<in> set (installed demo_blocks (take 6 (snd demo_persisted)))" by blast
  then show ?thesis using last dep by (simp add: demo_protocol_def demo_write_plan_def)
qed

theorem write_plan_uploads_checked_witness:
  "\<exists>e rest. drop 4 (snd demo_persisted) = e # rest \<and> \<not> is_read e \<and> upload_ok demo_blocks (set (map wb_CID (wp_Blocks demo_write_plan))) e"
proof -
  let ?e = "EvPutBatch [\<lparr>bk_Data = ''one'', bk_Codec = 2\<rparr>, \<lparr>bk_Data = ''two'', bk_Codec = 2\<rparr>]
    (Inr [\<lparr>pr_CID = demo_NewV1 2 ''one'', pr_Status = ''stored''\<rparr>, \<lparr>pr_CID = demo_NewV1 2 ''two'', pr_Status = ''stored''\<rparr>])"
  have split: "drop 4 (snd demo_persisted) = ?e # drop 5 (snd demo_persisted)" by code_simp
  from write_plan_uploads_checked [OF demo_persisted_split [of 4, unfolded split]]
  have "upload_ok demo_blocks (set (map wb_CID (wp_Blocks demo_write_plan))) ?e" by simp
  then show ?thesis using split by (intro exI [of _ ?e] exI [of _ "drop 5 (snd demo_persisted)"]) simp
qed

theorem write_plan_complete_witness:
  "fst demo_persisted = Inr () \<and> installed demo_blocks (snd demo_persisted) = [''bchild'', ''broot''] \<and>
   acknowledged (snd demo_persisted) = [demo_NewV1 2 ''one'', demo_NewV1 2 ''two'']"
  using write_plan_complete [OF demo_persisted_split [of 0, simplified]]
  by (simp add: demo_persisted_code demo_write_plan_def demo_child_def demo_parent_def demo_block_def)

definition demo_transaction :: "(wp_error + string) \<times> trace" where
  "demo_transaction =
     PersistBatch demo_blocks demo_protocol (\<lambda>receipt batch. receipt = ab_TransactionID batch) (\<lambda>_. None) demo_write_plan (Some demo_writer)
       (Some (\<lambda>_ batch. Inr (ab_TransactionID batch)))"

theorem write_plan_transaction_witness:
  "fst demo_transaction = Inr ''t1'' \<and> (\<exists>before out. snd demo_transaction = before @ [EvTransaction out] \<and>
     acknowledged before = [demo_NewV1 2 ''one'', demo_NewV1 2 ''two''])"
proof -
  have run: "fst demo_transaction = Inr ''t1''" by code_simp
  then have "demo_transaction = (Inr ''t1'', snd demo_transaction)" by (metis prod.collapse)
  from write_plan_transaction [OF this [unfolded demo_transaction_def]] run show ?thesis
    by (fastforce simp: demo_transaction_def demo_write_plan_def demo_block_def)
qed

end
