(* ===== verification/StagingProps.thy ===== *)
theory StagingProps
  imports Staging WritePlanProps
begin

text \<open>
  Correctness of staging: the invariant of the staged state, what \<open>Plan\<close> returns, and that a staged plan can be
  persisted.
\<close>

section \<open>The staged state\<close>

text \<open>What the protocol library documents: a valid candidate survives its JSON round trip, and its root is a CID.\<close>

definition protocol_ok :: "block_lib \<Rightarrow> protocol_lib \<Rightarrow> bool" where
  "protocol_ok L P \<longleftrightarrow>
     (\<forall>c. ac_Validate P c \<longrightarrow> ac_Copy P c = Some c \<and> cid_Parse (bl_Cid L) (ac_Root c) \<noteq> None)"

text \<open>The bookkeeping of the staged state, and what the spool holds for the blocks outside a set \<open>X\<close>.\<close>

definition staging_wf :: "protocol_lib \<Rightarrow> Staging \<Rightarrow> bool" where
  "staging_wf P s \<longleftrightarrow>
     distinct (sg_keys s) \<and> (\<forall>c. gm_flag (sg_seen s) c \<longleftrightarrow> c \<in> set (sg_keys s)) \<and>
     distinct (map ac_Root (sg_candidates s)) \<and> list_all (ac_Validate P) (sg_candidates s) \<and>
     (\<forall>r i. gm_get (sg_roots s) r = Some i \<longleftrightarrow> i < length (sg_candidates s) \<and> ac_Root (sg_candidates s ! i) = r)"

definition staging_ok :: "block_lib \<Rightarrow> protocol_lib \<Rightarrow> cid set \<Rightarrow> Staging \<Rightarrow> bool" where
  "staging_ok L P X s \<longleftrightarrow>
     staging_wf P s \<and> (\<forall>c. c \<notin> X \<longrightarrow> block_at L c (sg_local s)) \<and>
     (\<forall>c \<in> set (sg_keys s). c \<notin> X \<longrightarrow> (\<exists>b. spool_Get L None False c (sg_local s) = Inr b))"

text \<open>
  The calls of a layout compiler under any faults of the spool.  \<open>X\<close> has the blocks of which a partial file may
  have been left behind, because its removal failed.
\<close>

inductive staging_step :: "block_lib \<Rightarrow> protocol_lib \<Rightarrow> cid set \<Rightarrow> Staging \<Rightarrow> Staging \<Rightarrow> bool" for L P X where
  put: "(\<And>c. sf_Remove F \<Longrightarrow> CIDForBlock L \<lparr>bk_Data = body, bk_Codec = codec\<rparr> = Some c \<Longrightarrow> c \<in> X) \<Longrightarrow>
     staging_step L P X s (snd (staging_PutWithCodec L ctx F body codec s))"
| lookup: "staging_step L P X s (snd (staging_AuthenticationCandidate L P source root s))"
| materialize: "staging_step L P X s (snd (staging_MaterializeAuthentication L P ctx c s))"

lemma staging_ok_new: "block_lib_ok L \<Longrightarrow> staging_ok L P X NewStaging"
  by (simp add: staging_ok_def staging_wf_def NewStaging_def block_at_def gm_flag_def)

lemma staging_put_ok:
  assumes ok: "staging_ok L P X s"
    and F: "\<And>c. sf_Remove F \<Longrightarrow> CIDForBlock L \<lparr>bk_Data = body, bk_Codec = codec\<rparr> = Some c \<Longrightarrow> c \<in> X"
  shows "staging_ok L P X (snd (staging_PutWithCodec L ctx F body codec s))"
proof -
  obtain r l where run: "spool_PutWithCodec L ctx F body codec (sg_local s) = (r, l)" by force
  have sound: "block_at L c (sg_local s)"
    and harmless: "\<not> sf_Remove F \<or> CIDForBlock L \<lparr>bk_Data = body, bk_Codec = codec\<rparr> \<noteq> Some c" if "c \<notin> X" for c
    using ok that F by (auto simp: staging_ok_def)
  have l: "block_at L c l" if "c \<notin> X" for c
    using spool_put_ok [OF sound harmless, OF that that, where ctx = ctx] run by simp
  have kept: "\<exists>b. spool_Get L None False c l = Inr b" if "c \<in> set (sg_keys s)" "c \<notin> X" for c
    using spool.put_keeps [of L c "sg_local s" "(ctx, F)" body codec] sound harmless ok that run
    by (auto simp: staging_ok_def spool_get_def spool_put_def)
  have new: "\<exists>b. spool_Get L None False c l = Inr b" if "r = Inr c" "c \<notin> X" for c
    using spool.put_stores [of L c "sg_local s" "(ctx, F)" body codec l] spool_Put_names [of L ctx F body codec "sg_local s" c l]
      sound harmless that run
    by (auto simp: spool_get_def spool_put_def)
  show ?thesis
    using ok l kept new by (cases r) (auto simp: staging_PutWithCodec_def run staging_ok_def staging_wf_def)
qed

lemma staging_lookup_ok: "staging_ok L P X s \<Longrightarrow> staging_ok L P X (snd (staging_AuthenticationCandidate L P source root s))"
  by (auto simp: staging_AuthenticationCandidate_def staging_ok_def staging_wf_def Let_def split: option.split sum.split)

lemma staging_append_wf:
  assumes "staging_wf P s" and "ac_Validate P c" and "gm_get (sg_roots s) (ac_Root c) = None"
  shows "staging_wf P (s\<lparr>sg_roots := gm_put (sg_roots s) (ac_Root c) (length (sg_candidates s)), sg_candidates := sg_candidates s @ [c]\<rparr>)"
proof -
  have fresh: "ac_Root d \<noteq> ac_Root c" if "d \<in> set (sg_candidates s)" for d
  proof
    assume same: "ac_Root d = ac_Root c"
    obtain i where "i < length (sg_candidates s)" "sg_candidates s ! i = d" using \<open>d \<in> set (sg_candidates s)\<close> by (auto simp: in_set_conv_nth)
    then have "gm_get (sg_roots s) (ac_Root c) = Some i" using assms(1) same by (simp add: staging_wf_def)
    then show False using assms(3) by simp
  qed
  have "gm_get (gm_put (sg_roots s) (ac_Root c) (length (sg_candidates s))) r = Some i \<longleftrightarrow>
      i < length (sg_candidates s @ [c]) \<and> ac_Root ((sg_candidates s @ [c]) ! i) = r" for r i
    using assms(1) fresh by (auto simp: staging_wf_def nth_append less_Suc_eq)
  moreover have "distinct (map ac_Root (sg_candidates s @ [c]))" using assms(1) fresh by (force simp: staging_wf_def)
  ultimately show ?thesis using assms(1,2) by (simp add: staging_wf_def)
qed

lemma staging_materialize_ok:
  assumes "protocol_ok L P" and "staging_ok L P X s"
  shows "staging_ok L P X (snd (staging_MaterializeAuthentication L P ctx c s))"
  using assms staging_append_wf [of P s c]
  by (auto simp: staging_MaterializeAuthentication_def cloneCandidate_def protocol_ok_def staging_ok_def split: option.split)

lemma staging_steps_ok:
  assumes "block_lib_ok L" and "protocol_ok L P" and "(staging_step L P X)\<^sup>*\<^sup>* NewStaging s"
  shows "staging_ok L P X s"
  using assms(3)
proof induction
  case base
  then show ?case using assms(1) by (rule staging_ok_new)
next
  case (step s t)
  from step.hyps(2) step.IH show ?case
    by cases (auto intro: staging_put_ok staging_lookup_ok staging_materialize_ok [OF assms(2)])
qed

text \<open>
  C22: the staged state stays well formed.  After any sequence of puts under any spool faults, candidate lookups
  and candidate writes, the keys and the seen set agree, every staged candidate is valid, no two share a root, and
  the root index points each root at its candidate.  A read returns only bytes that the key identifies, and every
  staged key reads back unless it is in \<open>X\<close>, the blocks of which a partial file could not be removed.
\<close>

theorem staging_well_formed:
  assumes "block_lib_ok L" and "protocol_ok L P" and "(staging_step L P X)\<^sup>*\<^sup>* NewStaging s"
  shows "distinct (sg_keys s) \<and> (\<forall>c. gm_flag (sg_seen s) c = (c \<in> set (sg_keys s))) \<and>
    (\<forall>c \<in> set (sg_keys s). c \<notin> X \<longrightarrow> (\<exists>b. staging_Get L None False None c s = Inr b)) \<and>
    (\<forall>c \<in> set (sg_keys s). \<forall>ctx broken source b. staging_Get L ctx broken source c s = Inr b \<longrightarrow> addresses L c b) \<and>
    distinct (map ac_Root (sg_candidates s)) \<and> (\<forall>c \<in> set (sg_candidates s). ac_Validate P c) \<and>
    (\<forall>r i. gm_get (sg_roots s) r = Some i \<longleftrightarrow> i < length (sg_candidates s) \<and> ac_Root (sg_candidates s ! i) = r)"
proof -
  have ok: "staging_ok L P X s" by (rule staging_steps_ok [OF assms])
  have local: "staging_Get L ctx broken source c s = spool_Get L ctx broken c (sg_local s)"
    if "c \<in> set (sg_keys s)" for ctx broken source c
    using ok that by (simp add: staging_ok_def staging_wf_def staging_Get_def)
  then have "\<forall>c \<in> set (sg_keys s). \<forall>ctx broken source b. staging_Get L ctx broken source c s = Inr b \<longrightarrow> addresses L c b"
    using spool_Get_checked by metis
  moreover have "\<forall>c \<in> set (sg_keys s). c \<notin> X \<longrightarrow> (\<exists>b. staging_Get L None False None c s = Inr b)"
    using ok local by (simp add: staging_ok_def)
  ultimately show ?thesis using ok by (simp add: staging_ok_def staging_wf_def list_all_iff)
qed

section \<open>What \<open>Plan\<close> returns\<close>

lemma copy_needed_valid:
  "protocol_ok L P \<Longrightarrow> list_all (ac_Validate P) cs \<Longrightarrow> copy_needed P needed cs = Inr (filter (\<lambda>c. gm_flag needed (ac_Root c)) cs)"
  by (induction cs) (simp_all add: protocol_ok_def cloneCandidate_def)

lemma staging_Plan_Inr:
  assumes "staging_Plan L P spool_at base root s = Some (Inr p)"
  shows "\<exists>needed. visit L s [cid_String (bl_Cid L) root] [] = Some needed \<and> copy_needed P needed (sg_candidates s) = Inr (wp_Candidates p)"
    and "wp_Root p = root" and "wp_Blocks p = map (planned_block L spool_at) (sg_keys s)" and "plan_validate L P p = Inr ()"
  using assms by (auto simp: staging_Plan_def Let_def result_simps bind_eq_Some_conv)

text \<open>
  C19: \<open>Plan\<close> returns, and keeps exactly what the root needs.  The recursive visit ends on any staged candidates,
  also when their roots refer to each other in a cycle.  A returned plan has the staged blocks, and of the
  staged candidates, in the order they were staged, exactly those that the final root reaches over previous
  roots, payloads and targets without passing a root that was taken from the source.
\<close>

theorem staging_plan_needed:
  assumes "protocol_ok L P" and "staging_wf P s"
  shows "\<exists>r. staging_Plan L P spool_at base root s = Some r \<and>
    (\<forall>p. r = Inr p \<longrightarrow> map wb_CID (wp_Blocks p) = sg_keys s \<and>
       wp_Candidates p = filter (\<lambda>c. new_root s (cid_String (bl_Cid L) root) \<and> (needs L s)\<^sup>*\<^sup>* (cid_String (bl_Cid L) root) (ac_Root c))
         (sg_candidates s))"
proof -
  let ?key = "cid_String (bl_Cid L) root"
  obtain needed where needed: "visit L s [?key] [] = Some needed" using visit_returns by blast
  then obtain r where r: "staging_Plan L P spool_at base root s = Some r" by (simp add: staging_Plan_def)
  have "list_all (ac_Validate P) (sg_candidates s)" using assms(2) by (simp add: staging_wf_def)
  note copies = copy_needed_valid [OF assms(1) this, of needed]
  have "wp_Candidates p = filter (\<lambda>c. new_root s ?key \<and> (needs L s)\<^sup>*\<^sup>* ?key (ac_Root c)) (sg_candidates s) \<and> map wb_CID (wp_Blocks p) = sg_keys s"
    if "r = Inr p" for p
  proof -
    have plan: "staging_Plan L P spool_at base root s = Some (Inr p)" using r that by simp
    have "wp_Candidates p = filter (\<lambda>c. gm_flag needed (ac_Root c)) (sg_candidates s)"
      using staging_Plan_Inr(1) [OF plan] needed copies by auto
    then show ?thesis
      using staging_Plan_Inr(3) [OF plan] by (simp add: visit_reachable [OF needed] planned_block_def comp_def)
  qed
  then show ?thesis using r by blast
qed

section \<open>Persisting a staged plan\<close>

text \<open>A remote that does what it is asked: it acknowledges the blocks and candidates it is given.\<close>

definition honest_writer :: "block_lib \<Rightarrow> BlockWriter \<Rightarrow> bool" where
  "honest_writer L w \<longleftrightarrow>
     (\<forall>tr body codec c. CIDForBlock L \<lparr>bk_Data = body, bk_Codec = codec\<rparr> = Some c \<longrightarrow> bw_PutWithCodec w tr body codec = Inr c) \<and>
     (\<forall>putBatch tr bs cs. bw_PutBatch w = Some putBatch \<and> list_all2 (\<lambda>b c. CIDForBlock L b = Some c) bs cs \<longrightarrow>
        (\<exists>rs. putBatch tr bs = Inr rs \<and> map pr_CID rs = cs \<and> (\<forall>r \<in> set rs. IsValidPutStatus (pr_Status r))))"

text \<open>Only a valid candidate whose root is the text of a CID can be acknowledged under that root.\<close>

definition installable :: "block_lib \<Rightarrow> protocol_lib \<Rightarrow> AuthenticationCandidate \<Rightarrow> bool" where
  "installable L P c \<longleftrightarrow> ac_Validate P c \<and> canonicalCID (bl_Cid L) (ac_Root c) = Some (ac_Root c)"

definition honest_remote :: "block_lib \<Rightarrow> protocol_lib \<Rightarrow> CandidateWriter \<Rightarrow> bool" where
  "honest_remote L P remote \<longleftrightarrow>
     (\<forall>tr c. installable L P c \<longrightarrow> (\<exists>got. remote tr c = Inr got \<and> cid_String (bl_Cid L) got = ac_Root c))"

text \<open>Such remotes exist for every library: hash the blocks, and parse the roots.\<close>

lemma honest_writer_exists: "\<exists>w. honest_writer L w \<and> bw_PutBatch w \<noteq> None"
proof -
  let ?one = "\<lambda>b. case CIDForBlock L b of Some c \<Rightarrow> Inr c | None \<Rightarrow> Inl ''multihash''"
  let ?batch = "\<lambda>bs. Inr (map (\<lambda>b. \<lparr>pr_CID = the (CIDForBlock L b), pr_Status = ''stored''\<rparr>) bs)"
  let ?w = "\<lparr>bw_PutWithCodec = \<lambda>tr body codec. ?one \<lparr>bk_Data = body, bk_Codec = codec\<rparr>, bw_PutBatch = Some (\<lambda>tr. ?batch)\<rparr>"
  have "map (\<lambda>b. the (CIDForBlock L b)) bs = cs" if "list_all2 (\<lambda>b c. CIDForBlock L b = Some c) bs cs" for bs cs
    using that by induction simp_all
  then have "honest_writer L ?w" by (auto simp: honest_writer_def IsValidPutStatus_def comp_def)
  then show ?thesis by (intro exI [of _ ?w]) simp
qed

lemma honest_remote_exists:
  "honest_remote L P (\<lambda>tr c. case cid_Parse (bl_Cid L) (ac_Root c) of Some got \<Rightarrow> Inr got | None \<Rightarrow> Inl ''root'')"
  by (auto simp: honest_remote_def installable_def canonicalCID_def)

text \<open>A planned block that always reads as bytes its CID identifies.\<close>

definition readable :: "block_lib \<Rightarrow> PlanBlock \<Rightarrow> bool" where
  "readable L b \<longleftrightarrow> (\<forall>tr. \<exists>body t. readBlock L (\<lambda>_. None) b tr = (Inr body, t) \<and> addresses L (wb_CID b) body)"

lemma check_blocks_succeeds:
  "\<forall>b \<in> set bs. readable L b \<Longrightarrow> \<exists>t. check_blocks L (\<lambda>_. None) bs tr = (Inr (), t)"
proof (induction bs arbitrary: tr)
  case (Cons b bs)
  obtain body t where "readBlock L (\<lambda>_. None) b tr = (Inr body, t)" using Cons.prems unfolding readable_def by (meson list.set_intros(1))
  then show ?case using Cons by simp
qed simp

lemma check_results_ok:
  "(\<forall>r \<in> set rs. IsValidPutStatus (pr_Status r)) \<Longrightarrow> check_results (map pr_CID rs) rs = Inr ()"
  by (induction rs) simp_all

lemma flush_succeeds:
  assumes "honest_writer L w" and "list_all2 (\<lambda>b c. CIDForBlock L b = Some c) pending expected" and "bw_PutBatch w = None \<Longrightarrow> pending = []"
  shows "\<exists>t. flush (bw_PutBatch w) pending expected tr = (Inr (), t)"
proof (cases "bw_PutBatch w")
  case None
  then show ?thesis using assms(3) by (simp add: flush_def)
next
  case (Some putBatch)
  then obtain rs where "putBatch tr pending = Inr rs" "map pr_CID rs = expected" "\<forall>r \<in> set rs. IsValidPutStatus (pr_Status r)"
    using assms(1,2) unfolding honest_writer_def by blast
  then show ?thesis using Some check_results_ok [of rs] by (auto simp: flush_def)
qed

lemma send_blocks_succeeds:
  assumes "honest_writer L w" and "\<forall>b \<in> set bs. readable L b"
    and "list_all2 (\<lambda>b c. CIDForBlock L b = Some c) pending expected" and "bw_PutBatch w = None \<Longrightarrow> pending = []"
  shows "\<exists>t. send_blocks L (\<lambda>_. None) w bs pending expected bytes tr = (Inr (), t)"
  using assms(2-4)
proof (induction bs arbitrary: pending expected bytes tr)
  case Nil
  then show ?case using flush_succeeds [OF assms(1)] by simp
next
  case (Cons b bs)
  obtain body t where read: "readBlock L (\<lambda>_. None) b tr = (Inr body, t)" "addresses L (wb_CID b) body"
    using Cons.prems(1) unfolding readable_def by (meson list.set_intros(1))
  let ?block = "\<lparr>bk_Data = body, bk_Codec = cid_Type L (wb_CID b)\<rparr>"
  have c: "CIDForBlock L ?block = Some (wb_CID b)" using read(2) by (simp add: addresses_def)
  obtain t' where flushed: "flush (bw_PutBatch w) pending expected t = (Inr (), t')"
    using flush_succeeds [OF assms(1) Cons.prems(2,3)] by blast
  have single: "put_single w (wb_CID b) body (cid_Type L (wb_CID b)) t' = (Inr (), t' @ [EvPut body (cid_Type L (wb_CID b)) (Inr (wb_CID b))])"
    using assms(1) c by (simp add: put_single_def honest_writer_def)
  have rest: "\<forall>b \<in> set bs. readable L b" using Cons.prems(1) by simp
  note IH = Cons.IH [OF rest]
  show ?case
    using IH [of "[]" "[]"] IH [of "[?block]" "[wb_CID b]"] IH [of "pending @ [?block]" "expected @ [wb_CID b]"] c Cons.prems(2)
    by (auto simp: read(1) flushed single Let_def list_all2_appendI)
qed

lemma install_succeeds:
  assumes "protocol_ok L P" and "honest_remote L P remote" and "\<forall>c \<in> set cs. installable L P c"
  shows "\<exists>t. install_candidates L P remote cs tr = (Inr (), t)"
  using assms(3)
proof (induction cs arbitrary: tr)
  case (Cons c cs)
  have copy: "cloneCandidate P c = Inr c" using assms(1) Cons.prems by (simp add: protocol_ok_def cloneCandidate_def installable_def)
  obtain got where "remote tr c = Inr got" "cid_String (bl_Cid L) got = ac_Root c"
    using assms(2) Cons.prems unfolding honest_remote_def by (meson list.set_intros(1))
  then show ?case using Cons copy by simp
qed simp

lemma planned_block_readable:
  assumes "block_lib_ok L" and "staging_ok L P X s" and "key \<in> set (sg_keys s)" and "key \<notin> X"
  shows "readable L (planned_block L (\<lambda>_. (None, False, sg_local s)) key)"
proof -
  obtain body where body: "spool_Get L None False key (sg_local s) = Inr body" using assms by (auto simp: staging_ok_def)
  then have named: "addresses L key body" using spool_Get_checked by blast
  then show ?thesis
    using body addresses_Sum [OF assms(1)] by (simp add: readable_def readBlock_def planned_block_def)
qed

text \<open>
  C20: a staged plan can be persisted.  Take a plan that \<open>Plan\<close> returns for a state reached by staging, none of
  whose keys had its partial file left behind, with candidates whose roots are canonical CID texts.  While the
  spool is there, \<open>Persist\<close> succeeds on a remote that acknowledges the blocks and the installable candidates it is
  given, whether or not it takes batches.
\<close>

theorem staged_plan_persists:
  assumes "block_lib_ok L" and "protocol_ok L P" and "(staging_step L P X)\<^sup>*\<^sup>* NewStaging s" and "set (sg_keys s) \<inter> X = {}"
    and "staging_Plan L P (\<lambda>_. (None, False, sg_local s)) base root s = Some (Inr p)"
    and "\<forall>c \<in> set (wp_Candidates p). canonicalCID (bl_Cid L) (ac_Root c) = Some (ac_Root c)"
    and "honest_writer L w" and "honest_remote L P remote"
  shows "\<exists>tr. Persist L P (\<lambda>_. None) p (Some w) (Some remote) = (Inr (), tr)"
proof -
  have ok: "staging_ok L P X s" by (rule staging_steps_ok [OF assms(1-3)])
  note plan = staging_Plan_Inr [OF assms(5)]
  have blocks: "\<forall>b \<in> set (wp_Blocks p). readable L b"
    using planned_block_readable [OF assms(1) ok] assms(4) plan(3) by auto
  have valid: "list_all (ac_Validate P) (sg_candidates s)" using ok by (simp add: staging_ok_def staging_wf_def)
  obtain needed where "wp_Candidates p = filter (\<lambda>c. gm_flag needed (ac_Root c)) (sg_candidates s)"
    using copy_needed_valid [OF assms(2) valid] plan(1) by (metis sum.inject(2))
  then have cands: "\<forall>c \<in> set (wp_Candidates p). installable L P c" using valid assms(6) by (simp add: list_all_iff installable_def)
  obtain t where "check_blocks L (\<lambda>_. None) (wp_Blocks p) [] = (Inr (), t)" using check_blocks_succeeds [OF blocks] by blast
  moreover obtain t' where "send_blocks L (\<lambda>_. None) w (wp_Blocks p) [] [] 0 t = (Inr (), t')"
    using send_blocks_succeeds [OF assms(7) blocks, of "[]" "[]"] by auto
  moreover obtain tr where "install_candidates L P remote (wp_Candidates p) t' = (Inr (), tr)"
    using install_succeeds [OF assms(2,8) cands] by blast
  ultimately show ?thesis using plan(4) by (simp add: Persist_def persistBlocks_def)
qed

section \<open>A staged import\<close>

text \<open>
  A child, a provisional parent and the final parent over the child; the provisional one and the final one
  refer to each other's root, which the plan drops or keeps as needed.
\<close>

lemma demo_protocol_ok: "protocol_ok demo_blocks demo_protocol"
  by (simp add: protocol_ok_def demo_protocol_def demo_blocks_def demo_cid_def)

definition demo_provisional :: AuthenticationCandidate where
  "demo_provisional = demo_parent\<lparr>ac_Root := ''bdraft'', ac_Targets := [''bchild'', ''broot'']\<rparr>"

definition demo_staging :: Staging where
  "demo_staging =
     (let s1 = snd (staging_PutWithCodec demo_blocks None no_spool_faults ''one'' 2 NewStaging);
          s2 = snd (staging_MaterializeAuthentication demo_blocks demo_protocol None demo_child s1);
          s3 = snd (staging_MaterializeAuthentication demo_blocks demo_protocol None demo_provisional s2)
      in snd (staging_MaterializeAuthentication demo_blocks demo_protocol None demo_parent s3))"

lemma demo_staging_code [code]:
  "demo_staging =
     \<lparr>sg_local = [(demo_NewV1 2 ''one'', ''one'')], sg_keys = [demo_NewV1 2 ''one''], sg_seen = [(demo_NewV1 2 ''one'', True)],
      sg_candidates = [demo_child, demo_provisional, demo_parent],
      sg_roots = [(''bchild'', 0), (''bdraft'', 1), (''broot'', 2)], sg_sourceRoots = []\<rparr>"
  by code_simp

lemma then_materialize:
  "(staging_step L P X)\<^sup>*\<^sup>* s t \<Longrightarrow> (staging_step L P X)\<^sup>*\<^sup>* s (snd (staging_MaterializeAuthentication L P ctx c t))"
  by (erule rtranclp.rtrancl_into_rtrancl) (rule staging_step.materialize)

lemma demo_staging_steps: "(staging_step demo_blocks demo_protocol {})\<^sup>*\<^sup>* NewStaging demo_staging"
  unfolding demo_staging_def Let_def
  by (intro then_materialize r_into_rtranclp staging_step.put) (simp add: no_spool_faults_def)

definition demo_staged_plan :: "(wp_error + Plan) option" where
  "demo_staged_plan = staging_Plan demo_blocks demo_protocol (\<lambda>_. (None, False, sg_local demo_staging)) [] ''broot'' demo_staging"

lemma demo_staged_plan_ok: "\<exists>p. demo_staged_plan = Some (Inr p) \<and> wp_Candidates p = [demo_child, demo_parent]"
proof -
  have "map_option (map_sum id wp_Candidates) demo_staged_plan = Some (Inr [demo_child, demo_parent])" by code_simp
  then obtain z where "demo_staged_plan = Some z" "map_sum id wp_Candidates z = Inr [demo_child, demo_parent]" by auto
  then show ?thesis by (cases z) auto
qed

theorem staging_well_formed_witness:
  "sg_keys demo_staging = [demo_NewV1 2 ''one''] \<and>
   (\<exists>b. staging_Get demo_blocks None False None (demo_NewV1 2 ''one'') demo_staging = Inr b \<and> addresses demo_blocks (demo_NewV1 2 ''one'') b)"
proof -
  have keys: "sg_keys demo_staging = [demo_NewV1 2 ''one'']" by (simp add: demo_staging_code)
  with staging_well_formed [OF demo_blocks_ok demo_protocol_ok demo_staging_steps] show ?thesis by auto
qed

theorem staging_plan_needed_witness:
  "\<exists>p. demo_staged_plan = Some (Inr p) \<and> wp_Candidates p = [demo_child, demo_parent] \<and>
     \<not> (needs demo_blocks demo_staging)\<^sup>*\<^sup>* ''broot'' (ac_Root demo_provisional)"
proof -
  have ok: "staging_wf demo_protocol demo_staging"
    using staging_steps_ok [OF demo_blocks_ok demo_protocol_ok demo_staging_steps] by (simp add: staging_ok_def)
  obtain p where p: "demo_staged_plan = Some (Inr p)" "wp_Candidates p = [demo_child, demo_parent]"
    using demo_staged_plan_ok by blast
  have new: "new_root demo_staging ''broot''" by (simp add: new_root_def demo_staging_code gm_flag_def)
  from staging_plan_needed [OF demo_protocol_ok ok, of "\<lambda>_. (None, False, sg_local demo_staging)" "[]" "''broot''"] p
  have "[demo_child, demo_parent] = filter (\<lambda>c. new_root demo_staging ''broot'' \<and> (needs demo_blocks demo_staging)\<^sup>*\<^sup>* ''broot'' (ac_Root c))
      [demo_child, demo_provisional, demo_parent]"
    by (auto simp: demo_staged_plan_def demo_staging_code demo_blocks_def demo_cid_def)
  then have "\<not> (needs demo_blocks demo_staging)\<^sup>*\<^sup>* ''broot'' (ac_Root demo_provisional)"
    using new by (auto simp: demo_child_def demo_parent_def demo_provisional_def split: if_splits)
  then show ?thesis using p by blast
qed

lemma demo_writer_honest: "honest_writer demo_blocks demo_writer"
proof -
  have "map (the \<circ> CIDForBlock demo_blocks) bs = cs" if "list_all2 (\<lambda>b c. CIDForBlock demo_blocks b = Some c) bs cs" for bs cs
    using that by induction simp_all
  then show ?thesis by (auto simp: honest_writer_def demo_writer_def IsValidPutStatus_def comp_def)
qed

lemma demo_canonical:
  "canonicalCID (bl_Cid demo_blocks) (ac_Root demo_child) = Some (ac_Root demo_child)"
  "canonicalCID (bl_Cid demo_blocks) (ac_Root demo_parent) = Some (ac_Root demo_parent)"
  by code_simp+

theorem staged_plan_persists_witness:
  "\<exists>p tr. demo_staged_plan = Some (Inr p) \<and>
     Persist demo_blocks demo_protocol (\<lambda>_. None) p (Some demo_writer) (Some (\<lambda>_ c. Inr (ac_Root c))) = (Inr (), tr)"
proof -
  obtain p where p: "demo_staged_plan = Some (Inr p)" and cands: "wp_Candidates p = [demo_child, demo_parent]"
    using demo_staged_plan_ok by blast
  have "honest_remote demo_blocks demo_protocol (\<lambda>_ c. Inr (ac_Root c))" by (simp add: honest_remote_def demo_blocks_def demo_cid_def)
  moreover have "\<forall>c \<in> set (wp_Candidates p). canonicalCID (bl_Cid demo_blocks) (ac_Root c) = Some (ac_Root c)"
    using demo_canonical by (simp add: cands)
  ultimately show ?thesis
    using staged_plan_persists [OF demo_blocks_ok demo_protocol_ok demo_staging_steps _ p [unfolded demo_staged_plan_def] _ demo_writer_honest] p
    by blast
qed

end
