(* ===== verification/UnixPath.thy ===== *)
theory UnixPath
  imports JsonText
begin

text \<open>
  The path policies of the UnixFS application model: \<open>unixfs/model/path.go\<close>, \<open>unixfs/model/flat.go\<close>,
  \<open>unixfs/model/authentication.go\<close> and the staging paths of \<open>unixfs/staged_tree.go\<close>.
\<close>

abbreviation slash :: char where
  "slash \<equiv> CHR ''/''"

abbreviation backslash :: char where
  "backslash \<equiv> CHR 0x5C"

datatype path_error = ErrReservedPath string | ErrInvalidPath string

section \<open>Relative paths\<close>

text \<open>The runes 0, \<open>/\<close> and \<open>\\<close> of a valid UTF-8 string are its bytes of these values.\<close>

definition isPortableSegment :: "string \<Rightarrow> bool" where
  "isPortableSegment segment \<longleftrightarrow>
     segment \<noteq> [] \<and> segment \<noteq> dot \<and> segment \<noteq> dotdot \<and> ValidString segment \<and>
     list_all (\<lambda>c. c \<noteq> CHR 0x00 \<and> c \<noteq> slash \<and> c \<noteq> backslash) segment"

fun check_segments :: "string list \<Rightarrow> path_error + unit" where
  "check_segments [] = Inr ()"
| "check_segments (segment # segments) =
     require (\<not> HasPrefix segment ''@'') (ErrReservedPath segment) (
     require (isPortableSegment segment) (ErrInvalidPath segment) (check_segments segments))"

definition ParsePath :: "string \<Rightarrow> path_error + string list" where
  "ParsePath path =
     (if path = [] then Inr []
      else
        require (\<not> (HasPrefix path ''/'' \<or> HasSuffix path ''/''))
          (ErrInvalidPath ''path must be relative and must not end with /'') (
        bindE (check_segments (split_on slash path)) (\<lambda>_. Inr (split_on slash path))))"

definition AuthenticationSteps :: "string \<Rightarrow> path_error + string list" where
  "AuthenticationSteps path = bindE (ParsePath path) (\<lambda>segments. Inr (map id segments))"

section \<open>The flat path index\<close>

definition ParseFlatPath :: "string \<Rightarrow> path_error + string list" where
  "ParseFlatPath path =
     (if path = [] then Inr []
      else
        require (list_all isPortableSegment (split_on slash path)) (ErrInvalidPath path) (
        Inr (split_on slash path)))"

definition FlatPathLabel :: "string \<Rightarrow> path_error + string" where
  "FlatPathLabel path =
     (if path = [] then Inr ''@payload''
      else bindE (ParseFlatPath path) (\<lambda>_. Inr (if HasPrefix path ''@'' then slash # path else path)))"

section \<open>Staging paths\<close>

definition byte_order_mark :: string where
  "byte_order_mark = [CHR 0xEF, CHR 0xBB, CHR 0xBF]"

definition ReplaceAll :: "string \<Rightarrow> char \<Rightarrow> char \<Rightarrow> string" where
  "ReplaceAll s old new = map (\<lambda>c. if c = old then new else c) s"

definition CanonicalStagedPath :: "string \<Rightarrow> string" where
  "CanonicalStagedPath raw =
     (let p = TrimPrefix (path_Clean (slash # ReplaceAll (TrimSpace raw) backslash slash)) ''/''
      in if p = dot then [] else p)"

definition SplitStagedPath :: "string \<Rightarrow> string list" where
  "SplitStagedPath p =
     (let clean = CanonicalStagedPath p
      in if clean = [] then [] else filter (\<lambda>part. \<not> (part = [] \<or> part = dot)) (split_on slash clean))"

definition lossless :: "string \<Rightarrow> bool" where
  "lossless segment \<longleftrightarrow>
     TrimSpace segment = segment \<and> \<not> HasPrefix segment byte_order_mark \<and> \<not> HasSuffix segment byte_order_mark"

definition ParseCanonicalStagedPath :: "string \<Rightarrow> path_error + string list" where
  "ParseCanonicalStagedPath raw =
     bindE (ParsePath raw) (\<lambda>segments.
     require (list_all lossless segments) (ErrInvalidPath ''path segment is not losslessly canonical'') (
     require (join_with slash segments = raw \<and> CanonicalStagedPath raw = raw)
       (ErrInvalidPath ''path is not in losslessly canonical staging form'') (Inr segments)))"

section \<open>What the policies accept\<close>

text \<open>A name that may stand between two slashes of a staged path.\<close>

definition staged_name :: "string \<Rightarrow> bool" where
  "staged_name s \<longleftrightarrow> isPortableSegment s \<and> \<not> HasPrefix s ''@'' \<and> lossless s"

lemma portable_plain: "isPortableSegment s \<Longrightarrow> plain_element s \<and> slash \<notin> set s \<and> backslash \<notin> set s"
  by (auto simp: isPortableSegment_def plain_element_def list_all_iff)

lemma staged_name_plain: "staged_name s \<Longrightarrow> plain_element s \<and> slash \<notin> set s \<and> backslash \<notin> set s"
  using portable_plain by (simp add: staged_name_def)

lemma check_segments_Inr:
  "check_segments ss = Inr () \<longleftrightarrow> list_all (\<lambda>s. \<not> HasPrefix s ''@'' \<and> isPortableSegment s) ss"
  by (induction ss) (simp_all add: result_simps)

lemma ParsePath_Inr:
  "ParsePath path = Inr ss \<Longrightarrow>
     join_with slash ss = path \<and> list_all (\<lambda>s. \<not> HasPrefix s ''@'' \<and> isPortableSegment s) ss \<and> (path \<noteq> [] \<longrightarrow> ss = split_on slash path)"
  by (auto simp: ParsePath_def result_simps check_segments_Inr split: if_splits)

lemma HasPrefix_slash: "HasPrefix s ''/'' \<longleftrightarrow> s \<noteq> [] \<and> hd s = slash"
  by (cases s) (auto simp: HasPrefix_def)

lemma HasSuffix_slash: "HasSuffix s ''/'' \<longleftrightarrow> s \<noteq> [] \<and> last s = slash"
  by (simp add: HasSuffix_def HasPrefix_slash hd_rev)

lemma join_plain_ends:
  assumes "ss \<noteq> []" and "\<forall>s \<in> set ss. plain_element s \<and> slash \<notin> set s"
  shows "join_with slash ss \<noteq> [] \<and> hd (join_with slash ss) \<noteq> slash \<and> last (join_with slash ss) \<noteq> slash"
  using assms
proof (induction slash ss rule: join_with.induct)
  case (2 s)
  then show ?case by (auto simp: plain_element_def) (metis hd_in_set, metis last_in_set)
next
  case (3 s t ss)
  then have "s \<noteq> []" "hd s \<noteq> slash" by (auto simp: plain_element_def) (metis hd_in_set)
  then show ?case using 3 by auto
qed simp

lemma clean_plain:
  assumes "ss \<noteq> []" and "\<forall>s \<in> set ss. plain_element s \<and> slash \<notin> set s"
  shows "path_Clean (slash # join_with slash ss) = slash # join_with slash ss"
proof -
  have "split_on slash (slash # join_with slash ss) = [] # ss" using assms by (simp add: split_join)
  moreover have "clean_push True [] [] = []" by (simp add: clean_push_def)
  moreover have "list_all plain_element ss" using assms(2) by (simp add: list_all_iff)
  ultimately show ?thesis
    by (simp add: path_Clean_def foldl_clean_push_plain HasPrefix_slash)
qed

lemma ReplaceAll_id: "old \<notin> set s \<Longrightarrow> ReplaceAll s old new = s"
  unfolding ReplaceAll_def by (rule map_idI) auto

lemma join_set: "c \<in> set (join_with sep ss) \<Longrightarrow> c = sep \<or> (\<exists>s \<in> set ss. c \<in> set s)"
  by (induction sep ss rule: join_with.induct) auto

lemma canonical_join:
  assumes "ss \<noteq> []" and "list_all staged_name ss" and "TrimSpace (join_with slash ss) = join_with slash ss"
  shows "CanonicalStagedPath (join_with slash ss) = join_with slash ss"
proof -
  have plain: "\<forall>s \<in> set ss. plain_element s \<and> slash \<notin> set s" "\<forall>s \<in> set ss. backslash \<notin> set s"
    using assms(2) staged_name_plain by (auto simp: list_all_iff)
  have "backslash \<notin> set (join_with slash ss)" using plain(2) join_set [of backslash slash ss] by auto
  moreover have "join_with slash ss \<noteq> dot"
  proof
    assume "join_with slash ss = dot"
    then have "split_on slash (join_with slash ss) = [dot]" by (simp add: dot_def)
    then have "ss = [dot]" using split_join [of ss slash] assms(1) plain(1) by auto
    then show False using plain(1) by (simp add: plain_element_def)
  qed
  ultimately show ?thesis
    using assms(3) clean_plain [OF assms(1) plain(1)]
    by (simp add: CanonicalStagedPath_def ReplaceAll_id TrimPrefix_def HasPrefix_def)
qed

text \<open>Trimming looks only at the ends, and no encoding of a space contains a slash.\<close>

lemma space_encodings_slash:
  "list_all (\<lambda>e. slash \<notin> set e) space_encodings" "list_all (\<lambda>e. slash \<notin> set e) (map rev space_encodings)"
  by (simp_all add: space_encodings_def)

lemma strip_first_segment:
  assumes "list_all (\<lambda>e. slash \<notin> set e) es" and "strip_first es s = None"
  shows "strip_first es (s @ slash # t) = None"
  unfolding strip_first_None
proof
  fix e assume e: "e \<in> set es"
  have none: "e = [] \<or> take (length e) s \<noteq> e" using assms(2) e unfolding strip_first_None by blast
  have "slash \<in> set (take (length e) (s @ slash # t))" if "length s < length e"
    using that by (auto simp: take_Cons' split: if_splits)
  moreover have "slash \<notin> set e" using assms(1) e by (simp add: list_all_iff)
  ultimately have "take (length e) (s @ slash # t) \<noteq> e" if "length s < length e" using that by metis
  moreover have "take (length e) (s @ slash # t) = take (length e) s" if "\<not> length s < length e" using that by simp
  ultimately show "e = [] \<or> take (length e) (s @ slash # t) \<noteq> e" using none by metis
qed

lemma strip_first_join:
  assumes "list_all (\<lambda>e. slash \<notin> set e) es" and "ss \<noteq> []" and "strip_first es (hd ss) = None"
  shows "strip_first es (join_with slash ss) = None"
proof (cases ss)
  case (Cons s rest)
  then show ?thesis using assms strip_first_segment [OF assms(1), of s] by (cases rest) auto
qed (use assms in simp)

lemma rev_join: "rev (join_with sep ss) = join_with sep (rev (map rev ss))"
proof (induction sep ss rule: join_with.induct)
  case (3 sep s t ss)
  have snoc: "join_with sep (xs @ [x]) = join_with sep xs @ sep # x" if "xs \<noteq> []" for xs x
    using that by (induction sep xs rule: join_with.induct) (simp_all add: join_with_Cons)
  show ?case using 3 snoc [of "rev (map rev ss) @ [rev t]" "rev s"] by simp
qed simp_all

lemma TrimSpace_join:
  assumes "list_all (\<lambda>s. TrimSpace s = s) ss"
  shows "TrimSpace (join_with slash ss) = join_with slash ss"
proof (cases "ss = []")
  case False
  have fixed: "strip_first space_encodings s = None" "strip_first (map rev space_encodings) (rev s) = None" if "s \<in> set ss" for s
    using TrimSpace_stops [of s] assms that by (simp_all add: list_all_iff)
  show ?thesis
  proof (rule TrimSpace_fixed)
    show "strip_first space_encodings (join_with slash ss) = None"
      using False by (intro strip_first_join space_encodings_slash fixed) simp_all
    show "strip_first (map rev space_encodings) (rev (join_with slash ss)) = None"
      unfolding rev_join using False
      by (intro strip_first_join space_encodings_slash) (simp_all add: hd_rev last_map fixed)
  qed
qed simp

section \<open>Properties\<close>

lemma parse_join:
  assumes "list_all staged_name ss"
  shows "ParseCanonicalStagedPath (join_with slash ss) = Inr ss"
proof (cases "ss = []")
  case True
  then show ?thesis by (simp add: ParseCanonicalStagedPath_def ParsePath_def CanonicalStagedPath_def ReplaceAll_def path_Clean_def
        clean_push_def TrimPrefix_def HasPrefix_def dot_def)
next
  case False
  have plain: "\<forall>s \<in> set ss. plain_element s \<and> slash \<notin> set s" using assms staged_name_plain by (simp add: list_all_iff)
  have "split_on slash (join_with slash ss) = ss" using False plain by (simp add: split_join)
  moreover have "check_segments ss = Inr ()" using assms by (auto simp: check_segments_Inr staged_name_def list_all_iff)
  ultimately have "ParsePath (join_with slash ss) = Inr ss"
    using join_plain_ends [OF False plain] by (simp add: ParsePath_def HasPrefix_slash HasSuffix_slash)
  moreover have "TrimSpace (join_with slash ss) = join_with slash ss"
    using assms by (intro TrimSpace_join) (simp add: list_all_iff staged_name_def lossless_def)
  ultimately show ?thesis
    using assms canonical_join [OF False assms] by (simp add: ParseCanonicalStagedPath_def list_all_iff staged_name_def)
qed

lemma parse_canonical:
  assumes "ParseCanonicalStagedPath raw = Inr ss"
  shows "join_with slash ss = raw" and "list_all staged_name ss"
proof -
  have "ParsePath raw = Inr ss" "list_all lossless ss" using assms by (auto simp: ParseCanonicalStagedPath_def result_simps)
  then show "join_with slash ss = raw" "list_all staged_name ss"
    using ParsePath_Inr [of raw ss] by (auto simp: staged_name_def list_all_iff)
qed

lemma split_canonical:
  assumes "list_all staged_name ss"
  shows "SplitStagedPath (join_with slash ss) = ss"
proof (cases "ss = []")
  case True
  then show ?thesis by (simp add: SplitStagedPath_def CanonicalStagedPath_def ReplaceAll_def path_Clean_def clean_push_def
        TrimPrefix_def HasPrefix_def dot_def)
next
  case False
  have plain: "\<forall>s \<in> set ss. plain_element s \<and> slash \<notin> set s" using assms staged_name_plain by (simp add: list_all_iff)
  have "filter (\<lambda>part. \<not> (part = [] \<or> part = dot)) ss = ss"
    using plain by (intro filter_True) (simp add: plain_element_def)
  moreover have "TrimSpace (join_with slash ss) = join_with slash ss"
    using assms by (intro TrimSpace_join) (simp add: list_all_iff staged_name_def lossless_def)
  ultimately show ?thesis
    using False plain join_plain_ends [OF False plain] canonical_join [OF False assms]
    by (simp add: SplitStagedPath_def Let_def split_join)
qed

text \<open>
  C28: a staged path is its list of names.  Any list of portable, unreserved names without spaces or byte order
  marks at their ends is parsed back from its joined path, the lossy splitting of the mutators agrees with the
  strict parser on it, and no other spelling is parsed to the same list.
\<close>

theorem staged_path_roundtrip:
  assumes "list_all staged_name segments"
  shows "ParseCanonicalStagedPath (join_with slash segments) = Inr segments \<and>
    SplitStagedPath (join_with slash segments) = segments \<and>
    (\<forall>raw. ParseCanonicalStagedPath raw = Inr segments \<longrightarrow> raw = join_with slash segments)"
  using parse_join [OF assms] split_canonical [OF assms] parse_canonical(1) by blast

lemma demo_names: "list_all staged_name [''docs'', ''read me.md'']"
  by code_simp

theorem staged_path_roundtrip_witness:
  "ParseCanonicalStagedPath ''docs/read me.md'' = Inr [''docs'', ''read me.md''] \<and> SplitStagedPath ''docs/read me.md'' = [''docs'', ''read me.md'']"
  using staged_path_roundtrip [OF demo_names] by simp

lemma FlatPathLabel_Inr:
  assumes "FlatPathLabel p = Inr label" and "p \<noteq> []"
  shows "hd p \<noteq> slash" and "label = (if hd p = CHR ''@'' then slash # p else p)"
proof -
  have "list_all isPortableSegment (split_on slash p)" and label: "label = (if HasPrefix p ''@'' then slash # p else p)"
    using assms by (auto simp: FlatPathLabel_def ParseFlatPath_def result_simps split: if_splits)
  then show "hd p \<noteq> slash" using assms(2) by (cases p) (auto simp: isPortableSegment_def)
  show "label = (if hd p = CHR ''@'' then slash # p else p)" using label assms(2) by (cases p) (simp_all add: HasPrefix_def)
qed

lemma payload_label: "FlatPathLabel q = Inr ''@payload'' \<Longrightarrow> q = []"
proof (rule ccontr)
  assume "FlatPathLabel q = Inr ''@payload''" and "q \<noteq> []"
  from FlatPathLabel_Inr(2) [OF this] show False by (cases "hd q = CHR ''@''") auto
qed

text \<open>
  C29: flat labels do not collide.  Two paths that the flat index accepts under the same label are the same
  path; in particular a file named \<open>@payload\<close> cannot shadow the manifest of the root.
\<close>

theorem flat_label_injective:
  assumes "FlatPathLabel p = Inr label" and "FlatPathLabel q = Inr label"
  shows "p = q"
proof (cases "p = [] \<or> q = []")
  case True
  then have "label = ''@payload''" using assms by (auto simp: FlatPathLabel_def)
  then show ?thesis using assms payload_label by blast
next
  case False
  then show ?thesis using assms FlatPathLabel_Inr [of p label] FlatPathLabel_Inr [of q label] by (auto split: if_splits)
qed

theorem flat_label_injective_witness:
  "FlatPathLabel ''@payload'' = Inr ''/@payload'' \<and> FlatPathLabel [] \<noteq> Inr ''/@payload''"
proof -
  have run: "FlatPathLabel ''@payload'' = Inr ''/@payload''" by code_simp
  then show ?thesis using flat_label_injective [OF run, of "[]"] by auto
qed

end
