(* ===== verification/StagedTree.thy ===== *)
theory StagedTree
  imports UnixPath CidLib
begin

text \<open>
  The staged UnixFS tree (\<open>unixfs/staged_tree.go\<close>, \<open>unixfs/staged_remove.go\<close>).  The Go code changes the tree
  through pointers; here an operation returns the changed tree, and a caller that writes through the returned
  pointer is a function applied to the node at that place.
\<close>

section \<open>Nodes\<close>

datatype StagedNode =
  StagedNode (sn_Kind: string) (sn_StorageKind: string) (sn_Key: cid) (sn_Chunks: "cid list")
    (sn_Children: "(string \<times> StagedNode) list") (sn_Changed: bool)

definition StagedKindDirectory :: string where
  "StagedKindDirectory = ''dir''"

definition StagedKindFile :: string where
  "StagedKindFile = ''file''"

definition StagedKindMapDirectory :: string where
  "StagedKindMapDirectory = ''mapdir''"

abbreviation is_dir :: "StagedNode \<Rightarrow> bool" where
  "is_dir n \<equiv> sn_Kind n = StagedKindDirectory"

primrec with_children :: "(string \<times> StagedNode) list \<Rightarrow> StagedNode \<Rightarrow> StagedNode" where
  "with_children cs (StagedNode kind storage key chunks _ changed) = StagedNode kind storage key chunks cs changed"

primrec with_changed :: "bool \<Rightarrow> StagedNode \<Rightarrow> StagedNode" where
  "with_changed b (StagedNode kind storage key chunks cs _) = StagedNode kind storage key chunks cs b"

lemma with_simps [simp]:
  "sn_Kind (with_children cs n) = sn_Kind n" "sn_Children (with_children cs n) = cs" "sn_Key (with_children cs n) = sn_Key n"
  "sn_Changed (with_children cs n) = sn_Changed n"
  "sn_Kind (with_changed b n) = sn_Kind n" "sn_Children (with_changed b n) = sn_Children n" "sn_Key (with_changed b n) = sn_Key n"
  "sn_Changed (with_changed b n) = b"
  by (cases n; simp)+

definition set_child :: "string \<Rightarrow> StagedNode \<Rightarrow> StagedNode \<Rightarrow> StagedNode" where
  "set_child name child n = with_children (gm_put (sn_Children n) name child) n"

section \<open>Operations\<close>

definition NewStagedDirectory :: StagedNode where
  "NewStagedDirectory = StagedNode StagedKindDirectory [] [] [] [] False"

text \<open>The walk of \<open>EnsureStagedDirectory\<close> to a place, and what its caller then does to the node there.\<close>

fun ensure_path :: "string list \<Rightarrow> (StagedNode \<Rightarrow> StagedNode) \<Rightarrow> StagedNode \<Rightarrow> StagedNode" where
  "ensure_path [] f cur = f cur"
| "ensure_path (seg # segments) f cur =
     (let child = (case gm_get (sn_Children cur) seg of
                     Some c \<Rightarrow> if is_dir c then c else with_changed True NewStagedDirectory
                   | None \<Rightarrow> with_changed True NewStagedDirectory)
      in with_changed True (set_child seg (ensure_path segments f child) cur))"

definition EnsureStagedDirectory :: "string \<Rightarrow> (StagedNode \<Rightarrow> StagedNode) \<Rightarrow> StagedNode \<Rightarrow> StagedNode" where
  "EnsureStagedDirectory p f root =
     (if p = [] then f (with_changed True root) else ensure_path (SplitStagedPath p) f (with_changed True root))"

datatype tree_error = TreePath path_error | TreeInvalid string | TreeNotFound string | TreeNotDirectory string

text \<open>The layout that the codec library reads from a root.\<close>

datatype root_layout = MapLayout | ListLayout | OtherLayout

definition DirectoryManifestCodec :: nat where
  "DirectoryManifestCodec = 0x310002"

definition StorageKindFromCID :: "(cid \<Rightarrow> nat) \<Rightarrow> (cid \<Rightarrow> root_layout option) \<Rightarrow> cid \<Rightarrow> string" where
  "StorageKindFromCID codec parseRoot c =
     (if \<not> cid_Defined c then []
      else if codec c = 0x55 \<or> codec c = DirectoryManifestCodec then ''raw''
      else case parseRoot c of
        Some MapLayout \<Rightarrow> ''prefix''
      | Some ListLayout \<Rightarrow> ''positional''
      | _ \<Rightarrow> [])"

definition put_file :: "(cid \<Rightarrow> string) \<Rightarrow> string \<Rightarrow> cid \<Rightarrow> StagedNode \<Rightarrow> StagedNode" where
  "put_file storageKind name key parent =
     (if \<exists>existing. gm_get (sn_Children parent) name = Some existing \<and> sn_Kind existing = StagedKindFile \<and> sn_Key existing = key
      then parent
      else with_changed True (set_child name (StagedNode StagedKindFile (storageKind key) key [] [] True) parent))"

lemma put_file_code [code]:
  "put_file storageKind name key parent =
     (let fresh = with_changed True (set_child name (StagedNode StagedKindFile (storageKind key) key [] [] True) parent) in
      case gm_get (sn_Children parent) name of
        None \<Rightarrow> fresh
      | Some existing \<Rightarrow> if sn_Kind existing = StagedKindFile \<and> sn_Key existing = key then parent else fresh)"
  by (simp add: put_file_def Let_def split: option.split)

definition SetStagedFile :: "(cid \<Rightarrow> string) \<Rightarrow> string \<Rightarrow> cid \<Rightarrow> StagedNode \<Rightarrow> tree_error + StagedNode" where
  "SetStagedFile storageKind p key root =
     bindE (map_sum TreePath id (ParseCanonicalStagedPath p)) (\<lambda>segments.
     require (segments \<noteq> []) (TreeInvalid ''file path must not be empty'') (
     Inr (EnsureStagedDirectory (join_with slash (butlast segments)) (put_file storageKind (last segments) key) root)))"

text \<open>
  \<open>path.Dir\<close> of the Go library: what stands before the last slash, cleaned.  \<open>EnsureStagedFile\<close> takes
  the parent from it and the name from the canonical segments; without segments it returns no node and leaves the
  tree alone.
\<close>

definition path_Dir :: "string \<Rightarrow> string" where
  "path_Dir p = path_Clean (rev (dropWhile (\<lambda>c. c \<noteq> slash) (rev p)))"

definition put_raw_file :: "string \<Rightarrow> StagedNode \<Rightarrow> StagedNode" where
  "put_raw_file name parent = with_changed True (set_child name (StagedNode StagedKindFile ''raw'' [] [] [] True) parent)"

definition EnsureStagedFile :: "string \<Rightarrow> StagedNode \<Rightarrow> StagedNode option" where
  "EnsureStagedFile p root =
     (let segments = SplitStagedPath p; parentPath = (if path_Dir p = dot then [] else path_Dir p) in
      if segments = [] then None
      else Some (EnsureStagedDirectory parentPath (put_raw_file (last segments)) root))"

definition put_map_directory :: "string \<Rightarrow> cid \<Rightarrow> StagedNode \<Rightarrow> StagedNode" where
  "put_map_directory name key parent =
     with_changed True (set_child name (StagedNode StagedKindMapDirectory ''prefix'' key [] [] True) parent)"

definition SetStagedMapDirectory :: "string \<Rightarrow> cid \<Rightarrow> StagedNode \<Rightarrow> tree_error + StagedNode" where
  "SetStagedMapDirectory p key root =
     bindE (map_sum TreePath id (ParseCanonicalStagedPath p)) (\<lambda>segments.
     require (segments \<noteq> []) (TreeInvalid ''map directory path must not be empty'') (
     Inr (EnsureStagedDirectory (join_with slash (butlast segments)) (put_map_directory (last segments) key) root)))"

fun removeStagedSegments :: "string list \<Rightarrow> StagedNode \<Rightarrow> tree_error + StagedNode" where
  "removeStagedSegments [] parent = Inl (TreeInvalid ''panic: index out of range'')"
| "removeStagedSegments (seg # segments) parent =
     (case gm_get (sn_Children parent) seg of
        None \<Rightarrow> Inl (TreeNotFound seg)
      | Some child \<Rightarrow>
          if segments = [] then Inr (with_changed True (with_children (gm_del (sn_Children parent) seg) parent))
          else
            require (is_dir child) (TreeNotDirectory seg) (
            bindE (removeStagedSegments segments child) (\<lambda>child'.
            Inr (with_changed True (set_child seg child' parent)))))"

definition RemoveStagedPath :: "string \<Rightarrow> StagedNode \<Rightarrow> tree_error + StagedNode" where
  "RemoveStagedPath rawPath root =
     require (is_dir root) (TreeInvalid ''staged root is not a directory'') (
     bindE (map_sum TreePath id (ParseCanonicalStagedPath rawPath)) (\<lambda>segments.
     require (segments \<noteq> []) (TreeInvalid ''cannot remove the staged root'') (
     removeStagedSegments segments root)))"

text \<open>
  \<open>MergeStagedNodes\<close>, together with whether the result is the existing node itself: that is what the pointer
  comparison of the loop asks.
\<close>

fun merge_node :: "StagedNode option \<Rightarrow> StagedNode \<Rightarrow> bool \<times> StagedNode"
  and merge_children :: "(string \<times> StagedNode) list \<Rightarrow> StagedNode \<Rightarrow> StagedNode" where
  "merge_node None (StagedNode kind storage key chunks cs changed) = (False, StagedNode kind storage key chunks cs changed)"
| "merge_node (Some existing) (StagedNode kind storage key chunks cs changed) =
     (if kind \<noteq> StagedKindDirectory then
        (if sn_Kind existing = kind \<and> sn_Key existing = key then (True, existing) else (False, StagedNode kind storage key chunks cs changed))
      else if \<not> is_dir existing then (False, StagedNode kind storage key chunks cs changed)
      else (True, merge_children cs existing))"
| "merge_children [] existing = existing"
| "merge_children ((name, child) # rest) existing =
     (let (same, merged) = merge_node (gm_get (sn_Children existing) name) child;
          changed = sn_Changed existing \<or> \<not> same \<or> sn_Changed merged
      in merge_children rest (with_changed changed (set_child name merged existing)))"

definition MergeStagedNodes :: "StagedNode option \<Rightarrow> StagedNode option \<Rightarrow> StagedNode option" where
  "MergeStagedNodes existing staged =
     (case staged of None \<Rightarrow> existing | Some s \<Rightarrow> Some (snd (merge_node existing s)))"

section \<open>The file system a tree stands for\<close>

text \<open>
  Every path leads to a directory, to a leaf with its kind and key, or to nothing.
\<close>

datatype entry = Dir | Leaf string cid

type_synonym filesystem = "string list \<Rightarrow> entry option"

fun node_at :: "string list \<Rightarrow> StagedNode \<Rightarrow> StagedNode option" where
  "node_at [] n = Some n"
| "node_at (seg # segments) n =
     (if is_dir n then Option.bind (gm_get (sn_Children n) seg) (node_at segments) else None)"

definition entry_of :: "StagedNode \<Rightarrow> entry" where
  "entry_of n = (if is_dir n then Dir else Leaf (sn_Kind n) (sn_Key n))"

definition abs_tree :: "StagedNode \<Rightarrow> filesystem" where
  "abs_tree n p = map_option entry_of (node_at p n)"

text \<open>What the operations mean there.\<close>

definition fs_mkdir :: "string list \<Rightarrow> filesystem \<Rightarrow> filesystem" where
  "fs_mkdir p fs q = (if prefix q p then Some Dir else fs q)"

definition fs_put :: "string list \<Rightarrow> entry \<Rightarrow> filesystem \<Rightarrow> filesystem" where
  "fs_put p e fs q = (if q = p then Some e else if strict_prefix q p then Some Dir else if prefix p q then None else fs q)"

definition fs_remove :: "string list \<Rightarrow> filesystem \<Rightarrow> filesystem" where
  "fs_remove p fs q = (if prefix p q then None else fs q)"

definition fs_overlay :: "filesystem \<Rightarrow> filesystem \<Rightarrow> filesystem" where
  "fs_overlay upper lower q =
     (case upper q of
        Some e \<Rightarrow> Some e
      | None \<Rightarrow> if \<exists>r kind key. strict_prefix r q \<and> upper r = Some (Leaf kind key) then None else lower q)"

end
