(* ===== verification/StagedTreeProps.thy ===== *)
theory StagedTreeProps
  imports StagedTree
begin

text \<open>
  What the operations on a staged tree do to the file system it stands for, and why a node that they leave
  unmarked may keep its root: the materializer rewrites the marked nodes only.
\<close>

section \<open>Paths through a tree\<close>

lemma is_dir_with [simp]: "is_dir (set_child name c n) \<longleftrightarrow> is_dir n"
  by (simp add: set_child_def)

lemma children_set_child [simp]: "sn_Children (set_child name c n) = gm_put (sn_Children n) name c"
  by (simp add: set_child_def)

lemma node_at_Cons_dir: "is_dir n \<Longrightarrow> node_at (s # q) n = Option.bind (gm_get (sn_Children n) s) (node_at q)"
  by simp

lemma node_at_leaf: "\<not> is_dir n \<Longrightarrow> q \<noteq> [] \<Longrightarrow> node_at q n = None"
  by (cases q) auto

lemma abs_tree_Nil [simp]: "abs_tree n [] = Some (entry_of n)"
  by (simp add: abs_tree_def)

lemma abs_tree_Cons:
  "abs_tree n (s # q) = (if is_dir n then Option.bind (gm_get (sn_Children n) s) (\<lambda>c. abs_tree c q) else None)"
  by (cases "gm_get (sn_Children n) s") (auto simp: abs_tree_def)

lemma abs_tree_leaf: "\<not> is_dir n \<Longrightarrow> q \<noteq> [] \<Longrightarrow> abs_tree n q = None"
  by (simp add: abs_tree_def node_at_leaf)

lemma abs_tree_changed [simp]: "abs_tree (with_changed b n) = abs_tree n"
proof
  show "abs_tree (with_changed b n) q = abs_tree n q" for q by (cases q) (auto simp: abs_tree_Cons entry_of_def)
qed

lemma entry_of_dir [simp]: "is_dir n \<Longrightarrow> entry_of n = Dir"
  by (simp add: entry_of_def)

lemma fresh_dir [simp]: "is_dir NewStagedDirectory" "sn_Children NewStagedDirectory = []"
  by (simp_all add: NewStagedDirectory_def)

lemma abs_fresh: "abs_tree NewStagedDirectory q = (if q = [] then Some Dir else None)"
  by (cases q) (simp_all add: abs_tree_Cons)

lemma abs_set_child:
  "is_dir n \<Longrightarrow> abs_tree (set_child name c n) q =
     (case q of [] \<Rightarrow> Some Dir | s # q' \<Rightarrow> if s = name then abs_tree c q' else abs_tree n q)"
  by (cases q) (auto simp: abs_tree_Cons)

text \<open>The directory that the walk enters, and how it relates to what was there.\<close>

definition entered :: "string \<Rightarrow> StagedNode \<Rightarrow> StagedNode" where
  "entered seg cur =
     (case gm_get (sn_Children cur) seg of
        Some c \<Rightarrow> if is_dir c then c else with_changed True NewStagedDirectory
      | None \<Rightarrow> with_changed True NewStagedDirectory)"

lemma ensure_path_Cons:
  "ensure_path (seg # segments) f cur = with_changed True (set_child seg (ensure_path segments f (entered seg cur)) cur)"
  by (simp add: entered_def Let_def)

declare ensure_path.simps(2) [simp del]

lemma entered_dir [simp]: "is_dir (entered seg cur)"
  by (simp add: entered_def split: option.split)

lemma entered_abs:
  assumes "is_dir cur" and "\<not> prefix q p"
  shows "abs_tree (entered seg cur) q = abs_tree cur (seg # q)"
proof -
  have "q \<noteq> []" using assms(2) by auto
  then show ?thesis using assms(1) by (auto simp: entered_def abs_tree_Cons abs_fresh abs_tree_leaf split: option.split)
qed

lemma ensure_path_dir: "(\<And>n. is_dir n \<Longrightarrow> is_dir (f n)) \<Longrightarrow> is_dir cur \<Longrightarrow> is_dir (ensure_path segments f cur)"
  by (cases segments) (auto simp: ensure_path_Cons)

section \<open>Refinement of the single operations\<close>

lemma ensure_put:
  assumes f: "\<And>n. is_dir n \<Longrightarrow> abs_tree (f n) = fs_put [name] e (abs_tree n)" and "is_dir cur"
  shows "abs_tree (ensure_path segments f cur) = fs_put (segments @ [name]) e (abs_tree cur)"
  using assms(2)
proof (induction segments arbitrary: cur)
  case (Cons seg segments)
  show ?case
  proof
    fix q
    show "abs_tree (ensure_path (seg # segments) f cur) q = fs_put ((seg # segments) @ [name]) e (abs_tree cur) q"
      using Cons.prems entered_abs [OF Cons.prems, of _ segments seg]
      by (cases q) (auto simp: ensure_path_Cons abs_set_child Cons.IH fs_put_def strict_prefix_def)
  qed
qed (simp add: f)

lemma ensure_mkdir:
  assumes "is_dir cur"
  shows "abs_tree (ensure_path segments id cur) = fs_mkdir segments (abs_tree cur)"
  using assms
proof (induction segments arbitrary: cur)
  case Nil
  then show ?case by (auto simp: fs_mkdir_def)
next
  case (Cons seg segments)
  show ?case
  proof
    fix q
    show "abs_tree (ensure_path (seg # segments) id cur) q = fs_mkdir (seg # segments) (abs_tree cur) q"
      using Cons.prems entered_abs [OF Cons.prems, of _ segments seg]
      by (cases q) (auto simp: ensure_path_Cons abs_set_child Cons.IH fs_mkdir_def)
  qed
qed

lemma leaf_put:
  assumes "is_dir n" and "\<not> is_dir leaf"
  shows "abs_tree (with_changed True (set_child name leaf n)) = fs_put [name] (entry_of leaf) (abs_tree n)"
proof
  show "abs_tree (with_changed True (set_child name leaf n)) q = fs_put [name] (entry_of leaf) (abs_tree n) q" for q
    using assms by (cases q) (auto simp: abs_set_child fs_put_def strict_prefix_def abs_tree_leaf prefix_Cons)
qed

lemma kinds_differ [simp]: "StagedKindFile \<noteq> StagedKindDirectory" "StagedKindMapDirectory \<noteq> StagedKindDirectory"
  by (simp_all add: StagedKindFile_def StagedKindDirectory_def StagedKindMapDirectory_def)

lemma present_put:
  assumes "is_dir n" and "gm_get (sn_Children n) name = Some leaf" and "\<not> is_dir leaf"
  shows "fs_put [name] (entry_of leaf) (abs_tree n) = abs_tree n"
proof
  show "fs_put [name] (entry_of leaf) (abs_tree n) q = abs_tree n q" for q
    using assms by (cases q) (auto simp: fs_put_def strict_prefix_def abs_tree_Cons abs_tree_leaf prefix_Cons)
qed

lemma put_file_refines:
  assumes "is_dir n"
  shows "abs_tree (put_file storageKind name key n) = fs_put [name] (Leaf StagedKindFile key) (abs_tree n)"
proof (cases "\<exists>c. gm_get (sn_Children n) name = Some c \<and> sn_Kind c = StagedKindFile \<and> sn_Key c = key")
  case True
  then obtain c where c: "gm_get (sn_Children n) name = Some c" "sn_Kind c = StagedKindFile" "sn_Key c = key" by blast
  then have "entry_of c = Leaf StagedKindFile key" by (simp add: entry_of_def)
  then show ?thesis using True c present_put [OF assms c(1)] by (simp add: put_file_def)
next
  case False
  then show ?thesis using leaf_put [OF assms, of "StagedNode StagedKindFile (storageKind key) key [] [] True" name]
    unfolding put_file_def if_not_P [OF False] by (simp add: entry_of_def)
qed

lemma put_map_directory_refines:
  "is_dir n \<Longrightarrow> abs_tree (put_map_directory name key n) = fs_put [name] (Leaf StagedKindMapDirectory key) (abs_tree n)"
  using leaf_put [of n "StagedNode StagedKindMapDirectory ''prefix'' key [] [] True" name]
  by (simp add: put_map_directory_def entry_of_def)

lemma remove_child:
  assumes "is_dir n"
  shows "abs_tree (with_changed True (with_children (gm_del (sn_Children n) seg) n)) = fs_remove [seg] (abs_tree n)"
proof
  show "abs_tree (with_changed True (with_children (gm_del (sn_Children n) seg) n)) q = fs_remove [seg] (abs_tree n) q" for q
    using assms by (cases q) (auto simp: fs_remove_def abs_tree_Cons)
qed

lemma remove_below:
  assumes "is_dir n" and "gm_get (sn_Children n) seg = Some c" and "abs_tree c' = fs_remove p (abs_tree c)" and "p \<noteq> []"
  shows "abs_tree (with_changed True (set_child seg c' n)) = fs_remove (seg # p) (abs_tree n)"
proof
  show "abs_tree (with_changed True (set_child seg c' n)) q = fs_remove (seg # p) (abs_tree n) q" for q
    using assms by (cases q) (auto simp: abs_set_child fs_remove_def abs_tree_Cons)
qed

lemma remove_path_refines:
  assumes "is_dir n" and "segments \<noteq> []"
  shows "case removeStagedSegments segments n of
      Inl _ \<Rightarrow> abs_tree n segments = None
    | Inr t \<Rightarrow> abs_tree n segments \<noteq> None \<and> abs_tree t = fs_remove segments (abs_tree n)"
  using assms
proof (induction segments arbitrary: n)
  case (Cons seg segments)
  show ?case
  proof (cases "gm_get (sn_Children n) seg")
    case None
    then show ?thesis by (simp add: abs_tree_Cons)
  next
    case (Some c)
    consider (last) "segments = []" | (leaf) "segments \<noteq> []" "\<not> is_dir c" | (below) "segments \<noteq> []" "is_dir c" by blast
    then show ?thesis
    proof cases
      case last
      then show ?thesis using Some Cons.prems remove_child by (simp add: abs_tree_Cons)
    next
      case leaf
      then show ?thesis using Some Cons.prems by (simp add: abs_tree_Cons abs_tree_leaf result_simps)
    next
      case below
      then show ?thesis using Some Cons.prems Cons.IH [OF below(2,1)] remove_below [OF Cons.prems(1) Some]
        by (cases "removeStagedSegments segments c") (simp_all add: abs_tree_Cons result_simps)
    qed
  qed
qed simp

lemma ensure_join:
  assumes "list_all staged_name segments"
  shows "EnsureStagedDirectory (join_with slash segments) f root = ensure_path segments f (with_changed True root)"
  using split_canonical [OF assms] split_canonical [of "[]"]
  by (cases "join_with slash segments = []") (auto simp: EnsureStagedDirectory_def)

lemma set_file_run:
  assumes "ParseCanonicalStagedPath p = Inr segments" and "segments \<noteq> []"
  shows "SetStagedFile storageKind p key root =
    Inr (ensure_path (butlast segments) (put_file storageKind (last segments) key) (with_changed True root))"
proof -
  have "list_all staged_name (butlast segments)"
    using parse_canonical(2) [OF assms(1)] by (auto simp: list_all_iff dest: in_set_butlastD)
  then show ?thesis using assms by (simp add: SetStagedFile_def ensure_join)
qed

lemma set_map_run:
  assumes "ParseCanonicalStagedPath p = Inr segments" and "segments \<noteq> []"
  shows "SetStagedMapDirectory p key root =
    Inr (ensure_path (butlast segments) (put_map_directory (last segments) key) (with_changed True root))"
proof -
  have "list_all staged_name (butlast segments)"
    using parse_canonical(2) [OF assms(1)] by (auto simp: list_all_iff dest: in_set_butlastD)
  then show ?thesis using assms by (simp add: SetStagedMapDirectory_def ensure_join)
qed

lemma mkdir_run:
  assumes "ParseCanonicalStagedPath p = Inr segments"
  shows "EnsureStagedDirectory p f root = ensure_path segments f (with_changed True root)"
  using ensure_join [OF parse_canonical(2) [OF assms]] parse_canonical(1) [OF assms] by simp

lemma remove_run:
  assumes "ParseCanonicalStagedPath p = Inr segments" and "segments \<noteq> []" and "is_dir root"
  shows "RemoveStagedPath p root = removeStagedSegments segments root"
  using assms by (simp add: RemoveStagedPath_def)

lemmas runs = set_file_run set_map_run mkdir_run remove_run

text \<open>
  C15: the staged tree is a file system.  At any path that the parser accepts, setting a file or a map directory
  always succeeds and puts exactly that leaf there, with directories above it and nothing below it; ensuring a
  directory makes the path and everything above it directories and changes nothing else; removal fails exactly
  where there is nothing, and otherwise takes away that entry with everything below it.
\<close>

theorem staged_tree_refines:
  assumes "is_dir root" and "ParseCanonicalStagedPath p = Inr segments" and "segments \<noteq> []"
  shows "(\<exists>t. SetStagedFile storageKind p key root = Inr t \<and> abs_tree t = fs_put segments (Leaf StagedKindFile key) (abs_tree root)) \<and>
    (\<exists>t. SetStagedMapDirectory p key root = Inr t \<and> abs_tree t = fs_put segments (Leaf StagedKindMapDirectory key) (abs_tree root)) \<and>
    abs_tree (EnsureStagedDirectory p id root) = fs_mkdir segments (abs_tree root) \<and>
    (case RemoveStagedPath p root of
       Inl _ \<Rightarrow> abs_tree root segments = None
     | Inr t \<Rightarrow> abs_tree root segments \<noteq> None \<and> abs_tree t = fs_remove segments (abs_tree root))"
  using assms ensure_put [OF put_file_refines, of "with_changed True root"]
    ensure_put [OF put_map_directory_refines, of "with_changed True root"]
    ensure_mkdir [of "with_changed True root"] remove_path_refines [OF assms(1,3)]
  by (simp add: runs [OF assms(2)])

text \<open>A tree of one file, and a second file put beside it.\<close>

definition demo_tree :: StagedNode where
  "demo_tree = StagedNode StagedKindDirectory ''prefix'' ''k0'' []
     [(''a'', StagedNode StagedKindFile ''raw'' ''k1'' [] [] False),
      (''d'', StagedNode StagedKindDirectory ''prefix'' ''k2'' [] [] False)] False"

lemma demo_tree_dir: "is_dir demo_tree"
  by (simp add: demo_tree_def)

lemma demo_path: "ParseCanonicalStagedPath ''d/b'' = Inr [''d'', ''b'']"
  by code_simp

theorem staged_tree_refines_witness:
  "\<exists>t. SetStagedFile (\<lambda>_. ''raw'') ''d/b'' ''k3'' demo_tree = Inr t \<and>
     abs_tree t = fs_put [''d'', ''b''] (Leaf StagedKindFile ''k3'') (abs_tree demo_tree)"
  using staged_tree_refines [OF demo_tree_dir demo_path] by simp

text \<open>
  \<open>EnsureStagedFile\<close> agrees with this on a plain path, but a trailing slash sends the file one level too deep:
  the path becomes a directory that holds a file of its own name.
\<close>

lemma ensure_staged_file_plain:
  "map_option (\<lambda>t. (abs_tree t [''d''], abs_tree t [''d'', ''b''])) (EnsureStagedFile ''d/b'' demo_tree) =
     Some (Some Dir, Some (Leaf StagedKindFile []))"
  by code_simp

lemma ensure_staged_file_misplaced:
  "map_option (\<lambda>t. (abs_tree t [''d'', ''b''], abs_tree t [''d'', ''b'', ''b''])) (EnsureStagedFile ''d/b/'' demo_tree) =
     Some (Some Dir, Some (Leaf StagedKindFile []))"
  by code_simp

section \<open>Marks\<close>

lemma child_size: "(name, c) \<in> set (sn_Children n) \<Longrightarrow> size c < size n"
proof (cases n)
  case (StagedNode kind storage key chunks cs changed)
  assume "(name, c) \<in> set (sn_Children n)"
  then have "size c < Suc (size_list (size_prod (\<lambda>_. 0) size) cs)"
    using StagedNode by (auto simp: less_Suc_eq_le intro: size_list_estimation')
  then show ?thesis using StagedNode by simp
qed

text \<open>
  A tree is well formed when no directory has two children of one name and a marked node has marked ancestors,
  so that a rewrite which starts at the root and skips unmarked nodes meets every marked one.
\<close>

function tree_ok :: "StagedNode \<Rightarrow> bool" where
  "tree_ok n \<longleftrightarrow> gm_wf (sn_Children n) \<and>
     list_all (\<lambda>(name, c). (sn_Changed c \<longrightarrow> sn_Changed n) \<and> tree_ok c) (sn_Children n)"
  by pat_completeness auto

termination
  by (relation "measure size") (auto dest: child_size)

declare tree_ok.simps [simp del]

lemma tree_ok_iff:
  "tree_ok n \<longleftrightarrow> gm_wf (sn_Children n) \<and>
     (\<forall>name c. gm_get (sn_Children n) name = Some c \<longrightarrow> (sn_Changed c \<longrightarrow> sn_Changed n) \<and> tree_ok c)"
  by (subst tree_ok.simps) (auto simp: list_all_iff gm_get_in_set)

lemma tree_ok_child: "tree_ok n \<Longrightarrow> gm_get (sn_Children n) name = Some c \<Longrightarrow> tree_ok c"
  using tree_ok_iff [of n] by blast

lemma tree_ok_set:
  assumes "tree_ok n" and "tree_ok c" and "sn_Changed n \<or> sn_Changed c \<longrightarrow> b"
  shows "tree_ok (with_changed b (set_child name c n))"
  using assms by (subst tree_ok_iff) (auto simp: tree_ok_iff [of n])

lemma tree_ok_mark: "tree_ok n \<Longrightarrow> tree_ok (with_changed True n)"
  using tree_ok_iff [of n] by (subst tree_ok_iff) auto

lemma tree_ok_del: "tree_ok n \<Longrightarrow> tree_ok (with_changed True (with_children (gm_del (sn_Children n) name) n))"
  using tree_ok_iff [of n] by (subst tree_ok_iff) auto

lemma tree_ok_flat: "sn_Children n = [] \<Longrightarrow> tree_ok n"
  by (subst tree_ok_iff) simp

text \<open>The unmarked nodes of a new tree are nodes of the old one, at the same place.\<close>

definition unmarked_kept :: "StagedNode \<Rightarrow> StagedNode \<Rightarrow> bool" where
  "unmarked_kept old new \<longleftrightarrow> (\<forall>q n. node_at q new = Some n \<and> \<not> sn_Changed n \<longrightarrow> node_at q old = Some n)"

lemma unmarked_kept_refl: "unmarked_kept n n"
  by (simp add: unmarked_kept_def)

lemma unmarked_kept_trans: "unmarked_kept a b \<Longrightarrow> unmarked_kept b c \<Longrightarrow> unmarked_kept a c"
  by (simp add: unmarked_kept_def)

lemma unmarked_keptD: "unmarked_kept old new \<Longrightarrow> node_at q new = Some n \<Longrightarrow> \<not> sn_Changed n \<Longrightarrow> node_at q old = Some n"
  by (simp add: unmarked_kept_def)

lemma unmarked_mark: "unmarked_kept n (with_changed True n)"
proof -
  have "q \<noteq> [] \<Longrightarrow> node_at q (with_changed True n) = node_at q n" for q by (cases q) auto
  moreover have "\<not> sn_Changed m \<Longrightarrow> node_at q (with_changed True n) = Some m \<Longrightarrow> q \<noteq> []" for q m by auto
  ultimately show ?thesis unfolding unmarked_kept_def by metis
qed

lemma unmarked_set:
  assumes "is_dir n"
    and "\<And>q m. node_at q c = Some m \<Longrightarrow> \<not> sn_Changed m \<Longrightarrow> node_at (name # q) n = Some m"
  shows "unmarked_kept n (with_changed True (set_child name c n))"
  unfolding unmarked_kept_def
proof (intro allI impI, elim conjE)
  fix q m
  assume at: "node_at q (with_changed True (set_child name c n)) = Some m" and "\<not> sn_Changed m"
  then show "node_at q n = Some m" using assms by (cases q) (auto split: if_splits)
qed

lemma unmarked_del:
  "is_dir n \<Longrightarrow> unmarked_kept n (with_changed True (with_children (gm_del (sn_Children n) name) n))"
  unfolding unmarked_kept_def
proof (intro allI impI, elim conjE)
  fix q m
  assume "is_dir n" "node_at q (with_changed True (with_children (gm_del (sn_Children n) name) n)) = Some m" "\<not> sn_Changed m"
  then show "node_at q n = Some m" by (cases q) (auto split: if_splits)
qed

text \<open>A directory-preserving change that keeps both, and the operations as such changes.\<close>

definition marks_change :: "StagedNode \<Rightarrow> StagedNode \<Rightarrow> bool" where
  "marks_change old new \<longleftrightarrow> is_dir new \<and> tree_ok new \<and> unmarked_kept old new"

lemma marks_change_set:
  assumes "is_dir n" "tree_ok n" "tree_ok c"
    and "\<And>q m. node_at q c = Some m \<Longrightarrow> \<not> sn_Changed m \<Longrightarrow> node_at (name # q) n = Some m"
  shows "marks_change n (with_changed True (set_child name c n))"
  using assms unmarked_set [OF assms(1,4)] tree_ok_set [OF assms(2,3), of True] by (simp add: marks_change_def)

lemma marks_change_leaf:
  assumes "is_dir n" "tree_ok n" "\<not> is_dir leaf" "sn_Changed leaf" "sn_Children leaf = []"
  shows "marks_change n (with_changed True (set_child name leaf n))"
proof (rule marks_change_set [OF assms(1,2) tree_ok_flat [OF assms(5)]])
  show "node_at (name # q) n = Some m" if "node_at q leaf = Some m" "\<not> sn_Changed m" for q m
    using that assms(3,4) by (cases q) auto
qed

lemma put_file_marks:
  assumes "is_dir n" "tree_ok n"
  shows "marks_change n (put_file storageKind name key n)"
  using assms marks_change_leaf [OF assms, of "StagedNode StagedKindFile (storageKind key) key [] [] True" name]
  by (simp add: put_file_def marks_change_def unmarked_kept_refl)

lemma put_map_directory_marks: "is_dir n \<Longrightarrow> tree_ok n \<Longrightarrow> marks_change n (put_map_directory name key n)"
  using marks_change_leaf [of n "StagedNode StagedKindMapDirectory ''prefix'' key [] [] True" name]
  by (simp add: put_map_directory_def)

lemma entered_ok: "tree_ok cur \<Longrightarrow> tree_ok (entered seg cur)"
  by (auto simp: entered_def tree_ok_flat dest: tree_ok_child split: option.split)

lemma entered_unmarked:
  assumes "is_dir cur" and "node_at q (entered seg cur) = Some m" and "\<not> sn_Changed m"
  shows "node_at (seg # q) cur = Some m"
  using assms by (cases q) (auto simp: entered_def split: option.splits if_splits)

lemma ensure_marks:
  assumes f: "\<And>n. is_dir n \<Longrightarrow> tree_ok n \<Longrightarrow> marks_change n (f n)" and "is_dir cur" and "tree_ok cur"
  shows "marks_change cur (ensure_path segments f cur)"
  using assms(2,3)
proof (induction segments arbitrary: cur)
  case (Cons seg segments)
  have below: "marks_change (entered seg cur) (ensure_path segments f (entered seg cur))"
    using Cons.IH [OF entered_dir entered_ok [OF Cons.prems(2)]] .
  then show ?case unfolding ensure_path_Cons marks_change_def [of "entered seg cur"]
    by (blast intro: marks_change_set Cons.prems entered_unmarked dest: unmarked_keptD)
qed (simp add: f)

lemma ensure_marks_root:
  assumes "\<And>n. is_dir n \<Longrightarrow> tree_ok n \<Longrightarrow> marks_change n (f n)" and "is_dir root" and "tree_ok root"
  shows "marks_change root (ensure_path segments f (with_changed True root))"
  using ensure_marks [OF assms(1), of "with_changed True root" segments] assms(2,3) tree_ok_mark
    unmarked_kept_trans [OF unmarked_mark] by (simp add: marks_change_def)

lemma remove_marks:
  assumes "removeStagedSegments segments n = Inr t" and "is_dir n" and "tree_ok n"
  shows "marks_change n t"
  using assms
proof (induction segments arbitrary: n t)
  case (Cons seg segments)
  obtain c where c: "gm_get (sn_Children n) seg = Some c" using Cons.prems(1) by (auto split: option.splits)
  show ?case
  proof (cases "segments = []")
    case True
    then have "t = with_changed True (with_children (gm_del (sn_Children n) seg) n)" using Cons.prems(1) c by simp
    then show ?thesis using Cons.prems(2,3) unmarked_del tree_ok_del by (simp add: marks_change_def)
  next
    case False
    then obtain c' where "is_dir c" and c': "removeStagedSegments segments c = Inr c'" and t: "t = with_changed True (set_child seg c' n)"
      using Cons.prems(1) c by (auto simp: result_simps split: if_splits)
    have "marks_change c c'" using Cons.IH [OF c' \<open>is_dir c\<close>] tree_ok_child [OF Cons.prems(3) c] by simp
    then show ?thesis using c Cons.prems(2,3) unfolding t marks_change_def [of c]
      by (intro marks_change_set) (auto dest: unmarked_keptD)
  qed
qed simp

text \<open>An editing session on a loaded tree.\<close>

inductive staged_step :: "StagedNode \<Rightarrow> StagedNode \<Rightarrow> bool" where
  set_file: "SetStagedFile storageKind p key root = Inr t \<Longrightarrow> staged_step root t"
| set_map: "SetStagedMapDirectory p key root = Inr t \<Longrightarrow> staged_step root t"
| mkdir: "staged_step root (EnsureStagedDirectory p id root)"
| remove: "RemoveStagedPath p root = Inr t \<Longrightarrow> staged_step root t"

lemma ensured_any: "EnsureStagedDirectory p f root = ensure_path (if p = [] then [] else SplitStagedPath p) f (with_changed True root)"
  by (simp add: EnsureStagedDirectory_def)

lemma staged_step_marks:
  assumes "staged_step root t" and "is_dir root" and "tree_ok root"
  shows "marks_change root t"
  using assms
proof cases
  case (set_file storageKind p key)
  then show ?thesis using ensure_marks_root [OF put_file_marks assms(2,3)]
    by (auto simp: SetStagedFile_def ensured_any result_simps)
next
  case (set_map p key)
  then show ?thesis using ensure_marks_root [OF put_map_directory_marks assms(2,3)]
    by (auto simp: SetStagedMapDirectory_def ensured_any result_simps)
next
  case (mkdir p)
  have "marks_change n (id n)" if "is_dir n" "tree_ok n" for n using that by (simp add: marks_change_def unmarked_kept_refl)
  from ensure_marks_root [OF this assms(2,3)] show ?thesis unfolding mkdir ensured_any .
next
  case (remove p)
  then show ?thesis using remove_marks assms(2,3) by (auto simp: RemoveStagedPath_def result_simps)
qed

text \<open>
  C16: an unmarked node may keep its root.  After any editing session on a well-formed tree, every node that is
  not marked is, with everything below it, the node which the loaded tree had at that path; and no directory
  has two children of one name or hides a marked child below an unmarked one, so that rewriting the marked
  nodes from the root rewrites all that changed.
\<close>

theorem staged_marks_complete:
  assumes "staged_step\<^sup>*\<^sup>* root t" and "is_dir root" and "tree_ok root"
  shows "is_dir t \<and> tree_ok t \<and> (\<forall>q n. node_at q t = Some n \<and> \<not> sn_Changed n \<longrightarrow> node_at q root = Some n)"
proof -
  have "marks_change root t" using assms(1)
  proof (induction rule: rtranclp_induct)
    case base
    then show ?case using assms(2,3) by (simp add: marks_change_def unmarked_kept_refl)
  next
    case (step t u)
    then show ?case using staged_step_marks [OF step.hyps(2)] unmarked_kept_trans by (auto simp: marks_change_def)
  qed
  then show ?thesis by (simp add: marks_change_def unmarked_kept_def)
qed

definition demo_edited :: StagedNode where
  "demo_edited = StagedNode StagedKindDirectory ''prefix'' ''k0'' []
     [(''a'', StagedNode StagedKindFile ''raw'' ''k1'' [] [] False),
      (''d'', StagedNode StagedKindDirectory ''prefix'' ''k2'' []
         [(''b'', StagedNode StagedKindFile ''raw'' ''k3'' [] [] True)] True)] True"

lemma demo_tree_ok: "tree_ok demo_tree"
  by code_simp

lemma demo_edit: "SetStagedFile (\<lambda>_. ''raw'') ''d/b'' ''k3'' demo_tree = Inr demo_edited"
  by code_simp

lemma demo_session: "staged_step\<^sup>*\<^sup>* demo_tree demo_edited"
  by (rule r_into_rtranclp, rule staged_step.set_file [OF demo_edit])

theorem staged_marks_complete_witness:
  "tree_ok demo_edited \<and> node_at [''a''] demo_tree = Some (StagedNode StagedKindFile ''raw'' ''k1'' [] [] False)"
proof -
  have "node_at [''a''] demo_edited = Some (StagedNode StagedKindFile ''raw'' ''k1'' [] [] False)" by code_simp
  then show ?thesis using staged_marks_complete [OF demo_session demo_tree_dir demo_tree_ok] by fastforce
qed

section \<open>Merging\<close>

lemma merge_children_kind [simp]: "sn_Kind (merge_children cs e) = sn_Kind e"
  by (induction cs arbitrary: e) (auto simp: set_child_def split: prod.split)

lemma merge_children_get:
  assumes "gm_wf cs"
  shows "gm_get (sn_Children (merge_children cs e)) name =
    (case gm_get cs name of
       None \<Rightarrow> gm_get (sn_Children e) name
     | Some c \<Rightarrow> Some (snd (merge_node (gm_get (sn_Children e) name) c)))"
  using assms
proof (induction cs arbitrary: e)
  case (Cons p cs)
  obtain k c where p: "p = (k, c)" by fastforce
  obtain same merged where m: "merge_node (gm_get (sn_Children e) k) c = (same, merged)" by fastforce
  have fresh: "gm_wf cs" "gm_get cs k = None" using Cons.prems p by (auto simp: gm_wf_def map_of_eq_None_iff)
  show ?case using fresh m by (simp add: p Cons.IH split: option.split)
qed simp

text \<open>The cases of a merge.\<close>

definition absent :: filesystem where
  "absent q = None"

lemma merge_node_cases:
  "merge_node eo s =
     (case eo of
        None \<Rightarrow> (False, s)
      | Some e \<Rightarrow>
          if \<not> is_dir s then (if sn_Kind e = sn_Kind s \<and> sn_Key e = sn_Key s then (True, e) else (False, s))
          else if \<not> is_dir e then (False, s)
          else (True, merge_children (sn_Children s) e))"
  by (cases s; cases eo) simp_all

lemma overlay_Cons:
  assumes "is_dir s"
  shows "fs_overlay (abs_tree s) lower (name # q) =
    (case gm_get (sn_Children s) name of
       None \<Rightarrow> lower (name # q)
     | Some c \<Rightarrow> fs_overlay (abs_tree c) (\<lambda>r. lower (name # r)) q)"
proof -
  have "strict_prefix r (name # q) \<and> abs_tree s r = Some (Leaf kind key) \<longleftrightarrow>
      (\<exists>r'. r = name # r' \<and> strict_prefix r' q \<and> abs_tree s (name # r') = Some (Leaf kind key))" for r kind key
    using assms by (cases r) auto
  then have above: "(\<exists>r kind key. strict_prefix r (name # q) \<and> abs_tree s r = Some (Leaf kind key)) \<longleftrightarrow>
      (\<exists>r kind key. strict_prefix r q \<and> abs_tree s (name # r) = Some (Leaf kind key))"
    by blast
  show ?thesis using assms unfolding fs_overlay_def above
    by (cases "gm_get (sn_Children s) name") (auto simp: abs_tree_Cons)
qed

abbreviation lower_of :: "StagedNode option \<Rightarrow> filesystem" where
  "lower_of eo \<equiv> case eo of None \<Rightarrow> absent | Some e \<Rightarrow> abs_tree e"

lemma overlay_leaf:
  assumes "\<not> is_dir s"
  shows "fs_overlay (abs_tree s) lower q = abs_tree s q"
proof (cases q)
  case (Cons a list)
  then have "strict_prefix [] q \<and> abs_tree s [] = Some (Leaf (sn_Kind s) (sn_Key s))" using assms by (simp add: entry_of_def)
  then show ?thesis unfolding fs_overlay_def by (auto split: option.split)
qed (simp add: fs_overlay_def)

lemma overlay_absent:
  assumes "\<And>r. r \<noteq> [] \<Longrightarrow> lower r = None"
  shows "fs_overlay (abs_tree s) lower q = abs_tree s q"
  using assms by (cases q) (auto simp: fs_overlay_def split: option.split)

lemma same_leaf:
  assumes "\<not> is_dir s" and "sn_Kind e = sn_Kind s" and "sn_Key e = sn_Key s"
  shows "abs_tree e = abs_tree s"
proof
  show "abs_tree e q = abs_tree s q" for q using assms by (cases q) (simp_all add: entry_of_def abs_tree_Cons)
qed

lemma lower_child:
  "is_dir e \<Longrightarrow> (\<lambda>r. abs_tree e (name # r)) = lower_of (gm_get (sn_Children e) name)"
  by (auto simp: abs_tree_Cons absent_def split: option.split)

lemma merge_overlays_replaced:
  assumes "\<not> (\<exists>e. eo = Some e \<and> is_dir e \<and> is_dir s)"
  shows "abs_tree (snd (merge_node eo s)) q = fs_overlay (abs_tree s) (lower_of eo) q"
proof (cases "is_dir s")
  case True
  then have "snd (merge_node eo s) = s" and "r \<noteq> [] \<Longrightarrow> lower_of eo r = None" for r
    using assms by (cases eo; simp add: merge_node_cases absent_def abs_tree_leaf)+
  then show ?thesis using overlay_absent [of "lower_of eo"] by simp
next
  case False
  then have "abs_tree (snd (merge_node eo s)) = abs_tree s"
    by (cases eo) (auto simp: merge_node_cases intro: same_leaf [OF False])
  then show ?thesis using overlay_leaf [OF False] by simp
qed

lemma merge_overlays:
  assumes "tree_ok s"
  shows "abs_tree (snd (merge_node eo s)) q = fs_overlay (abs_tree s) (lower_of eo) q"
  using assms
proof (induction q arbitrary: eo s)
  case (Cons name q)
  show ?case
  proof (cases "\<exists>e. eo = Some e \<and> is_dir e \<and> is_dir s")
    case True
    then obtain e where e: "eo = Some e" "is_dir e" "is_dir s" by blast
    have "gm_wf (sn_Children s)" using Cons.prems tree_ok_iff by blast
    then have get: "gm_get (sn_Children (merge_children (sn_Children s) e)) name = (case gm_get (sn_Children s) name of
        None \<Rightarrow> gm_get (sn_Children e) name | Some c \<Rightarrow> Some (snd (merge_node (gm_get (sn_Children e) name) c)))"
      by (rule merge_children_get)
    have merged: "snd (merge_node eo s) = merge_children (sn_Children s) e" using e by (simp add: merge_node_cases)
    show ?thesis
    proof (cases "gm_get (sn_Children s) name")
      case None
      then show ?thesis unfolding merged using e get by (simp add: overlay_Cons abs_tree_Cons)
    next
      case (Some c)
      then have "abs_tree (snd (merge_node eo s)) (name # q) = abs_tree (snd (merge_node (gm_get (sn_Children e) name) c)) q"
        unfolding merged using e get by (simp add: abs_tree_Cons)
      also have "\<dots> = fs_overlay (abs_tree c) (\<lambda>r. abs_tree e (name # r)) q"
        using Cons.IH [OF tree_ok_child [OF Cons.prems Some]] lower_child [OF e(2)] by simp
      finally show ?thesis using e Some by (simp only: overlay_Cons option.case)
    qed
  next
    case False
    then show ?thesis by (rule merge_overlays_replaced)
  qed
next
  case Nil
  show ?case
  proof (cases "\<exists>e. eo = Some e \<and> is_dir e \<and> is_dir s")
    case True
    then show ?thesis by (auto simp: merge_node_cases fs_overlay_def)
  next
    case False
    then show ?thesis by (rule merge_overlays_replaced)
  qed
qed

text \<open>A merge that leaves a directory unmarked has left it alone.\<close>

lemma with_same: "with_changed (sn_Changed n) n = n"
  by (cases n) simp

lemma set_child_same: "gm_get (sn_Children n) name = Some c \<Longrightarrow> set_child name c n = n"
  by (cases n) (simp add: set_child_def gm_put_same)

lemma merge_children_marked: "sn_Changed e \<Longrightarrow> sn_Changed (merge_children cs e)"
  by (induction cs arbitrary: e) (auto split: prod.split)

lemma merge_children_step:
  "merge_children ((name, c) # cs) e =
     (let m = merge_node (gm_get (sn_Children e) name) c
      in merge_children cs (with_changed (sn_Changed e \<or> \<not> fst m \<or> sn_Changed (snd m)) (set_child name (snd m) e)))"
  by (simp add: Let_def split: prod.split)

declare merge_children.simps(2) [simp del]

lemma merge_unmarked:
  "fst (merge_node eo s) \<Longrightarrow> \<not> sn_Changed (snd (merge_node eo s)) \<Longrightarrow> eo = Some (snd (merge_node eo s))"
  "\<not> sn_Changed (merge_children cs e) \<Longrightarrow> merge_children cs e = e"
proof (induction eo s and cs e rule: merge_node_merge_children.induct)
  case (4 name child rest existing)
  define m where "m = merge_node (gm_get (sn_Children existing) name) child"
  let ?next = "with_changed (sn_Changed existing \<or> \<not> fst m \<or> sn_Changed (snd m)) (set_child name (snd m) existing)"
  have run: "merge_children ((name, child) # rest) existing = merge_children rest ?next"
    by (simp add: merge_children_step m_def Let_def)
  have "\<not> sn_Changed ?next" using "4.prems" merge_children_marked [of ?next rest] unfolding run by blast
  then have quiet: "\<not> sn_Changed existing" "fst m" "\<not> sn_Changed (snd m)" by simp_all
  then have "gm_get (sn_Children existing) name = Some (snd m)" using "4.IH"(1) by (simp add: m_def)
  then have "?next = existing" using quiet with_same [of existing] by (simp add: set_child_same)
  then show ?case using "4.IH"(2) [of m "fst m" "snd m"] "4.prems" quiet unfolding run by (simp add: m_def)
qed (auto split: if_splits)

lemma merge_tree_ok:
  "tree_ok s \<Longrightarrow> (\<And>e. eo = Some e \<Longrightarrow> tree_ok e) \<Longrightarrow> tree_ok (snd (merge_node eo s))"
  "(\<And>name c. (name, c) \<in> set cs \<Longrightarrow> tree_ok c) \<Longrightarrow> tree_ok e \<Longrightarrow> tree_ok (merge_children cs e)"
proof (induction eo s and cs e rule: merge_node_merge_children.induct)
  case (2 existing kind storage key chunks cs changed)
  have "tree_ok c" if "(name, c) \<in> set cs" for name c
    using "2.prems"(1) that by (subst (asm) tree_ok.simps) (auto simp: list_all_iff)
  then show ?case using "2.IH" "2.prems" by auto
next
  case (4 name child rest existing)
  define m where "m = merge_node (gm_get (sn_Children existing) name) child"
  have "tree_ok child" and rest: "\<And>k c. (k, c) \<in> set rest \<Longrightarrow> tree_ok c" using "4.prems"(1) by auto
  then have "tree_ok (snd m)" using "4.IH"(1) tree_ok_child [OF "4.prems"(2)] by (simp add: m_def)
  then have "tree_ok (with_changed (sn_Changed existing \<or> \<not> fst m \<or> sn_Changed (snd m)) (set_child name (snd m) existing))"
    using "4.prems"(2) by (intro tree_ok_set) auto
  then show ?case using "4.IH"(2) [of m "fst m" "snd m"] rest by (simp add: merge_children_step m_def Let_def)
qed auto

lemma merge_sources:
  assumes "tree_ok s" and "node_at q (snd (merge_node eo s)) = Some n" and "\<not> sn_Changed n"
  shows "Option.bind eo (node_at q) = Some n \<or> node_at q s = Some n"
  using assms
proof (induction q arbitrary: eo s)
  case Nil
  then have n: "n = snd (merge_node eo s)" "\<not> sn_Changed (snd (merge_node eo s))" by simp_all
  have "fst (merge_node eo s) \<or> snd (merge_node eo s) = s" by (auto simp: merge_node_cases split: option.split)
  then show ?case using n merge_unmarked(1) [of eo s] by (metis Option.bind.simps(2) node_at.simps(1))
next
  case (Cons name q)
  show ?case
  proof (cases "\<exists>e. eo = Some e \<and> is_dir e \<and> is_dir s")
    case True
    then obtain e where e: "eo = Some e" "is_dir e" "is_dir s" by blast
    have "gm_wf (sn_Children s)" using Cons.prems(1) tree_ok_iff by blast
    note get = merge_children_get [OF this, of e name]
    have merged: "snd (merge_node eo s) = merge_children (sn_Children s) e" using e by (simp add: merge_node_cases)
    show ?thesis
    proof (cases "gm_get (sn_Children s) name")
      case None
      then show ?thesis using Cons.prems(2) e get unfolding merged by simp
    next
      case (Some c)
      then have "node_at q (snd (merge_node (gm_get (sn_Children e) name) c)) = Some n"
        using Cons.prems(2) e get unfolding merged by simp
      from Cons.IH [OF tree_ok_child [OF Cons.prems(1) Some] this Cons.prems(3)] show ?thesis using e Some by simp
    qed
  next
    case False
    then have "snd (merge_node eo s) = s \<or> eo = Some (snd (merge_node eo s))" by (auto simp: merge_node_cases split: option.split)
    then show ?thesis using Cons.prems(2) by (metis Option.bind.simps(2))
  qed
qed

text \<open>
  C23: merging overlays.  The merged tree has, at every path, what the staged tree has there; where the staged
  tree has nothing and no leaf of its own above, it has what the existing tree had.  The result is well formed,
  and each of its unmarked nodes is the node of one of the two trees at that path.
\<close>

theorem staged_merge_overlays:
  assumes "tree_ok existing" and "tree_ok staged"
  shows "\<exists>merged. MergeStagedNodes (Some existing) (Some staged) = Some merged \<and>
    abs_tree merged = fs_overlay (abs_tree staged) (abs_tree existing) \<and> tree_ok merged \<and>
    (\<forall>q n. node_at q merged = Some n \<and> \<not> sn_Changed n \<longrightarrow> node_at q existing = Some n \<or> node_at q staged = Some n)"
  using merge_overlays [OF assms(2), of "Some existing"] merge_tree_ok(1) [OF assms(2), of "Some existing"] assms(1)
    merge_sources [OF assms(2), of _ "Some existing"]
  by (auto simp: MergeStagedNodes_def)

theorem staged_merge_overlays_witness:
  "abs_tree (the (MergeStagedNodes (Some demo_tree) (Some demo_edited))) [''d'', ''b''] = Some (Leaf StagedKindFile ''k3'')"
proof -
  have "tree_ok demo_edited" by code_simp
  then have "abs_tree (the (MergeStagedNodes (Some demo_tree) (Some demo_edited))) = fs_overlay (abs_tree demo_edited) (abs_tree demo_tree)"
    using staged_merge_overlays [OF demo_tree_ok] by fastforce
  moreover have "abs_tree demo_edited [''d'', ''b''] = Some (Leaf StagedKindFile ''k3'')" by code_simp
  ultimately show ?thesis by (simp add: fs_overlay_def)
qed

end
