(* ===== verification/Spec2Isabelle.thy ===== *)
theory Spec2Isabelle
  imports Branch JournalMaint Roots CacheBehaviour PlanRun StagingProps StagedTreeProps
begin

text \<open>
  A verification development for the malt client runtime: the owner-side Go program that stages local file
  system changes, uploads them as content-addressed blocks to a node it does not trust, and decides locally
  which roots it accepts.

  \<^bold>\<open>The program and its parts.\<close>  A mounted view records intent in the operation journal (\<open>journal\<close>) and keeps
  bodies in the payload cache (\<open>cache\<close>).  An upload stages blocks and authentication candidates
  (\<open>writeplan/staging.go\<close>), persists them as a write plan (\<open>writeplan\<close>) through the content-addressed layer
  (\<open>internal/cas\<close>), and publishes the new root to a Bucket branch (\<open>bucketsync\<close>, under the contract of
  \<open>nodeapi/dataset.go\<close> and the selectors of \<open>internal/bucketbranch\<close>).  Which root is current is the decision of
  the trusted-root store (\<open>trust\<close>), reached through the facade \<open>application/roots.go\<close>.  Backups
  (\<open>application/backup\<close>) journal a candidate in their history before they stage and push it.  Directory trees
  are edited as staged UnixFS trees (\<open>unixfs/staged_tree.go\<close>) under the path policies of \<open>unixfs/model\<close>.

  \<^bold>\<open>Foundations.\<close>
  \<^item> \<open>Prelude\<close>: results as sums, Go maps as association lists, counters, times, and the fact collections.
  \<^item> \<open>GoText\<close>, \<open>JsonText\<close>, \<open>Base64\<close>: what the program uses of \<open>strings\<close>, \<open>unicode/utf8\<close>, \<open>path\<close>,
    \<open>encoding/json\<close> strings and \<open>encoding/base64\<close>.
  \<^item> \<open>CidLib\<close>: the \<open>go-cid\<close> library as a record of functions, with its documented laws as the predicate
    \<open>cid_lib_ok\<close> and a concrete instance that meets them.
  \<^item> \<open>Durable\<close>: one JSON file that is locked, reloaded, validated, changed and replaced atomically, with a fault
    possible at each step.  The locale \<open>durable_store\<close> states the contract; the journal, the trust store, the
    cache metadata, the Bucket file and the backup history are interpretations of it.  A file that validation
    refuses is \<open>unreadable\<close>: every call on it is \<open>refused\<close>, so nothing repairs it.

  \<^bold>\<open>Components.\<close>
  \<^item> \<open>Branch\<close>: the selectors of \<open>internal/bucketbranch/branch.go\<close> and that their refs are unambiguous.
  \<^item> \<open>Journal\<close> models every method of \<open>journal/store.go\<close>; \<open>JournalInv\<close>, \<open>JournalOps\<close> and \<open>JournalRun\<close> hold the
    invariant, the steps and the histories; \<open>JournalProps\<close> and \<open>JournalMaint\<close> show that identities are never
    reused, records only move forward and the file always reopens, and that any status change made while the
    clock reads less than the creation time loses the file.
  \<^item> \<open>Trust\<close>, \<open>TrustInv\<close>, \<open>TrustRun\<close>, \<open>TrustProps\<close>: \<open>trust/store.go\<close>.  A root is accepted only by an explicit
    action, observations do not regress, and two aliases with one JSON encoding lose the file.  \<open>Roots\<close> is the facade
    over the locale \<open>root_policy\<close>, which the store interprets; its fence is described for every guarded operation.
  \<^item> \<open>Dataset\<close>: the canonical apply request of \<open>nodeapi/dataset.go\<close>, and the checks on an untrusted answer.
  \<^item> \<open>BucketSync\<close> models \<open>bucketsync/service.go\<close>, a push being three locked phases around the remote call;
    \<open>BucketInv\<close>, \<open>BucketSteps\<close>, \<open>BucketRun\<close>, \<open>BucketPush\<close> and \<open>BucketProps\<close> show that the phases of any number of
    services may interleave, that a failed push keeps the stash, that a retry sends the same request, and what an
    error after the last rename and a message that is not valid UTF-8 do to retries.
  \<^item> \<open>Cache\<close> and \<open>CacheOps\<close> model \<open>cache/store.go\<close>.  \<open>CacheSlots\<close> is its abstract specification, a slot for each
    binding; \<open>CacheInv\<close>, \<open>CacheRefine\<close>, \<open>CacheRun\<close> and \<open>CacheBehaviour\<close> prove the refinement under any faults,
    \<open>CacheRange\<close> the range reader at the limits of 64 bits, and \<open>CacheProps\<close> that verified reads return only
    authenticated bytes.  \<open>CacheBehaviour\<close> also shows that an error after the metadata rename leaves an entry
    without its payload.
  \<^item> \<open>History\<close>, \<open>HistoryInv\<close>, \<open>HistoryProps\<close>: the history of \<open>application/backup/scheduler.go\<close>.  \<open>PlanBackup\<close> and
    \<open>PlanRun\<close>: the publishing part of \<open>plan_backup.go\<close>, where an interrupted and resumed publication sends one
    and the same request.
  \<^item> \<open>Cas\<close>, \<open>CasReader\<close>, \<open>CasProps\<close>: block identity, the memory and spool stores as interpretations of the locale
    \<open>content_store\<close>, whose contract is stated for each block, so that a partial file of one block that could not be
    removed does not concern the others, and the wrapper that verifies what an untrusted store answers.
  \<^item> \<open>WritePlan\<close>, \<open>WritePlanRun\<close>, \<open>WritePlanProps\<close>: validation and persistence of a plan.  The remote is a function
    of the events so far, so it may answer anything; children are still acknowledged before their parents.
  \<^item> \<open>Staging\<close>, \<open>StagingProps\<close>: staging of a plan, the recursive visit that selects what the root needs, and that a
    staged plan can be persisted.
  \<^item> \<open>UnixPath\<close>: the path policies, the round trip of staged paths and the injectivity of flat labels.
  \<^item> \<open>StagedTree\<close>, \<open>StagedTreeProps\<close>: every operation on staged nodes, as a refinement of a file system from paths
    to entries, merging as overlay, and the completeness of the change marks.

  \<^bold>\<open>Bounds and termination.\<close>  No definition uses fuel.  The one loop whose end is not evident, the visit of staged
  candidates, is a \<open>partial_function\<close> that is proved to return on every graph; all other functions are total.
  Numbers of type \<open>uint64\<close> are natural numbers, with the overflow tests of the source written out where the source
  has them; times are natural numbers, and the clock is an argument.

  \<^bold>\<open>Side conditions.\<close>  The stores accept texts that are not valid UTF-8 and their files do not keep them.  The
  theorems on histories therefore assume valid texts by name: \<open>trust_history_ok\<close> (with a clock that is not zero),
  \<open>sync_step\<close> and \<open>push_text\<close> (with \<open>fresh_id\<close>: the random identifier of a new stash is not in use), \<open>history_call_ok\<close>
  (with both or neither stash identity in a pending backup); and \<open>history_ok\<close> of the journal assumes a clock that does
  not step back.  What happens without the condition is a theorem of its own for the journal, the trust store and the
  Bucket file.

  \<^bold>\<open>Third-party code.\<close>  The \<open>go-cid\<close> and block libraries, the protocol types of the core module, the layout of a
  root and every remote are arguments.  What is assumed of them are the predicates \<open>cid_lib_ok\<close>, \<open>block_lib_ok\<close>
  and \<open>protocol_ok\<close>, each met by a concrete instance.  The laws of \<open>block_lib_ok\<close> are stated for every codec number,
  where the library knows the registered ones.

  \<^bold>\<open>Not modelled.\<close>
  \<^item> Input and output and the operating system: HTTP transport, the daemon and its client, mounts and FUSE, file
    locks, configuration and the command line.  The failures of the file primitives are the fault points of
    \<open>Durable\<close>.
  \<^item> Cryptography and third-party engines: the key ring, device credentials, encrypted UnixFS, the planner, the
    verified facade, loading and materializing of staged trees, and the Merkle DAG importer.
  \<^item> Services composed of modelled parts, which themselves are left out here: filesystem staging and reading,
    writeback, the add workflow, and the planning, merging, restoring and installing of backups.
  \<^item> The JSON syntax of the files.  A file holds the document it encodes; that strings change when they are not
    valid UTF-8, and that repeated keys are refused, is modelled.
  \<^item> Manifest encoding and payload chunking of UnixFS, local and hybrid block storage, and call statistics.
  \<^item> Pointer identity: two staged trees that share a node after a merge are two values.
\<close>

end
